(* ===== verification/Prelude.thy ===== *)
theory Prelude
  imports Main "HOL-Library.AList" "HOL-Library.Word" "HOL-Library.List_Lexorder" "HOL-Library.Sublist"
begin

text \<open>
  What every component shares: Rust strings as lists of Unicode scalar values, the
  standard library's string operations the program uses, saturating and checked
  arithmetic on machine widths, hash maps as association lists with distinct keys, the
  first-minimum search of an iterator, and the locale of a transition system with an
  inductive invariant, which every stateful component interprets.
\<close>

named_theorems hmap_simps \<open>lookup and key-set equations of hash-map operations\<close>
named_theorems inv_intros \<open>one-step preservation lemmas of component invariants\<close>

section \<open>Strings\<close>

text \<open>
  A Rust string is a sequence of Unicode scalar values; \<open>&str\<close> and \<open>String\<close> are both
  modelled by the list of its code points. The byte-wise order of UTF-8 strings is the
  lexicographic order of the code points, which is what List-Lexorder puts on the type.
\<close>

type_synonym ustring = "nat list"
type_synonym byte = "8 word"

abbreviation lit :: "string \<Rightarrow> ustring" where
  "lit s \<equiv> map of_char s"

text \<open>\<open>char::is_whitespace\<close>: the Unicode \<open>White_Space\<close> property.\<close>

definition is_whitespace :: "nat \<Rightarrow> bool" where
  "is_whitespace c \<longleftrightarrow>
     (9 \<le> c \<and> c \<le> 13) \<or> c = 32 \<or> c = 133 \<or> c = 160 \<or> c = 5760 \<or>
     (8192 \<le> c \<and> c \<le> 8202) \<or> c = 8232 \<or> c = 8233 \<or> c = 8239 \<or> c = 8287 \<or> c = 12288"

definition trim :: "ustring \<Rightarrow> ustring" where
  "trim s = rev (dropWhile is_whitespace (rev (dropWhile is_whitespace s)))"

text \<open>\<open>str::split\<close> with a single character: always at least one piece.\<close>

fun split_on :: "nat \<Rightarrow> ustring \<Rightarrow> ustring list" where
  "split_on c [] = [[]]"
| "split_on c (x # xs) =
     (if x = c then [] # split_on c xs
      else (case split_on c xs of [] \<Rightarrow> [[x]] | p # ps \<Rightarrow> (x # p) # ps))"

text \<open>\<open>[String]::join\<close>.\<close>

fun join :: "ustring \<Rightarrow> ustring list \<Rightarrow> ustring" where
  "join sep [] = []"
| "join sep [p] = p"
| "join sep (p # q # ps) = p @ sep @ join sep (q # ps)"

definition strip_suffix :: "ustring \<Rightarrow> ustring \<Rightarrow> ustring option" where
  "strip_suffix suf s =
     (if suffix suf s then Some (take (length s - length suf) s) else None)"

definition contains_str :: "ustring \<Rightarrow> ustring \<Rightarrow> bool" where
  "contains_str s t \<longleftrightarrow> sublist t s"

text \<open>UTF-8 encoding: \<open>str::as_bytes\<close> and the byte length \<open>str::len\<close>.\<close>

definition utf8_char :: "nat \<Rightarrow> nat list" where
  "utf8_char c =
     (if c < 128 then [c]
      else if c < 2048 then [192 + c div 64, 128 + c mod 64]
      else if c < 65536 then [224 + c div 4096, 128 + c div 64 mod 64, 128 + c mod 64]
      else [240 + c div 262144, 128 + c div 4096 mod 64, 128 + c div 64 mod 64, 128 + c mod 64])"

definition as_bytes :: "ustring \<Rightarrow> byte list" where
  "as_bytes s = map word_of_nat (concat (map utf8_char s))"

definition str_len :: "ustring \<Rightarrow> nat" where
  "str_len s = length (concat (map utf8_char s))"

text \<open>Decimal formatting of an unsigned integer: the \<open>{}\<close> of a format string.\<close>

fun show_nat :: "nat \<Rightarrow> ustring" where
  "show_nat n = (if n < 10 then [48 + n] else show_nat (n div 10) @ [48 + n mod 10])"

declare show_nat.simps [simp del]

lemma length_as_bytes [simp]: "length (as_bytes s) = str_len s"
  by (simp add: as_bytes_def str_len_def)

lemma as_bytes_append [simp]: "as_bytes (s @ t) = as_bytes s @ as_bytes t"
  by (simp add: as_bytes_def)

lemma as_bytes_Nil [simp]: "as_bytes [] = []"
  by (simp add: as_bytes_def)

lemma trim_Nil [simp]: "trim [] = []"
  by (simp add: trim_def)

lemma dropWhile_eq_self: "xs = [] \<or> \<not> P (hd xs) \<Longrightarrow> dropWhile P xs = xs"
  by (cases xs) auto

lemma hd_dropWhile_rev:
  assumes "xs = [] \<or> \<not> P (hd xs)"
  shows "rev (dropWhile P (rev xs)) = [] \<or> \<not> P (hd (rev (dropWhile P (rev xs))))"
proof -
  obtain ys where ys: "rev xs = takeWhile P (rev xs) @ dropWhile P (rev xs)"
    by simp
  then have "xs = rev (dropWhile P (rev xs)) @ rev (takeWhile P (rev xs))"
    by (metis rev_append rev_rev_ident)
  with assms show ?thesis
    by (metis append_is_Nil_conv hd_append2)
qed

lemma trim_no_outer_space:
  "trim s = [] \<or> (\<not> is_whitespace (hd (trim s)) \<and> \<not> is_whitespace (last (trim s)))"
proof -
  let ?d = "dropWhile is_whitespace s"
  have d: "?d = [] \<or> \<not> is_whitespace (hd ?d)"
    using hd_dropWhile by blast
  have h: "trim s = [] \<or> \<not> is_whitespace (hd (trim s))"
    unfolding trim_def using hd_dropWhile_rev [where P = is_whitespace and xs = ?d] d by blast
  have "trim s = [] \<or> \<not> is_whitespace (last (trim s))"
    unfolding trim_def by (metis hd_dropWhile last_rev rev_is_Nil_conv)
  with h show ?thesis by blast
qed

lemma trim_id:
  "s = [] \<or> (\<not> is_whitespace (hd s) \<and> \<not> is_whitespace (last s)) \<Longrightarrow> trim s = s"
  by (cases "s = []") (auto simp: trim_def dropWhile_eq_self hd_rev)

lemma trim_trim [simp]: "trim (trim s) = trim s"
  using trim_no_outer_space by (rule trim_id)

lemma set_trim_subset: "set (trim s) \<subseteq> set s"
proof
  fix x assume "x \<in> set (trim s)"
  then have "x \<in> set (rev (dropWhile is_whitespace s))"
    unfolding trim_def by (metis set_dropWhileD set_rev)
  then show "x \<in> set s" by (metis set_dropWhileD set_rev)
qed

lemma split_on_not_Nil [simp]: "split_on c s \<noteq> []"
  by (induction s) (auto split: list.split)

lemma split_on_no_sep: "p \<in> set (split_on c s) \<Longrightarrow> c \<notin> set p"
proof (induction s arbitrary: p)
  case Nil
  then show ?case by simp
next
  case (Cons x xs)
  then show ?case
    by (cases "split_on c xs") (auto split: if_splits)
qed

lemma split_on_free: "c \<notin> set s \<Longrightarrow> split_on c s = [s]"
  by (induction s) auto

lemma split_on_append: "c \<notin> set p \<Longrightarrow> split_on c (p @ c # s) = p # split_on c s"
  by (induction p) (auto split: list.split)

lemma split_on_join:
  "\<lbrakk>ps \<noteq> []; \<And>p. p \<in> set ps \<Longrightarrow> c \<notin> set p\<rbrakk> \<Longrightarrow> split_on c (join [c] ps) = ps"
  by (induction "[c]" ps rule: join.induct) (auto simp: split_on_free split_on_append)

lemma join_eq_Nil_iff: "join [c] ps = [] \<longleftrightarrow> ps = [] \<or> ps = [[]]"
  by (induction "[c]" ps rule: join.induct) auto

lemma strip_suffix_Some_iff: "strip_suffix suf s = Some t \<longleftrightarrow> s = t @ suf"
  by (auto simp: strip_suffix_def suffix_def)

lemma strip_suffix_None_iff: "strip_suffix suf s = None \<longleftrightarrow> \<not> suffix suf s"
  by (simp add: strip_suffix_def)

section \<open>Machine arithmetic\<close>

text \<open>
  \<open>usize\<close> and \<open>u64\<close> quantities whose overflow the code rules out by saturation are
  natural numbers with the bound written out; \<open>saturating_sub\<close> is truncated
  subtraction. Wrapping counters are words.
\<close>

definition u32_max :: nat where "u32_max = 4294967295"
definition u64_max :: nat where "u64_max = 18446744073709551615"

definition sat_add :: "nat \<Rightarrow> nat \<Rightarrow> nat" where
  "sat_add a b = min (a + b) u64_max"

lemma sat_add_exact: "a + b \<le> u64_max \<Longrightarrow> sat_add a b = a + b"
  by (simp add: sat_add_def)

lemma sat_add_ge: "a \<le> u64_max \<Longrightarrow> a \<le> sat_add a b"
  by (simp add: sat_add_def)

definition i64_min :: int where "i64_min = - 9223372036854775808"
definition i64_max :: int where "i64_max = 9223372036854775807"

definition sat_i64 :: "int \<Rightarrow> int" where
  "sat_i64 x = max i64_min (min i64_max x)"

definition checked_i64 :: "int \<Rightarrow> int option" where
  "checked_i64 x = (if i64_min \<le> x \<and> x \<le> i64_max then Some x else None)"

section \<open>Hash maps\<close>

text \<open>
  A \<open>HashMap\<close> is an association list with distinct keys; the order of the list stands
  for the (unspecified) iteration order.
\<close>

type_synonym ('k, 'v) hmap = "('k \<times> 'v) list"

definition hkeys_ok :: "('k, 'v) hmap \<Rightarrow> bool" where
  "hkeys_ok m \<longleftrightarrow> distinct (map fst m)"

abbreviation hget :: "('k, 'v) hmap \<Rightarrow> 'k \<Rightarrow> 'v option" where
  "hget m k \<equiv> map_of m k"

abbreviation hput :: "'k \<Rightarrow> 'v \<Rightarrow> ('k, 'v) hmap \<Rightarrow> ('k, 'v) hmap" where
  "hput k v m \<equiv> AList.update k v m"

abbreviation hdel :: "'k \<Rightarrow> ('k, 'v) hmap \<Rightarrow> ('k, 'v) hmap" where
  "hdel k m \<equiv> AList.delete k m"

abbreviation hkeys :: "('k, 'v) hmap \<Rightarrow> 'k set" where
  "hkeys m \<equiv> fst ` set m"

lemma hget_put [simp, hmap_simps]: "hget (hput k v m) k' = (if k = k' then Some v else hget m k')"
  by (simp add: update_conv')

lemma hget_del [simp, hmap_simps]: "hget (hdel k m) k' = (if k = k' then None else hget m k')"
  by (simp add: delete_conv')

lemma hkeys_hget: "k \<in> hkeys m \<longleftrightarrow> hget m k \<noteq> None"
  by (simp add: map_of_eq_None_iff)

lemma hkeys_put [hmap_simps]: "hkeys (hput k v m) = insert k (hkeys m)"
  by (simp add: dom_update)

lemma hkeys_del [hmap_simps]: "hkeys (hdel k m) = hkeys m - {k}"
  by (metis delete_keys list.set_map set_removeAll)

lemma hkeys_ok_Nil [simp, intro]: "hkeys_ok []"
  by (simp add: hkeys_ok_def)

lemma hkeys_ok_put [simp, intro]: "hkeys_ok m \<Longrightarrow> hkeys_ok (hput k v m)"
  by (simp add: hkeys_ok_def distinct_update)

lemma hkeys_ok_del [simp, intro]: "hkeys_ok m \<Longrightarrow> hkeys_ok (hdel k m)"
  by (simp add: hkeys_ok_def distinct_delete)

lemma hget_mem: "hget m k = Some v \<Longrightarrow> (k, v) \<in> set m"
  by (rule map_of_SomeD)

lemma mem_hget: "hkeys_ok m \<Longrightarrow> (k, v) \<in> set m \<Longrightarrow> hget m k = Some v"
  by (simp add: hkeys_ok_def)

lemma set_hputD: "r \<in> set (hput k v m) \<Longrightarrow> r = (k, v) \<or> r \<in> set m"
  by (induction m) (auto split: if_splits)

lemma mem_hget_iff: "hkeys_ok m \<Longrightarrow> (k, v) \<in> set m \<longleftrightarrow> hget m k = Some v"
  using mem_hget hget_mem by metis

lemma length_hdel_present: "hget m k = Some v \<Longrightarrow> length (hdel k m) < length m"
  by (auto simp: AList.delete_eq intro!: length_filter_less dest!: map_of_SomeD)

lemma length_hput_new: "hget m k = None \<Longrightarrow> length (hput k v m) = Suc (length m)"
  by (induction m) (auto split: if_splits)

lemma length_hput_old: "hget m k = Some w \<Longrightarrow> length (hput k v m) = length m"
  by (induction m) (auto split: if_splits)

lemma length_hdel_le: "length (hdel k m) \<le> length m"
  by (simp add: AList.delete_eq)

lemma hkeys_ok_filter [simp, intro]: "hkeys_ok m \<Longrightarrow> hkeys_ok (filter P m)"
  by (simp add: hkeys_ok_def distinct_map_filter)

lemma hget_filter [hmap_simps]:
  "hkeys_ok m \<Longrightarrow>
   hget (filter P m) k = (case hget m k of None \<Rightarrow> None | Some v \<Rightarrow> if P (k, v) then Some v else None)"
proof (induction m)
  case (Cons r m)
  show ?case
  proof (cases "fst r = k")
    case True
    with Cons.prems have "hget m k = None" by (auto simp: hkeys_ok_def map_of_eq_None_iff)
    with True Cons show ?thesis by (cases r) (auto simp: hkeys_ok_def)
  next
    case False
    with Cons show ?thesis by (cases r) (auto simp: hkeys_ok_def)
  qed
qed simp

text \<open>The total of a quantity over the values of a map.\<close>

definition hsum :: "('v \<Rightarrow> nat) \<Rightarrow> ('k, 'v) hmap \<Rightarrow> nat" where
  "hsum f m = sum_list (map (f \<circ> snd) m)"

lemma hsum_Nil [simp]: "hsum f [] = 0"
  by (simp add: hsum_def)

lemma hsum_put_new: "hget m k = None \<Longrightarrow> hsum f (hput k v m) = hsum f m + f v"
  by (induction m) (auto simp: hsum_def split: if_splits)

lemma hsum_put_old: "hget m k = Some w \<Longrightarrow> hsum f (hput k v m) + f w = hsum f m + f v"
  by (induction m) (auto simp: hsum_def split: if_splits)

lemma hdel_absent: "hget m k = None \<Longrightarrow> hdel k m = m"
  by (induction m) (auto split: if_splits)

lemma delete_update_absent: "hget m k = None \<Longrightarrow> hdel k (hput k v m) = m"
  by (induction m) (auto simp: hdel_absent split: if_splits)

lemma hsum_del: "hkeys_ok m \<Longrightarrow> hget m k = Some v \<Longrightarrow> hsum f (hdel k m) + f v = hsum f m"
proof (induction m)
  case Nil
  then show ?case by simp
next
  case (Cons p m)
  show ?case
  proof (cases "fst p = k")
    case True
    with Cons.prems have "hget m k = None" and "snd p = v"
      by (auto simp: hkeys_ok_def map_of_eq_None_iff split: if_splits)
    with True show ?thesis
      by (cases p) (simp add: hsum_def hdel_absent)
  next
    case False
    with Cons show ?thesis
      by (cases p) (auto simp: hkeys_ok_def hsum_def)
  qed
qed

lemma hsum_member: "(k, v) \<in> set m \<Longrightarrow> f v \<le> hsum f m"
  by (induction m) (auto simp: hsum_def)

section \<open>First minimum of an iterator\<close>

text \<open>\<open>Iterator::min_by_key\<close>: the first of the elements with the least key.\<close>

fun min_by_key :: "('a \<Rightarrow> 'b::linorder) \<Rightarrow> 'a list \<Rightarrow> 'a option" where
  "min_by_key f [] = None"
| "min_by_key f (x # xs) =
     (case min_by_key f xs of None \<Rightarrow> Some x | Some y \<Rightarrow> if f y < f x then Some y else Some x)"

lemma min_by_key_None [simp]: "min_by_key f xs = None \<longleftrightarrow> xs = []"
  by (cases xs) (auto split: option.splits)

lemma min_by_key_mem: "min_by_key f xs = Some x \<Longrightarrow> x \<in> set xs"
  by (induction xs arbitrary: x) (auto split: option.splits if_splits)

lemma min_by_key_le: "min_by_key f xs = Some x \<Longrightarrow> y \<in> set xs \<Longrightarrow> f x \<le> f y"
proof (induction xs arbitrary: x)
  case Nil
  then show ?case by simp
next
  case (Cons z zs)
  then show ?case
    by (fastforce split: option.splits if_splits)
qed

lemma min_by_key_unique:
  assumes "x \<in> set xs" and "\<And>y. y \<in> set xs \<Longrightarrow> f x \<le> f y"
    and "\<And>y. y \<in> set xs \<Longrightarrow> f y = f x \<Longrightarrow> y = x"
  shows "min_by_key f xs = Some x"
proof -
  from assms(1) obtain m where m: "min_by_key f xs = Some m"
    by (cases "min_by_key f xs") auto
  with assms min_by_key_mem min_by_key_le have "m = x" by (metis antisym)
  with m show ?thesis by simp
qed

section \<open>Lists with distinct keys\<close>

lemma distinct_sort_key: "distinct (map f xs) \<Longrightarrow> distinct (map f (sort_key g xs))"
  by (metis distinct_map distinct_sort set_sort)

lemma filter_key_singleton:
  "distinct (map k xs) \<Longrightarrow> x \<in> set xs \<Longrightarrow> filter (\<lambda>y. k y = k x) xs = [x]"
proof (induction xs)
  case (Cons z zs)
  show ?case
  proof (cases "z = x")
    case True
    with Cons.prems(1) have "filter (\<lambda>y. k y = k x) zs = []"
      by (auto simp: filter_empty_conv) (metis imageI)
    with True show ?thesis by simp
  next
    case False
    with Cons.prems have "x \<in> set zs" "k z \<noteq> k x" by auto
    with Cons show ?thesis by simp
  qed
qed simp

section \<open>Transition systems with an inductive invariant\<close>

text \<open>
  The contract every stateful component shares: an initial state, one step function per
  event, and an invariant that the initial state has and every step keeps. What follows
  (every run and every reachable state satisfies the invariant) is proved once.
\<close>

locale invariant_system =
  fixes init :: 's
    and step :: "'e \<Rightarrow> 's \<Rightarrow> 's"
    and inv :: "'s \<Rightarrow> bool"
  assumes inv_init: "inv init"
    and inv_step: "inv s \<Longrightarrow> inv (step e s)"
begin

lemma inv_fold: "inv s \<Longrightarrow> inv (fold step es s)"
  by (induction es arbitrary: s) (auto intro: inv_step)

lemma inv_run: "inv (fold step es init)"
  by (rule inv_fold [OF inv_init])

lemma inv_prefix: "inv (fold step (take n es) init)"
  by (rule inv_run)

end

text \<open>
  A system that implements an abstract one: an abstraction function under which, in states
  with the invariant, every step is a step of the abstract system.
\<close>

locale refined_system = invariant_system init step inv
  for init :: 's and step :: "'e \<Rightarrow> 's \<Rightarrow> 's" and inv :: "'s \<Rightarrow> bool" +
  fixes abs_state :: "'s \<Rightarrow> 'a"
    and abs_step :: "'e \<Rightarrow> 'a \<Rightarrow> 'a"
  assumes simulation: "inv s \<Longrightarrow> abs_state (step e s) = abs_step e (abs_state s)"
begin

lemma simulation_fold: "inv s \<Longrightarrow> abs_state (fold step es s) = fold abs_step es (abs_state s)"
  by (induction es arbitrary: s) (simp_all add: simulation inv_step)

lemma simulation_run: "abs_state (fold step es init) = fold abs_step es (abs_state init)"
  by (rule simulation_fold [OF inv_init])

end

end
