(* ===== verification/Wire.thy ===== *)
theory Wire
  imports Prelude
begin

text \<open>
  The shared wire layer (\<^verbatim>\<open>weather-schema/src\<close>): the stable error codes
  (\<^verbatim>\<open>diagnostics.rs\<close>), the unified station UUID (\<^verbatim>\<open>uuid.rs\<close>), the
  envelopes and their HMACs (\<^verbatim>\<open>crypto.rs\<close>, messages of
  \<^verbatim>\<open>weather.proto\<close>), correlation identifiers (\<^verbatim>\<open>correlation.rs\<close>) and the
  checked timestamp (\<^verbatim>\<open>time.rs\<close>). SHA-256 and HMAC-SHA-256 are code of other
  crates: they are the parameters \<open>sha\<close> and \<open>mac\<close> of the definitions.
\<close>

section \<open>Error codes\<close>

datatype rpc_error_code =
    EngineCode | BadRequest | SchemaVersion | Auth | OwnerMismatch | Updater | Database
  | PayloadTooLarge | Busy | Timeout | Fuzzy | RestartRequired | Config | WeatherCode | Resource

definition all_error_codes :: "rpc_error_code list" where
  "all_error_codes =
     [EngineCode, BadRequest, SchemaVersion, Auth, OwnerMismatch, Updater, Database,
      PayloadTooLarge, Busy, Timeout, Fuzzy, RestartRequired, Config, WeatherCode, Resource]"

fun error_code_as_str :: "rpc_error_code \<Rightarrow> ustring" where
  "error_code_as_str EngineCode = lit ''ENGINE''"
| "error_code_as_str BadRequest = lit ''BAD_REQUEST''"
| "error_code_as_str SchemaVersion = lit ''SCHEMA_VERSION''"
| "error_code_as_str Auth = lit ''AUTH''"
| "error_code_as_str OwnerMismatch = lit ''OWNER_MISMATCH''"
| "error_code_as_str Updater = lit ''UPDATER''"
| "error_code_as_str Database = lit ''DB''"
| "error_code_as_str PayloadTooLarge = lit ''PAYLOAD_TOO_LARGE''"
| "error_code_as_str Busy = lit ''BUSY''"
| "error_code_as_str Timeout = lit ''TIMEOUT''"
| "error_code_as_str Fuzzy = lit ''FUZZY''"
| "error_code_as_str RestartRequired = lit ''RESTART_REQUIRED''"
| "error_code_as_str Config = lit ''CONFIG''"
| "error_code_as_str WeatherCode = lit ''WEATHER''"
| "error_code_as_str Resource = lit ''RESOURCE''"

definition error_code_from_wire :: "ustring \<Rightarrow> rpc_error_code option" where
  "error_code_from_wire v =
     (if v = lit ''ENGINE'' then Some EngineCode
      else if v = lit ''BAD_REQUEST'' then Some BadRequest
      else if v = lit ''SCHEMA_VERSION'' then Some SchemaVersion
      else if v = lit ''AUTH'' then Some Auth
      else if v = lit ''OWNER_MISMATCH'' then Some OwnerMismatch
      else if v = lit ''UPDATER'' then Some Updater
      else if v = lit ''DB'' then Some Database
      else if v = lit ''PAYLOAD_TOO_LARGE'' then Some PayloadTooLarge
      else if v = lit ''BUSY'' then Some Busy
      else if v = lit ''TIMEOUT'' then Some Timeout
      else if v = lit ''FUZZY'' then Some Fuzzy
      else if v = lit ''RESTART_REQUIRED'' then Some RestartRequired
      else if v = lit ''CONFIG'' then Some Config
      else if v = lit ''WEATHER'' then Some WeatherCode
      else if v = lit ''RESOURCE'' then Some Resource
      else None)"

lemma error_code_round_trip: "error_code_from_wire (error_code_as_str c) = Some c"
  by (cases c) (simp_all add: error_code_from_wire_def)

lemma error_code_from_wire_sound:
  "error_code_from_wire v = Some c \<Longrightarrow> v = error_code_as_str c"
  unfolding error_code_from_wire_def by (auto split: if_splits)

text \<open>The wire strings are a bijection between the codes and the accepted strings.\<close>

lemma error_code_wire_bijection:
  "error_code_from_wire v = Some c \<longleftrightarrow> v = error_code_as_str c"
  using error_code_round_trip error_code_from_wire_sound by metis

section \<open>Hexadecimal\<close>

definition hex_digit :: "nat \<Rightarrow> nat" where
  "hex_digit n = (if n < 10 then 48 + n else 87 + n)"

definition hex_byte :: "byte \<Rightarrow> ustring" where
  "hex_byte b = [hex_digit (unat b div 16), hex_digit (unat b mod 16)]"

text \<open>\<open>{n:0kx}\<close> for a number of at most \<open>k\<close> digits.\<close>

fun hex_digits :: "nat \<Rightarrow> nat \<Rightarrow> ustring" where
  "hex_digits 0 n = []"
| "hex_digits (Suc k) n = hex_digits k (n div 16) @ [hex_digit (n mod 16)]"

lemma hex_digit_inj: "a < 16 \<Longrightarrow> b < 16 \<Longrightarrow> hex_digit a = hex_digit b \<longleftrightarrow> a = b"
  by (auto simp: hex_digit_def split: if_splits)

lemma hex_digit_not_dash [simp]: "hex_digit a \<noteq> 45"
  by (simp add: hex_digit_def)

lemma length_hex_digits [simp]: "length (hex_digits k n) = k"
  by (induction k arbitrary: n) auto

lemma hex_digits_inj:
  "\<lbrakk>hex_digits k m = hex_digits k n; m < 16 ^ k; n < 16 ^ k\<rbrakk> \<Longrightarrow> m = n"
proof (induction k arbitrary: m n)
  case 0
  then show ?case by simp
next
  case (Suc k)
  from Suc.prems(1) have d: "m mod 16 = n mod 16"
    by (simp add: hex_digit_inj)
  from Suc.prems have "hex_digits k (m div 16) = hex_digits k (n div 16)" by simp
  moreover have "m div 16 < 16 ^ k" "n div 16 < 16 ^ k"
    using Suc.prems(2,3) by (simp_all add: less_mult_imp_div_less mult.commute)
  ultimately have "m div 16 = n div 16" by (rule Suc.IH)
  with d show ?case by (metis div_mult_mod_eq)
qed

lemma hex_byte_inj: "hex_byte a = hex_byte b \<longleftrightarrow> a = b"
proof
  assume h: "hex_byte a = hex_byte b"
  have b: "unat x div 16 < 16" for x :: byte
  proof -
    have "unat x < 2 ^ LENGTH(8)" by (rule unsigned_less)
    then show ?thesis by (simp add: less_mult_imp_div_less)
  qed
  from h have "unat a div 16 = unat b div 16" "unat a mod 16 = unat b mod 16"
    by (simp_all add: hex_byte_def hex_digit_inj b)
  then have "unat a = unat b" by (metis div_mult_mod_eq)
  then show "a = b" by (simp add: word_unat_eq_iff)
qed simp

section \<open>The unified station UUID\<close>

definition unified_uuid_seed :: ustring where
  "unified_uuid_seed = lit ''weather.app/unified-station/v1''"

fun format_uuid_from :: "nat \<Rightarrow> byte list \<Rightarrow> ustring" where
  "format_uuid_from i [] = []"
| "format_uuid_from i (b # bs) =
     (if i = 4 \<or> i = 6 \<or> i = 8 \<or> i = 10 then [45] else [])
     @ hex_byte b @ format_uuid_from (Suc i) bs"

definition format_uuid :: "byte list \<Rightarrow> ustring" where
  "format_uuid bs = format_uuid_from 0 bs"

definition uuid_bytes :: "byte list \<Rightarrow> byte list" where
  "uuid_bytes digest =
     (let bytes = take 16 digest;
          bytes = bytes[6 := or (and (bytes ! 6) 0x0F) 0x50]
      in bytes[8 := or (and (bytes ! 8) 0x3F) 0x80])"

definition unified_station_uuid :: "(byte list \<Rightarrow> byte list) \<Rightarrow> ustring \<Rightarrow> ustring" where
  "unified_station_uuid sha name =
     format_uuid (uuid_bytes (sha (as_bytes unified_uuid_seed @ [0] @ as_bytes name)))"

lemma length_uuid_bytes [simp]: "length (uuid_bytes d) = min (length d) 16"
  by (simp add: uuid_bytes_def Let_def)

lemma format_uuid_from_inj:
  "\<lbrakk>format_uuid_from i xs = format_uuid_from i ys; length xs = length ys\<rbrakk> \<Longrightarrow> xs = ys"
proof (induction xs arbitrary: i ys)
  case Nil
  then show ?case by simp
next
  case (Cons x xs)
  then obtain y ys' where ys: "ys = y # ys'" by (cases ys) auto
  from Cons.prems ys have "hex_byte x = hex_byte y"
    and "format_uuid_from (Suc i) xs = format_uuid_from (Suc i) ys'"
    by (auto simp: hex_byte_def split: if_splits)
  with Cons.IH [of "Suc i" ys'] Cons.prems(2) ys show ?case
    by (simp add: hex_byte_inj)
qed

lemma format_uuid_inj: "length xs = length ys \<Longrightarrow> format_uuid xs = format_uuid ys \<longleftrightarrow> xs = ys"
  unfolding format_uuid_def using format_uuid_from_inj by blast

lemma list_16_cases:
  assumes "length xs = 16"
  obtains a0 a1 a2 a3 a4 a5 a6 a7 a8 a9 a10 a11 a12 a13 a14 a15 where
    "xs = [a0, a1, a2, a3, a4, a5, a6, a7, a8, a9, a10, a11, a12, a13, a14, a15]"
  using assms that by (auto simp: length_Suc_conv numeral_eq_Suc)

lemma unat_div_16: "unat (b :: byte) div 16 = unat (drop_bit 4 b)"
  by (simp add: drop_bit_eq_div unat_div_distrib)

lemma version_nibble: "unat (or (and (b :: byte) 0x0F) 0x50) div 16 = 5"
  unfolding unat_div_16 by simp

lemma variant_nibble: "unat (or (and (b :: byte) 0x3F) 0x80) div 16 \<in> {8, 9, 10, 11}"
proof -
  let ?t = "take_bit 2 (drop_bit 4 b)"
  have d: "drop_bit 4 (or (and b 0x3F) 0x80) = or ?t 8"
    by (simp add: take_bit_eq_mask mask_eq_exp_minus_1)
  have "unat ?t < 4"
    using take_bit_nat_less_exp [of 2 "unat (drop_bit 4 b)"] by (simp add: unsigned_take_bit_eq)
  then have "unat ?t \<in> {0, 1, 2, 3}" by auto
  then have "?t \<in> {0, 1, 2, 3}"
    by (auto simp: word_unat_eq_iff unat_numeral)
  then show ?thesis unfolding unat_div_16 d by auto
qed

lemma format_uuid_shape:
  assumes "length bs = 16"
  shows "length (format_uuid bs) = 36"
    and "format_uuid bs ! 8 = 45" and "format_uuid bs ! 13 = 45"
    and "format_uuid bs ! 18 = 45" and "format_uuid bs ! 23 = 45"
    and "format_uuid bs ! 14 = hex_digit (unat (bs ! 6) div 16)"
    and "format_uuid bs ! 19 = hex_digit (unat (bs ! 8) div 16)"
  using assms by (elim list_16_cases; simp add: format_uuid_def hex_byte_def)+


text \<open>
  Also: The unified station UUID is a well-formed version-5 UUID: 36 characters, dashes at
  positions 8, 13, 18 and 23, version digit 5, and variant digit 8, 9, a or b, for every
  station name and every 32-byte digest function.
\<close>

theorem unified_station_uuid_well_formed:
  assumes "\<And>x. length (sha x) = 32"
  shows "length (unified_station_uuid sha name) = 36
    \<and> map (nth (unified_station_uuid sha name)) [8, 13, 18, 23] = lit ''----''
    \<and> unified_station_uuid sha name ! 14 = of_char CHR ''5''
    \<and> unified_station_uuid sha name ! 19 \<in> set (lit ''89ab'')"
proof (intro conjI)
  let ?bs = "uuid_bytes (sha (as_bytes unified_uuid_seed @ [0] @ as_bytes name))"
  have l: "length ?bs = 16" using assms by simp
  note shape = format_uuid_shape [OF l]
  show "length (unified_station_uuid sha name) = 36"
    using shape(1) by (simp add: unified_station_uuid_def)
  show "map (nth (unified_station_uuid sha name)) [8, 13, 18, 23] = lit ''----''"
    using shape(2-5) by (simp add: unified_station_uuid_def)
  have "unat (?bs ! 6) div 16 = 5"
    using assms version_nibble by (simp add: uuid_bytes_def Let_def)
  with shape(6) show "unified_station_uuid sha name ! 14 = of_char CHR ''5''"
    by (simp add: unified_station_uuid_def hex_digit_def)
  have "unat (?bs ! 8) div 16 \<in> {8, 9, 10, 11}"
    using assms variant_nibble by (simp add: uuid_bytes_def Let_def)
  with shape(7) show "unified_station_uuid sha name ! 19 \<in> set (lit ''89ab'')"
    by (auto simp: unified_station_uuid_def hex_digit_def)
qed

theorem unified_station_uuid_well_formed_witness:
  "(\<forall>x. length ((\<lambda>_. replicate 32 7) x :: byte list) = 32)
   \<and> length (unified_station_uuid (\<lambda>_. replicate 32 7) (lit ''x'')) = 36"
  using unified_station_uuid_well_formed [of "\<lambda>_. replicate 32 7" "lit ''x''"] by simp

section \<open>Envelopes and HMACs\<close>

definition schema_version :: ustring where
  "schema_version = lit ''weather.schema.v1''"

record rpc_request =
  rq_schema_version :: ustring
  rq_request_id :: ustring
  rq_kind :: "32 word"
  rq_timestamp :: "64 word"
  rq_hmac :: "byte list"
  rq_payload :: "byte list"

record engine_error =
  ee_code :: ustring
  ee_message :: ustring

record rpc_response =
  rs_schema_version :: ustring
  rs_request_id :: ustring
  rs_status :: "32 word"
  rs_timestamp :: "64 word"
  rs_hmac :: "byte list"
  rs_payload :: "byte list"
  rs_error :: "engine_error option"

record event_envelope =
  ev_schema_version :: ustring
  ev_event_id :: ustring
  ev_kind :: "32 word"
  ev_timestamp :: "64 word"
  ev_hmac :: "byte list"
  ev_payload :: "byte list"

text \<open>\<open>to_le_bytes\<close> of an \<open>n\<close>-byte integer.\<close>

definition le_bytes :: "nat \<Rightarrow> 'a::len word \<Rightarrow> byte list" where
  "le_bytes n w = map (\<lambda>i. ucast (drop_bit (8 * i) w)) [0..<n]"

definition hmac_key_from_str :: "ustring \<Rightarrow> ustring + byte list" where
  "hmac_key_from_str key =
     (let bytes = as_bytes key
      in if length bytes > 32 then Inl (lit ''ipc.hmac_key must be at most 32 bytes'')
         else Inr (bytes @ replicate (32 - length bytes) 0))"

type_synonym mac = "byte list \<Rightarrow> byte list \<Rightarrow> byte list"

definition rpc_request_hmac :: "mac \<Rightarrow> rpc_request \<Rightarrow> byte list \<Rightarrow> byte list" where
  "rpc_request_hmac mac env key =
     mac key (as_bytes (rq_schema_version env) @ as_bytes (rq_request_id env)
              @ le_bytes 4 (rq_kind env) @ le_bytes 8 (rq_timestamp env) @ rq_payload env)"

definition verify_rpc_request_hmac :: "mac \<Rightarrow> rpc_request \<Rightarrow> byte list \<Rightarrow> bool" where
  "verify_rpc_request_hmac mac env key \<longleftrightarrow> rpc_request_hmac mac env key = rq_hmac env"

definition rpc_response_hmac :: "mac \<Rightarrow> rpc_response \<Rightarrow> byte list \<Rightarrow> byte list" where
  "rpc_response_hmac mac env key =
     mac key (as_bytes (rs_schema_version env) @ as_bytes (rs_request_id env)
              @ le_bytes 4 (rs_status env) @ le_bytes 8 (rs_timestamp env) @ rs_payload env
              @ (case rs_error env of None \<Rightarrow> []
                 | Some e \<Rightarrow> as_bytes (ee_code e) @ as_bytes (ee_message e)))"

definition event_hmac :: "mac \<Rightarrow> event_envelope \<Rightarrow> byte list \<Rightarrow> byte list" where
  "event_hmac mac env key =
     mac key (as_bytes (ev_schema_version env) @ as_bytes (ev_event_id env)
              @ le_bytes 4 (ev_kind env) @ le_bytes 8 (ev_timestamp env) @ ev_payload env)"

definition verify_event_hmac :: "mac \<Rightarrow> event_envelope \<Rightarrow> byte list \<Rightarrow> bool" where
  "verify_event_hmac mac env key \<longleftrightarrow> event_hmac mac env key = ev_hmac env"

lemma length_le_bytes [simp]: "length (le_bytes n w) = n"
  by (simp add: le_bytes_def)

lemma hmac_key_length: "hmac_key_from_str s = Inr k \<Longrightarrow> length k = 32"
  by (auto simp: hmac_key_from_str_def Let_def split: if_splits)

lemma hmac_key_prefix: "hmac_key_from_str s = Inr k \<Longrightarrow> take (str_len s) k = as_bytes s"
  by (auto simp: hmac_key_from_str_def Let_def split: if_splits)

lemma signed_request_verifies:
  "verify_rpc_request_hmac mac (env\<lparr>rq_hmac := rpc_request_hmac mac env key\<rparr>) key"
  by (simp add: verify_rpc_request_hmac_def rpc_request_hmac_def)

lemma signed_event_verifies:
  "verify_event_hmac mac (env\<lparr>ev_hmac := event_hmac mac env key\<rparr>) key"
  by (simp add: verify_event_hmac_def event_hmac_def)

text \<open>
  With a collision-free MAC, a signature that verifies fixes the payload, the kind and the
  timestamp of a request whose schema version and identifier are known.
\<close>

lemma le_bytes_inj:
  assumes "le_bytes n v = le_bytes n (w :: 'a::len word)" and "LENGTH('a) \<le> 8 * n"
  shows "v = w"
proof (rule bit_word_eqI)
  fix i assume i: "i < LENGTH('a)"
  let ?k = "i div 8"
  have k: "?k < n" using i assms(2) by (simp add: less_mult_imp_div_less mult.commute)
  have "le_bytes n v ! ?k = le_bytes n w ! ?k" using assms(1) by simp
  with k have "(ucast (drop_bit (8 * ?k) v) :: byte) = ucast (drop_bit (8 * ?k) w)"
    by (simp add: le_bytes_def)
  then have "bit (ucast (drop_bit (8 * ?k) v) :: byte) (i mod 8)
           = bit (ucast (drop_bit (8 * ?k) w) :: byte) (i mod 8)" by simp
  then show "bit v i = bit w i"
    by (simp add: bit_unsigned_iff bit_drop_bit_eq)
qed

text \<open>
  Also: The request HMAC authenticates the payload: under a MAC without collisions, a request
  that carries the signature of another request with the same schema version and request
  identifier has the same kind, timestamp and payload; any change to one of them is refused.
\<close>

theorem request_hmac_authenticates:
  assumes "\<And>k x y. mac k x = mac k y \<Longrightarrow> x = y"
    and "verify_rpc_request_hmac mac env key"
    and "rq_hmac env = rpc_request_hmac mac orig key"
    and "rq_schema_version env = rq_schema_version orig"
    and "rq_request_id env = rq_request_id orig"
  shows "rq_kind env = rq_kind orig \<and> rq_timestamp env = rq_timestamp orig
         \<and> rq_payload env = rq_payload orig"
proof -
  have "rpc_request_hmac mac env key = rpc_request_hmac mac orig key"
    using assms(2,3) by (simp add: verify_rpc_request_hmac_def)
  then have "le_bytes 4 (rq_kind env) @ le_bytes 8 (rq_timestamp env) @ rq_payload env
           = le_bytes 4 (rq_kind orig) @ le_bytes 8 (rq_timestamp orig) @ rq_payload orig"
    using assms(1,4,5) unfolding rpc_request_hmac_def by fastforce
  then have "le_bytes 4 (rq_kind env) = le_bytes 4 (rq_kind orig)"
    and "le_bytes 8 (rq_timestamp env) = le_bytes 8 (rq_timestamp orig)"
    and "rq_payload env = rq_payload orig" by (simp_all add: append_eq_append_conv)
  then show ?thesis by (auto dest: le_bytes_inj)
qed

theorem request_hmac_authenticates_witness:
  "let req = \<lparr>rq_schema_version = lit ''v'', rq_request_id = lit ''r'', rq_kind = 1,
              rq_timestamp = 42, rq_hmac = [], rq_payload = [1, 2, 3]\<rparr>;
       signed = req\<lparr>rq_hmac := rpc_request_hmac (@) req []\<rparr>
   in verify_rpc_request_hmac (@) signed [] \<and> rq_payload signed = [1, 2, 3]"
proof -
  let ?req = "\<lparr>rq_schema_version = lit ''v'', rq_request_id = lit ''r'', rq_kind = 1,
              rq_timestamp = 42, rq_hmac = [], rq_payload = [1, 2, 3]\<rparr>"
  let ?signed = "?req\<lparr>rq_hmac := rpc_request_hmac (@) ?req []\<rparr>"
  have v: "verify_rpc_request_hmac (@) ?signed []" by (rule signed_request_verifies)
  from request_hmac_authenticates [OF _ v, of ?req] v show ?thesis by (simp add: Let_def)
qed

text \<open>
  C40: The response HMAC does not separate the payload from the error fields: the bytes of an
  error's code and message continue the payload without a length or a delimiter, so an error
  response and a response without error whose payload ends in those bytes have the same MAC,
  and the code's last characters can be moved into the message.
\<close>

theorem response_hmac_error_fields_ambiguous:
  "rpc_response_hmac mac (r\<lparr>rs_payload := p, rs_error := Some \<lparr>ee_code = c @ d, ee_message = m\<rparr>\<rparr>) key
     = rpc_response_hmac mac (r\<lparr>rs_payload := p @ as_bytes (c @ d @ m), rs_error := None\<rparr>) key
   \<and> rpc_response_hmac mac (r\<lparr>rs_payload := p, rs_error := Some \<lparr>ee_code = c @ d, ee_message = m\<rparr>\<rparr>) key
     = rpc_response_hmac mac (r\<lparr>rs_payload := p, rs_error := Some \<lparr>ee_code = c, ee_message = d @ m\<rparr>\<rparr>) key"
  by (simp add: rpc_response_hmac_def)

section \<open>Correlation identifiers\<close>

record correlation_generator =
  cg_nonce :: ustring
  cg_next_sequence :: "64 word"

text \<open>
  \<open>next\<close>: \<open>fetch_update\<close> with \<open>checked_add\<close> panics (here: \<open>None\<close>) when the sequence is
  exhausted, and returns the previous value otherwise.
\<close>

definition correlation_next ::
  "ustring \<Rightarrow> correlation_generator \<Rightarrow> (ustring \<times> correlation_generator) option" where
  "correlation_next scope g =
     (let sequence = cg_next_sequence g
      in if sequence = - 1 then None
         else Some (scope @ [45] @ cg_nonce g @ [45] @ hex_digits 16 (unat sequence),
                    g\<lparr>cg_next_sequence := sequence + 1\<rparr>))"

fun correlation_ids :: "ustring list \<Rightarrow> correlation_generator \<Rightarrow> ustring list option" where
  "correlation_ids [] g = Some []"
| "correlation_ids (scope # scopes) g =
     (case correlation_next scope g of None \<Rightarrow> None
      | Some (i, g') \<Rightarrow> map_option ((#) i) (correlation_ids scopes g'))"

lemma word_neq_minus_one_inc: "(w :: 64 word) \<noteq> - 1 \<Longrightarrow> unat (w + 1) = unat w + 1"
  by (metis Suc_eq_plus1 add.commute add_eq_0_iff2 unatSuc)

lemma correlation_ids_sequence:
  "correlation_ids scopes g = Some ids \<Longrightarrow> i \<in> set ids \<Longrightarrow>
     \<exists>k. unat (cg_next_sequence g) \<le> k \<and> k < 16 ^ 16 \<and> drop (length i - 16) i = hex_digits 16 k"
proof (induction scopes arbitrary: g ids)
  case Nil
  then show ?case by simp
next
  case (Cons sc scs)
  from Cons.prems(1) obtain rest where
    ne: "cg_next_sequence g \<noteq> - 1" and
    ids: "ids = (sc @ [45] @ cg_nonce g @ [45] @ hex_digits 16 (unat (cg_next_sequence g))) # rest" and
    rest: "correlation_ids scs (g\<lparr>cg_next_sequence := cg_next_sequence g + 1\<rparr>) = Some rest"
    by (auto simp: correlation_next_def Let_def split: if_splits)
  have lt: "unat (cg_next_sequence g) < 16 ^ 16"
    using unsigned_less [of "cg_next_sequence g"] by simp
  show ?case
  proof (cases "i \<in> set rest")
    case True
    from Cons.IH [OF rest True] obtain k where
      "unat (cg_next_sequence g + 1) \<le> k" "k < 16 ^ 16"
      "drop (length i - 16) i = hex_digits 16 k" by auto
    moreover from this word_neq_minus_one_inc [OF ne]
    have "unat (cg_next_sequence g) \<le> k" by simp
    ultimately show ?thesis by blast
  next
    case False
    with Cons.prems(2) ids have "drop (length i - 16) i = hex_digits 16 (unat (cg_next_sequence g))"
      by simp
    with lt show ?thesis by blast
  qed
qed

lemma distinct_correlation_ids:
  assumes "correlation_ids scopes g = Some ids"
  shows "distinct ids \<and> length ids = length scopes"
  using assms
proof (induction scopes arbitrary: g ids)
  case Nil
  then show ?case by simp
next
  case (Cons sc scs)
  let ?n = "cg_next_sequence g"
  let ?i = "sc @ [45] @ cg_nonce g @ [45] @ hex_digits 16 (unat ?n)"
  from Cons.prems obtain rest where ne: "?n \<noteq> - 1" and ids: "ids = ?i # rest"
    and rest: "correlation_ids scs (g\<lparr>cg_next_sequence := ?n + 1\<rparr>) = Some rest"
    by (auto simp: correlation_next_def Let_def split: if_splits)
  have lt: "unat ?n < 16 ^ 16" using unsigned_less [of ?n] by simp
  have "?i \<notin> set rest"
  proof
    assume "?i \<in> set rest"
    from correlation_ids_sequence [OF rest this] obtain k where
      k: "unat (?n + 1) \<le> k" "k < 16 ^ 16" "hex_digits 16 (unat ?n) = hex_digits 16 k"
      by auto
    from hex_digits_inj [OF k(3) lt k(2)] k(1) word_neq_minus_one_inc [OF ne]
    show False by simp
  qed
  with Cons.IH [OF rest] ids show ?case by simp
qed

text \<open>
  Also: Correlation identifiers never repeat: whatever scopes are asked for and in whatever
  order, the identifiers one generator hands out are pairwise distinct, and instead of
  wrapping the sequence it fails.
\<close>

theorem correlation_ids_distinct:
  assumes "correlation_ids scopes g = Some ids"
  shows "distinct ids \<and> length ids = length scopes"
  using assms by (rule distinct_correlation_ids)

theorem correlation_ids_distinct_witness:
  "\<exists>ids. correlation_ids [lit ''request'', lit ''event''] \<lparr>cg_nonce = lit ''n'', cg_next_sequence = 0\<rparr>
           = Some ids \<and> distinct ids \<and> length ids = 2"
proof -
  obtain ids where i: "correlation_ids [lit ''request'', lit ''event'']
      \<lparr>cg_nonce = lit ''n'', cg_next_sequence = 0\<rparr> = Some ids"
    by (simp add: correlation_next_def)
  from correlation_ids_distinct [OF i] i show ?thesis by simp
qed

section \<open>Timestamps\<close>

text \<open>\<open>duration_millis\<close>: the elapsed milliseconds as a signed 64-bit value, or an error.\<close>

definition duration_millis :: "nat \<Rightarrow> ustring + int" where
  "duration_millis ms =
     (if int ms \<le> i64_max then Inr (int ms)
      else Inl (lit ''Unix timestamp does not fit in i64 milliseconds''))"

lemma duration_millis_bounds: "duration_millis ms = Inr t \<Longrightarrow> 0 \<le> t \<and> t \<le> i64_max"
  by (auto simp: duration_millis_def split: if_splits)

end
