(* ===== verification/Station_Names.thy ===== *)
theory Station_Names
  imports Wire
begin

text \<open>
  Station paths and the records that carry them: \<^verbatim>\<open>weather-schema/src/station.rs\<close>
  (normalisation, the parent station, administrative suffixes, canonical names), the catalog
  records of \<^verbatim>\<open>weather-core/db/src/actor.rs\<close> and
  \<^verbatim>\<open>weather-core/engine/src/station.rs\<close>.
\<close>

section \<open>Station paths\<close>

abbreviation dash :: nat where "dash \<equiv> 45"

definition normalize_station_name :: "ustring \<Rightarrow> ustring" where
  "normalize_station_name name =
     join [dash] (filter (\<lambda>p. p \<noteq> []) (map trim (split_on dash name)))"

definition parent_station_name :: "ustring \<Rightarrow> ustring option" where
  "parent_station_name name =
     (let normalized = normalize_station_name name;
          parts = split_on dash normalized
      in if length parts = 3 then Some (join [dash] (take 2 parts)) else None)"

text \<open>The administrative suffixes: city, province, autonomous region, special region.\<close>

definition suffix_city :: ustring where "suffix_city = [24066]"
definition suffix_province :: ustring where "suffix_province = [30465]"
definition suffix_autonomous :: ustring where "suffix_autonomous = [33258, 27835, 21306]"
definition suffix_special :: ustring where "suffix_special = [29305, 21035, 34892, 25919, 21306]"

definition short_region_name :: "ustring \<Rightarrow> ustring" where
  "short_region_name value =
     (case strip_suffix suffix_city value of
        Some s \<Rightarrow> s
      | None \<Rightarrow> (case strip_suffix suffix_province value of
          Some s \<Rightarrow> s
        | None \<Rightarrow> (case strip_suffix suffix_autonomous value of
            Some s \<Rightarrow> s
          | None \<Rightarrow> (case strip_suffix suffix_special value of
              Some s \<Rightarrow> s
            | None \<Rightarrow> value))))"

definition canonical_station_name :: "ustring \<Rightarrow> ustring \<Rightarrow> ustring" where
  "canonical_station_name province city =
     (let region = short_region_name province;
          city_level = province;
          core = short_region_name city_level
      in if city = core \<or> city = province then region @ [dash] @ city_level
         else region @ [dash] @ city_level @ [dash] @ city)"

subsection \<open>Normal forms\<close>

definition name_part :: "ustring \<Rightarrow> bool" where
  "name_part p \<longleftrightarrow> p \<noteq> [] \<and> dash \<notin> set p \<and> trim p = p"

definition name_parts :: "ustring \<Rightarrow> ustring list" where
  "name_parts name = filter (\<lambda>p. p \<noteq> []) (map trim (split_on dash name))"

lemma normalize_join: "normalize_station_name name = join [dash] (name_parts name)"
  by (simp add: normalize_station_name_def name_parts_def)

lemma name_parts_wf: "p \<in> set (name_parts name) \<Longrightarrow> name_part p"
  using set_trim_subset split_on_no_sep
  by (fastforce simp: name_parts_def name_part_def)

lemma split_normalized:
  "split_on dash (normalize_station_name name)
     = (if name_parts name = [] then [[]] else name_parts name)"
  by (auto simp: normalize_join name_part_def dest: name_parts_wf intro!: split_on_join)

lemma name_parts_join:
  assumes "\<And>p. p \<in> set ps \<Longrightarrow> name_part p"
  shows "name_parts (join [dash] ps) = ps"
proof (cases "ps = []")
  case True
  then show ?thesis by (simp add: name_parts_def)
next
  case False
  with assms have "split_on dash (join [dash] ps) = ps"
    by (intro split_on_join) (auto simp: name_part_def)
  moreover have "filter (\<lambda>p. p \<noteq> []) (map trim ps) = ps"
    using assms by (induction ps) (auto simp: name_part_def)
  ultimately show ?thesis by (simp add: name_parts_def)
qed

lemma name_parts_normalize [simp]: "name_parts (normalize_station_name name) = name_parts name"
  unfolding normalize_join by (rule name_parts_join) (rule name_parts_wf)

lemma normalize_idem [simp]:
  "normalize_station_name (normalize_station_name name) = normalize_station_name name"
  by (metis name_parts_normalize normalize_join)

lemma parent_station_parts:
  "parent_station_name name =
     (if length (name_parts name) = 3 then Some (join [dash] (take 2 (name_parts name))) else None)"
  by (auto simp: parent_station_name_def Let_def split_normalized)

lemma parent_parts:
  assumes "parent_station_name name = Some p"
  shows "name_parts p = take 2 (name_parts name)"
proof -
  from assms have "p = join [dash] (take 2 (name_parts name))"
    by (simp add: parent_station_parts split: if_splits)
  then show ?thesis by (auto intro: name_parts_join name_parts_wf dest: in_set_takeD)
qed

text \<open>
  Also: Normalising a station path is idempotent and removes exactly the blank components:
  a normalised path splits into non-empty, trimmed components without dashes, the trimmed
  non-blank components of the original in their order.
\<close>

theorem normalize_station_name_normal_form:
  "normalize_station_name (normalize_station_name name) = normalize_station_name name
   \<and> name_parts (normalize_station_name name) = name_parts name
   \<and> list_all name_part (name_parts name)"
  by (auto simp: list_all_iff dest: name_parts_wf)

text \<open>
  Also: Only a three-level path has a parent; the parent is a normalised two-level path, so
  the inheritance stops there: a parent station has no parent.
\<close>

theorem parent_station_two_levels:
  "(parent_station_name name \<noteq> None) = (length (name_parts name) = 3)
   \<and> Option.bind (parent_station_name name) parent_station_name = None
   \<and> map_option (length \<circ> name_parts) (parent_station_name name)
       = (if length (name_parts name) = 3 then Some 2 else None)"
proof (cases "parent_station_name name")
  case None
  then show ?thesis by (simp add: parent_station_parts split: if_splits)
next
  case (Some p)
  then have "length (name_parts name) = 3" by (simp add: parent_station_parts split: if_splits)
  with parent_parts [OF Some] have "length (name_parts p) = 2" by simp
  with Some \<open>length (name_parts name) = 3\<close> show ?thesis by (simp add: parent_station_parts [of p])
qed

subsection \<open>Canonical names\<close>

lemma canonical_two_or_three:
  "canonical_station_name province city =
     join [dash] (if city = short_region_name province \<or> city = province
                  then [short_region_name province, province]
                  else [short_region_name province, province, city])"
  by (simp add: canonical_station_name_def Let_def)

text \<open>
  Also: For well-formed components the canonical station name is a normalised path whose
  parent, when the city is its own level, is the canonical name of the province itself:
  the two-level station that three-level stations inherit from.
\<close>

theorem canonical_station_name_parent:
  assumes "name_part province" and "name_part city" and "name_part (short_region_name province)"
  shows "normalize_station_name (canonical_station_name province city)
           = canonical_station_name province city
    \<and> parent_station_name (canonical_station_name province city)
        = (if city = short_region_name province \<or> city = province then None
           else Some (canonical_station_name province province))"
proof -
  let ?ps = "if city = short_region_name province \<or> city = province
             then [short_region_name province, province]
             else [short_region_name province, province, city]"
  have parts: "name_parts (canonical_station_name province city) = ?ps"
    unfolding canonical_two_or_three by (rule name_parts_join) (use assms in \<open>auto split: if_splits\<close>)
  then have "normalize_station_name (canonical_station_name province city)
      = canonical_station_name province city"
    by (simp add: normalize_join canonical_two_or_three)
  moreover have "parent_station_name (canonical_station_name province city) =
      (if length ?ps = 3 then Some (join [dash] (take 2 ?ps)) else None)"
    unfolding parent_station_parts parts ..
  then have "parent_station_name (canonical_station_name province city) =
      (if city = short_region_name province \<or> city = province then None
       else Some (canonical_station_name province province))"
    by (simp add: canonical_station_name_def Let_def)
  ultimately show ?thesis ..
qed

theorem canonical_station_name_parent_witness:
  "parent_station_name (canonical_station_name (lit ''Hubei'' @ suffix_province) (lit ''Wuhan''))
     = Some (canonical_station_name (lit ''Hubei'' @ suffix_province) (lit ''Hubei'' @ suffix_province))"
proof -
  have p: "name_part (lit ''Hubei'' @ suffix_province)"
    by (simp add: name_part_def suffix_province_def trim_def is_whitespace_def)
  have c: "name_part (lit ''Wuhan'')"
    by (simp add: name_part_def trim_def is_whitespace_def)
  have s: "short_region_name (lit ''Hubei'' @ suffix_province) = lit ''Hubei''"
    by (simp add: short_region_name_def strip_suffix_def suffix_def suffix_city_def
        suffix_province_def)
  have sp: "name_part (short_region_name (lit ''Hubei'' @ suffix_province))"
    unfolding s by (simp add: name_part_def trim_def is_whitespace_def)
  from canonical_station_name_parent [OF p c sp] s show ?thesis
    by (simp add: suffix_province_def)
qed

section \<open>Catalog and station records\<close>

record provider_province =
  pp_provider_code :: ustring
  pp_name :: ustring
  pp_url :: ustring

record provider_city =
  pc_provider_code :: ustring
  pc_provider_province_code :: ustring
  pc_province :: ustring
  pc_city :: ustring
  pc_url :: ustring

record provider_station =
  ps_provider_name :: ustring
  ps_display_name :: ustring
  ps_provider_station_id :: ustring
  ps_provider_province_code :: ustring
  ps_province :: ustring
  ps_city :: ustring
  ps_url :: ustring
  ps_name :: ustring
  ps_unified_uuid :: ustring

record station_ref =
  sr_province :: ustring
  sr_city :: ustring
  sr_name :: ustring
  sr_unified_uuid :: ustring

definition province_public_ref :: "provider_province \<Rightarrow> ustring" where
  "province_public_ref p = pp_name p"

definition city_public_ref :: "provider_city \<Rightarrow> ustring \<times> ustring" where
  "city_public_ref c = (pc_province c, pc_city c)"

definition station_public_ref :: "provider_station \<Rightarrow> station_ref" where
  "station_public_ref s =
     \<lparr>sr_province = ps_province s, sr_city = ps_city s, sr_name = ps_name s,
      sr_unified_uuid = ps_unified_uuid s\<rparr>"

definition merge_station ::
  "(byte list \<Rightarrow> byte list) \<Rightarrow> station_ref option \<Rightarrow> provider_station \<Rightarrow> station_ref" where
  "merge_station sha upstream requested =
     (let station = (case upstream of None \<Rightarrow> station_public_ref requested | Some s \<Rightarrow> s);
          station = (if sr_province station = []
                     then station\<lparr>sr_province := ps_province requested\<rparr> else station);
          station = (if sr_city station = []
                     then station\<lparr>sr_city := ps_city requested\<rparr> else station);
          station = station\<lparr>sr_name := ps_name requested\<rparr>
      in station\<lparr>sr_unified_uuid :=
           (if ps_unified_uuid requested = [] then unified_station_uuid sha (ps_name requested)
            else ps_unified_uuid requested)\<rparr>)"

definition city_to_provider_station ::
  "(byte list \<Rightarrow> byte list) \<Rightarrow> ustring \<Rightarrow> ustring \<Rightarrow> provider_city \<Rightarrow> provider_station" where
  "city_to_provider_station sha provider_name province_code city =
     (let name = canonical_station_name (pc_province city) (pc_city city)
      in \<lparr>ps_provider_name = provider_name,
          ps_display_name = name,
          ps_provider_station_id = pc_provider_code city,
          ps_provider_province_code = province_code,
          ps_province = pc_province city,
          ps_city = pc_city city,
          ps_url = pc_url city,
          ps_name = name,
          ps_unified_uuid = unified_station_uuid sha name\<rparr>)"

definition station_names :: "provider_station \<Rightarrow> ustring list" where
  "station_names station = [canonical_station_name (ps_province station) (ps_city station)]"

text \<open>
  Also: The public identity of a merged station is the requested one, whatever the upstream
  metadata says: the name is the requested name and the UUID the requested UUID (or the
  unified UUID of the requested name), while province and city come from upstream when it
  gives them.
\<close>

theorem merge_station_identity:
  "sr_name (merge_station sha upstream requested) = ps_name requested
   \<and> sr_unified_uuid (merge_station sha upstream requested)
       = (if ps_unified_uuid requested = [] then unified_station_uuid sha (ps_name requested)
          else ps_unified_uuid requested)
   \<and> sr_province (merge_station sha upstream requested)
       = (case upstream of None \<Rightarrow> ps_province requested
          | Some u \<Rightarrow> if sr_province u = [] then ps_province requested else sr_province u)
   \<and> sr_city (merge_station sha upstream requested)
       = (case upstream of None \<Rightarrow> ps_city requested
          | Some u \<Rightarrow> if sr_city u = [] then ps_city requested else sr_city u)"
  by (cases upstream) (simp_all add: merge_station_def Let_def station_public_ref_def)

lemma city_station_canonical:
  "ps_unified_uuid (city_to_provider_station sha prov code c)
     = unified_station_uuid sha (ps_name (city_to_provider_station sha prov code c))
   \<and> station_names (city_to_provider_station sha prov code c)
     = [ps_name (city_to_provider_station sha prov code c)]"
  by (simp add: city_to_provider_station_def station_names_def Let_def)

end
