(* ===== verification/Paging.thy ===== *)
theory Paging
  imports Prelude
begin

text \<open>
  Pagination on both ends of the RPC: the server's bounds
  (\<^verbatim>\<open>weather-core/engine/src/limits.rs\<close>) and page cut
  (\<open>paginate\<close> of \<^verbatim>\<open>handlers/response.rs\<close>), and the client's cursor
  (\<^verbatim>\<open>weather-renderer/common/src/pagination.rs\<close>) with the loop that collects all
  configured stations (\<^verbatim>\<open>client.rs\<close>). The page fetch is a parameter that may read
  and change a state of its own.
\<close>

section \<open>The server's side\<close>

definition max_rpc_page_size :: nat where "max_rpc_page_size = 256"
definition max_rpc_page_offset :: nat where "max_rpc_page_offset = 100000"
definition max_batch_queries :: nat where "max_batch_queries = 64"
definition default_page_size :: nat where "default_page_size = 32"
definition default_fuzzy_page_size :: nat where "default_fuzzy_page_size = 10"

datatype page_error =
    PageOffsetExceeds nat | PageSizeExceeds nat | BatchExceeds nat
  | PageSizeOutside nat | CursorOffsetExceeds nat | TooManyRequests
  | DidNotAdvance nat nat | NextOffsetExceeds nat | FetchFailed ustring

definition normalize_pagination :: "nat \<Rightarrow> nat \<Rightarrow> nat \<Rightarrow> page_error + nat \<times> nat" where
  "normalize_pagination offset page_size default_size =
     (if offset > max_rpc_page_offset then Inl (PageOffsetExceeds offset)
      else let page_size = (if page_size = 0 then default_size else page_size)
           in if page_size > max_rpc_page_size then Inl (PageSizeExceeds page_size)
              else Inr (offset, page_size))"

definition validate_batch_size :: "nat \<Rightarrow> page_error + unit" where
  "validate_batch_size n = (if n > max_batch_queries then Inl (BatchExceeds n) else Inr ())"

text \<open>\<open>&all[start..end]\<close> cannot panic: \<open>start \<le> end \<le> total\<close> by construction.\<close>

definition paginate :: "'a list \<Rightarrow> nat \<Rightarrow> nat \<Rightarrow> 'a list \<times> bool \<times> nat" where
  "paginate xs offset page_size =
     (let total = length xs;
          start = min offset total;
          stop = min (sat_add start page_size) total
      in (take (stop - start) (drop start xs), stop < total, stop mod 2 ^ 32))"

record 'a page =
  pg_items :: "'a list"
  pg_has_more :: bool
  pg_next_offset :: nat

definition configured_stations_page :: "'a list \<Rightarrow> nat \<Rightarrow> nat \<Rightarrow> 'a page" where
  "configured_stations_page stations offset page_size =
     (case paginate stations offset page_size of
        (items, has_more, next_offset) \<Rightarrow>
          \<lparr>pg_items = items, pg_has_more = has_more, pg_next_offset = next_offset\<rparr>)"

text \<open>The list RPC: bounds first, then one page.\<close>

definition serve_configured_stations :: "'a list \<Rightarrow> nat \<Rightarrow> nat \<Rightarrow> page_error + 'a page" where
  "serve_configured_stations stations offset page_size =
     (case normalize_pagination offset page_size default_page_size of
        Inl e \<Rightarrow> Inl e
      | Inr (offset, page_size) \<Rightarrow> Inr (configured_stations_page stations offset page_size))"

lemma paginate_slice:
  assumes "length xs \<le> u32_max"
  shows "paginate xs offset page_size =
    (take page_size (drop offset xs), offset + page_size < length xs,
     min (offset + page_size) (length xs))"
proof (cases "offset + page_size \<le> u64_max")
  case True
  with assms show ?thesis
    by (auto simp: paginate_def Let_def sat_add_def u32_max_def u64_max_def min_def)
next
  case False
  with assms show ?thesis
    by (auto simp: paginate_def Let_def sat_add_def u32_max_def u64_max_def min_def)
qed

lemma normalize_pagination_Inr:
  "normalize_pagination off sz d = Inr (o', n) \<Longrightarrow> d \<le> max_rpc_page_size \<Longrightarrow>
     o' = off \<and> off \<le> max_rpc_page_offset \<and> n \<le> max_rpc_page_size
     \<and> n = (if sz = 0 then d else sz)"
  by (auto simp: normalize_pagination_def Let_def split: if_splits)

section \<open>The client's cursor\<close>

definition max_paginated_requests :: nat where
  "max_paginated_requests = max_rpc_page_offset div max_rpc_page_size + 2"

record page_cursor =
  cur_offset :: nat
  cur_request_count :: nat

definition page_cursor_default :: page_cursor where
  "page_cursor_default = \<lparr>cur_offset = 0, cur_request_count = 0\<rparr>"

definition cursor_request ::
  "nat \<Rightarrow> page_cursor \<Rightarrow> page_error + (nat \<times> nat) \<times> page_cursor" where
  "cursor_request page_size c =
     (if page_size = 0 \<or> page_size > max_rpc_page_size then Inl (PageSizeOutside page_size)
      else if cur_offset c > max_rpc_page_offset then Inl (CursorOffsetExceeds (cur_offset c))
      else if cur_request_count c \<ge> max_paginated_requests then Inl TooManyRequests
      else Inr ((cur_offset c, page_size), c\<lparr>cur_request_count := cur_request_count c + 1\<rparr>))"

definition cursor_advance ::
  "bool \<Rightarrow> nat \<Rightarrow> page_cursor \<Rightarrow> page_error + bool \<times> page_cursor" where
  "cursor_advance has_more next_offset c =
     (if \<not> has_more then Inr (False, c)
      else if next_offset \<le> cur_offset c then Inl (DidNotAdvance (cur_offset c) next_offset)
      else if next_offset > max_rpc_page_offset then Inl (NextOffsetExceeds next_offset)
      else Inr (True, c\<lparr>cur_offset := next_offset\<rparr>))"

definition page_size_for_target :: "nat \<Rightarrow> nat" where
  "page_size_for_target target = max 1 (min target max_rpc_page_size)"

text \<open>
  \<open>collect_configured_stations\<close>: request, fetch, append, advance, until the server has no
  more. The request counter bounds the loop.
\<close>

function collect_pages ::
  "('s \<Rightarrow> nat \<Rightarrow> nat \<Rightarrow> (page_error + 'a page) \<times> 's) \<Rightarrow> 's \<Rightarrow> page_cursor \<Rightarrow> 'a list
     \<Rightarrow> (page_error + 'a page) \<times> 's" where
  "collect_pages fetch s c acc =
     (case cursor_request max_rpc_page_size c of
        Inl e \<Rightarrow> (Inl e, s)
      | Inr ((offset, page_size), c1) \<Rightarrow>
          (case fetch s offset page_size of
             (Inl e, s1) \<Rightarrow> (Inl e, s1)
           | (Inr page, s1) \<Rightarrow>
               (case cursor_advance (pg_has_more page) (pg_next_offset page) c1 of
                  Inl e \<Rightarrow> (Inl e, s1)
                | Inr (again, c2) \<Rightarrow>
                    if again then collect_pages fetch s1 c2 (acc @ pg_items page)
                    else (Inr (page\<lparr>pg_items := acc @ pg_items page\<rparr>), s1))))"
  by pat_completeness auto
termination
  by (relation "measure (\<lambda>(fetch, s, c, acc). max_paginated_requests - cur_request_count c)")
     (auto simp: cursor_request_def cursor_advance_def split: if_splits)

declare collect_pages.simps [simp del]

definition collect_configured_stations ::
  "('s \<Rightarrow> nat \<Rightarrow> nat \<Rightarrow> (page_error + 'a page) \<times> 's) \<Rightarrow> 's \<Rightarrow> (page_error + 'a page) \<times> 's" where
  "collect_configured_stations fetch s = collect_pages fetch s page_cursor_default []"

lemma cursor_request_Inr_iff:
  "cursor_request n c = Inr (p, c') \<longleftrightarrow>
     0 < n \<and> n \<le> max_rpc_page_size \<and> cur_offset c \<le> max_rpc_page_offset
     \<and> cur_request_count c < max_paginated_requests \<and> p = (cur_offset c, n)
     \<and> c' = c\<lparr>cur_request_count := cur_request_count c + 1\<rparr>"
  by (auto simp: cursor_request_def)

lemma cursor_advance_True_iff:
  "cursor_advance hm n c = Inr (True, c') \<longleftrightarrow>
     hm \<and> cur_offset c < n \<and> n \<le> max_rpc_page_offset \<and> c' = c\<lparr>cur_offset := n\<rparr>"
  by (auto simp: cursor_advance_def)

text \<open>
  The fetches of a run, observed by a log of the requested windows threaded beside the
  server's own state.
\<close>

definition logged ::
  "('s \<Rightarrow> nat \<Rightarrow> nat \<Rightarrow> (page_error + 'a page) \<times> 's)
     \<Rightarrow> 's \<times> (nat \<times> nat) list \<Rightarrow> nat \<Rightarrow> nat \<Rightarrow> (page_error + 'a page) \<times> 's \<times> (nat \<times> nat) list" where
  "logged fetch st offset n =
     (let (r, s') = fetch (fst st) offset n in (r, s', snd st @ [(offset, n)]))"

definition log_ok :: "page_cursor \<Rightarrow> (nat \<times> nat) list \<Rightarrow> bool" where
  "log_ok c log \<longleftrightarrow> length log = cur_request_count c \<and> sorted_wrt (<) (map fst log)
     \<and> (\<forall>(off, n) \<in> set log. off < cur_offset c \<and> off \<le> max_rpc_page_offset \<and> n = max_rpc_page_size)"

lemma log_ok_request:
  assumes "log_ok c log" and "cur_offset c \<le> max_rpc_page_offset"
  shows "sorted_wrt (<) (map fst (log @ [(cur_offset c, max_rpc_page_size)]))
    \<and> (\<forall>(off, n) \<in> set (log @ [(cur_offset c, max_rpc_page_size)]).
          off \<le> max_rpc_page_offset \<and> n = max_rpc_page_size)"
  using assms by (auto simp: log_ok_def sorted_wrt_append)

lemma collect_pages_log:
  assumes "log_ok c log" and "cur_request_count c \<le> max_paginated_requests"
  shows "length (snd (snd (collect_pages (logged fetch) (s, log) c acc))) \<le> max_paginated_requests
    \<and> sorted_wrt (<) (map fst (snd (snd (collect_pages (logged fetch) (s, log) c acc))))
    \<and> (\<forall>(off, n) \<in> set (snd (snd (collect_pages (logged fetch) (s, log) c acc))).
          off \<le> max_rpc_page_offset \<and> n = max_rpc_page_size)"
  using assms
proof (induction "max_paginated_requests - cur_request_count c" arbitrary: c s log acc
    rule: less_induct)
  case less
  show ?case
  proof (cases "cursor_request max_rpc_page_size c")
    case (Inl e)
    with less.prems show ?thesis
      by (subst (1 2 3) collect_pages.simps) (auto simp: log_ok_def)
  next
    case (Inr q)
    then obtain c1 where q: "cursor_request max_rpc_page_size c =
        Inr ((cur_offset c, max_rpc_page_size), c1)"
      by (cases q) (auto simp: cursor_request_Inr_iff)
    then have c1: "c1 = c\<lparr>cur_request_count := cur_request_count c + 1\<rparr>"
      and lt: "cur_request_count c < max_paginated_requests"
      and off: "cur_offset c \<le> max_rpc_page_offset"
      by (simp_all add: cursor_request_Inr_iff)
    let ?log = "log @ [(cur_offset c, max_rpc_page_size)]"
    note lg = log_ok_request [OF less.prems(1) off]
    have len: "length ?log \<le> max_paginated_requests" using less.prems(1) lt by (simp add: log_ok_def)
    obtain r s1 where f: "fetch s (cur_offset c) max_rpc_page_size = (r, s1)"
      by (cases "fetch s (cur_offset c) max_rpc_page_size")
    have step: "logged fetch (s, log) (cur_offset c) max_rpc_page_size = (r, s1, ?log)"
      by (simp add: logged_def f)
    show ?thesis
    proof (cases "\<exists>page c2. r = Inr page
        \<and> cursor_advance (pg_has_more page) (pg_next_offset page) c1 = Inr (True, c2)")
      case False
      then have "snd (snd (collect_pages (logged fetch) (s, log) c acc)) = ?log"
        by (subst collect_pages.simps) (auto simp: q step split: sum.splits if_splits)
      with lg len show ?thesis by simp
    next
      case True
      then obtain page c2 where r: "r = Inr page"
        and adv: "cursor_advance (pg_has_more page) (pg_next_offset page) c1 = Inr (True, c2)"
        by blast
      have eq: "collect_pages (logged fetch) (s, log) c acc
          = collect_pages (logged fetch) (s1, ?log) c2 (acc @ pg_items page)"
        by (subst collect_pages.simps) (simp add: q step r adv)
      from adv have c2: "cur_offset c < cur_offset c2" "cur_request_count c2 = cur_request_count c + 1"
        by (auto simp: cursor_advance_True_iff c1)
      have "log_ok c2 ?log"
        using less.prems(1) lg c2 by (auto simp: log_ok_def)
      with less.hyps [of c2 ?log s1 "acc @ pg_items page"] lt c2 show ?thesis
        unfolding eq by simp
    qed
  qed
qed

text \<open>
  Also: Whatever a server answers, the client's collecting loop stops after at most
  \<open>MAX_PAGINATED_REQUESTS\<close> requests, each for a full page, at strictly increasing offsets
  within the protocol's bound: a server that always reports more pages cannot trap it.
\<close>

theorem collect_requests_bounded:
  "(let log = snd (snd (collect_configured_stations (logged fetch) (s, [])))
    in length log \<le> max_paginated_requests \<and> sorted_wrt (<) (map fst log)
       \<and> list_all (\<lambda>(off, n). off \<le> max_rpc_page_offset \<and> n = max_rpc_page_size) log)"
  using collect_pages_log [of page_cursor_default "[]" fetch s "[]"]
  by (simp add: collect_configured_stations_def log_ok_def page_cursor_default_def Let_def
      list_all_iff)

section \<open>Client and server together\<close>

definition serving :: "'a list \<Rightarrow> unit \<Rightarrow> nat \<Rightarrow> nat \<Rightarrow> (page_error + 'a page) \<times> unit" where
  "serving stations st offset n = (serve_configured_stations stations offset n, st)"

text \<open>The largest list the protocol can transfer: its last page starts within the bound.\<close>

definition max_collectable :: nat where
  "max_collectable =
     max_rpc_page_offset div max_rpc_page_size * max_rpc_page_size + max_rpc_page_size"

lemma max_collectable_eq: "max_collectable = 100096"
  by (simp add: max_collectable_def max_rpc_page_offset_def max_rpc_page_size_def)

lemma serve_full_page:
  assumes "offset \<le> max_rpc_page_offset" and "length stations \<le> u32_max"
  shows "serve_configured_stations stations offset max_rpc_page_size =
    Inr \<lparr>pg_items = take max_rpc_page_size (drop offset stations),
         pg_has_more = (offset + max_rpc_page_size < length stations),
         pg_next_offset = min (offset + max_rpc_page_size) (length stations)\<rparr>"
  using assms
  by (simp add: serve_configured_stations_def normalize_pagination_def configured_stations_page_def
      paginate_slice max_rpc_page_size_def)

lemma collect_pages_from:
  assumes "length stations \<le> u32_max" and "k \<le> 390"
    and "256 * k \<le> length stations"
  shows "fst (collect_pages (serving stations) () \<lparr>cur_offset = 256 * k, cur_request_count = k\<rparr>
           (take (256 * k) stations)) =
    (if length stations \<le> max_collectable
     then Inr \<lparr>pg_items = stations, pg_has_more = False, pg_next_offset = length stations\<rparr>
     else Inl (NextOffsetExceeds max_collectable))"
  using assms(2,3)
proof (induction "390 - k" arbitrary: k rule: less_induct)
  case less
  let ?c = "\<lparr>cur_offset = 256 * k, cur_request_count = k\<rparr>"
  let ?c1 = "\<lparr>cur_offset = 256 * k, cur_request_count = k + 1\<rparr>"
  have off: "256 * k \<le> max_rpc_page_offset"
    using less.prems(1) by (simp add: max_rpc_page_offset_def)
  have q: "cursor_request max_rpc_page_size ?c = Inr ((256 * k, max_rpc_page_size), ?c1)"
    using off less.prems(1)
    by (simp add: cursor_request_def max_paginated_requests_def max_rpc_page_offset_def
        max_rpc_page_size_def)
  note sv = serve_full_page [OF off assms(1), unfolded max_rpc_page_size_def]
  note q = q [unfolded max_rpc_page_size_def]
  show ?case
  proof (cases "256 * k + 256 < length stations")
    case False
    then have "take (256 * k) stations @ take 256 (drop (256 * k) stations) = stations"
      by (simp flip: take_add)
    with False less.prems(1) show ?thesis
      by (subst collect_pages.simps)
         (simp add: q serving_def sv cursor_advance_def max_rpc_page_size_def max_collectable_eq)
  next
    case True
    show ?thesis
    proof (cases "k = 390")
      case True
      with \<open>256 * k + 256 < length stations\<close> show ?thesis
        by (subst collect_pages.simps)
           (simp add: q [unfolded True, simplified] serving_def sv [unfolded True, simplified]
             cursor_advance_def max_rpc_page_size_def max_rpc_page_offset_def max_collectable_eq)
    next
      case False
      with less.prems(1) have k: "Suc k \<le> 390" by simp
      have adv: "cursor_advance True (256 * k + 256) ?c1 =
          Inr (True, \<lparr>cur_offset = 256 * Suc k, cur_request_count = Suc k\<rparr>)"
        using k by (simp add: cursor_advance_def max_rpc_page_offset_def)
      have "collect_pages (serving stations) () ?c (take (256 * k) stations)
          = collect_pages (serving stations) () \<lparr>cur_offset = 256 * Suc k, cur_request_count = Suc k\<rparr>
              (take (256 * Suc k) stations)"
        using True adv take_add [of "256 * k" 256 stations]
        by (subst collect_pages.simps)
           (simp add: q serving_def sv max_rpc_page_size_def add.commute)
      with less.hyps [of "Suc k"] k True show ?thesis by simp
    qed
  qed
qed

text \<open>
  Also: Paging is lossless end to end: collecting from the engine's own list RPC returns
  exactly the configured stations, in order and without duplicates of any page, when there
  are at most 100096 of them; a longer list is refused with an error, never truncated.
\<close>

theorem collect_complete:
  assumes "length stations \<le> u32_max"
  shows "fst (collect_configured_stations (serving stations) ()) =
    (if length stations \<le> max_collectable
     then Inr \<lparr>pg_items = stations, pg_has_more = False, pg_next_offset = length stations\<rparr>
     else Inl (NextOffsetExceeds max_collectable))"
  using collect_pages_from [OF assms, of 0]
  by (simp add: collect_configured_stations_def page_cursor_default_def)

theorem collect_complete_witness:
  "length [1, 2, 3 :: nat] \<le> u32_max
   \<and> fst (collect_configured_stations (serving [1, 2, 3 :: nat]) ())
     = Inr \<lparr>pg_items = [1, 2, 3], pg_has_more = False, pg_next_offset = 3\<rparr>"
  using collect_complete [of "[1, 2, 3 :: nat]"]
  by (simp add: u32_max_def max_collectable_eq)

end
