(* ===== verification/Rpc_Reply.thy ===== *)
theory Rpc_Reply
  imports Wire
begin

text \<open>
  The reply of an RPC handler before it is encoded: \<open>ok\<close> and \<open>accepted\<close> carry the
  payload message, \<open>rpc_error_response\<close> a code and a message
  (\<^verbatim>\<open>weather-core/engine/src/handlers/response.rs\<close>). Encoding a message is code of
  another crate, so the encoder is a parameter of \<open>build_response\<close>.
\<close>

text \<open>An error is the chain of its contexts, the outermost first; \<open>{:#}\<close> prints all of it.\<close>

type_synonym error_chain = "ustring list"

definition show_chain :: "error_chain \<Rightarrow> ustring" where
  "show_chain e = join (lit '': '') e"

datatype 'a reply = ReplyOk 'a | ReplyAccepted 'a | ReplyError rpc_error_code ustring

definition status_ok :: "32 word" where "status_ok = 1"
definition status_accepted :: "32 word" where "status_accepted = 2"
definition status_error :: "32 word" where "status_error = 3"

text \<open>
  \<open>build_response\<close>: the signature, when a key is configured (\<open>response_signature\<close> gives
  none when the key cannot be resolved or is absent), is put on the finished response.
\<close>

definition response_signature ::
  "mac \<Rightarrow> (ustring + byte list option) \<Rightarrow> rpc_response \<Rightarrow> byte list option" where
  "response_signature mac resolved_key response =
     (case resolved_key of
        Inl e \<Rightarrow> None
      | Inr None \<Rightarrow> None
      | Inr (Some key) \<Rightarrow> Some (rpc_response_hmac mac response key))"

definition build_response ::
  "mac \<Rightarrow> (ustring + byte list option) \<Rightarrow> 64 word \<Rightarrow> ustring \<Rightarrow> 32 word \<Rightarrow> byte list
     \<Rightarrow> engine_error option \<Rightarrow> rpc_response" where
  "build_response mac resolved_key now request_id status payload err =
     (let response = \<lparr>rs_schema_version = schema_version, rs_request_id = request_id,
            rs_status = status, rs_timestamp = now, rs_hmac = [], rs_payload = payload,
            rs_error = err\<rparr>
      in (case response_signature mac resolved_key response of
            Some sig \<Rightarrow> response\<lparr>rs_hmac := sig\<rparr>
          | None \<Rightarrow> response))"

text \<open>Error responses are built without the engine's key and carry no signature.\<close>

definition rpc_error_response ::
  "64 word \<Rightarrow> ustring \<Rightarrow> rpc_error_code \<Rightarrow> ustring \<Rightarrow> rpc_response" where
  "rpc_error_response now request_id code message =
     \<lparr>rs_schema_version = schema_version, rs_request_id = request_id, rs_status = status_error,
      rs_timestamp = now, rs_hmac = [], rs_payload = [],
      rs_error = Some \<lparr>ee_code = error_code_as_str code, ee_message = message\<rparr>\<rparr>"

definition encode_reply ::
  "mac \<Rightarrow> (ustring + byte list option) \<Rightarrow> 64 word \<Rightarrow> ('a \<Rightarrow> byte list) \<Rightarrow> ustring \<Rightarrow> 'a reply
     \<Rightarrow> rpc_response" where
  "encode_reply mac resolved_key now encode request_id r =
     (case r of
        ReplyOk m \<Rightarrow> build_response mac resolved_key now request_id status_ok (encode m) None
      | ReplyAccepted m \<Rightarrow>
          build_response mac resolved_key now request_id status_accepted (encode m) None
      | ReplyError code message \<Rightarrow> rpc_error_response now request_id code message)"

text \<open>The HMAC covers every field of a response except itself.\<close>

lemma rpc_response_hmac_ignores_hmac [simp]:
  "rpc_response_hmac mac (r\<lparr>rs_hmac := h\<rparr>) key = rpc_response_hmac mac r key"
  by (simp add: rpc_response_hmac_def)

lemma build_response_signed:
  "rs_hmac (build_response mac (Inr (Some key)) now rid st payload err)
     = rpc_response_hmac mac (build_response mac (Inr (Some key)) now rid st payload err) key"
  by (simp add: build_response_def response_signature_def rpc_response_hmac_def Let_def)

text \<open>
  Also: Every reply answers its own request under the supported schema version, and its status
  agrees with its error field: an error status exactly when an engine error is present.
  With a configured key every success is signed with a MAC that verifies, while error
  replies always leave unsigned.
\<close>

theorem encode_reply_shape:
  "(let resp = encode_reply mac resolved_key now encode request_id r
    in rs_request_id resp = request_id \<and> rs_schema_version resp = schema_version
     \<and> (rs_status resp = status_error) = (rs_error resp \<noteq> None)
     \<and> (rs_error resp \<noteq> None) = (\<exists>code msg. r = ReplyError code msg)
     \<and> rs_hmac resp = (case (r, resolved_key) of
           (ReplyError _ _, _) \<Rightarrow> []
         | (_, Inr (Some key)) \<Rightarrow> rpc_response_hmac mac resp key
         | _ \<Rightarrow> []))"
  by (auto simp: encode_reply_def build_response_def response_signature_def rpc_error_response_def
      status_ok_def status_accepted_def status_error_def rpc_response_hmac_def Let_def
      split: reply.split sum.split option.split)

end
