(* ===== verification/Resource_Cache.thy ===== *)
theory Resource_Cache
  imports Wire
begin

text \<open>
  The engine's resource manager (\<^verbatim>\<open>weather-core/engine/src/resource_cache.rs\<close>):
  registrations of upstream URLs, the byte-bounded LRU cache with expiry, and the fetch
  state that makes each resource be fetched once. Instants are nanoseconds on one clock,
  passed in where the code reads the clock.
\<close>

section \<open>State\<close>

record provider_resource =
  res_content_type :: ustring
  res_bytes :: "byte list"

datatype fetch_plan =
    Ready provider_resource
  | Start ustring
  | Pending
  | Failed ustring
  | Missing

datatype fetch_state = FetchPending | FetchFailed (fs_message: ustring) (fs_expires_at: nat)

record registration =
  rg_source_url :: ustring
  rg_last_used :: "64 word"

record cache_entry =
  ce_resource :: provider_resource
  ce_expires_at :: nat
  ce_last_used :: "64 word"

record resource_state =
  registrations :: "(ustring, registration) hmap"
  cache :: "(ustring, cache_entry) hmap"
  fetches :: "(ustring, fetch_state) hmap"
  cache_bytes :: nat
  sequence :: "64 word"

record resource_limits =
  rm_ttl :: nat
  rm_max_bytes :: nat
  rm_max_registrations :: nat

definition resource_state_default :: resource_state where
  "resource_state_default =
     \<lparr>registrations = [], cache = [], fetches = [], cache_bytes = 0, sequence = 0\<rparr>"

definition default_resource_limits :: resource_limits where
  "default_resource_limits =
     \<lparr>rm_ttl = 15 * 60 * 1000000000, rm_max_bytes = 32 * 1024 * 1024, rm_max_registrations = 4096\<rparr>"

definition failed_fetch_ttl :: nat where "failed_fetch_ttl = 5 * 1000000000"

section \<open>Operations\<close>

definition next_sequence :: "resource_state \<Rightarrow> 64 word \<times> resource_state" where
  "next_sequence s = (sequence s + 1, s\<lparr>sequence := sequence s + 1\<rparr>)"

definition remove_cache_entry :: "ustring \<Rightarrow> resource_state \<Rightarrow> resource_state" where
  "remove_cache_entry resource_id s =
     (case hget (cache s) resource_id of
        None \<Rightarrow> s
      | Some entry \<Rightarrow>
          s\<lparr>cache := hdel resource_id (cache s),
            cache_bytes := cache_bytes s - length (res_bytes (ce_resource entry))\<rparr>)"

definition purge_expired :: "nat \<Rightarrow> resource_state \<Rightarrow> resource_state" where
  "purge_expired now s =
     fold remove_cache_entry
       (map fst (filter (\<lambda>(_, entry). ce_expires_at entry \<le> now) (cache s))) s"

text \<open>The registration \<open>register\<close> would evict: the least recently used without a pending fetch.\<close>

definition oldest_idle :: "resource_state \<Rightarrow> ustring option" where
  "oldest_idle s =
     map_option fst
       (min_by_key (rg_last_used \<circ> snd)
          (filter (\<lambda>(rid, _). hget (fetches s) rid \<noteq> Some FetchPending) (registrations s)))"

definition drop_registration :: "ustring \<Rightarrow> resource_state \<Rightarrow> resource_state" where
  "drop_registration rid s =
     remove_cache_entry rid
       (s\<lparr>registrations := hdel rid (registrations s), fetches := hdel rid (fetches s)\<rparr>)"

lemma registrations_remove_cache_entry [simp]:
  "registrations (remove_cache_entry rid s) = registrations s"
  by (simp add: remove_cache_entry_def split: option.split)

lemma fetches_remove_cache_entry [simp]: "fetches (remove_cache_entry rid s) = fetches s"
  by (simp add: remove_cache_entry_def split: option.split)

lemma sequence_remove_cache_entry [simp]: "sequence (remove_cache_entry rid s) = sequence s"
  by (simp add: remove_cache_entry_def split: option.split)

lemma hget_cache_remove [simp]:
  "hget (cache (remove_cache_entry rid s)) k = (if k = rid then None else hget (cache s) k)"
  by (auto simp: remove_cache_entry_def split: option.split)

lemma oldest_idle_Some:
  assumes "oldest_idle s = Some rid"
  shows "\<exists>r. (rid, r) \<in> set (registrations s) \<and> hget (fetches s) rid \<noteq> Some FetchPending"
  using assms by (auto simp: oldest_idle_def dest!: min_by_key_mem)

lemma drop_registration_shrinks:
  assumes "oldest_idle s = Some rid"
  shows "length (registrations (drop_registration rid s)) < length (registrations s)"
proof -
  obtain r where "(rid, r) \<in> set (registrations s)" using oldest_idle_Some [OF assms] by blast
  then obtain r' where "hget (registrations s) rid = Some r'"
    by (cases "hget (registrations s) rid") (auto simp: map_of_eq_None_iff image_iff)
  then show ?thesis by (simp add: drop_registration_def length_hdel_present)
qed

text \<open>
  The eviction loop of \<open>register\<close>; the boolean is false when the \<open>?\<close> left the function
  because every registration has a pending fetch.
\<close>

function evict_registrations :: "nat \<Rightarrow> resource_state \<Rightarrow> bool \<times> resource_state" where
  "evict_registrations limit s =
     (if length (registrations s) \<ge> limit then
        (case oldest_idle s of
           None \<Rightarrow> (False, s)
         | Some rid \<Rightarrow> evict_registrations limit (drop_registration rid s))
      else (True, s))"
  by pat_completeness auto
termination
  by (relation "measure (\<lambda>(limit, s). length (registrations s))") (auto simp: drop_registration_shrinks)

declare evict_registrations.simps [simp del]

definition resource_id_of :: "(byte list \<Rightarrow> byte list) \<Rightarrow> ustring \<Rightarrow> ustring" where
  "resource_id_of sha url = lit ''resource-'' @ unified_station_uuid sha url"

definition register_resource ::
  "(byte list \<Rightarrow> byte list) \<Rightarrow> resource_limits \<Rightarrow> ustring \<Rightarrow> resource_state
     \<Rightarrow> ustring option \<times> resource_state" where
  "register_resource sha lim source_url s =
     (let source_url = trim source_url
      in if source_url = [] \<or> rm_max_registrations lim = 0 then (None, s)
         else
           let resource_id = resource_id_of sha source_url;
               (seq, s) = next_sequence s
           in (case hget (registrations s) resource_id of
                 Some r \<Rightarrow>
                   if rg_source_url r = source_url
                   then (Some resource_id,
                         s\<lparr>registrations :=
                             hput resource_id (r\<lparr>rg_last_used := seq\<rparr>) (registrations s)\<rparr>)
                   else (None, s)
               | None \<Rightarrow>
                   (case evict_registrations (rm_max_registrations lim) s of
                      (False, s) \<Rightarrow> (None, s)
                    | (True, s) \<Rightarrow>
                        (Some resource_id,
                         s\<lparr>registrations :=
                             hput resource_id \<lparr>rg_source_url = source_url, rg_last_used = seq\<rparr>
                               (registrations s)\<rparr>))))"

text \<open>The statements of \<open>begin_fetch\<close> that drop an expired entry and an expired failure.\<close>

definition drop_expired_entry :: "nat \<Rightarrow> ustring \<Rightarrow> resource_state \<Rightarrow> resource_state" where
  "drop_expired_entry now resource_id s =
     (case hget (cache s) resource_id of
        Some entry \<Rightarrow> if ce_expires_at entry \<le> now then remove_cache_entry resource_id s else s
      | None \<Rightarrow> s)"

definition drop_expired_failure :: "nat \<Rightarrow> ustring \<Rightarrow> resource_state \<Rightarrow> resource_state" where
  "drop_expired_failure now resource_id s =
     (case hget (fetches s) resource_id of
        Some (FetchFailed _ expires_at) \<Rightarrow>
          if expires_at \<le> now then s\<lparr>fetches := hdel resource_id (fetches s)\<rparr> else s
      | _ \<Rightarrow> s)"

definition begin_fetch :: "nat \<Rightarrow> ustring \<Rightarrow> resource_state \<Rightarrow> fetch_plan \<times> resource_state" where
  "begin_fetch now resource_id s =
     (let (seq, s) = next_sequence s
      in case hget (registrations s) resource_id of
           None \<Rightarrow> (Missing, s)
         | Some r \<Rightarrow>
             let s = s\<lparr>registrations :=
                         hput resource_id (r\<lparr>rg_last_used := seq\<rparr>) (registrations s)\<rparr>;
                 s = drop_expired_entry now resource_id s
             in (case hget (cache s) resource_id of
                   Some entry \<Rightarrow>
                     (Ready (ce_resource entry),
                      s\<lparr>cache := hput resource_id (entry\<lparr>ce_last_used := seq\<rparr>) (cache s)\<rparr>)
                 | None \<Rightarrow>
                     let s = drop_expired_failure now resource_id s
                     in (case hget (fetches s) resource_id of
                           Some FetchPending \<Rightarrow> (Pending, s)
                         | Some (FetchFailed message _) \<Rightarrow> (Failed message, s)
                         | None \<Rightarrow>
                             (Start (rg_source_url r),
                              s\<lparr>fetches := hput resource_id FetchPending (fetches s)\<rparr>))))"

definition finish_fetch ::
  "nat \<Rightarrow> ustring \<Rightarrow> ustring option \<Rightarrow> resource_state \<Rightarrow> resource_state" where
  "finish_fetch now resource_id err s =
     (if hget (registrations s) resource_id = None
      then s\<lparr>fetches := hdel resource_id (fetches s)\<rparr>
      else (case err of
              Some message \<Rightarrow>
                s\<lparr>fetches := hput resource_id (FetchFailed message (now + failed_fetch_ttl))
                              (fetches s)\<rparr>
            | None \<Rightarrow> s\<lparr>fetches := hdel resource_id (fetches s)\<rparr>))"

function evict_cache :: "nat \<Rightarrow> nat \<Rightarrow> resource_state \<Rightarrow> resource_state" where
  "evict_cache max_bytes n s =
     (if sat_add (cache_bytes s) n > max_bytes then
        (case min_by_key (ce_last_used \<circ> snd) (cache s) of
           None \<Rightarrow> s
         | Some (oldest, _) \<Rightarrow> evict_cache max_bytes n (remove_cache_entry oldest s))
      else s)"
  by pat_completeness auto
termination
proof (relation "measure (\<lambda>(max_bytes, n, s). length (cache s))", goal_cases)
  case 1
  show ?case by simp
next
  case (2 max_bytes n s p oldest e)
  then have "(oldest, e) \<in> set (cache s)" by (auto dest!: min_by_key_mem)
  then obtain e' where "hget (cache s) oldest = Some e'"
    by (cases "hget (cache s) oldest") (auto simp: map_of_eq_None_iff image_iff)
  then show ?case by (simp add: remove_cache_entry_def length_hdel_present)
qed

declare evict_cache.simps [simp del]

datatype cache_error = ResourceTooLarge nat nat | NotRegistered

text \<open>The clock is read twice: before purging and when the new entry's expiry is set.\<close>

definition cache_resource ::
  "resource_limits \<Rightarrow> nat \<Rightarrow> nat \<Rightarrow> ustring \<Rightarrow> provider_resource \<Rightarrow> resource_state
     \<Rightarrow> (cache_error + unit) \<times> resource_state" where
  "cache_resource lim now now' resource_id resource s =
     (let n = length (res_bytes resource)
      in if n > rm_max_bytes lim then (Inl (ResourceTooLarge n (rm_max_bytes lim)), s)
         else if hget (registrations s) resource_id = None then (Inl NotRegistered, s)
         else
           let s = purge_expired now s;
               s = remove_cache_entry resource_id s;
               s = evict_cache (rm_max_bytes lim) n s;
               (seq, s) = next_sequence s
           in (Inr (),
               s\<lparr>cache_bytes := sat_add (cache_bytes s) n,
                 cache := hput resource_id
                   \<lparr>ce_resource = resource, ce_expires_at = now' + rm_ttl lim, ce_last_used = seq\<rparr>
                   (cache s)\<rparr>))"

section \<open>The invariant\<close>

definition entry_bytes :: "cache_entry \<Rightarrow> nat" where
  "entry_bytes e = length (res_bytes (ce_resource e))"

definition resource_inv :: "resource_limits \<Rightarrow> resource_state \<Rightarrow> bool" where
  "resource_inv lim s \<longleftrightarrow>
     hkeys_ok (registrations s) \<and> hkeys_ok (cache s) \<and> hkeys_ok (fetches s)
     \<and> cache_bytes s = hsum entry_bytes (cache s) \<and> cache_bytes s \<le> rm_max_bytes lim
     \<and> (\<forall>k. hget (cache s) k \<noteq> None \<longrightarrow> hget (registrations s) k \<noteq> None)
     \<and> (\<forall>k. hget (fetches s) k \<noteq> None \<longrightarrow> hget (registrations s) k \<noteq> None)
     \<and> length (registrations s) \<le> rm_max_registrations lim"

lemma inv_remove_cache_entry [inv_intros]:
  assumes "resource_inv lim s"
  shows "resource_inv lim (remove_cache_entry rid s)"
proof (cases "hget (cache s) rid")
  case None
  with assms show ?thesis by (simp add: remove_cache_entry_def)
next
  case (Some e)
  with assms have "hsum entry_bytes (hdel rid (cache s)) + entry_bytes e = hsum entry_bytes (cache s)"
    by (intro hsum_del) (auto simp: resource_inv_def)
  with assms Some show ?thesis
    by (auto simp: resource_inv_def remove_cache_entry_def entry_bytes_def split: if_splits)
qed

lemma inv_fold_remove [inv_intros]:
  "resource_inv lim s \<Longrightarrow> resource_inv lim (fold remove_cache_entry rids s)"
  by (induction rids arbitrary: s) (auto intro: inv_remove_cache_entry)

lemma inv_purge_expired [inv_intros]:
  "resource_inv lim s \<Longrightarrow> resource_inv lim (purge_expired now s)"
  by (simp add: purge_expired_def inv_fold_remove)

text \<open>Dropping a registration is an entry removal on a state where nothing else refers to it.\<close>

lemma drop_registration_alt:
  "drop_registration rid s =
     (remove_cache_entry rid s)\<lparr>registrations := hdel rid (registrations s),
                               fetches := hdel rid (fetches s)\<rparr>"
  by (auto simp: drop_registration_def remove_cache_entry_def split: option.split)

lemma inv_drop_registration [inv_intros]:
  assumes "resource_inv lim s"
  shows "resource_inv lim (drop_registration rid s)"
proof -
  have "resource_inv lim (remove_cache_entry rid s)"
    using assms by (rule inv_remove_cache_entry)
  then show ?thesis
    unfolding drop_registration_alt resource_inv_def
    using length_hdel_le [of rid "registrations s"] by auto
qed

lemma inv_evict_registrations:
  "resource_inv lim s \<Longrightarrow> resource_inv lim (snd (evict_registrations limit s))
     \<and> (fst (evict_registrations limit s) \<longrightarrow>
          length (registrations (snd (evict_registrations limit s))) < limit)"
proof (induction limit s rule: evict_registrations.induct)
  case (1 limit s)
  show ?case
  proof (cases "length (registrations s) \<ge> limit")
    case False
    with "1.prems" show ?thesis by (simp add: evict_registrations.simps)
  next
    case True
    show ?thesis
    proof (cases "oldest_idle s")
      case None
      with "1.prems" True show ?thesis by (simp add: evict_registrations.simps)
    next
      case (Some rid)
      from "1.IH" [OF True Some] "1.prems" True Some show ?thesis
        by (simp add: evict_registrations.simps [of limit s] inv_drop_registration)
    qed
  qed
qed

lemma resource_inv_sequence [simp]:
  "resource_inv lim (s\<lparr>sequence := x\<rparr>) = resource_inv lim s"
  by (simp add: resource_inv_def)

lemma resource_inv_touch:
  assumes "resource_inv lim s" and "hget (registrations s) rid = Some r"
  shows "resource_inv lim (s\<lparr>registrations := hput rid r' (registrations s)\<rparr>)"
  using assms by (auto simp: resource_inv_def length_hput_old)

lemma resource_inv_touch_seq:
  "\<lbrakk>resource_inv lim s; hget (registrations s) rid = Some r\<rbrakk> \<Longrightarrow>
     resource_inv lim (s\<lparr>sequence := x, registrations := hput rid r' (registrations s)\<rparr>)"
  using resource_inv_touch [of lim "s\<lparr>sequence := x\<rparr>"] by simp

lemma inv_register [inv_intros]:
  assumes "resource_inv lim s"
  shows "resource_inv lim (snd (register_resource sha lim url s))"
proof -
  let ?s = "s\<lparr>sequence := sequence s + 1\<rparr>"
  let ?rid = "resource_id_of sha (trim url)"
  obtain ok t where ev: "evict_registrations (rm_max_registrations lim) ?s = (ok, t)"
    by (cases "evict_registrations (rm_max_registrations lim) ?s")
  have t: "resource_inv lim t" "ok \<Longrightarrow> length (registrations t) < rm_max_registrations lim"
    using inv_evict_registrations [of lim ?s "rm_max_registrations lim"] assms ev by auto
  have "ok \<Longrightarrow> resource_inv lim (t\<lparr>registrations := hput ?rid r (registrations t)\<rparr>)" for r
  proof (cases "hget (registrations t) ?rid")
    case None
    assume ok
    with t None show ?thesis by (auto simp: resource_inv_def length_hput_new)
  next
    case (Some r')
    with t(1) show ?thesis by (rule resource_inv_touch)
  qed
  with t assms ev show ?thesis
    by (auto simp: register_resource_def Let_def next_sequence_def resource_inv_touch_seq
        split: option.splits bool.splits prod.splits)
qed

lemma inv_drop_expired_entry [inv_intros]:
  "resource_inv lim s \<Longrightarrow> resource_inv lim (drop_expired_entry now rid s)"
  by (auto simp: drop_expired_entry_def inv_remove_cache_entry split: option.split)

lemma inv_drop_expired_failure [inv_intros]:
  "resource_inv lim s \<Longrightarrow> resource_inv lim (drop_expired_failure now rid s)"
  by (auto simp: drop_expired_failure_def resource_inv_def split: option.split fetch_state.split)

lemma registrations_drop_expired [simp]:
  "registrations (drop_expired_entry now rid s) = registrations s"
  "registrations (drop_expired_failure now rid s) = registrations s"
  by (auto simp: drop_expired_entry_def drop_expired_failure_def split: option.split fetch_state.split)

lemma fetches_drop_expired_entry [simp]: "fetches (drop_expired_entry now rid s) = fetches s"
  by (auto simp: drop_expired_entry_def split: option.split)

lemma cache_drop_expired_failure [simp]: "cache (drop_expired_failure now rid s) = cache s"
  by (auto simp: drop_expired_failure_def split: option.split fetch_state.split)

lemma hget_cache_drop_expired_entry:
  "hget (cache (drop_expired_entry now rid s)) rid =
     (case hget (cache s) rid of None \<Rightarrow> None
      | Some e \<Rightarrow> if ce_expires_at e \<le> now then None else Some e)"
  by (auto simp: drop_expired_entry_def split: option.split)

lemma hget_fetches_drop_expired_failure:
  "hget (fetches (drop_expired_failure now rid s)) rid =
     (case hget (fetches s) rid of
        Some (FetchFailed m t) \<Rightarrow> if t \<le> now then None else Some (FetchFailed m t)
      | f \<Rightarrow> f)"
  by (auto simp: drop_expired_failure_def split: option.split fetch_state.split)

text \<open>A cache hit and a new pending fetch keep the invariant for a registered resource.\<close>

lemma inv_touch_entry:
  assumes "resource_inv lim s" and "hget (cache s) rid = Some e"
  shows "resource_inv lim (s\<lparr>cache := hput rid (e\<lparr>ce_last_used := x\<rparr>) (cache s)\<rparr>)"
proof -
  have "hsum entry_bytes (hput rid (e\<lparr>ce_last_used := x\<rparr>) (cache s)) = hsum entry_bytes (cache s)"
    using hsum_put_old [OF assms(2), of entry_bytes "e\<lparr>ce_last_used := x\<rparr>"]
    by (simp add: entry_bytes_def)
  with assms show ?thesis by (auto simp: resource_inv_def)
qed

lemma inv_put_fetch:
  "resource_inv lim s \<Longrightarrow> hget (registrations s) rid \<noteq> None \<Longrightarrow>
     resource_inv lim (s\<lparr>fetches := hput rid f (fetches s)\<rparr>)"
  by (auto simp: resource_inv_def)

lemma inv_begin_fetch [inv_intros]:
  assumes "resource_inv lim s"
  shows "resource_inv lim (snd (begin_fetch now rid s))"
proof (cases "hget (registrations s) rid")
  case None
  with assms show ?thesis by (simp add: begin_fetch_def next_sequence_def)
next
  case (Some r)
  define t where "t = drop_expired_entry now rid
      (s\<lparr>sequence := sequence s + 1,
         registrations := hput rid (r\<lparr>rg_last_used := sequence s + 1\<rparr>) (registrations s)\<rparr>)"
  have t: "resource_inv lim t"
    unfolding t_def using assms Some by (intro inv_drop_expired_entry resource_inv_touch_seq)
  have reg: "hget (registrations t) rid \<noteq> None" by (simp add: t_def)
  show ?thesis
    using t reg inv_touch_entry [OF t] inv_drop_expired_failure [OF t, of now rid]
    by (auto simp: begin_fetch_def next_sequence_def Some t_def [symmetric] Let_def
        intro!: inv_put_fetch split: option.split fetch_state.split)
qed

lemma inv_finish_fetch [inv_intros]:
  "resource_inv lim s \<Longrightarrow> resource_inv lim (finish_fetch now rid err s)"
  by (auto simp: finish_fetch_def resource_inv_def split: option.split)

lemma evict_cache_post:
  "resource_inv lim s \<Longrightarrow> resource_inv lim (evict_cache mx n s)
     \<and> (cache (evict_cache mx n s) = [] \<or> sat_add (cache_bytes (evict_cache mx n s)) n \<le> mx)
     \<and> registrations (evict_cache mx n s) = registrations s
     \<and> fetches (evict_cache mx n s) = fetches s
     \<and> (\<forall>k. hget (cache s) k = None \<longrightarrow> hget (cache (evict_cache mx n s)) k = None)"
proof (induction mx n s rule: evict_cache.induct)
  case (1 mx n s)
  show ?case
  proof (cases "sat_add (cache_bytes s) n > mx")
    case False
    with "1.prems" show ?thesis by (simp add: evict_cache.simps)
  next
    case True
    show ?thesis
    proof (cases "min_by_key (ce_last_used \<circ> snd) (cache s)")
      case None
      with "1.prems" True show ?thesis by (simp add: evict_cache.simps)
    next
      case (Some p)
      obtain oldest e where p: "p = (oldest, e)" by (cases p)
      from "1.IH" [OF True Some p [symmetric]] "1.prems" True Some p show ?thesis
        by (simp add: evict_cache.simps [of mx n s] inv_remove_cache_entry)
    qed
  qed
qed

lemma registrations_purge_expired [simp]: "registrations (purge_expired now s) = registrations s"
  unfolding purge_expired_def
  by (rule fold_invariant [where P = "\<lambda>t. registrations t = registrations s" and Q = "\<lambda>_. True"]) auto

lemma fetches_purge_expired [simp]: "fetches (purge_expired now s) = fetches s"
  unfolding purge_expired_def
  by (rule fold_invariant [where P = "\<lambda>t. fetches t = fetches s" and Q = "\<lambda>_. True"]) auto

lemma inv_cache_resource [inv_intros]:
  assumes "resource_inv lim s" and "rm_max_bytes lim < u64_max"
  shows "resource_inv lim (snd (cache_resource lim now now' rid res s))"
proof -
  let ?n = "length (res_bytes res)"
  define t where "t = remove_cache_entry rid (purge_expired now s)"
  let ?t = "evict_cache (rm_max_bytes lim) ?n t"
  have t: "resource_inv lim t"
    using assms(1) by (simp add: t_def inv_remove_cache_entry inv_purge_expired)
  note ev = evict_cache_post [OF t, of "rm_max_bytes lim" ?n]
  show ?thesis
  proof (cases "?n > rm_max_bytes lim \<or> hget (registrations s) rid = None")
    case True
    with assms show ?thesis by (auto simp: cache_resource_def Let_def)
  next
    case False
    have none: "hget (cache ?t) rid = None" using ev by (simp add: t_def)
    have bytes: "cache_bytes ?t + ?n \<le> rm_max_bytes lim"
    proof (cases "cache ?t = []")
      case True
      with ev False show ?thesis by (simp add: resource_inv_def)
    next
      case False
      with ev assms(2) show ?thesis by (auto simp: sat_add_def split: if_splits)
    qed
    have reg: "registrations ?t = registrations s" using ev by (simp add: t_def)
    let ?e = "\<lparr>ce_resource = res, ce_expires_at = now' + rm_ttl lim, ce_last_used = sequence ?t + 1\<rparr>"
    have "hsum entry_bytes (hput rid ?e (cache ?t)) = hsum entry_bytes (cache ?t) + ?n"
      using hsum_put_new [OF none, of entry_bytes ?e] by (simp add: entry_bytes_def)
    with ev bytes False reg assms(2) show ?thesis
      by (auto simp: cache_resource_def Let_def next_sequence_def t_def [symmetric] resource_inv_def
          sat_add_exact)
  qed
qed

section \<open>Runs of the resource manager\<close>

datatype resource_event =
    RegisterEv ustring
  | BeginEv nat ustring
  | FinishEv nat ustring "ustring option"
  | CacheEv nat nat ustring provider_resource

fun resource_step ::
  "(byte list \<Rightarrow> byte list) \<Rightarrow> resource_limits \<Rightarrow> resource_event \<Rightarrow> resource_state \<Rightarrow> resource_state" where
  "resource_step sha lim (RegisterEv url) s = snd (register_resource sha lim url s)"
| "resource_step sha lim (BeginEv now rid) s = snd (begin_fetch now rid s)"
| "resource_step sha lim (FinishEv now rid err) s = finish_fetch now rid err s"
| "resource_step sha lim (CacheEv now now' rid res) s = snd (cache_resource lim now now' rid res s)"

lemma inv_resource_step:
  "\<lbrakk>resource_inv lim s; rm_max_bytes lim < u64_max\<rbrakk> \<Longrightarrow> resource_inv lim (resource_step sha lim e s)"
  by (cases e) (auto intro: inv_intros)

lemma inv_resource_default: "resource_inv lim resource_state_default"
  by (simp add: resource_inv_def resource_state_default_def)

interpretation resource_system: invariant_system resource_state_default
    "resource_step sha default_resource_limits" "resource_inv default_resource_limits" for sha
  by unfold_locales
     (auto intro!: inv_resource_default inv_resource_step
       simp: default_resource_limits_def u64_max_def)

text \<open>
  C35: In every state the resource manager reaches, whatever the order of registrations,
  fetches, completions and insertions and whatever the clock reads, the byte counter is the
  exact size of the cached resources and within the 32 MiB limit, at most 4096 URLs are
  registered, and every cached resource and every fetch state belongs to a registration.
\<close>

theorem resource_manager_invariant:
  "(let s = fold (resource_step sha default_resource_limits) es resource_state_default
    in cache_bytes s = sum_list (map (\<lambda>e. length (res_bytes (ce_resource (snd e)))) (cache s))
     \<and> cache_bytes s \<le> 32 * 1024 * 1024
     \<and> length (registrations s) \<le> 4096
     \<and> hkeys (cache s) \<union> hkeys (fetches s) \<subseteq> hkeys (registrations s))"
proof -
  let ?s = "fold (resource_step sha default_resource_limits) es resource_state_default"
  have inv: "resource_inv default_resource_limits ?s" by (rule resource_system.inv_run)
  then have "cache_bytes ?s = sum_list (map (\<lambda>e. length (res_bytes (ce_resource (snd e)))) (cache ?s))"
    by (simp add: resource_inv_def hsum_def entry_bytes_def comp_def)
  moreover have "hkeys (cache ?s) \<union> hkeys (fetches ?s) \<subseteq> hkeys (registrations ?s)"
    using inv by (auto simp: resource_inv_def map_of_eq_None_iff)
  ultimately show ?thesis
    using inv by (simp add: Let_def resource_inv_def default_resource_limits_def)
qed

section \<open>One fetch at a time\<close>

definition fetch_pending :: "ustring \<Rightarrow> resource_state \<Rightarrow> bool" where
  "fetch_pending rid s \<longleftrightarrow>
     hget (fetches s) rid = Some FetchPending \<and> hget (registrations s) rid \<noteq> None"

lemma evict_registrations_keeps_pending:
  "fetch_pending rid s \<Longrightarrow> fetch_pending rid (snd (evict_registrations limit s))"
proof (induction limit s rule: evict_registrations.induct)
  case (1 limit s)
  show ?case
  proof (cases "length (registrations s) \<ge> limit \<and> oldest_idle s \<noteq> None")
    case False
    with "1.prems" show ?thesis by (auto simp: evict_registrations.simps [of limit s])
  next
    case True
    then obtain old where old: "oldest_idle s = Some old" by blast
    with "1.prems" have "old \<noteq> rid" by (auto simp: fetch_pending_def dest: oldest_idle_Some)
    with "1.prems" have "fetch_pending rid (drop_registration old s)"
      by (simp add: fetch_pending_def drop_registration_def)
    with "1.IH" old True show ?thesis by (simp add: evict_registrations.simps [of limit s])
  qed
qed

lemma fetch_pending_put_registration [simp]:
  "fetch_pending rid s \<Longrightarrow> fetch_pending rid (s\<lparr>registrations := hput k r (registrations s)\<rparr>)"
  by (simp add: fetch_pending_def)

lemma fetch_pending_sequence [simp]: "fetch_pending rid (s\<lparr>sequence := x\<rparr>) = fetch_pending rid s"
  by (simp add: fetch_pending_def)

lemma register_keeps_pending:
  assumes "fetch_pending rid s"
  shows "fetch_pending rid (snd (register_resource sha lim url s))"
  using assms evict_registrations_keeps_pending [of rid "s\<lparr>sequence := sequence s + 1\<rparr>" "rm_max_registrations lim"]
  by (auto simp: register_resource_def Let_def next_sequence_def fetch_pending_def
      split: option.splits bool.splits prod.splits)

lemma begin_fetch_pending:
  assumes "fetch_pending rid s"
  shows "fetch_pending rid (snd (begin_fetch now k s))"
    and "k = rid \<Longrightarrow> fst (begin_fetch now k s) = Pending \<or> (\<exists>r. fst (begin_fetch now k s) = Ready r)"
  using assms
  by (auto simp: fetch_pending_def begin_fetch_def next_sequence_def Let_def drop_expired_failure_def
      split: option.splits fetch_state.splits)

lemma cache_resource_keeps_pending:
  assumes "fetch_pending rid s" and "resource_inv lim s"
  shows "fetch_pending rid (snd (cache_resource lim now now' k res s))"
proof -
  have "resource_inv lim (remove_cache_entry k (purge_expired now s))"
    using assms(2) by (intro inv_intros)
  from evict_cache_post [OF this] assms(1) show ?thesis
    by (simp add: cache_resource_def Let_def next_sequence_def fetch_pending_def)
qed

fun finishes :: "ustring \<Rightarrow> resource_event \<Rightarrow> bool" where
  "finishes rid (FinishEv now k err) = (k = rid)"
| "finishes rid _ = False"

lemma step_keeps_pending:
  assumes "fetch_pending rid s" and "resource_inv lim s" and "\<not> finishes rid e"
  shows "fetch_pending rid (resource_step sha lim e s)"
proof (cases e)
  case (FinishEv now k err)
  with assms show ?thesis
    by (auto simp: finish_fetch_def fetch_pending_def split: option.split)
qed (use assms in \<open>auto intro: register_keeps_pending begin_fetch_pending cache_resource_keeps_pending\<close>)

lemma run_keeps_pending:
  "\<lbrakk>fetch_pending rid s; resource_inv lim s; rm_max_bytes lim < u64_max;
    list_all (\<lambda>e. \<not> finishes rid e) es\<rbrakk> \<Longrightarrow> fetch_pending rid (fold (resource_step sha lim) es s)"
  by (induction es arbitrary: s) (auto intro: step_keeps_pending inv_resource_step)

lemma begin_fetch_Start_pending:
  "fst (begin_fetch now rid s) = Start url \<Longrightarrow> fetch_pending rid (snd (begin_fetch now rid s))"
  by (auto simp: fetch_pending_def begin_fetch_def next_sequence_def Let_def
      split: option.splits fetch_state.splits)

text \<open>
  Also: At most one upstream fetch per resource is in flight: after \<open>begin_fetch\<close> told one
  caller to start, every later call for the same resource answers pending (or ready, once
  the bytes are cached) until that fetch is finished, and the registration is not evicted
  however many other URLs are registered meanwhile.
\<close>

theorem one_fetch_in_flight:
  assumes "resource_inv lim s" and "rm_max_bytes lim < u64_max"
    and "fst (begin_fetch now rid s) = Start url"
    and "list_all (\<lambda>e. \<not> finishes rid e) es"
  shows "(let t = fold (resource_step sha lim) es (snd (begin_fetch now rid s))
          in hget (registrations t) rid \<noteq> None
             \<and> (fst (begin_fetch later rid t) = Pending
                 \<or> (\<exists>r. fst (begin_fetch later rid t) = Ready r)))"
proof -
  have "fetch_pending rid (fold (resource_step sha lim) es (snd (begin_fetch now rid s)))"
    using begin_fetch_Start_pending [OF assms(3)] inv_begin_fetch [OF assms(1)] assms(2,4)
    by (rule run_keeps_pending)
  then show ?thesis
    using begin_fetch_pending(2) by (simp add: Let_def fetch_pending_def)
qed

definition sample_resource_state :: resource_state where
  "sample_resource_state =
     \<lparr>registrations = [(lit ''r'', \<lparr>rg_source_url = lit ''u'', rg_last_used = 1\<rparr>)],
      cache = [], fetches = [], cache_bytes = 0, sequence = 1\<rparr>"

definition small_limits :: resource_limits where
  "small_limits = \<lparr>rm_ttl = 100, rm_max_bytes = 8, rm_max_registrations = 2\<rparr>"

lemma sample_resource_inv: "resource_inv small_limits sample_resource_state"
  by (simp add: resource_inv_def sample_resource_state_def small_limits_def hkeys_ok_def)

theorem one_fetch_in_flight_witness:
  "fst (begin_fetch 0 (lit ''r'') sample_resource_state) = Start (lit ''u'')
   \<and> (let t = fold (resource_step (\<lambda>_. replicate 32 7) small_limits)
                [RegisterEv (lit ''v''), RegisterEv (lit ''w'')]
                (snd (begin_fetch 0 (lit ''r'') sample_resource_state))
      in hget (registrations t) (lit ''r'') \<noteq> None)"
proof -
  have st: "fst (begin_fetch 0 (lit ''r'') sample_resource_state) = Start (lit ''u'')"
    by (simp add: begin_fetch_def next_sequence_def sample_resource_state_def drop_expired_entry_def
        drop_expired_failure_def Let_def)
  have lt: "rm_max_bytes small_limits < u64_max" by (simp add: small_limits_def u64_max_def)
  show ?thesis
    using one_fetch_in_flight [OF sample_resource_inv lt st,
        of "[RegisterEv (lit ''v''), RegisterEv (lit ''w'')]" "\<lambda>_. replicate 32 7"] st
    by (simp add: Let_def)
qed

section \<open>Results of a fetch\<close>

lemma cached_resource_post:
  assumes "resource_inv lim s" and "cache_resource lim now now' rid res s = (Inr u, t)"
  shows "registrations t = registrations s \<and> hget (registrations s) rid \<noteq> None
    \<and> (\<exists>e. hget (cache t) rid = Some e \<and> ce_resource e = res \<and> ce_expires_at e = now' + rm_ttl lim)"
proof -
  have "resource_inv lim (remove_cache_entry rid (purge_expired now s))"
    using assms(1) by (intro inv_intros)
  from evict_cache_post [OF this, of "rm_max_bytes lim" "length (res_bytes res)"] assms(2)
  show ?thesis
    by (auto simp: cache_resource_def Let_def next_sequence_def split: if_splits)
qed

text \<open>
  Also: What was cached is what is served: after a successful insertion, asking for the
  resource before its time to live has passed returns exactly the cached bytes, whatever was
  evicted to make room; and an oversized or unregistered resource is refused without
  changing the state.
\<close>

theorem cached_resource_is_served:
  assumes "resource_inv lim s" and "later < now' + rm_ttl lim"
  shows "(case cache_resource lim now now' rid res s of
       (Inr _, t) \<Rightarrow> fst (begin_fetch later rid t) = Ready res
     | (Inl e, t) \<Rightarrow> t = s \<and> (length (res_bytes res) > rm_max_bytes lim
                               \<or> hget (registrations s) rid = None))"
proof (cases "length (res_bytes res) > rm_max_bytes lim \<or> hget (registrations s) rid = None")
  case True
  then show ?thesis by (auto simp: cache_resource_def Let_def)
next
  case False
  then obtain t where t: "cache_resource lim now now' rid res s = (Inr (), t)"
    by (simp add: cache_resource_def Let_def next_sequence_def)
  from cached_resource_post [OF assms(1) t] assms(2) have "fst (begin_fetch later rid t) = Ready res"
    by (auto simp: begin_fetch_def next_sequence_def drop_expired_entry_def)
  with t show ?thesis by simp
qed

theorem cached_resource_is_served_witness:
  "resource_inv small_limits sample_resource_state
   \<and> fst (begin_fetch 50 (lit ''r'')
       (snd (cache_resource small_limits 0 0 (lit ''r'')
          \<lparr>res_content_type = lit ''image/png'', res_bytes = [1, 2, 3]\<rparr> sample_resource_state)))
     = Ready \<lparr>res_content_type = lit ''image/png'', res_bytes = [1, 2, 3]\<rparr>"
proof -
  let ?res = "\<lparr>res_content_type = lit ''image/png'', res_bytes = [1, 2, 3]\<rparr> :: provider_resource"
  have "fst (cache_resource small_limits 0 0 (lit ''r'') ?res sample_resource_state) = Inr ()"
    by (simp add: cache_resource_def small_limits_def sample_resource_state_def Let_def
        next_sequence_def)
  moreover have "(50 :: nat) < 0 + rm_ttl small_limits" by (simp add: small_limits_def)
  note cached_resource_is_served [OF sample_resource_inv this, where now = 0 and rid = "lit ''r''"
      and res = ?res]
  ultimately show ?thesis using sample_resource_inv
    by (cases "cache_resource small_limits 0 0 (lit ''r'') ?res sample_resource_state") auto
qed

lemma begin_fetch_after_failure:
  assumes "hget (registrations s) rid = Some r" and "hget (cache s) rid = None"
  shows "fst (begin_fetch later rid (finish_fetch now rid (Some msg) s)) =
    (if later < now + failed_fetch_ttl then Failed msg else Start (rg_source_url r))"
  using assms
  by (auto simp: finish_fetch_def begin_fetch_def next_sequence_def Let_def drop_expired_entry_def
      drop_expired_failure_def)

text \<open>
  Also: A failed fetch is remembered for five seconds and no longer: until then every request
  is answered with its message, unless the bytes are cached, and from then on the next
  request starts a new fetch.
\<close>

theorem failed_fetch_backoff:
  assumes "hget (registrations s) rid = Some r" and "hget (cache s) rid = None"
  shows "fst (begin_fetch later rid (finish_fetch now rid (Some msg) s)) =
    (if later < now + failed_fetch_ttl then Failed msg else Start (rg_source_url r))"
  using assms by (rule begin_fetch_after_failure)

theorem failed_fetch_backoff_witness:
  "fst (begin_fetch 6000000000 (lit ''r'')
      (finish_fetch 0 (lit ''r'') (Some (lit ''down'')) sample_resource_state)) = Start (lit ''u'')"
  using failed_fetch_backoff [of sample_resource_state "lit ''r''" _ 6000000000 0 "lit ''down''"]
  by (simp add: sample_resource_state_def failed_fetch_ttl_def)

end
