(* ===== verification/Resource_Transfer.thy ===== *)
theory Resource_Transfer
  imports Resource_Cache Rpc_Reply
begin

text \<open>
  The transfer of a resource: the \<open>GET_RESOURCE\<close> handler
  (\<^verbatim>\<open>weather-core/engine/src/handlers/resource.rs\<close>), which serves byte ranges out of
  the resource manager and starts upstream fetches, and the desktop client's assembler and
  polling loop (\<^verbatim>\<open>weather-renderer/gui/src-tauri/src/lib.rs\<close>). Instants and durations
  are nanoseconds; decoding a request is a parameter.
\<close>

section \<open>The engine's handler\<close>

definition default_resource_chunk_bytes :: nat where "default_resource_chunk_bytes = 256 * 1024"
definition max_resource_chunk_bytes :: nat where "max_resource_chunk_bytes = 512 * 1024"
definition async_resource_retry_after_ms :: nat where "async_resource_retry_after_ms = 75"

record get_resource_request =
  gq_resource_id :: ustring
  gq_offset :: nat
  gq_max_bytes :: nat

record get_resource_response =
  gr_resource_id :: ustring
  gr_content_type :: ustring
  gr_data :: "byte list"
  gr_total_size :: nat
  gr_next_offset :: nat
  gr_complete :: bool
  gr_cache_hit :: bool
  gr_transfer_state :: int
  gr_retry_after_ms :: nat

definition transfer_ready :: int where "transfer_ready = 1"
definition transfer_pending :: int where "transfer_pending = 2"

definition pending_resource_response ::
  "get_resource_request \<Rightarrow> nat \<Rightarrow> get_resource_response" where
  "pending_resource_response request retry_after_ms =
     \<lparr>gr_resource_id = gq_resource_id request, gr_content_type = [], gr_data = [],
      gr_total_size = 0, gr_next_offset = gq_offset request, gr_complete = False,
      gr_cache_hit = False, gr_transfer_state = transfer_pending,
      gr_retry_after_ms = retry_after_ms\<rparr>"

text \<open>\<open>usize\<close> and \<open>u64\<close> have the same width here, so the conversions do not fail.\<close>

definition resource_chunk ::
  "get_resource_request \<Rightarrow> ustring \<Rightarrow> byte list \<Rightarrow> nat \<Rightarrow> ustring + get_resource_response" where
  "resource_chunk request content_type bytes max_bytes =
     (let total_size = length bytes
      in if gq_offset request > total_size
         then Inl (lit ''resource offset '' @ show_nat (gq_offset request)
                   @ lit '' exceeds total size '' @ show_nat total_size)
         else
           let start = gq_offset request;
               stop = min (sat_add start max_bytes) (length bytes)
           in Inr \<lparr>gr_resource_id = gq_resource_id request, gr_content_type = content_type,
                   gr_data = take (stop - start) (drop start bytes), gr_total_size = total_size,
                   gr_next_offset = stop, gr_complete = (stop = length bytes),
                   gr_cache_hit = False, gr_transfer_state = transfer_ready,
                   gr_retry_after_ms = 0\<rparr>)"

text \<open>The handler; the last component is the upstream fetch it spawns, if any.\<close>

definition handle_get_resource ::
  "nat \<Rightarrow> (byte list \<Rightarrow> ustring + get_resource_request) \<Rightarrow> byte list \<Rightarrow> resource_state
     \<Rightarrow> get_resource_response reply \<times> resource_state \<times> (ustring \<times> ustring) option" where
  "handle_get_resource now decode payload s =
     (case decode payload of
        Inl e \<Rightarrow> (ReplyError BadRequest e, s, None)
      | Inr req \<Rightarrow>
          if trim (gq_resource_id req) = []
          then (ReplyError BadRequest (lit ''resource_id must not be empty''), s, None)
          else
            let max_bytes = (if gq_max_bytes req = 0 then default_resource_chunk_bytes
                             else gq_max_bytes req)
            in if max_bytes > max_resource_chunk_bytes
               then (ReplyError BadRequest
                       (lit ''resource max_bytes '' @ show_nat max_bytes @ lit '' exceeds maximum ''
                        @ show_nat max_resource_chunk_bytes), s, None)
               else
                 (case begin_fetch now (gq_resource_id req) s of
                    (Ready resource, s) \<Rightarrow>
                      (case resource_chunk req (res_content_type resource) (res_bytes resource)
                              max_bytes of
                         Inr response \<Rightarrow> (ReplyOk (response\<lparr>gr_cache_hit := True\<rparr>), s, None)
                       | Inl message \<Rightarrow> (ReplyError BadRequest message, s, None))
                  | (Start source_url, s) \<Rightarrow>
                      (ReplyAccepted (pending_resource_response req async_resource_retry_after_ms),
                       s, Some (gq_resource_id req, source_url))
                  | (Pending, s) \<Rightarrow>
                      (ReplyAccepted (pending_resource_response req async_resource_retry_after_ms),
                       s, None)
                  | (Failed message, s) \<Rightarrow> (ReplyError Resource message, s, None)
                  | (Missing, s) \<Rightarrow>
                      (ReplyError Resource
                         (lit ''resource `'' @ gq_resource_id req @ lit ''` is not registered''),
                       s, None)))"

definition cache_error_message :: "ustring \<Rightarrow> cache_error \<Rightarrow> ustring" where
  "cache_error_message rid e =
     (case e of
        ResourceTooLarge n limit \<Rightarrow>
          lit ''resource `'' @ rid @ lit ''` is '' @ show_nat n @ lit '' bytes, exceeding the ''
          @ show_nat limit @ lit '' byte cache limit''
      | NotRegistered \<Rightarrow> lit ''resource `'' @ rid @ lit ''` is not registered'')"

text \<open>
  The task \<open>spawn_resource_fetch\<close> starts, once the provider has answered (\<open>fetched\<close>): cache
  the bytes, then record the end of the fetch.
\<close>

definition resource_fetch_task ::
  "resource_limits \<Rightarrow> nat \<Rightarrow> nat \<Rightarrow> nat \<Rightarrow> ustring \<Rightarrow> ustring + provider_resource
     \<Rightarrow> resource_state \<Rightarrow> resource_state" where
  "resource_fetch_task lim t1 t2 t3 rid fetched s =
     (case fetched of
        Inl message \<Rightarrow> finish_fetch t3 rid (Some message) s
      | Inr resource \<Rightarrow>
          (case cache_resource lim t1 t2 rid resource s of
             (Inr _, s) \<Rightarrow> finish_fetch t3 rid None s
           | (Inl e, s) \<Rightarrow> finish_fetch t3 rid (Some (cache_error_message rid e)) s))"

section \<open>The desktop client's assembler\<close>

definition ms :: "nat \<Rightarrow> nat" where "ms n = n * 1000000"

definition gui_chunk_bytes :: nat where "gui_chunk_bytes = 512 * 1024"
definition gui_max_resource_bytes :: nat where "gui_max_resource_bytes = 8 * 1024 * 1024"
definition gui_default_retry_ms :: nat where "gui_default_retry_ms = 75"
definition gui_min_retry_ms :: nat where "gui_min_retry_ms = 10"
definition gui_max_retry_ms :: nat where "gui_max_retry_ms = 1000"

datatype assembler_error =
    AlreadyComplete | WrongResource | UnknownTransferState int | PendingWithData
  | PendingMovedOffset | NotReady | TooManyBytes nat | TotalSizeChanged | ContentTypeChanged
  | OffsetOverflow | NotContiguous nat nat | BeyondTotal | NoProgress | CompleteFlagWrong
  | NotComplete | LengthMismatch

record resource_assembler =
  ra_resource_id :: ustring
  ra_total_size :: "nat option"
  ra_content_type :: "ustring option"
  ra_bytes :: "byte list"
  ra_complete :: bool

datatype resource_progress = ProgressPending nat | Incomplete | Complete

definition assembler_new :: "ustring \<Rightarrow> resource_assembler" where
  "assembler_new rid =
     \<lparr>ra_resource_id = rid, ra_total_size = None, ra_content_type = None, ra_bytes = [],
      ra_complete = False\<rparr>"

definition assembler_offset :: "resource_assembler \<Rightarrow> nat" where
  "assembler_offset a = length (ra_bytes a)"

definition clamp_retry :: "nat \<Rightarrow> nat" where
  "clamp_retry n =
     (if n = 0 then gui_default_retry_ms else max gui_min_retry_ms (min n gui_max_retry_ms))"

text \<open>
  \<open>push\<close>; a rejected response may already have fixed the total size and the content type,
  as in the code, so the assembler is returned beside the error.
\<close>

definition assembler_push_pending ::
  "get_resource_response \<Rightarrow> resource_assembler \<Rightarrow> assembler_error + resource_progress" where
  "assembler_push_pending r a =
     (if gr_complete r \<or> gr_data r \<noteq> [] then Inl PendingWithData
      else if gr_next_offset r \<noteq> assembler_offset a then Inl PendingMovedOffset
      else Inr (ProgressPending (ms (clamp_retry (gr_retry_after_ms r)))))"

definition assembler_push_data ::
  "get_resource_response \<Rightarrow> resource_assembler
     \<Rightarrow> (assembler_error + resource_progress) \<times> resource_assembler" where
  "assembler_push_data r a =
     (let offset = assembler_offset a;
          expected_next = offset + length (gr_data r)
      in if expected_next > u64_max then (Inl OffsetOverflow, a)
         else if gr_next_offset r \<noteq> expected_next
              then (Inl (NotContiguous expected_next (gr_next_offset r)), a)
         else if expected_next > gr_total_size r then (Inl BeyondTotal, a)
         else if \<not> gr_complete r \<and> gr_data r = [] then (Inl NoProgress, a)
         else if gr_complete r \<noteq> (expected_next = gr_total_size r) then (Inl CompleteFlagWrong, a)
         else (Inr (if gr_complete r then Complete else Incomplete),
               a\<lparr>ra_bytes := ra_bytes a @ gr_data r, ra_complete := gr_complete r\<rparr>))"

definition assembler_push ::
  "get_resource_response \<Rightarrow> resource_assembler
     \<Rightarrow> (assembler_error + resource_progress) \<times> resource_assembler" where
  "assembler_push r a =
     (if ra_complete a then (Inl AlreadyComplete, a)
      else if gr_resource_id r \<noteq> ra_resource_id a then (Inl WrongResource, a)
      else if gr_transfer_state r \<notin> {0, 1, 2}
           then (Inl (UnknownTransferState (gr_transfer_state r)), a)
      else if gr_transfer_state r = transfer_pending then (assembler_push_pending r a, a)
      else if gr_transfer_state r \<noteq> transfer_ready then (Inl NotReady, a)
      else if gr_total_size r > gui_max_resource_bytes then (Inl (TooManyBytes (gr_total_size r)), a)
      else if ra_total_size a \<noteq> None \<and> ra_total_size a \<noteq> Some (gr_total_size r)
           then (Inl TotalSizeChanged, a)
      else
        let a = a\<lparr>ra_total_size := Some (gr_total_size r)\<rparr>
        in if ra_content_type a \<noteq> None \<and> ra_content_type a \<noteq> Some (gr_content_type r)
           then (Inl ContentTypeChanged, a)
           else assembler_push_data r (a\<lparr>ra_content_type := Some (gr_content_type r)\<rparr>))"

definition assembler_finish :: "resource_assembler \<Rightarrow> assembler_error + byte list" where
  "assembler_finish a =
     (if \<not> ra_complete a then Inl NotComplete
      else if ra_total_size a \<noteq> Some (length (ra_bytes a)) then Inl LengthMismatch
      else Inr (ra_bytes a))"

section \<open>The polling loop\<close>

datatype download_error = DownloadTimedOut | RpcFailed ustring | Rejected assembler_error

text \<open>
  The loop of \<open>get_resource_bytes\<close>; the environment reads a clock, sleeps and performs one
  request. \<open>None\<close> is running out of fuel.
\<close>

fun download ::
  "('s \<Rightarrow> nat) \<Rightarrow> (nat \<Rightarrow> 's \<Rightarrow> 's) \<Rightarrow> ('s \<Rightarrow> nat \<Rightarrow> nat \<Rightarrow> (ustring + get_resource_response) \<times> 's)
     \<Rightarrow> nat \<Rightarrow> nat \<Rightarrow> nat \<Rightarrow> resource_assembler \<Rightarrow> 's \<Rightarrow> (download_error + byte list) option \<times> 's"
where
  "download clock sleep fetch deadline 0 pending_delay a s = (None, s)"
| "download clock sleep fetch deadline (Suc fuel) pending_delay a s =
     (if clock s \<ge> deadline then (Some (Inl DownloadTimedOut), s)
      else (case fetch s (assembler_offset a) gui_chunk_bytes of
        (Inl e, s) \<Rightarrow> (Some (Inl (RpcFailed e)), s)
      | (Inr r, s) \<Rightarrow>
          (case assembler_push r a of
             (Inl e, a) \<Rightarrow> (Some (Inl (Rejected e)), s)
           | (Inr (ProgressPending delay), a) \<Rightarrow>
               let pending_delay = (if pending_delay = 0 then delay
                                    else min (max (pending_delay * 2) delay) (ms gui_max_retry_ms));
                   remaining = deadline - clock s
               in if remaining = 0 then (Some (Inl DownloadTimedOut), s)
                  else download clock sleep fetch deadline fuel pending_delay a
                         (sleep (min pending_delay remaining) s)
           | (Inr Incomplete, a) \<Rightarrow> download clock sleep fetch deadline fuel 0 a s
           | (Inr Complete, a) \<Rightarrow>
               (Some (case assembler_finish a of Inl e \<Rightarrow> Inl (Rejected e) | Inr b \<Rightarrow> Inr b), s))))"

section \<open>The assembler is sound\<close>

definition assembler_inv :: "resource_assembler \<Rightarrow> bool" where
  "assembler_inv a \<longleftrightarrow>
     (ra_complete a \<longrightarrow> ra_total_size a = Some (length (ra_bytes a)))
     \<and> (ra_total_size a = None \<longrightarrow> ra_bytes a = [])
     \<and> (\<forall>t. ra_total_size a = Some t \<longrightarrow> length (ra_bytes a) \<le> t \<and> t \<le> gui_max_resource_bytes)"

lemma assembler_inv_new: "assembler_inv (assembler_new rid)"
  by (simp add: assembler_inv_def assembler_new_def)

text \<open>What a data response does: nothing, or it appends exactly its announced bytes.\<close>

lemma assembler_push_data_result:
  "(\<exists>e. assembler_push_data r a = (Inl e, a))
   \<or> (assembler_push_data r a =
        (Inr (if gr_complete r then Complete else Incomplete),
         a\<lparr>ra_bytes := ra_bytes a @ gr_data r, ra_complete := gr_complete r\<rparr>)
      \<and> length (ra_bytes a) + length (gr_data r) \<le> gr_total_size r
      \<and> gr_complete r = (length (ra_bytes a) + length (gr_data r) = gr_total_size r))"
  by (simp add: assembler_push_data_def Let_def assembler_offset_def)

lemma assembler_inv_push_data:
  assumes "ra_total_size a = Some (gr_total_size r)" and "length (ra_bytes a) \<le> gr_total_size r"
    and "gr_total_size r \<le> gui_max_resource_bytes" and "\<not> ra_complete a"
  shows "assembler_inv (snd (assembler_push_data r a))"
  using assembler_push_data_result [of r a] assms by (auto simp: assembler_inv_def)

text \<open>The guards of \<open>push\<close> a data response has to pass.\<close>

definition data_accepted :: "get_resource_response \<Rightarrow> resource_assembler \<Rightarrow> bool" where
  "data_accepted r a \<longleftrightarrow>
     \<not> ra_complete a \<and> gr_resource_id r = ra_resource_id a \<and> gr_transfer_state r = transfer_ready
     \<and> gr_total_size r \<le> gui_max_resource_bytes
     \<and> (ra_total_size a = None \<or> ra_total_size a = Some (gr_total_size r))
     \<and> (ra_content_type a = None \<or> ra_content_type a = Some (gr_content_type r))"

lemma assembler_push_accepted:
  "data_accepted r a \<Longrightarrow> assembler_push r a =
     assembler_push_data r (a\<lparr>ra_total_size := Some (gr_total_size r),
                              ra_content_type := Some (gr_content_type r)\<rparr>)"
  by (auto simp: data_accepted_def assembler_push_def Let_def transfer_ready_def transfer_pending_def)

lemma assembler_push_refused:
  "\<not> data_accepted r a \<Longrightarrow> snd (assembler_push r a) = a \<or>
     (\<not> ra_complete a \<and> gr_total_size r \<le> gui_max_resource_bytes
      \<and> (ra_total_size a = None \<or> ra_total_size a = Some (gr_total_size r))
      \<and> snd (assembler_push r a) = a\<lparr>ra_total_size := Some (gr_total_size r)\<rparr>)"
  unfolding data_accepted_def assembler_push_def Let_def
  by (cases "ra_content_type a = None \<or> ra_content_type a = Some (gr_content_type r)") auto

lemma assembler_inv_push:
  assumes "assembler_inv a"
  shows "assembler_inv (snd (assembler_push r a))"
proof (cases "data_accepted r a")
  case True
  have "assembler_inv (snd (assembler_push_data r (a\<lparr>ra_total_size := Some (gr_total_size r),
      ra_content_type := Some (gr_content_type r)\<rparr>)))"
    using True assms by (intro assembler_inv_push_data) (auto simp: data_accepted_def assembler_inv_def)
  then show ?thesis using assembler_push_accepted [OF True] by simp
next
  case False
  from assembler_push_refused [OF this] show ?thesis
  proof
    assume "snd (assembler_push r a) = a"
    with assms show ?thesis by simp
  qed (use assms in \<open>auto simp: assembler_inv_def\<close>)
qed

interpretation assembler: invariant_system "assembler_new rid"
    "\<lambda>r a. snd (assembler_push r a)" assembler_inv for rid
  by unfold_locales (auto intro: assembler_inv_new assembler_inv_push)

text \<open>
  Also: Whatever responses a server sends, the client never holds more than the 8 MiB limit,
  and when the assembler reports the transfer complete, finishing it succeeds with exactly
  the declared number of bytes: the length check of \<open>finish\<close> can never fail.
\<close>

theorem assembler_bounded_and_total:
  "(let a = fold (\<lambda>r a. snd (assembler_push r a)) rs (assembler_new rid)
    in length (ra_bytes a) \<le> 8 * 1024 * 1024
     \<and> assembler_finish a =
         (if ra_complete a then Inr (ra_bytes a) else Inl NotComplete)
     \<and> (ra_complete a = (ra_complete a \<and> ra_total_size a = Some (length (ra_bytes a)))))"
proof -
  have "assembler_inv (fold (\<lambda>r a. snd (assembler_push r a)) rs (assembler_new rid))"
    by (rule assembler.inv_run)
  then show ?thesis
    by (auto simp: Let_def assembler_inv_def assembler_finish_def gui_max_resource_bytes_def
        split: option.splits)
qed

section \<open>The chunk protocol\<close>

text \<open>The response a byte-range server owes the client for one offset.\<close>

definition serves_chunk ::
  "ustring \<Rightarrow> ustring \<Rightarrow> byte list \<Rightarrow> nat \<Rightarrow> get_resource_response \<Rightarrow> bool" where
  "serves_chunk rid ctype bytes off r \<longleftrightarrow>
     gr_resource_id r = rid \<and> gr_content_type r = ctype
     \<and> gr_data r = take gui_chunk_bytes (drop off bytes) \<and> gr_total_size r = length bytes
     \<and> gr_next_offset r = min (off + gui_chunk_bytes) (length bytes)
     \<and> gr_complete r = (length bytes \<le> off + gui_chunk_bytes)
     \<and> gr_transfer_state r = transfer_ready"

definition chunks_left :: "byte list \<Rightarrow> nat \<Rightarrow> nat" where
  "chunks_left bytes off = (length bytes - off) div gui_chunk_bytes + 1"

text \<open>
  The interface between the client's loop and a server of byte ranges: while the server is
  \<open>alive\<close> for some more requests it answers in time with the right chunk.
\<close>

locale chunk_server =
  fixes fetch :: "'s \<Rightarrow> nat \<Rightarrow> nat \<Rightarrow> (ustring + get_resource_response) \<times> 's"
    and clock :: "'s \<Rightarrow> nat"
    and deadline :: nat
    and bytes :: "byte list"
    and rid :: ustring
    and ctype :: ustring
    and alive :: "nat \<Rightarrow> 's \<Rightarrow> bool"
  assumes alive_clock: "alive (Suc k) s \<Longrightarrow> clock s < deadline"
    and alive_chunk: "\<lbrakk>alive (Suc k) s; off \<le> length bytes\<rbrakk> \<Longrightarrow>
      \<exists>r s'. fetch s off gui_chunk_bytes = (Inr r, s') \<and> alive k s' \<and> serves_chunk rid ctype bytes off r"
begin

definition receiving :: "nat \<Rightarrow> resource_assembler \<Rightarrow> bool" where
  "receiving off a \<longleftrightarrow>
     ra_resource_id a = rid \<and> \<not> ra_complete a \<and> ra_bytes a = take off bytes
     \<and> off \<le> length bytes \<and> (off < length bytes \<or> bytes = [])
     \<and> (ra_total_size a = None \<or> ra_total_size a = Some (length bytes))
     \<and> (ra_content_type a = None \<or> ra_content_type a = Some ctype)"

lemma receiving_push:
  assumes "receiving off a" and "serves_chunk rid ctype bytes off r"
    and "length bytes \<le> gui_max_resource_bytes"
  shows "assembler_push r a =
    (Inr (if length bytes \<le> off + gui_chunk_bytes then Complete else Incomplete),
     a\<lparr>ra_total_size := Some (length bytes), ra_content_type := Some ctype,
       ra_bytes := take (off + gui_chunk_bytes) bytes,
       ra_complete := (length bytes \<le> off + gui_chunk_bytes)\<rparr>)"
proof -
  have len: "off + length (gr_data r) = min (off + gui_chunk_bytes) (length bytes)"
    using assms(1,2) by (auto simp: receiving_def serves_chunk_def min_def)
  have app: "take off bytes @ gr_data r = take (off + gui_chunk_bytes) bytes"
    using assms(2) by (simp add: serves_chunk_def take_add)
  have ne: "gr_complete r \<or> gr_data r \<noteq> []"
    using assms(1,2) by (auto simp: receiving_def serves_chunk_def gui_chunk_bytes_def)
  have acc: "data_accepted r a"
    using assms by (auto simp: data_accepted_def receiving_def serves_chunk_def)
  let ?a = "a\<lparr>ra_total_size := Some (length bytes), ra_content_type := Some ctype\<rparr>"
  have off: "assembler_offset ?a = off"
    using assms(1) by (auto simp: assembler_offset_def receiving_def)
  have r: "gr_total_size r = length bytes" "gr_content_type r = ctype"
    "gr_next_offset r = off + length (gr_data r)"
    "gr_complete r = (length bytes \<le> off + gui_chunk_bytes)"
    using assms(2) len by (simp_all add: serves_chunk_def)
  have c: "gr_complete r = (off + length (gr_data r) = length bytes)"
    using len r(4) by (auto simp: min_def split: if_splits)
  have le: "off + length (gr_data r) \<le> length bytes" using len by simp
  have u: "off + length (gr_data r) \<le> u64_max"
    using le assms(3) by (simp add: u64_max_def gui_max_resource_bytes_def)
  have "assembler_push_data r ?a = (Inr (if gr_complete r then Complete else Incomplete),
      ?a\<lparr>ra_bytes := ra_bytes a @ gr_data r, ra_complete := gr_complete r\<rparr>)"
    unfolding assembler_push_data_def off Let_def using u le ne c r(1,3) by simp
  then show ?thesis
    using assembler_push_accepted [OF acc] r app assms(1) by (simp add: receiving_def)
qed

lemma download_all:
  "\<lbrakk>receiving off a; alive (chunks_left bytes off) s; length bytes \<le> gui_max_resource_bytes;
    chunks_left bytes off \<le> fuel\<rbrakk> \<Longrightarrow>
     fst (download clock sleep fetch deadline fuel pd a s) = Some (Inr bytes)"
proof (induction fuel arbitrary: off a s pd)
  case 0
  then show ?case by (simp add: chunks_left_def)
next
  case (Suc fuel)
  define k where "k = (length bytes - off) div gui_chunk_bytes"
  have al: "alive (Suc k) s" using Suc.prems(2) by (simp add: chunks_left_def k_def)
  have off: "off \<le> length bytes" "assembler_offset a = off"
    using Suc.prems(1) by (auto simp: receiving_def assembler_offset_def)
  obtain r s' where f: "fetch s off gui_chunk_bytes = (Inr r, s')" "alive k s'"
    "serves_chunk rid ctype bytes off r"
    using alive_chunk [OF al off(1)] by blast
  note push = receiving_push [OF Suc.prems(1) f(3) Suc.prems(3)]
  have clk: "\<not> clock s \<ge> deadline" using alive_clock [OF al] by simp
  show ?case
  proof (cases "length bytes \<le> off + gui_chunk_bytes")
    case True
    then show ?thesis using clk f push off by (simp add: assembler_finish_def)
  next
    case False
    let ?a = "a\<lparr>ra_total_size := Some (length bytes), ra_content_type := Some ctype,
       ra_bytes := take (off + gui_chunk_bytes) bytes, ra_complete := False\<rparr>"
    have "receiving (off + gui_chunk_bytes) ?a"
      using Suc.prems(1) False by (simp add: receiving_def)
    moreover have left: "chunks_left bytes (off + gui_chunk_bytes) = k"
      using False le_div_geq [of gui_chunk_bytes "length bytes - off"]
      by (simp add: chunks_left_def k_def gui_chunk_bytes_def)
    moreover have "k \<le> fuel" using Suc.prems(4) by (simp add: chunks_left_def k_def)
    ultimately have "fst (download clock sleep fetch deadline fuel 0 ?a s') = Some (Inr bytes)"
      using Suc.IH [of "off + gui_chunk_bytes" ?a s' 0] f(2) Suc.prems(3) by simp
    then show ?thesis using clk f push off False by simp
  qed
qed

lemma download_from_start:
  assumes "alive (chunks_left bytes 0) s" and "length bytes \<le> gui_max_resource_bytes"
    and "chunks_left bytes 0 \<le> fuel"
  shows "fst (download clock sleep fetch deadline fuel 0 (assembler_new rid) s) = Some (Inr bytes)"
  by (rule download_all [OF _ assms]) (auto simp: receiving_def assembler_new_def)

end

section \<open>The engine serves the protocol\<close>

text \<open>
  One request of the client to the engine's handler, each taking \<open>dt\<close>; the state is the
  resource manager and the clock.
\<close>

definition engine_fetch ::
  "nat \<Rightarrow> ustring \<Rightarrow> resource_state \<times> nat \<Rightarrow> nat \<Rightarrow> nat
     \<Rightarrow> (ustring + get_resource_response) \<times> resource_state \<times> nat" where
  "engine_fetch dt rid st off n =
     (case handle_get_resource (snd st)
             (\<lambda>_. Inr \<lparr>gq_resource_id = rid, gq_offset = off, gq_max_bytes = n\<rparr>) [] (fst st) of
        (ReplyOk r, s, _) \<Rightarrow> (Inr r, s, snd st + dt)
      | (ReplyAccepted r, s, _) \<Rightarrow> (Inr r, s, snd st + dt)
      | (ReplyError code message, s, _) \<Rightarrow> (Inl message, s, snd st + dt))"

definition resource_served :: "ustring \<Rightarrow> provider_resource \<Rightarrow> nat \<Rightarrow> resource_state \<Rightarrow> bool" where
  "resource_served rid res expiry s \<longleftrightarrow>
     hget (registrations s) rid \<noteq> None
     \<and> (case hget (cache s) rid of
           None \<Rightarrow> False | Some e \<Rightarrow> ce_resource e = res \<and> ce_expires_at e = expiry)"

definition resource_alive ::
  "nat \<Rightarrow> ustring \<Rightarrow> provider_resource \<Rightarrow> nat \<Rightarrow> nat \<Rightarrow> nat \<Rightarrow> resource_state \<times> nat \<Rightarrow> bool" where
  "resource_alive dt rid res deadline expiry k st \<longleftrightarrow>
     trim rid \<noteq> [] \<and> length (res_bytes res) \<le> u64_max - gui_chunk_bytes
     \<and> resource_served rid res expiry (fst st)
     \<and> snd st + k * dt < min expiry deadline"

lemma begin_fetch_served:
  assumes "resource_served rid res expiry s" and "now < expiry"
  shows "\<exists>t. begin_fetch now rid s = (Ready res, t) \<and> resource_served rid res expiry t"
  using assms
  by (auto simp: resource_served_def begin_fetch_def next_sequence_def drop_expired_entry_def Let_def
      split: option.splits)

lemma resource_chunk_serves:
  assumes "off \<le> length bytes" and "length bytes \<le> u64_max - gui_chunk_bytes"
  shows "\<exists>r. resource_chunk \<lparr>gq_resource_id = rid, gq_offset = off, gq_max_bytes = n\<rparr> ctype bytes
               gui_chunk_bytes = Inr r
           \<and> serves_chunk rid ctype bytes off (r\<lparr>gr_cache_hit := hit\<rparr>)"
proof -
  have "sat_add off gui_chunk_bytes = off + gui_chunk_bytes"
    using assms by (intro sat_add_exact) (simp add: gui_chunk_bytes_def u64_max_def)
  then show ?thesis
    using assms(1) by (auto simp: resource_chunk_def serves_chunk_def Let_def min_def)
qed

lemma engine_fetch_chunk:
  assumes "resource_alive dt rid res deadline expiry (Suc k) st" and "off \<le> length (res_bytes res)"
  shows "\<exists>r st'. engine_fetch dt rid st off gui_chunk_bytes = (Inr r, st')
           \<and> resource_alive dt rid res deadline expiry k st'
           \<and> serves_chunk rid (res_content_type res) (res_bytes res) off r"
proof -
  have sv: "resource_served rid res expiry (fst st)" and now: "snd st < expiry"
    and tr: "trim rid \<noteq> []" and len: "length (res_bytes res) \<le> u64_max - gui_chunk_bytes"
    and t: "snd st + dt + k * dt < min expiry deadline"
    using assms(1) by (auto simp: resource_alive_def)
  obtain t where t': "begin_fetch (snd st) rid (fst st) = (Ready res, t)"
    "resource_served rid res expiry t"
    using begin_fetch_served [OF sv now] by blast
  obtain r where r: "resource_chunk \<lparr>gq_resource_id = rid, gq_offset = off, gq_max_bytes = gui_chunk_bytes\<rparr>
      (res_content_type res) (res_bytes res) gui_chunk_bytes = Inr r"
    "serves_chunk rid (res_content_type res) (res_bytes res) off (r\<lparr>gr_cache_hit := True\<rparr>)"
    using resource_chunk_serves [OF assms(2) len] by blast
  have "gui_chunk_bytes \<noteq> 0" "\<not> gui_chunk_bytes > max_resource_chunk_bytes"
    by (simp_all add: gui_chunk_bytes_def max_resource_chunk_bytes_def)
  then have "engine_fetch dt rid st off gui_chunk_bytes
      = (Inr (r\<lparr>gr_cache_hit := True\<rparr>), t, snd st + dt)"
    using tr t'(1) r(1) by (simp add: engine_fetch_def handle_get_resource_def)
  with r(2) t'(2) tr len t show ?thesis by (auto simp: resource_alive_def)
qed

interpretation engine_chunks: chunk_server "engine_fetch dt rid" snd deadline "res_bytes res" rid
    "res_content_type res" "resource_alive dt rid res deadline expiry" for dt rid res deadline expiry
proof unfold_locales
  fix k and st :: "resource_state \<times> nat"
  assume "resource_alive dt rid res deadline expiry (Suc k) st"
  then show "snd st < deadline" by (simp add: resource_alive_def)
qed (rule engine_fetch_chunk)

text \<open>
  C12: The transfer is lossless end to end: when a resource of at most 8 MiB is cached, the
  client's loop against the engine's handler returns exactly the cached bytes, reassembled
  from 512 KiB ranges, provided neither the entry expires nor the transfer deadline passes
  during the required number of requests.
\<close>

theorem resource_transfer_lossless:
  assumes "trim rid \<noteq> []" and "hget (registrations s) rid = Some r"
    and "hget (cache s) rid = Some e"
    and "length (res_bytes (ce_resource e)) \<le> gui_max_resource_bytes"
    and "now + chunks_left (res_bytes (ce_resource e)) 0 * dt < min (ce_expires_at e) deadline"
    and "chunks_left (res_bytes (ce_resource e)) 0 \<le> fuel"
  shows "fst (download snd sleep (engine_fetch dt rid) deadline fuel 0 (assembler_new rid) (s, now))
    = Some (Inr (res_bytes (ce_resource e)))"
proof -
  have "resource_alive dt rid (ce_resource e) deadline (ce_expires_at e)
      (chunks_left (res_bytes (ce_resource e)) 0) (s, now)"
    using assms by (simp add: resource_alive_def resource_served_def gui_max_resource_bytes_def
        u64_max_def gui_chunk_bytes_def)
  from engine_chunks.download_from_start [OF this assms(4,6)] show ?thesis .
qed

theorem resource_transfer_lossless_witness:
  "fst (download snd (\<lambda>d st. (fst st, snd st + d)) (engine_fetch 10 (lit ''r'')) 1000 3 0
      (assembler_new (lit ''r''))
      (sample_resource_state\<lparr>cache := [(lit ''r'',
         \<lparr>ce_resource = \<lparr>res_content_type = lit ''t'', res_bytes = [1, 2, 3]\<rparr>,
          ce_expires_at = 100, ce_last_used = 0\<rparr>)]\<rparr>, 5))
   = Some (Inr [1, 2, 3])"
proof -
  let ?s = "sample_resource_state\<lparr>cache := [(lit ''r'',
         \<lparr>ce_resource = \<lparr>res_content_type = lit ''t'', res_bytes = [1, 2, 3]\<rparr>,
          ce_expires_at = 100, ce_last_used = 0\<rparr>)]\<rparr>"
  have tr: "trim (lit ''r'') \<noteq> []" by (simp add: trim_def is_whitespace_def)
  show ?thesis
    using resource_transfer_lossless [OF tr, of ?s "\<lparr>rg_source_url = lit ''u'', rg_last_used = 1\<rparr>"
        "\<lparr>ce_resource = \<lparr>res_content_type = lit ''t'', res_bytes = [1, 2, 3]\<rparr>,
          ce_expires_at = 100, ce_last_used = 0\<rparr>" 5 10 1000 3 "\<lambda>d st. (fst st, snd st + d)"]
    by (simp add: sample_resource_state_def chunks_left_def gui_chunk_bytes_def
        gui_max_resource_bytes_def)
qed

section \<open>The spawned fetch\<close>

text \<open>
  Also: Every spawned fetch ends its pending state, however it went: afterwards the resource
  is not pending, and the next request within the retry window gets the bytes when they were
  cached and the provider's or the cache's error otherwise.
\<close>

theorem fetch_task_settles:
  assumes "resource_inv lim s" and "hget (registrations s) rid = Some r"
    and "hget (cache s) rid = None" and "now < t3 + failed_fetch_ttl" and "now < t2 + rm_ttl lim"
  shows "hget (fetches (resource_fetch_task lim t1 t2 t3 rid fetched s)) rid \<noteq> Some FetchPending
    \<and> fst (begin_fetch now rid (resource_fetch_task lim t1 t2 t3 rid fetched s)) =
      (case fetched of
         Inl message \<Rightarrow> Failed message
       | Inr res \<Rightarrow>
           if length (res_bytes res) > rm_max_bytes lim
           then Failed (cache_error_message rid
                          (ResourceTooLarge (length (res_bytes res)) (rm_max_bytes lim)))
           else Ready res)"
proof (cases fetched)
  case (Inl message)
  with begin_fetch_after_failure [OF assms(2,3), of now t3 message] assms show ?thesis
    by (simp add: resource_fetch_task_def finish_fetch_def)
next
  case (Inr res)
  show ?thesis
  proof (cases "length (res_bytes res) > rm_max_bytes lim")
    case True
    then have "cache_resource lim t1 t2 rid res s =
        (Inl (ResourceTooLarge (length (res_bytes res)) (rm_max_bytes lim)), s)"
      by (simp add: cache_resource_def)
    with begin_fetch_after_failure [OF assms(2,3), of now t3] assms Inr True show ?thesis
      by (simp add: resource_fetch_task_def finish_fetch_def)
  next
    case False
    then obtain t where t: "cache_resource lim t1 t2 rid res s = (Inr (), t)"
      using assms(2) by (simp add: cache_resource_def Let_def next_sequence_def)
    from cached_resource_post [OF assms(1) t] have
      c: "hget (registrations t) rid = Some r"
         "hget (cache t) rid = Some e \<Longrightarrow> True" for e
      using assms(2) by auto
    obtain e where e: "hget (cache t) rid = Some e" "ce_resource e = res"
      "ce_expires_at e = t2 + rm_ttl lim"
      using cached_resource_post [OF assms(1) t] by blast
    have "resource_fetch_task lim t1 t2 t3 rid fetched s = t\<lparr>fetches := hdel rid (fetches t)\<rparr>"
      using Inr t c(1) by (simp add: resource_fetch_task_def finish_fetch_def)
    with e c(1) Inr False assms(5) show ?thesis
      by (simp add: begin_fetch_def next_sequence_def drop_expired_entry_def)
  qed
qed

lemma fetch_task_settles_witness:
  "fst (begin_fetch 5 (lit ''r'') (resource_fetch_task small_limits 1 2 3 (lit ''r'')
       (Inl (lit ''down'')) sample_resource_state)) = Failed (lit ''down'')
   \<and> fst (begin_fetch 5 (lit ''r'') (resource_fetch_task small_limits 1 2 3 (lit ''r'')
       (Inr \<lparr>res_content_type = [], res_bytes = [1, 2]\<rparr>) sample_resource_state))
     = Ready \<lparr>res_content_type = [], res_bytes = [1, 2]\<rparr>"
proof -
  obtain r where r: "hget (registrations sample_resource_state) (lit ''r'') = Some r"
    by (simp add: sample_resource_state_def)
  have c: "hget (cache sample_resource_state) (lit ''r'') = None"
    by (simp add: sample_resource_state_def)
  have t: "(5 :: nat) < 3 + failed_fetch_ttl" "(5 :: nat) < 2 + rm_ttl small_limits"
    by (simp_all add: failed_fetch_ttl_def small_limits_def)
  from fetch_task_settles [OF sample_resource_inv r c t, of 1 "Inl (lit ''down'')"]
    fetch_task_settles [OF sample_resource_inv r c t, of 1 "Inr \<lparr>res_content_type = [], res_bytes = [1, 2]\<rparr>"]
  show ?thesis by (simp add: small_limits_def del: list.map)
qed

end
