(* ===== verification/Single_Flight.thy ===== *)
theory Single_Flight
  imports Prelude "HOL-Library.Multiset"
begin

text \<open>
  Request coalescing (\<^verbatim>\<open>weather-core/engine/src/singleflight.rs\<close>): a table of flights
  with participant counts, leases that join and leave a flight, and the write-once cell that
  holds a flight's result. A flight is identified by the number of its allocation
  (\<open>Arc::ptr_eq\<close>); a work's result is already the shared value or the formatted error.
  Concurrency is interleaving: every locked section and every cell initialisation is one
  step of a world that also records which leases are held.
\<close>

section \<open>The flight table\<close>

record flight_entry =
  fe_flight :: nat
  fe_participants :: nat

record ('k, 'v) sf_state =
  sf_flights :: "('k, flight_entry) hmap"
  sf_cells :: "nat \<Rightarrow> (ustring + 'v) option"
  sf_next :: nat

type_synonym 'k lease = "'k \<times> nat"

definition sf_new :: "('k, 'v) sf_state" where
  "sf_new = \<lparr>sf_flights = [], sf_cells = (\<lambda>_. None), sf_next = 0\<rparr>"

definition sf_join :: "'k \<Rightarrow> ('k, 'v) sf_state \<Rightarrow> 'k lease \<times> ('k, 'v) sf_state" where
  "sf_join key s =
     (case hget (sf_flights s) key of
        Some entry \<Rightarrow>
          ((key, fe_flight entry),
           s\<lparr>sf_flights := hput key (entry\<lparr>fe_participants := fe_participants entry + 1\<rparr>)
                            (sf_flights s)\<rparr>)
      | None \<Rightarrow>
          ((key, sf_next s),
           s\<lparr>sf_flights := hput key \<lparr>fe_flight = sf_next s, fe_participants = 1\<rparr> (sf_flights s),
             sf_next := sf_next s + 1\<rparr>))"

text \<open>\<open>Drop for FlightLease\<close>: only the entry of the lease's own flight is counted down.\<close>

definition sf_drop :: "'k lease \<Rightarrow> ('k, 'v) sf_state \<Rightarrow> ('k, 'v) sf_state" where
  "sf_drop lease s =
     (case hget (sf_flights s) (fst lease) of
        None \<Rightarrow> s
      | Some entry \<Rightarrow>
          if fe_flight entry = snd lease then
            let participants = fe_participants entry - 1;
                s = s\<lparr>sf_flights := hput (fst lease) (entry\<lparr>fe_participants := participants\<rparr>)
                                     (sf_flights s)\<rparr>
            in if participants = 0 then s\<lparr>sf_flights := hdel (fst lease) (sf_flights s)\<rparr> else s
          else s)"

text \<open>\<open>OnceCell::get_or_init\<close>: the first finished initialiser decides.\<close>

definition sf_get_or_init ::
  "'k lease \<Rightarrow> ustring + 'v \<Rightarrow> ('k, 'v) sf_state \<Rightarrow> (ustring + 'v) \<times> ('k, 'v) sf_state" where
  "sf_get_or_init lease work s =
     (case sf_cells s (snd lease) of
        Some r \<Rightarrow> (r, s)
      | None \<Rightarrow> (work, s\<lparr>sf_cells := (sf_cells s)(snd lease := Some work)\<rparr>))"

text \<open>
  \<open>run\<close> without interference: join, initialise, clone the result, leave.
\<close>

definition sf_run :: "'k \<Rightarrow> ustring + 'v \<Rightarrow> ('k, 'v) sf_state \<Rightarrow> (ustring + 'v) \<times> ('k, 'v) sf_state" where
  "sf_run key work s =
     (let (lease, s) = sf_join key s;
          (result, s) = sf_get_or_init lease work s
      in (result, sf_drop lease s))"

section \<open>Interleaved callers\<close>

record ('k, 'v) sf_world =
  sw_table :: "('k, 'v) sf_state"
  sw_leases :: "'k lease multiset"

text \<open>
  A caller joins; the holder of a lease whose initialiser finished fills the cell (a
  cancelled initialiser never does); a holder leaves, having been answered or cancelled.
\<close>

datatype ('k, 'v) sf_event =
    SfJoin 'k
  | SfFinish "'k lease" "ustring + 'v"
  | SfLeave "'k lease"

fun sf_step :: "('k, 'v) sf_event \<Rightarrow> ('k, 'v) sf_world \<Rightarrow> ('k, 'v) sf_world" where
  "sf_step (SfJoin key) w =
     (let (lease, s) = sf_join key (sw_table w)
      in \<lparr>sw_table = s, sw_leases = add_mset lease (sw_leases w)\<rparr>)"
| "sf_step (SfFinish lease work) w =
     (if lease \<in># sw_leases w
      then w\<lparr>sw_table := snd (sf_get_or_init lease work (sw_table w))\<rparr> else w)"
| "sf_step (SfLeave lease) w =
     (if lease \<in># sw_leases w
      then \<lparr>sw_table = sf_drop lease (sw_table w), sw_leases = sw_leases w - {#lease#}\<rparr> else w)"

definition sf_world_init :: "('k, 'v) sf_world" where
  "sf_world_init = \<lparr>sw_table = sf_new, sw_leases = {#}\<rparr>"

text \<open>
  A flight is in the table exactly while leases on it are held, it counts them exactly, and
  no lease refers to another flight than the table's; unused numbers have empty cells.
\<close>

definition sf_participants :: "('k, 'v) sf_state \<Rightarrow> 'k lease \<Rightarrow> nat" where
  "sf_participants s lease =
     (case hget (sf_flights s) (fst lease) of
        None \<Rightarrow> 0
      | Some e \<Rightarrow> if fe_flight e = snd lease then fe_participants e else 0)"

definition sf_table_ok :: "('k, 'v) sf_state \<Rightarrow> bool" where
  "sf_table_ok s \<longleftrightarrow>
     (\<forall>k e. hget (sf_flights s) k = Some e \<longrightarrow> 0 < fe_participants e \<and> fe_flight e < sf_next s)
     \<and> (\<forall>f. sf_next s \<le> f \<longrightarrow> sf_cells s f = None)
     \<and> (\<forall>k k' e e'. hget (sf_flights s) k = Some e \<longrightarrow> hget (sf_flights s) k' = Some e' \<longrightarrow>
           fe_flight e = fe_flight e' \<longrightarrow> k = k')"

definition sf_inv :: "('k, 'v) sf_world \<Rightarrow> bool" where
  "sf_inv w \<longleftrightarrow>
     sf_table_ok (sw_table w) \<and> (\<forall>l. count (sw_leases w) l = sf_participants (sw_table w) l)"

lemma participants_join:
  "sf_participants (snd (sf_join k s)) l =
     sf_participants s l + (if l = fst (sf_join k s) then 1 else 0)"
  by (cases l) (auto simp: sf_participants_def sf_join_def split: option.split)

lemma participants_drop:
  "sf_participants (sf_drop l s) l' = sf_participants s l' - (if l' = l then 1 else 0)"
  by (cases l; cases l') (auto simp: sf_participants_def sf_drop_def Let_def split: option.split)

lemma participants_get_or_init [simp]:
  "sf_participants (snd (sf_get_or_init l work s)) l' = sf_participants s l'"
  by (simp add: sf_participants_def sf_get_or_init_def split: option.split)

lemma sf_inv_lease:
  assumes "sf_inv w" and "(k, f) \<in># sw_leases w"
  shows "\<exists>e. hget (sf_flights (sw_table w)) k = Some e \<and> fe_flight e = f"
proof -
  have "count (sw_leases w) (k, f) \<noteq> 0" using assms(2) by simp
  with assms(1) have "sf_participants (sw_table w) (k, f) \<noteq> 0" by (simp add: sf_inv_def)
  then show ?thesis by (auto simp: sf_participants_def split: option.splits if_splits)
qed

lemma table_ok_join:
  assumes "sf_table_ok s"
  shows "sf_table_ok (snd (sf_join key s))"
proof (cases "hget (sf_flights s) key")
  case None
  have old: "hget (sf_flights s) k = Some e \<Longrightarrow> 0 < fe_participants e \<and> fe_flight e < sf_next s" for k e
    using assms by (simp add: sf_table_ok_def)
  have uniq: "hget (sf_flights s) k = Some e \<Longrightarrow> hget (sf_flights s) k' = Some e' \<Longrightarrow>
      fe_flight e = fe_flight e' \<Longrightarrow> k = k'" for k k' e e'
    using assms by (simp add: sf_table_ok_def)
  have cells: "sf_next s \<le> f \<Longrightarrow> sf_cells s f = None" for f
    using assms by (simp add: sf_table_ok_def)
  from None show ?thesis
    unfolding sf_table_ok_def
    by (auto simp: sf_join_def less_Suc_eq cells dest: old uniq)
next
  case (Some e)
  with assms show ?thesis by (auto simp: sf_table_ok_def sf_join_def)
qed

lemma table_ok_drop:
  assumes "sf_table_ok s"
  shows "sf_table_ok (sf_drop l s)"
proof (cases "hget (sf_flights s) (fst l)")
  case None
  with assms show ?thesis by (simp add: sf_drop_def)
next
  case (Some e)
  have old: "hget (sf_flights s) k = Some e \<Longrightarrow> 0 < fe_participants e \<and> fe_flight e < sf_next s" for k e
    using assms by (simp add: sf_table_ok_def)
  have uniq: "hget (sf_flights s) k = Some e \<Longrightarrow> hget (sf_flights s) k' = Some e' \<Longrightarrow>
      fe_flight e = fe_flight e' \<Longrightarrow> k = k'" for k k' e e'
    using assms by (simp add: sf_table_ok_def)
  have cells: "sf_next s \<le> f \<Longrightarrow> sf_cells s f = None" for f
    using assms by (simp add: sf_table_ok_def)
  from old [OF Some] have "fe_flight e < sf_next s" by simp
  with Some show ?thesis
    unfolding sf_table_ok_def
    by (auto simp: sf_drop_def Let_def cells dest: old uniq)
qed

lemma sf_inv_init: "sf_inv sf_world_init"
  by (simp add: sf_inv_def sf_table_ok_def sf_world_init_def sf_new_def sf_participants_def)

lemma sf_inv_finish:
  assumes "sf_inv w"
  shows "sf_inv (sf_step (SfFinish lease work) w)"
proof (cases "lease \<in># sw_leases w")
  case True
  obtain k f where l: "lease = (k, f)" by (cases lease)
  from sf_inv_lease [OF assms True [unfolded l]] assms have "f < sf_next (sw_table w)"
    by (auto simp: sf_inv_def sf_table_ok_def)
  with assms True l show ?thesis
    by (auto simp: sf_inv_def sf_table_ok_def sf_get_or_init_def sf_participants_def
        split: option.split)
qed (use assms in simp)

lemma sf_inv_step:
  assumes "sf_inv w"
  shows "sf_inv (sf_step ev w)"
proof (cases ev)
  case (SfJoin k)
  with assms show ?thesis
    using table_ok_join [of "sw_table w" k] participants_join [of k "sw_table w"]
    by (simp add: sf_inv_def case_prod_beta)
next
  case (SfFinish l work)
  with assms show ?thesis using sf_inv_finish by blast
next
  case (SfLeave l)
  with assms show ?thesis
    using table_ok_drop [of "sw_table w" l]
    by (auto simp: sf_inv_def participants_drop)
qed

interpretation singleflight: invariant_system sf_world_init sf_step sf_inv
  by unfold_locales (rule sf_inv_init, rule sf_inv_step)

section \<open>What callers observe\<close>

text \<open>
  Also: The flight table never leaks and never forgets: in every reachable world a key has a
  flight exactly while some caller holds a lease on it, the entry counts those leases
  exactly, and when the last caller leaves the entry is gone.
\<close>

theorem flights_match_leases:
  "(let w = fold sf_step es sf_world_init
    in (hget (sf_flights (sw_table w)) k = None) = (\<forall>f. (k, f) \<notin># sw_leases w)
     \<and> (\<forall>f. count (sw_leases w) (k, f) = sf_participants (sw_table w) (k, f)))"
proof -
  let ?w = "fold sf_step es sf_world_init"
  have inv: "sf_inv ?w" by (rule singleflight.inv_run)
  then have cnt: "count (sw_leases ?w) l = sf_participants (sw_table ?w) l" for l
    unfolding sf_inv_def by blast
  have "(hget (sf_flights (sw_table ?w)) k = None) = (\<forall>f. (k, f) \<notin># sw_leases ?w)"
  proof
    assume "hget (sf_flights (sw_table ?w)) k = None"
    then show "\<forall>f. (k, f) \<notin># sw_leases ?w"
      using sf_inv_lease [OF inv] by fastforce
  next
    assume none: "\<forall>f. (k, f) \<notin># sw_leases ?w"
    show "hget (sf_flights (sw_table ?w)) k = None"
    proof (cases "hget (sf_flights (sw_table ?w)) k")
      case (Some e)
      with inv have "0 < fe_participants e" by (auto simp: sf_inv_def sf_table_ok_def)
      with Some have "0 < count (sw_leases ?w) (k, fe_flight e)"
        by (simp add: cnt sf_participants_def)
      with none show ?thesis by simp
    qed
  qed
  with cnt show ?thesis by (simp add: Let_def)
qed

text \<open>Callers of one key that overlap hold the same flight, so the first result is everyone's.\<close>

lemma same_key_same_flight:
  assumes "sf_inv w" and "(k, f) \<in># sw_leases w" and "(k, g) \<in># sw_leases w"
  shows "f = g"
  using sf_inv_lease [OF assms(1,2)] sf_inv_lease [OF assms(1,3)] by auto

lemma different_keys_different_flights:
  assumes "sf_inv w" and "(k, f) \<in># sw_leases w" and "(k', f) \<in># sw_leases w"
  shows "k = k'"
proof -
  from sf_inv_lease [OF assms(1,2)] sf_inv_lease [OF assms(1,3)] obtain e e' where
    "hget (sf_flights (sw_table w)) k = Some e" "fe_flight e = f"
    "hget (sf_flights (sw_table w)) k' = Some e'" "fe_flight e' = f" by blast
  with assms(1) show ?thesis by (auto simp: sf_inv_def sf_table_ok_def)
qed

lemma cell_stable:
  "sf_cells (sw_table w) f = Some r \<Longrightarrow> sf_cells (sw_table (sf_step ev w)) f = Some r"
  by (cases ev)
     (auto simp: sf_join_def sf_drop_def sf_get_or_init_def Let_def split: option.split)

lemma cell_stable_run:
  "sf_cells (sw_table w) f = Some r \<Longrightarrow> sf_cells (sw_table (fold sf_step es w)) f = Some r"
  by (induction es arbitrary: w) (auto intro: cell_stable)

text \<open>
  C31: Overlapping calls share one result: once a holder of a lease on a key has its result,
  every other caller holding a lease on the same key, then or later on the same flight, gets
  that very result and its own work is not used; callers of another key are unaffected.
\<close>

theorem overlapping_calls_share_result:
  assumes "w = fold sf_step es sf_world_init" and "(k, f) \<in># sw_leases w"
    and "fst (sf_get_or_init (k, f) work (sw_table w)) = r"
    and "v = fold sf_step later (sf_step (SfFinish (k, f) work) w)" and "(k', g) \<in># sw_leases v"
    and "(k', g) \<in># sw_leases w"
  shows "(k' = k \<longrightarrow> fst (sf_get_or_init (k', g) work' (sw_table v)) = r)
    \<and> (k' \<noteq> k \<longrightarrow> sf_cells (sw_table (sf_step (SfFinish (k, f) work) w)) g = sf_cells (sw_table w) g)"
proof -
  have inv: "sf_inv w" unfolding assms(1) by (rule singleflight.inv_run)
  have "sf_cells (sw_table (sf_step (SfFinish (k, f) work) w)) f = Some r"
    using assms(2,3) by (auto simp: sf_get_or_init_def split: option.splits)
  then have "sf_cells (sw_table v) f = Some r" unfolding assms(4) by (rule cell_stable_run)
  moreover have "k' = k \<Longrightarrow> g = f"
    using same_key_same_flight [OF inv assms(2)] assms(6) by blast
  moreover have "k' \<noteq> k \<Longrightarrow> g \<noteq> f"
    using different_keys_different_flights [OF inv assms(2)] assms(6) by blast
  ultimately show ?thesis
    using assms(2) by (auto simp: sf_get_or_init_def split: option.splits)
qed

theorem overlapping_calls_share_result_witness:
  "(let w = fold sf_step [SfJoin (1 :: nat), SfJoin 1] sf_world_init;
        v = sf_step (SfFinish (1, 0) (Inr (7 :: nat))) w
    in fst (sf_get_or_init (1, 0) (Inr 9) (sw_table v)) = Inr 7)"
proof -
  let ?w = "fold sf_step [SfJoin (1 :: nat), SfJoin 1] sf_world_init :: (nat, nat) sf_world"
  have m: "(1, 0) \<in># sw_leases ?w"
    by (simp add: sf_world_init_def sf_join_def sf_new_def)
  have r: "fst (sf_get_or_init (1, 0) (Inr 7) (sw_table ?w)) = Inr 7"
    by (simp add: sf_world_init_def sf_join_def sf_new_def sf_get_or_init_def)
  let ?v = "fold sf_step [] (sf_step (SfFinish (1, 0) (Inr 7)) ?w)"
  have v: "(1, 0) \<in># sw_leases ?v" using m by simp
  from overlapping_calls_share_result [OF refl m r refl v m, of "Inr 9"] show ?thesis
    by (simp add: Let_def)
qed

text \<open>
  Also: A call that overlaps no other runs its own work and leaves nothing behind: it returns
  exactly its work's result, success or error, and the flight table is as before, so a later
  call for the same key starts afresh instead of replaying an old result.
\<close>

theorem lone_call_runs_its_work:
  assumes "hget (sf_flights s) key = None" and "sf_cells s (sf_next s) = None"
  shows "fst (sf_run key work s) = work
    \<and> sf_flights (snd (sf_run key work s)) = sf_flights s
    \<and> hget (sf_flights (snd (sf_run key work s))) key = None"
  using assms hdel_absent [of "sf_flights s" key]
  by (simp add: sf_run_def sf_join_def sf_get_or_init_def sf_drop_def delete_update_absent)

theorem lone_call_runs_its_work_witness:
  "fst (sf_run (1 :: nat) (Inl (lit ''down'')) (sf_new :: (nat, nat) sf_state)) = Inl (lit ''down'')
   \<and> fst (sf_run 1 (Inr 5) (snd (sf_run (1 :: nat) (Inl (lit ''down'')) sf_new))) = Inr (5 :: nat)"
proof -
  have a: "fst (sf_run (1 :: nat) (Inl (lit ''down'')) (sf_new :: (nat, nat) sf_state))
      = Inl (lit ''down'')"
    using lone_call_runs_its_work [of "sf_new :: (nat, nat) sf_state" 1 "Inl (lit ''down'')"]
    by (simp add: sf_new_def)
  have "fst (sf_run 1 (Inr 5) (snd (sf_run (1 :: nat) (Inl (lit ''down'')) sf_new))) = Inr (5 :: nat)"
    by (rule lone_call_runs_its_work [THEN conjunct1])
       (simp_all add: sf_new_def sf_run_def sf_join_def sf_get_or_init_def sf_drop_def)
  with a show ?thesis ..
qed

end
