(* ===== verification/Local_Date.thy ===== *)
theory Local_Date
  imports Prelude
begin

text \<open>
  The local-date helpers of the engine (\<^verbatim>\<open>weather-core/engine/src/time.rs\<close>). The time-zone
  database and the calendar are the crates chrono and chrono-tz: they enter as the parameter
  \<open>zones\<close>, which maps a zone name to the function from a Unix time in milliseconds to the
  formatted local date (\<open>None\<close> where chrono refuses the name or the timestamp).
\<close>

type_synonym zone = "int \<Rightarrow> ustring option"

datatype date_error = InvalidTimezone | InvalidTimestamp | TimestampOverflow | DateDidNotChange

definition search_window_ms :: int where "search_window_ms = 172800000"

definition local_date :: "zone \<Rightarrow> int \<Rightarrow> date_error + ustring" where
  "local_date tz unix_ms =
     (case tz unix_ms of None \<Rightarrow> Inl InvalidTimestamp | Some d \<Rightarrow> Inr d)"

definition date_for_tz :: "(ustring \<Rightarrow> zone option) \<Rightarrow> int \<Rightarrow> ustring \<Rightarrow> date_error + ustring" where
  "date_for_tz zones unix_ms timezone =
     (case zones timezone of None \<Rightarrow> Inl InvalidTimezone | Some tz \<Rightarrow> local_date tz unix_ms)"

text \<open>The binary search: \<open>low\<close> is on the current date, \<open>high\<close> is not.\<close>

function date_change_search :: "zone \<Rightarrow> ustring \<Rightarrow> int \<Rightarrow> int \<Rightarrow> date_error + int" where
  "date_change_search tz current low high =
     (if high - low > 1
      then let middle = low + (high - low) div 2
           in case local_date tz middle of
                Inl e \<Rightarrow> Inl e
              | Inr d \<Rightarrow> if d = current then date_change_search tz current middle high
                        else date_change_search tz current low middle
      else Inr high)"
  by pat_completeness auto

termination
  by (relation "measure (\<lambda>(_, _, low, high). nat (high - low))") auto

declare date_change_search.simps [simp del]

definition local_date_and_next_change ::
  "(ustring \<Rightarrow> zone option) \<Rightarrow> int \<Rightarrow> ustring \<Rightarrow> date_error + ustring \<times> nat" where
  "local_date_and_next_change zones unix_ms timezone =
     (case zones timezone of
        None \<Rightarrow> Inl InvalidTimezone
      | Some tz \<Rightarrow>
          (case local_date tz unix_ms of
             Inl e \<Rightarrow> Inl e
           | Inr current \<Rightarrow>
               (case checked_i64 (unix_ms + search_window_ms) of
                  None \<Rightarrow> Inl TimestampOverflow
                | Some high \<Rightarrow>
                    (case local_date tz high of
                       Inl e \<Rightarrow> Inl e
                     | Inr d \<Rightarrow>
                         if d = current then Inl DateDidNotChange
                         else (case date_change_search tz current unix_ms high of
                                 Inl e \<Rightarrow> Inl e
                               | Inr change \<Rightarrow>
                                   Inr (current, nat (max 1 (sat_i64 (change - unix_ms)))))))))"

section \<open>The search finds a change of date\<close>

lemma local_date_Inr_iff [simp]: "local_date tz t = Inr d \<longleftrightarrow> tz t = Some d"
  by (simp add: local_date_def split: option.split)

lemma date_change_search_bounds:
  assumes "date_change_search tz cur low high = Inr c" and "low < high"
    and "tz low = Some cur" and "tz high \<noteq> Some cur"
  shows "low < c \<and> c \<le> high \<and> tz (c - 1) = Some cur \<and> tz c \<noteq> Some cur"
  using assms
proof (induction tz cur low high rule: date_change_search.induct)
  case (1 tz cur low high)
  let ?m = "low + (high - low) div 2"
  show ?case
  proof (cases "high - low > 1")
    case True
    then have m: "low < ?m" "?m < high" by auto
    show ?thesis
    proof (cases "local_date tz ?m")
      case (Inl e)
      with True "1.prems"(1) show ?thesis
        by (subst (asm) date_change_search.simps) (simp add: Let_def)
    next
      case (Inr d)
      show ?thesis
      proof (cases "d = cur")
        case eq: True
        with True Inr "1.prems"(1) have "date_change_search tz cur ?m high = Inr c"
          by (subst (asm) date_change_search.simps) (simp add: Let_def del: local_date_Inr_iff)
        from "1.IH"(1) [OF True refl Inr eq this m(2)] Inr eq "1.prems"(4) m(1)
        show ?thesis by auto
      next
        case neq: False
        with True Inr "1.prems"(1) have "date_change_search tz cur low ?m = Inr c"
          by (subst (asm) date_change_search.simps) (simp add: Let_def del: local_date_Inr_iff)
        from "1.IH"(2) [OF True refl Inr neq this m(1)] Inr neq "1.prems"(3) m(2)
        show ?thesis by auto
      qed
    qed
  next
    case False
    with "1.prems" have "c = high" "high = low + 1"
      by (auto simp: date_change_search.simps [of tz cur low high])
    with "1.prems" show ?thesis by simp
  qed
qed

lemma date_change_search_total:
  assumes "\<And>t. low \<le> t \<Longrightarrow> t \<le> high \<Longrightarrow> tz t \<noteq> None"
  shows "\<exists>c. date_change_search tz cur low high = Inr c"
  using assms
proof (induction tz cur low high rule: date_change_search.induct)
  case (1 tz cur low high)
  let ?m = "low + (high - low) div 2"
  show ?case
  proof (cases "high - low > 1")
    case True
    then have m: "low \<le> ?m" "?m \<le> high" by auto
    with "1.prems" obtain d where "tz ?m = Some d" by fastforce
    then have d: "local_date tz ?m = Inr d" by simp
    have "\<exists>c. (if d = cur then date_change_search tz cur ?m high
              else date_change_search tz cur low ?m) = Inr c"
      using "1.IH"(1) [OF True refl d] "1.IH"(2) [OF True refl d] "1.prems" m by auto
    with True d show ?thesis
      by (subst date_change_search.simps) (simp add: Let_def del: local_date_Inr_iff)
  qed (simp add: date_change_search.simps)
qed

lemma next_change_spec:
  assumes "local_date_and_next_change zones now name = Inr (cur, wait)"
    and "i64_min \<le> now" and "now \<le> i64_max"
  shows "\<exists>tz. zones name = Some tz \<and> tz now = Some cur \<and> 1 \<le> wait \<and> int wait \<le> search_window_ms
    \<and> tz (now + int wait - 1) = Some cur \<and> tz (now + int wait) \<noteq> Some cur"
proof -
  from assms(1) obtain tz high d c where
    tz: "zones name = Some tz" "tz now = Some cur" and
    high: "checked_i64 (now + search_window_ms) = Some high" and
    d: "tz high = Some d" "d \<noteq> cur" and
    c: "date_change_search tz cur now high = Inr c" and
    wait: "wait = nat (max 1 (sat_i64 (c - now)))"
    by (auto simp: local_date_and_next_change_def split: option.splits sum.splits if_splits)
  from high have h: "high = now + search_window_ms"
    by (auto simp: checked_i64_def split: if_splits)
  with date_change_search_bounds [OF c] tz d have
    b: "now < c" "c \<le> now + search_window_ms" "tz (c - 1) = Some cur" "tz c \<noteq> Some cur"
    by (auto simp: search_window_ms_def)
  then have "sat_i64 (c - now) = c - now"
    by (simp add: sat_i64_def search_window_ms_def i64_min_def i64_max_def)
  with wait b(1) have "int wait = c - now" by simp
  with b tz show ?thesis by (intro exI [of _ tz]) auto
qed

section \<open>Properties\<close>

text \<open>
  Also: When the next change of local date is found, it really is one: the wait is between one
  millisecond and 48 hours, the last millisecond before it still has the current date and the
  instant it ends has another; and in a zone whose current date does not come back, every
  instant before it has the current date, whatever the length of the day.
\<close>

theorem next_date_change_is_exact:
  assumes "local_date_and_next_change zones now name = Inr (cur, wait)"
    and "i64_min \<le> now" and "now \<le> i64_max"
  shows "\<exists>tz. zones name = Some tz \<and> tz now = Some cur
    \<and> 1 \<le> wait \<and> int wait \<le> search_window_ms
    \<and> tz (now + int wait - 1) = Some cur \<and> tz (now + int wait) \<noteq> Some cur
    \<and> ((\<forall>a b c. a \<le> b \<longrightarrow> b \<le> c \<longrightarrow> tz a = Some cur \<longrightarrow> tz c = Some cur \<longrightarrow> tz b = Some cur) \<longrightarrow>
        (\<forall>t. now \<le> t \<longrightarrow> t < now + int wait \<longrightarrow> tz t = Some cur))"
proof -
  from next_change_spec [OF assms] obtain tz where
    tz: "zones name = Some tz" "tz now = Some cur" "1 \<le> wait" "int wait \<le> search_window_ms"
      "tz (now + int wait - 1) = Some cur" "tz (now + int wait) \<noteq> Some cur" by blast
  have "t < now + int wait \<Longrightarrow> t \<le> now + int wait - 1" for t by simp
  with tz(2,5) have
    "(\<forall>a b c. a \<le> b \<longrightarrow> b \<le> c \<longrightarrow> tz a = Some cur \<longrightarrow> tz c = Some cur \<longrightarrow> tz b = Some cur) \<longrightarrow>
        (\<forall>t. now \<le> t \<longrightarrow> t < now + int wait \<longrightarrow> tz t = Some cur)" by blast
  with tz show ?thesis by blast
qed

definition sample_zone :: zone where
  "sample_zone t = Some (show_nat (nat (t div 86400000)))"

lemma next_date_change_is_exact_witness:
  "\<exists>tz. (\<lambda>n. if n = lit ''UTC'' then Some sample_zone else None) (lit ''UTC'') = Some tz
    \<and> tz 86399998 = Some (lit ''0'')
    \<and> (1::nat) \<le> 2 \<and> int 2 \<le> search_window_ms
    \<and> tz (86399998 + int 2 - 1) = Some (lit ''0'') \<and> tz (86399998 + int 2) \<noteq> Some (lit ''0'')
    \<and> ((\<forall>a b c. a \<le> b \<longrightarrow> b \<le> c \<longrightarrow> tz a = Some (lit ''0'') \<longrightarrow> tz c = Some (lit ''0'') \<longrightarrow>
          tz b = Some (lit ''0'')) \<longrightarrow>
        (\<forall>t. 86399998 \<le> t \<longrightarrow> t < 86399998 + int 2 \<longrightarrow> tz t = Some (lit ''0'')))"
  by (rule next_date_change_is_exact) code_simp+

text \<open>
  Also: The search always answers: for a known zone with a date for every instant of the next
  48 hours the result is a change of date, or the report that the date stays the same, or the
  overflow of the 64-bit timestamp, and never another error.
\<close>

theorem next_date_change_total:
  assumes "zones name = Some tz" and "\<And>t. now \<le> t \<Longrightarrow> t \<le> now + search_window_ms \<Longrightarrow> tz t \<noteq> None"
  shows "local_date_and_next_change zones now name
    = (if checked_i64 (now + search_window_ms) = None then Inl TimestampOverflow
       else if tz (now + search_window_ms) = tz now then Inl DateDidNotChange
       else Inr (the (tz now), nat (max 1 (sat_i64
              (projr (date_change_search tz (the (tz now)) now (now + search_window_ms)) - now)))))"
proof -
  have w: "0 \<le> search_window_ms" by (simp add: search_window_ms_def)
  from assms(2) [of now] w obtain cur where cur: "tz now = Some cur" by auto
  from assms(2) [of "now + search_window_ms"] w obtain d where
    d: "tz (now + search_window_ms) = Some d" by auto
  from date_change_search_total [of now "now + search_window_ms" tz cur] assms(2) obtain c where
    c: "date_change_search tz cur now (now + search_window_ms) = Inr c" by auto
  from c cur d assms(1) show ?thesis
    by (auto simp: local_date_and_next_change_def local_date_def checked_i64_def)
qed

lemma next_date_change_total_witness:
  "local_date_and_next_change (\<lambda>n. Some sample_zone) 86399998 (lit ''UTC'')
    = (if checked_i64 (86399998 + search_window_ms) = None then Inl TimestampOverflow
       else if sample_zone (86399998 + search_window_ms) = sample_zone 86399998
       then Inl DateDidNotChange
       else Inr (the (sample_zone 86399998), nat (max 1 (sat_i64
              (projr (date_change_search sample_zone (the (sample_zone 86399998)) 86399998
                 (86399998 + search_window_ms)) - 86399998)))))"
  by (rule next_date_change_total) (rule refl, simp add: sample_zone_def)

end
