(* ===== verification/Config.thy ===== *)
theory Config
  imports Station_Names
begin

text \<open>
  The configuration crate: the types and defaults of
  \<^verbatim>\<open>weather-core/conf/src/{types,defaults}.rs\<close>, \<^verbatim>\<open>normalize.rs\<close>,
  \<open>validate\<close> and \<open>resolve_hmac_key\<close> of \<^verbatim>\<open>load.rs\<close>, the hot-update boundary of
  \<^verbatim>\<open>validate.rs\<close>, \<^verbatim>\<open>state.rs\<close>, and the conversion to and from the wire
  messages (\<^verbatim>\<open>proto_conv.rs\<close>). The process environment, the time-zone database and the
  URL parser are parameters, bundled in \<open>config_env\<close>.
\<close>

section \<open>Types and defaults\<close>

record engine_config =
  request_timeout_ms :: nat
  startup_timeout_ms :: nat
  ec_lock_path :: ustring
  log_level :: ustring

record ipc_config =
  rpc_endpoint :: ustring
  pub_endpoint :: ustring
  hmac_mode :: ustring
  hmac_key :: ustring
  hmac_env_key_name :: ustring

record db_config =
  db_path :: ustring
  db_timezone :: ustring

record network_config =
  nw_http_proxy :: "ustring option"
  nw_https_proxy :: "ustring option"
  nw_no_proxy :: "ustring option"
  nw_all_proxy :: "ustring option"
  nw_allow_insecure :: bool

record provider_network_config =
  pn_http_proxy :: "ustring option"
  pn_https_proxy :: "ustring option"
  pn_no_proxy :: "ustring option"
  pn_all_proxy :: "ustring option"
  pn_allow_insecure :: "bool option"

record provider_config =
  pc_name :: ustring
  pc_base_url :: ustring
  pc_request_timeout_seconds :: nat
  pc_network :: provider_network_config

record updater_config =
  weather_ttl_seconds :: nat
  province_ttl_seconds :: nat
  default_provider :: ustring
  up_network :: network_config
  up_provider :: "provider_config list"

record station_config =
  sc_name :: ustring
  sc_enabled :: bool

record app_config =
  ac_version :: nat
  ac_engine :: engine_config
  ac_ipc :: ipc_config
  ac_db :: db_config
  ac_updater :: updater_config
  ac_stations :: "station_config list"

definition mode_disabled :: ustring where "mode_disabled = lit ''disabled''"
definition mode_hmac_key :: ustring where "mode_hmac_key = lit ''hmac_key''"
definition mode_hmac_env_key :: ustring where "mode_hmac_env_key = lit ''hmac_env_key''"

lemma hmac_modes_distinct [simp]:
  "mode_disabled \<noteq> mode_hmac_key" "mode_disabled \<noteq> mode_hmac_env_key"
  "mode_hmac_key \<noteq> mode_hmac_env_key" "mode_hmac_key \<noteq> mode_disabled"
  "mode_hmac_env_key \<noteq> mode_disabled" "mode_hmac_env_key \<noteq> mode_hmac_key"
  by (simp_all add: mode_disabled_def mode_hmac_key_def mode_hmac_env_key_def)

definition supported_config_version :: nat where "supported_config_version = 2"

definition default_rpc_endpoint :: ustring where "default_rpc_endpoint = lit ''tcp://127.0.0.1:44445''"
definition default_pub_endpoint :: ustring where "default_pub_endpoint = lit ''tcp://127.0.0.1:44444''"
definition default_log_level :: ustring where "default_log_level = lit ''info''"

definition default_network :: network_config where
  "default_network = \<lparr>nw_http_proxy = None, nw_https_proxy = None, nw_no_proxy = None,
     nw_all_proxy = None, nw_allow_insecure = False\<rparr>"

definition default_provider_network :: provider_network_config where
  "default_provider_network = \<lparr>pn_http_proxy = None, pn_https_proxy = None, pn_no_proxy = None,
     pn_all_proxy = None, pn_allow_insecure = None\<rparr>"

definition default_engine_config :: engine_config where
  "default_engine_config = \<lparr>request_timeout_ms = 3000, startup_timeout_ms = 8000,
     ec_lock_path = lit ''engine.lock'', log_level = default_log_level\<rparr>"

definition default_ipc_config :: ipc_config where
  "default_ipc_config = \<lparr>rpc_endpoint = default_rpc_endpoint, pub_endpoint = default_pub_endpoint,
     hmac_mode = mode_disabled, hmac_key = lit ''weather-dev-default-key'',
     hmac_env_key_name = []\<rparr>"

definition default_db_config :: db_config where
  "default_db_config = \<lparr>db_path = lit ''weather.db'', db_timezone = lit ''Asia/Shanghai''\<rparr>"

definition default_updater_config :: updater_config where
  "default_updater_config = \<lparr>weather_ttl_seconds = 600, province_ttl_seconds = 86400,
     default_provider = lit ''nmc'', up_network = default_network,
     up_provider = [\<lparr>pc_name = lit ''nmc'', pc_base_url = lit ''https://www.nmc.cn'',
                     pc_request_timeout_seconds = 20, pc_network = default_provider_network\<rparr>]\<rparr>"

definition default_stations :: "station_config list" where
  "default_stations = [\<lparr>sc_name = [21271, 20140, 45, 21271, 20140, 24066], sc_enabled = True\<rparr>]"

definition default_config :: app_config where
  "default_config = \<lparr>ac_version = supported_config_version, ac_engine = default_engine_config,
     ac_ipc = default_ipc_config, ac_db = default_db_config,
     ac_updater = default_updater_config, ac_stations = default_stations\<rparr>"

section \<open>Normalisation, validation, hot-update boundary\<close>

definition normalize_config_stations :: "app_config \<Rightarrow> bool \<times> app_config" where
  "normalize_config_stations config =
     (let normalized = map (\<lambda>s. s\<lparr>sc_name := normalize_station_name (sc_name s)\<rparr>) (ac_stations config)
      in (list_ex (\<lambda>s. normalize_station_name (sc_name s) \<noteq> sc_name s) (ac_stations config),
          config\<lparr>ac_stations := normalized\<rparr>))"

record config_env =
  env_var :: "ustring \<Rightarrow> ustring option"
  known_timezone :: "ustring \<Rightarrow> bool"
  parse_url :: "ustring \<Rightarrow> (ustring \<times> ustring option) option"

datatype config_error =
    VersionIncompatible nat | InvalidLogLevel ustring | RpcNotTcp | PubNotTcp | EndpointsEqual
  | HmacKeyEmpty | HmacKeyInvalid ustring | HmacEnvNameEmpty | HmacEnvUnset ustring
  | HmacModeInvalid ustring | DbPathEmpty | TimezoneInvalid ustring | NoProvider
  | DefaultProviderUnknown | ProxyUrlInvalid ustring ustring | ProxySchemeInvalid ustring ustring
  | StationNameEmpty | StationDuplicate ustring

definition valid_log_level :: "ustring \<Rightarrow> bool" where
  "valid_log_level l \<longleftrightarrow> l \<in> set [lit ''off'', lit ''error'', lit ''warn'', lit ''info'', lit ''debug'', lit ''trace'']"

definition valid_proxy_scheme :: "ustring \<Rightarrow> bool" where
  "valid_proxy_scheme s \<longleftrightarrow> s \<in> set [lit ''http'', lit ''https'', lit ''socks4'', lit ''socks4a'', lit ''socks5'', lit ''socks5h'']"

fun validate_proxies ::
  "config_env \<Rightarrow> ustring \<Rightarrow> (ustring \<times> ustring option) list \<Rightarrow> config_error option" where
  "validate_proxies env scope [] = None"
| "validate_proxies env scope ((field, v) # rest) =
     (case map_option trim v of
        None \<Rightarrow> validate_proxies env scope rest
      | Some url \<Rightarrow>
          if url = [] then validate_proxies env scope rest
          else (case parse_url env url of
                  None \<Rightarrow> Some (ProxyUrlInvalid scope field)
                | Some (scheme, host) \<Rightarrow>
                    if \<not> valid_proxy_scheme scheme \<or> host = None
                    then Some (ProxySchemeInvalid scope field)
                    else validate_proxies env scope rest))"

definition validate_network_proxy_urls ::
  "config_env \<Rightarrow> ustring \<Rightarrow> ustring option \<Rightarrow> ustring option \<Rightarrow> ustring option \<Rightarrow> config_error option" where
  "validate_network_proxy_urls env scope http_proxy https_proxy all_proxy =
     validate_proxies env scope
       [(lit ''http_proxy'', http_proxy), (lit ''https_proxy'', https_proxy), (lit ''all_proxy'', all_proxy)]"

fun validate_providers :: "config_env \<Rightarrow> provider_config list \<Rightarrow> config_error option" where
  "validate_providers env [] = None"
| "validate_providers env (p # ps) =
     (case validate_network_proxy_urls env
             (lit ''updater provider `'' @ pc_name p @ lit ''` network'')
             (pn_http_proxy (pc_network p)) (pn_https_proxy (pc_network p))
             (pn_all_proxy (pc_network p)) of
        Some e \<Rightarrow> Some e
      | None \<Rightarrow> validate_providers env ps)"

fun validate_stations :: "ustring list \<Rightarrow> station_config list \<Rightarrow> config_error option" where
  "validate_stations seen [] = None"
| "validate_stations seen (s # ss) =
     (let normalized = normalize_station_name (sc_name s)
      in if normalized = [] then Some StationNameEmpty
         else if normalized \<in> set seen then Some (StationDuplicate normalized)
         else validate_stations (normalized # seen) ss)"

definition validate_hmac :: "config_env \<Rightarrow> ipc_config \<Rightarrow> config_error option" where
  "validate_hmac env ipc =
     (if hmac_mode ipc = mode_disabled then None
      else if hmac_mode ipc = mode_hmac_key then
        if hmac_key ipc = [] then Some HmacKeyEmpty
        else (case hmac_key_from_str (hmac_key ipc) of
                Inl e \<Rightarrow> Some (HmacKeyInvalid e)
              | Inr k \<Rightarrow> None)
      else if hmac_mode ipc = mode_hmac_env_key then
        if hmac_env_key_name ipc = [] then Some HmacEnvNameEmpty
        else if env_var env (hmac_env_key_name ipc) = None then Some (HmacEnvUnset (hmac_env_key_name ipc))
        else None
      else Some (HmacModeInvalid (hmac_mode ipc)))"

definition tcp_scheme :: ustring where "tcp_scheme = lit ''tcp://''"

definition validate :: "config_env \<Rightarrow> app_config \<Rightarrow> config_error option" where
  "validate env config =
     (if ac_version config \<noteq> supported_config_version then Some (VersionIncompatible (ac_version config))
      else if \<not> valid_log_level (log_level (ac_engine config))
        then Some (InvalidLogLevel (log_level (ac_engine config)))
      else if \<not> prefix tcp_scheme (rpc_endpoint (ac_ipc config)) then Some RpcNotTcp
      else if \<not> prefix tcp_scheme (pub_endpoint (ac_ipc config)) then Some PubNotTcp
      else if rpc_endpoint (ac_ipc config) = pub_endpoint (ac_ipc config) then Some EndpointsEqual
      else (case validate_hmac env (ac_ipc config) of
         Some e \<Rightarrow> Some e
       | None \<Rightarrow>
           if trim (db_path (ac_db config)) = [] then Some DbPathEmpty
           else if \<not> known_timezone env (db_timezone (ac_db config))
             then Some (TimezoneInvalid (db_timezone (ac_db config)))
           else if up_provider (ac_updater config) = [] then Some NoProvider
           else if \<not> list_ex (\<lambda>p. pc_name p = default_provider (ac_updater config)) (up_provider (ac_updater config))
             then Some DefaultProviderUnknown
           else (case validate_network_proxy_urls env (lit ''updater.network'')
                        (nw_http_proxy (up_network (ac_updater config)))
                        (nw_https_proxy (up_network (ac_updater config)))
                        (nw_all_proxy (up_network (ac_updater config))) of
                   Some e \<Rightarrow> Some e
                 | None \<Rightarrow>
                     (case validate_providers env (up_provider (ac_updater config)) of
                        Some e \<Rightarrow> Some e
                      | None \<Rightarrow> validate_stations [] (ac_stations config)))))"

definition resolve_hmac_key :: "config_env \<Rightarrow> app_config \<Rightarrow> ustring + byte list option" where
  "resolve_hmac_key env config =
     (let ipc = ac_ipc config
      in if hmac_mode ipc = mode_disabled then Inr None
         else if hmac_mode ipc = mode_hmac_key then
           (case hmac_key_from_str (hmac_key ipc) of Inl e \<Rightarrow> Inl e | Inr k \<Rightarrow> Inr (Some k))
         else if hmac_mode ipc = mode_hmac_env_key then
           (case env_var env (hmac_env_key_name ipc) of
              None \<Rightarrow> Inl (lit ''ipc.hmac_env_key_name `'' @ hmac_env_key_name ipc @ lit ''` is not set'')
            | Some v \<Rightarrow> (case hmac_key_from_str v of Inl e \<Rightarrow> Inl e | Inr k \<Rightarrow> Inr (Some k)))
         else Inl (lit ''invalid ipc.hmac mode `'' @ hmac_mode ipc @ lit ''`''))"

definition restart_required_fields :: "app_config \<Rightarrow> app_config \<Rightarrow> ustring list" where
  "restart_required_fields current new =
     (if ac_engine current \<noteq> ac_engine new then [lit ''engine''] else [])
     @ (if ac_ipc current \<noteq> ac_ipc new then [lit ''ipc''] else [])
     @ (if ac_db current \<noteq> ac_db new then [lit ''db''] else [])
     @ (if default_provider (ac_updater current) \<noteq> default_provider (ac_updater new)
        then [lit ''updater.default_provider''] else [])
     @ (if up_network (ac_updater current) \<noteq> up_network (ac_updater new)
        then [lit ''updater.network''] else [])
     @ (if up_provider (ac_updater current) \<noteq> up_provider (ac_updater new)
        then [lit ''updater.provider''] else [])"

text \<open>The shared live configuration: the watch channel's value and the last error.\<close>

record config_state =
  live_config :: app_config
  last_error :: "ustring option"

definition config_state_new :: "app_config \<Rightarrow> config_state" where
  "config_state_new config = \<lparr>live_config = config, last_error = None\<rparr>"

definition config_apply :: "app_config \<Rightarrow> config_state \<Rightarrow> config_state" where
  "config_apply config st = st\<lparr>last_error := None, live_config := config\<rparr>"

definition record_error :: "ustring \<Rightarrow> config_state \<Rightarrow> config_state" where
  "record_error err st = st\<lparr>last_error := Some err\<rparr>"

section \<open>Lemmas\<close>

lemma normalize_config_fields [simp]:
  "ac_version (snd (normalize_config_stations c)) = ac_version c"
  "ac_engine (snd (normalize_config_stations c)) = ac_engine c"
  "ac_ipc (snd (normalize_config_stations c)) = ac_ipc c"
  "ac_db (snd (normalize_config_stations c)) = ac_db c"
  "ac_updater (snd (normalize_config_stations c)) = ac_updater c"
  by (simp_all add: normalize_config_stations_def Let_def)

lemma normalize_config_idem:
  "normalize_config_stations (snd (normalize_config_stations c))
     = (False, snd (normalize_config_stations c))"
  by (simp add: normalize_config_stations_def Let_def list_ex_iff o_def)

lemma normalize_config_unchanged:
  assumes "\<not> fst (normalize_config_stations c)"
  shows "snd (normalize_config_stations c) = c"
proof -
  from assms have "map (\<lambda>s. s\<lparr>sc_name := normalize_station_name (sc_name s)\<rparr>) (ac_stations c)
      = ac_stations c"
    by (intro map_idI) (simp add: normalize_config_stations_def Let_def list_ex_iff)
  then show ?thesis by (simp add: normalize_config_stations_def Let_def)
qed

lemma validate_stations_iff:
  "validate_stations seen ss = None \<longleftrightarrow>
     [] \<notin> (normalize_station_name \<circ> sc_name) ` set ss
     \<and> distinct (map (normalize_station_name \<circ> sc_name) ss)
     \<and> (normalize_station_name \<circ> sc_name) ` set ss \<inter> set seen = {}"
  by (induction ss arbitrary: seen) (auto simp: Let_def)

lemma validate_stations_map:
  "validate_stations seen (map (\<lambda>s. s\<lparr>sc_name := normalize_station_name (sc_name s)\<rparr>) ss)
     = validate_stations seen ss"
  by (induction ss arbitrary: seen) (auto simp: Let_def)

lemma validate_normalized_stations:
  "validate_stations seen (ac_stations (snd (normalize_config_stations c)))
     = validate_stations seen (ac_stations c)"
  by (simp add: normalize_config_stations_def Let_def validate_stations_map)

lemma validate_normalize:
  "validate env (snd (normalize_config_stations c)) = validate env c"
  by (simp only: validate_def normalize_config_fields validate_normalized_stations)

lemma validate_version: "validate env c = None \<Longrightarrow> ac_version c = supported_config_version"
  by (simp add: validate_def split: if_splits)

lemma validate_log_level: "validate env c = None \<Longrightarrow> valid_log_level (log_level (ac_engine c))"
  by (simp add: validate_def split: if_splits)

lemma validate_hmac_ok: "validate env c = None \<Longrightarrow> validate_hmac env (ac_ipc c) = None"
  by (simp add: validate_def split: if_splits option.splits)

lemma validate_stations_ok: "validate env c = None \<Longrightarrow> validate_stations [] (ac_stations c) = None"
  by (simp add: validate_def split: if_splits option.splits)

lemma restart_required_fields_Nil:
  "restart_required_fields a b = [] \<longleftrightarrow>
     ac_engine a = ac_engine b \<and> ac_ipc a = ac_ipc b \<and> ac_db a = ac_db b
     \<and> ac_updater b = (ac_updater a)\<lparr>weather_ttl_seconds := weather_ttl_seconds (ac_updater b),
                           province_ttl_seconds := province_ttl_seconds (ac_updater b)\<rparr>"
  by (cases "ac_updater a"; cases "ac_updater b") (auto simp: restart_required_fields_def)


lemma default_stations_valid: "validate_stations [] default_stations = None"
  by (simp add: default_stations_def Let_def normalize_station_name_def trim_def is_whitespace_def)

lemma validate_defaults:
  assumes "validate_hmac env (ac_ipc c) = None" and "c = default_config\<lparr>ac_ipc := ac_ipc c\<rparr>"
    and "rpc_endpoint (ac_ipc c) = default_rpc_endpoint"
    and "pub_endpoint (ac_ipc c) = default_pub_endpoint"
  shows "(validate env c = None) = known_timezone env (lit ''Asia/Shanghai'')"
proof -
  have "validate_network_proxy_urls env s None None None = None" for s
    by (simp add: validate_network_proxy_urls_def)
  moreover note default_stations_valid
  moreover have "valid_log_level (log_level default_engine_config)" by code_simp
  moreover have "prefix tcp_scheme default_rpc_endpoint"
    and "prefix tcp_scheme default_pub_endpoint"
    and "default_rpc_endpoint \<noteq> default_pub_endpoint"
    by (simp_all add: tcp_scheme_def default_rpc_endpoint_def default_pub_endpoint_def)
  moreover have "trim (db_path default_db_config) \<noteq> []"
    by (simp add: default_db_config_def trim_def is_whitespace_def)
  moreover have "ac_version c = supported_config_version" "ac_engine c = default_engine_config"
    "ac_db c = default_db_config" "ac_updater c = default_updater_config"
    "ac_stations c = default_stations"
    by (subst assms(2), simp add: default_config_def)+
  moreover have "db_timezone default_db_config = lit ''Asia/Shanghai''"
    by (simp only: default_db_config_def db_config.simps)
  moreover obtain p where "up_provider default_updater_config = [p]"
    "pc_name p = default_provider default_updater_config" "pc_network p = default_provider_network"
    by (simp add: default_updater_config_def)
  moreover have "up_network default_updater_config = default_network"
    by (simp add: default_updater_config_def)
  ultimately show ?thesis using assms(1,3,4)
    by (simp add: validate_def default_network_def default_provider_network_def del: list.map)
qed

section \<open>Properties\<close>


definition sample_config_env :: config_env where
  "sample_config_env = \<lparr>env_var = (\<lambda>n. if n = lit ''KEY'' then Some (replicate 40 65) else None),
     known_timezone = (\<lambda>n. n = lit ''Asia/Shanghai''),
     parse_url = (\<lambda>u. Some (lit ''http'', Some u))\<rparr>"

definition sample_env_key_config :: app_config where
  "sample_env_key_config = default_config\<lparr>ac_ipc := (ac_ipc default_config)
     \<lparr>hmac_mode := mode_hmac_env_key, hmac_env_key_name := lit ''KEY''\<rparr>\<rparr>"


text \<open>
  Also: Validation looks through the spelling of station names: a configuration and its
  normalised form are accepted alike and rejected with the same error; and an accepted one
  has, once normalised, pairwise distinct non-empty names that normalisation leaves alone.
\<close>

theorem validate_normalisation_invariant:
  "validate env (snd (normalize_config_stations c)) = validate env c
   \<and> (if validate env c = None
      then let names = map sc_name (ac_stations (snd (normalize_config_stations c)))
           in distinct names \<and> [] \<notin> set names \<and> map normalize_station_name names = names
      else True)"
proof (cases "validate env c")
  case None
  from validate_stations_ok [OF None]
  have "validate_stations [] (ac_stations (snd (normalize_config_stations c))) = None"
    by (simp add: validate_normalized_stations)
  moreover have "map normalize_station_name (map sc_name (ac_stations (snd (normalize_config_stations c))))
      = map sc_name (ac_stations (snd (normalize_config_stations c)))"
    by (simp add: normalize_config_stations_def Let_def o_def)
  ultimately have "let names = map sc_name (ac_stations (snd (normalize_config_stations c)))
         in distinct names \<and> [] \<notin> set names \<and> map normalize_station_name names = names"
    by (simp only: validate_stations_iff Let_def flip: map_map set_map) simp
  then show ?thesis by (simp add: validate_normalize)
qed (simp add: validate_normalize)

text \<open>Also: The built-in configuration is valid wherever its time zone is known.\<close>

theorem default_config_valid:
  "(validate env default_config = None) = known_timezone env (lit ''Asia/Shanghai'')"
  by (rule validate_defaults)
     (simp_all add: default_config_def default_ipc_config_def validate_hmac_def del: list.map)

end
