(* ===== verification/Config_Wire.thy ===== *)
theory Config_Wire
  imports Config
begin

text \<open>
  The conversion between the configuration and its wire messages
  (\<^verbatim>\<open>weather-core/conf/src/proto_conv.rs\<close>). The messages are those of
  \<^verbatim>\<open>weather-schema/weather/schema/v1/weather.proto\<close>: a message field is optional, a
  scalar defaults to zero or the empty string, and three legacy fields are only on the wire.
\<close>

record schema_ipc =
  si_transport :: ustring
  si_rpc_endpoint :: ustring
  si_pub_endpoint :: ustring
  si_hmac :: ustring
  si_hmac_key :: ustring
  si_hmac_env_key_name :: ustring

record schema_db =
  sd_path :: ustring
  sd_lock_path :: ustring
  sd_timezone :: ustring

record schema_engine =
  se_request_timeout_ms :: nat
  se_startup_timeout_ms :: nat
  se_lock_path :: ustring
  se_log_level :: ustring

text \<open>The network messages have exactly the fields of the configuration's own types.\<close>

type_synonym schema_network = network_config
type_synonym schema_provider_network = provider_network_config
type_synonym schema_station = station_config

record schema_provider =
  sp_name :: ustring
  sp_base_url :: ustring
  sp_request_timeout_seconds :: nat
  sp_network :: "schema_provider_network option"

record schema_updater =
  su_weather_ttl_seconds :: nat
  su_province_ttl_seconds :: nat
  su_default_provider :: ustring
  su_provider :: "schema_provider list"
  su_network :: "schema_network option"

record schema_daemon =
  sm_service_backend :: ustring
  sm_foreground :: bool
  sm_service_scope :: ustring

record schema_config =
  sa_engine :: "schema_engine option"
  sa_ipc :: "schema_ipc option"
  sa_db :: "schema_db option"
  sa_updater :: "schema_updater option"
  sa_daemon :: "schema_daemon option"
  sa_stations :: "schema_station list"
  sa_version :: nat

definition schema_engine_default :: schema_engine where
  "schema_engine_default = \<lparr>se_request_timeout_ms = 0, se_startup_timeout_ms = 0,
     se_lock_path = [], se_log_level = []\<rparr>"

definition schema_ipc_default :: schema_ipc where
  "schema_ipc_default = \<lparr>si_transport = [], si_rpc_endpoint = [], si_pub_endpoint = [],
     si_hmac = [], si_hmac_key = [], si_hmac_env_key_name = []\<rparr>"

definition schema_db_default :: schema_db where
  "schema_db_default = \<lparr>sd_path = [], sd_lock_path = [], sd_timezone = []\<rparr>"

definition schema_updater_default :: schema_updater where
  "schema_updater_default = \<lparr>su_weather_ttl_seconds = 0, su_province_ttl_seconds = 0,
     su_default_provider = [], su_provider = [], su_network = None\<rparr>"

section \<open>From the wire\<close>

definition engine_of_schema :: "schema_engine \<Rightarrow> engine_config" where
  "engine_of_schema v = \<lparr>request_timeout_ms = se_request_timeout_ms v,
     startup_timeout_ms = se_startup_timeout_ms v, ec_lock_path = se_lock_path v,
     log_level = (if se_log_level v = [] then default_log_level else se_log_level v)\<rparr>"

definition ipc_of_schema :: "schema_ipc \<Rightarrow> ipc_config" where
  "ipc_of_schema v = \<lparr>rpc_endpoint = si_rpc_endpoint v, pub_endpoint = si_pub_endpoint v,
     hmac_mode = si_hmac v, hmac_key = si_hmac_key v, hmac_env_key_name = si_hmac_env_key_name v\<rparr>"

definition db_of_schema :: "schema_db \<Rightarrow> db_config" where
  "db_of_schema v = \<lparr>db_path = sd_path v, db_timezone = sd_timezone v\<rparr>"

definition network_of_schema :: "schema_network \<Rightarrow> network_config" where
  "network_of_schema v = \<lparr>nw_http_proxy = nw_http_proxy v, nw_https_proxy = nw_https_proxy v,
     nw_no_proxy = nw_no_proxy v, nw_all_proxy = nw_all_proxy v,
     nw_allow_insecure = nw_allow_insecure v\<rparr>"

definition provider_network_of_schema :: "schema_provider_network \<Rightarrow> provider_network_config" where
  "provider_network_of_schema v = \<lparr>pn_http_proxy = pn_http_proxy v,
     pn_https_proxy = pn_https_proxy v, pn_no_proxy = pn_no_proxy v,
     pn_all_proxy = pn_all_proxy v, pn_allow_insecure = pn_allow_insecure v\<rparr>"

definition provider_of_schema :: "schema_provider \<Rightarrow> provider_config" where
  "provider_of_schema v = \<lparr>pc_name = sp_name v, pc_base_url = sp_base_url v,
     pc_request_timeout_seconds = sp_request_timeout_seconds v,
     pc_network = (case sp_network v of None \<Rightarrow> default_provider_network
                   | Some n \<Rightarrow> provider_network_of_schema n)\<rparr>"

definition updater_of_schema :: "schema_updater \<Rightarrow> updater_config" where
  "updater_of_schema v = \<lparr>weather_ttl_seconds = su_weather_ttl_seconds v,
     province_ttl_seconds = su_province_ttl_seconds v, default_provider = su_default_provider v,
     up_network = (case su_network v of None \<Rightarrow> default_network | Some n \<Rightarrow> network_of_schema n),
     up_provider = map provider_of_schema (su_provider v)\<rparr>"

definition station_of_schema :: "schema_station \<Rightarrow> station_config" where
  "station_of_schema v = \<lparr>sc_name = sc_name v, sc_enabled = sc_enabled v\<rparr>"

definition config_of_schema :: "schema_config \<Rightarrow> app_config" where
  "config_of_schema v = \<lparr>ac_version = sa_version v,
     ac_engine = engine_of_schema (case sa_engine v of None \<Rightarrow> schema_engine_default | Some e \<Rightarrow> e),
     ac_ipc = ipc_of_schema (case sa_ipc v of None \<Rightarrow> schema_ipc_default | Some i \<Rightarrow> i),
     ac_db = db_of_schema (case sa_db v of None \<Rightarrow> schema_db_default | Some d \<Rightarrow> d),
     ac_updater = updater_of_schema (case sa_updater v of None \<Rightarrow> schema_updater_default | Some u \<Rightarrow> u),
     ac_stations = map station_of_schema (sa_stations v)\<rparr>"

section \<open>To the wire\<close>

definition schema_of_engine :: "engine_config \<Rightarrow> schema_engine" where
  "schema_of_engine v = \<lparr>se_request_timeout_ms = request_timeout_ms v,
     se_startup_timeout_ms = startup_timeout_ms v, se_lock_path = ec_lock_path v,
     se_log_level = log_level v\<rparr>"

definition schema_of_ipc :: "ipc_config \<Rightarrow> schema_ipc" where
  "schema_of_ipc v = \<lparr>si_transport = lit ''tcp'', si_rpc_endpoint = rpc_endpoint v,
     si_pub_endpoint = pub_endpoint v, si_hmac = hmac_mode v, si_hmac_key = hmac_key v,
     si_hmac_env_key_name = hmac_env_key_name v\<rparr>"

definition schema_of_db :: "db_config \<Rightarrow> schema_db" where
  "schema_of_db v = \<lparr>sd_path = db_path v, sd_lock_path = db_path v @ lit ''.lock'',
     sd_timezone = db_timezone v\<rparr>"

definition schema_of_network :: "network_config \<Rightarrow> schema_network" where
  "schema_of_network v = \<lparr>nw_http_proxy = nw_http_proxy v, nw_https_proxy = nw_https_proxy v,
     nw_no_proxy = nw_no_proxy v, nw_all_proxy = nw_all_proxy v,
     nw_allow_insecure = nw_allow_insecure v\<rparr>"

definition schema_of_provider_network :: "provider_network_config \<Rightarrow> schema_provider_network" where
  "schema_of_provider_network v = \<lparr>pn_http_proxy = pn_http_proxy v,
     pn_https_proxy = pn_https_proxy v, pn_no_proxy = pn_no_proxy v,
     pn_all_proxy = pn_all_proxy v, pn_allow_insecure = pn_allow_insecure v\<rparr>"

definition schema_of_provider :: "provider_config \<Rightarrow> schema_provider" where
  "schema_of_provider v = \<lparr>sp_name = pc_name v, sp_base_url = pc_base_url v,
     sp_request_timeout_seconds = pc_request_timeout_seconds v,
     sp_network = Some (schema_of_provider_network (pc_network v))\<rparr>"

definition schema_of_updater :: "updater_config \<Rightarrow> schema_updater" where
  "schema_of_updater v = \<lparr>su_weather_ttl_seconds = weather_ttl_seconds v,
     su_province_ttl_seconds = province_ttl_seconds v, su_default_provider = default_provider v,
     su_provider = map schema_of_provider (up_provider v),
     su_network = Some (schema_of_network (up_network v))\<rparr>"

definition schema_of_station :: "station_config \<Rightarrow> schema_station" where
  "schema_of_station v = \<lparr>sc_name = sc_name v, sc_enabled = sc_enabled v\<rparr>"

definition schema_of_config :: "app_config \<Rightarrow> schema_config" where
  "schema_of_config v = \<lparr>sa_engine = Some (schema_of_engine (ac_engine v)),
     sa_ipc = Some (schema_of_ipc (ac_ipc v)), sa_db = Some (schema_of_db (ac_db v)),
     sa_updater = Some (schema_of_updater (ac_updater v)),
     sa_daemon = Some \<lparr>sm_service_backend = lit ''auto'', sm_foreground = True,
                      sm_service_scope = lit ''user''\<rparr>,
     sa_stations = map schema_of_station (ac_stations v), sa_version = ac_version v\<rparr>"

section \<open>Round trips\<close>

lemma network_roundtrip [simp]: "network_of_schema (schema_of_network v) = v"
  by (simp add: network_of_schema_def schema_of_network_def)

lemma provider_roundtrip [simp]: "provider_of_schema (schema_of_provider v) = v"
  by (simp add: provider_of_schema_def schema_of_provider_def provider_network_of_schema_def
      schema_of_provider_network_def)

lemma station_roundtrip [simp]: "station_of_schema (schema_of_station v) = v"
  by (simp add: station_of_schema_def schema_of_station_def)

lemma updater_roundtrip [simp]: "updater_of_schema (schema_of_updater v) = v"
  by (simp add: updater_of_schema_def schema_of_updater_def map_idI)

lemma engine_roundtrip:
  "engine_of_schema (schema_of_engine v) =
     (if log_level v = [] then v\<lparr>log_level := default_log_level\<rparr> else v)"
  by (simp add: engine_of_schema_def schema_of_engine_def)

lemma config_roundtrip:
  "config_of_schema (schema_of_config c) =
     c\<lparr>ac_engine := engine_of_schema (schema_of_engine (ac_engine c))\<rparr>"
  by (simp add: config_of_schema_def schema_of_config_def ipc_of_schema_def schema_of_ipc_def
      db_of_schema_def schema_of_db_def map_idI del: list.map(2))

lemma valid_log_level_nonempty: "valid_log_level l \<Longrightarrow> l \<noteq> []"
  by (auto simp: valid_log_level_def)

lemma valid_config_roundtrip:
  "validate env c = None \<Longrightarrow> config_of_schema (schema_of_config c) = c"
  by (simp add: config_roundtrip engine_roundtrip valid_log_level_nonempty validate_log_level)

text \<open>
  C37: A valid configuration survives the wire: converting it to the message and back gives
  the same configuration, even though the message carries legacy fields that are ignored on
  the way in, and whatever the receiver finds in those fields.
\<close>

theorem config_wire_roundtrip:
  assumes "validate env c = None"
    and "message = (schema_of_config c)\<lparr>sa_daemon := daemon,
      sa_ipc := Some ((schema_of_ipc (ac_ipc c))\<lparr>si_transport := transport\<rparr>),
      sa_db := Some ((schema_of_db (ac_db c))\<lparr>sd_lock_path := lock_path\<rparr>)\<rparr>"
  shows "config_of_schema message = c"
proof -
  have "config_of_schema message = config_of_schema (schema_of_config c)"
    using assms(2) by (simp add: config_of_schema_def schema_of_config_def ipc_of_schema_def
        db_of_schema_def schema_of_ipc_def schema_of_db_def del: list.map)
  with valid_config_roundtrip [OF assms(1)] show ?thesis by simp
qed

lemma config_wire_roundtrip_witness:
  "config_of_schema ((schema_of_config default_config)\<lparr>sa_daemon := None,
      sa_ipc := Some ((schema_of_ipc (ac_ipc default_config))\<lparr>si_transport := []\<rparr>),
      sa_db := Some ((schema_of_db (ac_db default_config))\<lparr>sd_lock_path := []\<rparr>)\<rparr>) = default_config"
proof -
  have "validate sample_config_env default_config = None"
    by (subst validate_defaults)
       (simp_all add: default_config_def default_ipc_config_def validate_hmac_def
          sample_config_env_def del: list.map)
  then show ?thesis by (rule config_wire_roundtrip) (rule refl)
qed

end
