(* ===== verification/Config_Load.thy ===== *)
theory Config_Load
  imports Config
begin

text \<open>
  Loading the configuration file: the versioned migrations and the entry points of
  \<^verbatim>\<open>weather-core/conf/src/load.rs\<close>, and the atomic replacement of
  \<^verbatim>\<open>persist.rs\<close>. TOML parsing, printing and the derived (de)serialisers are library
  code: they are the fields of \<open>config_serde\<close>. The file is its content, absent or present;
  an operation of the file system that fails is an argument.
\<close>

section \<open>Documents and errors\<close>

datatype toml_value =
    TomlTable "(ustring \<times> toml_value) list"
  | TomlInteger int
  | TomlString ustring
  | TomlBoolean bool
  | TomlFloat ustring
  | TomlDatetime ustring
  | TomlArray "toml_value list"

record legacy_ipc =
  li_transport :: ustring
  li_rpc_endpoint :: ustring
  li_pub_endpoint :: ustring
  li_hmac :: ustring
  li_hmac_key :: ustring
  li_hmac_env_key_name :: ustring

record legacy_db =
  ld_path :: ustring
  ld_lock_path :: ustring
  ld_timezone :: ustring

record legacy_daemon =
  lm_service_backend :: ustring
  lm_foreground :: bool
  lm_service_scope :: ustring

record legacy_config =
  lc_version :: nat
  lc_engine :: engine_config
  lc_ipc :: legacy_ipc
  lc_db :: legacy_db
  lc_updater :: updater_config
  lc_daemon :: legacy_daemon
  lc_stations :: "station_config list"

record config_serde =
  parse_toml :: "ustring \<Rightarrow> toml_value option"
  print_toml :: "app_config \<Rightarrow> ustring option"
  config_from_value :: "toml_value \<Rightarrow> app_config option"
  config_to_value :: "app_config \<Rightarrow> toml_value option"
  legacy_from_value :: "toml_value \<Rightarrow> legacy_config option"

datatype load_error =
    TomlParse | RootNotTable | VersionMissing | VersionNotInteger | VersionNotU32
  | InvalidTarget nat | RegistryLength nat nat | RegistryGap nat nat ustring
  | VersionTooOld nat | VersionTooNew nat nat
  | MigrationFailed nat ustring load_error
  | LegacyShape | LegacyTransport | ConstructFailed | DeserializeFailed
  | Invalid config_error
  | InspectFailed | ReadFailed | CreateDirFailed | SerializeFailed | PrepareFailed | ReplaceFailed

section \<open>Migrations\<close>

definition first_config_version :: nat where "first_config_version = 1"

record config_migration =
  mg_version :: nat
  mg_name :: ustring
  mg_apply :: "toml_value \<Rightarrow> load_error + toml_value"

definition config_version :: "toml_value \<Rightarrow> load_error + nat" where
  "config_version v =
     (case v of
        TomlTable t \<Rightarrow>
          (case hget t (lit ''config_version'') of
             None \<Rightarrow> Inl VersionMissing
           | Some (TomlInteger raw) \<Rightarrow>
               if 0 \<le> raw \<and> raw \<le> int u32_max then Inr (nat raw) else Inl VersionNotU32
           | Some w \<Rightarrow> Inl VersionNotInteger)
      | w \<Rightarrow> Inl RootNotTable)"

definition set_config_version :: "nat \<Rightarrow> toml_value \<Rightarrow> load_error + toml_value" where
  "set_config_version version v =
     (case v of
        TomlTable t \<Rightarrow> Inr (TomlTable (hput (lit ''config_version'') (TomlInteger (int version)) t))
      | w \<Rightarrow> Inl RootNotTable)"

definition legacy_to_current :: "legacy_config \<Rightarrow> app_config" where
  "legacy_to_current l = \<lparr>ac_version = lc_version l, ac_engine = lc_engine l,
     ac_ipc = \<lparr>rpc_endpoint = li_rpc_endpoint (lc_ipc l), pub_endpoint = li_pub_endpoint (lc_ipc l),
       hmac_mode = li_hmac (lc_ipc l), hmac_key = li_hmac_key (lc_ipc l),
       hmac_env_key_name = li_hmac_env_key_name (lc_ipc l)\<rparr>,
     ac_db = \<lparr>db_path = ld_path (lc_db l), db_timezone = ld_timezone (lc_db l)\<rparr>,
     ac_updater = lc_updater l, ac_stations = lc_stations l\<rparr>"

definition migrate_v1_to_v2 :: "config_serde \<Rightarrow> toml_value \<Rightarrow> load_error + toml_value" where
  "migrate_v1_to_v2 serde v =
     (case legacy_from_value serde v of
        None \<Rightarrow> Inl LegacyShape
      | Some legacy \<Rightarrow>
          if li_transport (lc_ipc legacy) \<noteq> lit ''tcp'' then Inl LegacyTransport
          else (case config_to_value serde (legacy_to_current legacy) of
                  None \<Rightarrow> Inl ConstructFailed
                | Some w \<Rightarrow> Inr w))"

definition config_migrations :: "config_serde \<Rightarrow> config_migration list" where
  "config_migrations serde = [\<lparr>mg_version = 2, mg_name = lit ''remove legacy runtime fields'',
                               mg_apply = migrate_v1_to_v2 serde\<rparr>]"

fun registry_gap :: "nat \<Rightarrow> config_migration list \<Rightarrow> load_error option" where
  "registry_gap i [] = None"
| "registry_gap i (m # ms) =
     (let expected = first_config_version + i + 1
      in if mg_version m \<noteq> expected then Some (RegistryGap expected (mg_version m) (mg_name m))
         else registry_gap (Suc i) ms)"

definition validate_migration_registry :: "nat \<Rightarrow> config_migration list \<Rightarrow> load_error option" where
  "validate_migration_registry target migrations =
     (if target < first_config_version then Some (InvalidTarget target)
      else if length migrations \<noteq> target - first_config_version
        then Some (RegistryLength (target - first_config_version) (length migrations))
      else registry_gap 0 migrations)"

fun apply_migrations :: "config_migration list \<Rightarrow> toml_value \<Rightarrow> load_error + toml_value" where
  "apply_migrations [] v = Inr v"
| "apply_migrations (m # ms) v =
     (case mg_apply m v of
        Inl e \<Rightarrow> Inl (MigrationFailed (mg_version m) (mg_name m) e)
      | Inr w \<Rightarrow>
          (case set_config_version (mg_version m) w of
             Inl e \<Rightarrow> Inl (MigrationFailed (mg_version m) (mg_name m) e)
           | Inr u \<Rightarrow> apply_migrations ms u))"

definition run_config_migrations ::
  "toml_value \<Rightarrow> nat \<Rightarrow> config_migration list \<Rightarrow> load_error + toml_value" where
  "run_config_migrations v target migrations =
     (case validate_migration_registry target migrations of
        Some e \<Rightarrow> Inl e
      | None \<Rightarrow>
          (case config_version v of
             Inl e \<Rightarrow> Inl e
           | Inr source \<Rightarrow>
               if source < first_config_version then Inl (VersionTooOld source)
               else if target < source then Inl (VersionTooNew source target)
               else apply_migrations (filter (\<lambda>m. source < mg_version m) migrations) v))"

record loaded_config =
  ld_config :: app_config
  ld_source_version :: nat

definition load_from_str :: "config_serde \<Rightarrow> ustring \<Rightarrow> load_error + loaded_config" where
  "load_from_str serde content =
     (case parse_toml serde content of
        None \<Rightarrow> Inl TomlParse
      | Some v \<Rightarrow>
          (case config_version v of
             Inl e \<Rightarrow> Inl e
           | Inr source \<Rightarrow>
               (case run_config_migrations v supported_config_version (config_migrations serde) of
                  Inl e \<Rightarrow> Inl e
                | Inr w \<Rightarrow>
                    (case config_from_value serde w of
                       None \<Rightarrow> Inl DeserializeFailed
                     | Some c \<Rightarrow> Inr \<lparr>ld_config = c, ld_source_version = source\<rparr>))))"

section \<open>The file\<close>

record disk_faults =
  inspect_fails :: bool
  read_fails :: bool
  mkdir_fails :: bool
  prepare_fails :: bool
  replace_fails :: bool

text \<open>
  \<open>prepare_config_atomic\<close> writes a temporary file beside the destination and
  \<open>PreparedConfig::persist\<close> renames it over the destination; only the latter changes it.
\<close>

definition prepare_config_atomic ::
  "config_serde \<Rightarrow> disk_faults \<Rightarrow> app_config \<Rightarrow> load_error + ustring" where
  "prepare_config_atomic serde faults config =
     (case print_toml serde config of
        None \<Rightarrow> Inl SerializeFailed
      | Some content \<Rightarrow> if prepare_fails faults then Inl PrepareFailed else Inr content)"

definition persist_prepared ::
  "disk_faults \<Rightarrow> ustring \<Rightarrow> ustring option \<Rightarrow> load_error option \<times> ustring option" where
  "persist_prepared faults prepared file =
     (if replace_fails faults then (Some ReplaceFailed, file) else (None, Some prepared))"

definition write_config_atomic ::
  "config_serde \<Rightarrow> disk_faults \<Rightarrow> app_config \<Rightarrow> ustring option \<Rightarrow> load_error option \<times> ustring option" where
  "write_config_atomic serde faults config file =
     (case prepare_config_atomic serde faults config of
        Inl e \<Rightarrow> (Some e, file)
      | Inr prepared \<Rightarrow> persist_prepared faults prepared file)"

definition load_from_path ::
  "config_env \<Rightarrow> config_serde \<Rightarrow> disk_faults \<Rightarrow> ustring option \<Rightarrow> load_error + app_config" where
  "load_from_path env serde faults file =
     (case (if read_fails faults then None else file) of
        None \<Rightarrow> Inl ReadFailed
      | Some content \<Rightarrow>
          (case load_from_str serde content of
             Inl e \<Rightarrow> Inl e
           | Inr loaded \<Rightarrow>
               (case validate env (ld_config loaded) of
                  Some e \<Rightarrow> Inl (Invalid e)
                | None \<Rightarrow> Inr (ld_config loaded))))"

definition load_or_default ::
  "config_env \<Rightarrow> config_serde \<Rightarrow> disk_faults \<Rightarrow> ustring option \<Rightarrow> load_error + app_config" where
  "load_or_default env serde faults file =
     (if inspect_fails faults then Inl InspectFailed
      else if file \<noteq> None then load_from_path env serde faults file
      else (case validate env default_config of
              Some e \<Rightarrow> Inl (Invalid e)
            | None \<Rightarrow> Inr default_config))"

definition ensure_config_file ::
  "config_env \<Rightarrow> config_serde \<Rightarrow> disk_faults \<Rightarrow> ustring option \<Rightarrow> load_error option \<times> ustring option" where
  "ensure_config_file env serde faults file =
     (if inspect_fails faults then (Some InspectFailed, file)
      else if file \<noteq> None then (None, file)
      else if mkdir_fails faults then (Some CreateDirFailed, file)
      else (case validate env default_config of
              Some e \<Rightarrow> (Some (Invalid e), file)
            | None \<Rightarrow> write_config_atomic serde faults default_config file))"

definition load_for_engine_startup ::
  "config_env \<Rightarrow> config_serde \<Rightarrow> disk_faults \<Rightarrow> ustring option
     \<Rightarrow> (load_error + app_config) \<times> ustring option" where
  "load_for_engine_startup env serde faults file =
     (case (if read_fails faults then None else file) of
        None \<Rightarrow> (Inl ReadFailed, file)
      | Some content \<Rightarrow>
          (case load_from_str serde content of
             Inl e \<Rightarrow> (Inl e, file)
           | Inr loaded \<Rightarrow>
               (let (normalized, config) = normalize_config_stations (ld_config loaded)
                in case validate env config of
                     Some e \<Rightarrow> (Inl (Invalid e), file)
                   | None \<Rightarrow>
                       if ld_source_version loaded \<noteq> supported_config_version \<or> normalized then
                         (case write_config_atomic serde faults config file of
                            (Some e, file') \<Rightarrow> (Inl e, file')
                          | (None, file') \<Rightarrow> (Inr config, file'))
                       else (Inr config, file))))"

section \<open>Lemmas\<close>

lemma config_version_set:
  "set_config_version n v = Inr w \<Longrightarrow> n \<le> u32_max \<Longrightarrow> config_version w = Inr n"
  by (auto simp: set_config_version_def config_version_def split: toml_value.splits)

lemma registry_versions:
  "registry_gap i ms = None \<Longrightarrow> map mg_version ms = [i + 2..<i + 2 + length ms]"
proof (induction ms arbitrary: i)
  case (Cons m ms)
  then have "mg_version m = i + 2" "map mg_version ms = [Suc i + 2..<Suc i + 2 + length ms]"
    by (auto simp: Let_def first_config_version_def split: if_splits)
  moreover have "[i + 2..<i + 2 + length (m # ms)] = (i + 2) # [Suc i + 2..<Suc i + 2 + length ms]"
    by (subst upt_conv_Cons) (simp_all del: upt_Suc)
  ultimately show ?case by (simp del: upt_Suc)
qed simp

lemma applied_version:
  assumes "apply_migrations ms v = Inr w" and "ms \<noteq> []" and "mg_version (last ms) \<le> u32_max"
  shows "config_version w = Inr (mg_version (last ms))"
  using assms
proof (induction ms v rule: apply_migrations.induct)
  case (2 m ms v)
  then show ?case
    by (cases ms) (auto split: sum.splits intro: config_version_set)
qed simp

lemma filter_last_version:
  assumes "map mg_version ms = [2..<2 + length ms]" and "s \<le> Suc (length ms)" and "1 \<le> s"
  shows "map mg_version (filter (\<lambda>m. s < mg_version m) ms) = [Suc s..<2 + length ms]"
proof -
  have "map mg_version (filter (\<lambda>m. s < mg_version m) ms) = filter (\<lambda>n. s < n) (map mg_version ms)"
    by (simp add: filter_map o_def)
  also have "\<dots> = filter (\<lambda>n. s < n) [2..<2 + length ms]" by (simp only: assms(1))
  also have "[2..<2 + length ms] = [2..<Suc s] @ [Suc s..<2 + length ms]"
    using assms(2,3) upt_add_eq_append [of 2 "Suc s" "2 + length ms - Suc s"] by (simp del: upt_Suc)
  also have "filter (\<lambda>n. s < n) \<dots> = [Suc s..<2 + length ms]"
    by (auto simp: filter_empty_conv simp del: upt_Suc)
  finally show ?thesis .
qed

lemma migrations_reach_target:
  assumes "run_config_migrations v target ms = Inr w" and "target \<le> u32_max"
  shows "config_version w = Inr target"
proof -
  from assms(1) obtain s where
    reg: "validate_migration_registry target ms = None" and s: "config_version v = Inr s"
    and bounds: "1 \<le> s" "s \<le> target"
    and run: "apply_migrations (filter (\<lambda>m. s < mg_version m) ms) v = Inr w"
    by (auto simp: run_config_migrations_def first_config_version_def
        split: option.splits sum.splits if_splits)
  from reg have len: "target = Suc (length ms)" and gap: "registry_gap 0 ms = None"
    by (auto simp: validate_migration_registry_def first_config_version_def split: if_splits)
  from registry_versions [OF gap] have vs: "map mg_version ms = [2..<2 + length ms]"
    by (simp only: add_0)
  let ?ms = "filter (\<lambda>m. s < mg_version m) ms"
  have vers: "map mg_version ?ms = [Suc s..<2 + length ms]"
    by (rule filter_last_version) (use vs bounds len in simp_all)
  show ?thesis
  proof (cases "?ms = []")
    case True
    with vers have "s = target" using bounds len by (simp split: if_splits)
    with run True s show ?thesis by simp
  next
    case False
    have "mg_version (last ?ms) = last (map mg_version ?ms)" using False by (simp add: last_map)
    also have "\<dots> = target" using False len bounds unfolding vers
      by (cases "Suc s < 2 + length ms") (use vers in auto)
    finally show ?thesis using applied_version [OF run False] assms(2) by simp
  qed
qed

lemma write_atomic_cases:
  "write_config_atomic serde faults c file = (r, file') \<Longrightarrow>
     (r \<noteq> None \<and> file' = file) \<or> (r = None \<and> file' = print_toml serde c \<and> file' \<noteq> None)"
  by (cases "print_toml serde c")
     (auto simp: write_config_atomic_def prepare_config_atomic_def persist_prepared_def
        split: option.splits sum.splits if_splits, metis)

lemma startup_cases:
  assumes "load_for_engine_startup env serde faults file = (r, file')"
  shows "(\<exists>e. r = Inl e \<and> file' = file)
    \<or> (\<exists>c content loaded. r = Inr c \<and> file = Some content \<and> load_from_str serde content = Inr loaded
        \<and> c = snd (normalize_config_stations (ld_config loaded)) \<and> validate env c = None
        \<and> file' = (if ld_source_version loaded = supported_config_version
                      \<and> \<not> fst (normalize_config_stations (ld_config loaded)) then file
                    else print_toml serde c) \<and> file' \<noteq> None)"
proof (cases "if read_fails faults then None else file")
  case None
  with assms show ?thesis by (intro disjI1) (auto simp: load_for_engine_startup_def)
next
  case (Some content)
  then have fl: "file = Some content" by (simp split: if_splits)
  show ?thesis
  proof (cases "load_from_str serde content")
    case (Inl e)
    with assms Some show ?thesis by (intro disjI1) (auto simp: load_for_engine_startup_def)
  next
    case (Inr loaded)
    obtain n c where nc: "normalize_config_stations (ld_config loaded) = (n, c)" by fastforce
    obtain w f where w: "write_config_atomic serde faults c file = (w, f)" by fastforce
    from write_atomic_cases [OF w] assms Some Inr nc w fl show ?thesis
      by (cases "validate env c"; cases w)
         (auto simp: load_for_engine_startup_def split: if_splits)
  qed
qed

section \<open>Properties\<close>

text \<open>
  Also: The migration chain is sound for every registry: when it returns a document, the
  registry had exactly one step per version and the document carries the target version,
  wherever it started.
\<close>

theorem migrations_produce_target_version:
  assumes "run_config_migrations v target migrations = Inr w" and "target \<le> u32_max"
  shows "config_version w = Inr target
    \<and> map mg_version migrations = [2..<target + 1]
    \<and> (\<exists>s. config_version v = Inr s \<and> 1 \<le> s \<and> s \<le> target \<and> (s = target \<longrightarrow> w = v))"
proof -
  from assms(1) obtain s where
    reg: "validate_migration_registry target migrations = None" and s: "config_version v = Inr s"
    and bounds: "1 \<le> s" "s \<le> target"
    and run: "apply_migrations (filter (\<lambda>m. s < mg_version m) migrations) v = Inr w"
    by (auto simp: run_config_migrations_def first_config_version_def
        split: option.splits sum.splits if_splits)
  from reg have len: "target = Suc (length migrations)" and gap: "registry_gap 0 migrations = None"
    by (auto simp: validate_migration_registry_def first_config_version_def split: if_splits)
  from registry_versions [OF gap] have vs: "map mg_version migrations = [2..<2 + length migrations]"
    by (simp only: add_0)
  have "s = target \<longrightarrow> w = v"
  proof
    assume "s = target"
    then have "map mg_version (filter (\<lambda>m. s < mg_version m) migrations) = []"
      using filter_last_version [OF vs _ bounds(1)] bounds len by simp
    with run show "w = v" by simp
  qed
  with migrations_reach_target [OF assms] vs len s bounds show ?thesis
    by (simp add: add.commute del: upt_Suc)
qed

definition sample_document :: "int \<Rightarrow> toml_value" where
  "sample_document n = TomlTable [(lit ''config_version'', TomlInteger n)]"

definition sample_serde :: config_serde where
  "sample_serde = \<lparr>parse_toml = (\<lambda>t. Some (sample_document (int (hd t)))),
     print_toml = (\<lambda>c. Some [ac_version c]),
     config_from_value = (\<lambda>v. Some default_config),
     config_to_value = (\<lambda>c. Some (sample_document (int (ac_version c)))),
     legacy_from_value = (\<lambda>v. Some \<lparr>lc_version = 1, lc_engine = default_engine_config,
       lc_ipc = \<lparr>li_transport = lit ''tcp'', li_rpc_endpoint = default_rpc_endpoint,
         li_pub_endpoint = default_pub_endpoint, li_hmac = mode_disabled,
         li_hmac_key = lit ''weather-dev-default-key'', li_hmac_env_key_name = []\<rparr>,
       lc_db = \<lparr>ld_path = lit ''weather.db'', ld_lock_path = [], ld_timezone = lit ''Asia/Shanghai''\<rparr>,
       lc_updater = default_updater_config,
       lc_daemon = \<lparr>lm_service_backend = [], lm_foreground = True, lm_service_scope = []\<rparr>,
       lc_stations = default_stations\<rparr>)\<rparr>"

lemma sample_migrates:
  "run_config_migrations (sample_document 1) 2 (config_migrations sample_serde)
     = Inr (sample_document 2)"
  by (simp add: run_config_migrations_def validate_migration_registry_def first_config_version_def
      config_migrations_def config_version_def sample_document_def Let_def u32_max_def
      migrate_v1_to_v2_def sample_serde_def legacy_to_current_def set_config_version_def)

lemma migrations_produce_target_version_witness:
  "config_version (sample_document 2) = Inr 2
    \<and> map mg_version (config_migrations sample_serde) = [2..<2 + 1]
    \<and> (\<exists>s. config_version (sample_document 1) = Inr s \<and> 1 \<le> s \<and> s \<le> 2
        \<and> (s = 2 \<longrightarrow> sample_document 2 = sample_document 1))"
  by (rule migrations_produce_target_version [OF sample_migrates]) (simp add: u32_max_def)


lemma sample_startup:
  "load_for_engine_startup sample_config_env sample_serde
      \<lparr>inspect_fails = False, read_fails = False, mkdir_fails = False, prepare_fails = False,
       replace_fails = False\<rparr> (Some [1]) = (Inr default_config, Some [2])"
proof -
  have v: "validate sample_config_env default_config = None"
    by (subst validate_defaults)
       (simp_all add: default_config_def default_ipc_config_def validate_hmac_def
          sample_config_env_def del: list.map)
  have n: "normalize_config_stations default_config = (False, default_config)"
    by (simp add: normalize_config_stations_def default_config_def default_stations_def Let_def
        normalize_station_name_def trim_def is_whitespace_def)
  have p: "parse_toml sample_serde [1] = Some (sample_document 1)"
      "config_from_value sample_serde (sample_document 2) = Some default_config"
      "print_toml sample_serde default_config = Some [2]"
    by (simp_all add: sample_serde_def default_config_def supported_config_version_def del: list.map)
  have d: "config_version (sample_document 1) = Inr 1"
    by (simp add: config_version_def sample_document_def u32_max_def)
  have "load_from_str sample_serde [1] = Inr \<lparr>ld_config = default_config, ld_source_version = 1\<rparr>"
    unfolding load_from_str_def p option.case d sum.case supported_config_version_def sample_migrates
    by simp
  then show ?thesis
    by (simp add: load_for_engine_startup_def v n p write_config_atomic_def
        prepare_config_atomic_def persist_prepared_def supported_config_version_def)
qed

lemma sample_reload:
  "print_toml sample_serde default_config = Some content \<Longrightarrow>
   load_from_str sample_serde content
     = Inr \<lparr>ld_config = default_config, ld_source_version = supported_config_version\<rparr>"
  by (auto simp: sample_serde_def default_config_def supported_config_version_def load_from_str_def
      config_version_def sample_document_def u32_max_def run_config_migrations_def
      validate_migration_registry_def first_config_version_def config_migrations_def Let_def
      simp del: list.map)


lemma startup_idempotent:
  assumes "load_for_engine_startup env serde faults file = (Inr c, file')"
    and "\<And>content. print_toml serde c = Some content \<Longrightarrow>
      load_from_str serde content = Inr \<lparr>ld_config = c, ld_source_version = supported_config_version\<rparr>"
    and "\<not> read_fails faults'"
  shows "load_for_engine_startup env serde faults' file' = (Inr c, file')"
proof -
  from startup_cases [OF assms(1)] obtain t loaded where
    fl: "file = Some t" and loaded: "load_from_str serde t = Inr loaded"
    and c: "c = snd (normalize_config_stations (ld_config loaded))" and v: "validate env c = None"
    and fl': "file' = (if ld_source_version loaded = supported_config_version
                      \<and> \<not> fst (normalize_config_stations (ld_config loaded)) then file
                    else print_toml serde c)" "file' \<noteq> None"
    by auto
  have n: "normalize_config_stations c = (False, c)" unfolding c by (rule normalize_config_idem)
  show ?thesis
  proof (cases "ld_source_version loaded = supported_config_version
                  \<and> \<not> fst (normalize_config_stations (ld_config loaded))")
    case True
    with normalize_config_unchanged c have "ld_config loaded = c" by simp
    with True fl fl' loaded v n assms(3) show ?thesis
      by (simp add: load_for_engine_startup_def)
  next
    case False
    with fl' obtain s where "print_toml serde c = Some s" "file' = Some s" by auto
    with assms(2,3) v n show ?thesis by (simp add: load_for_engine_startup_def)
  qed
qed

text \<open>
  Also: Startup settles after one run: when the serialisation of the loaded configuration reads
  back as itself, starting again on the file the first start left gives the same
  configuration and writes nothing, even if the disk cannot be written any more.
\<close>

theorem startup_load_is_idempotent:
  assumes "load_for_engine_startup env serde faults file = (Inr c, file')"
    and "\<And>content. print_toml serde c = Some content \<Longrightarrow>
      load_from_str serde content = Inr \<lparr>ld_config = c, ld_source_version = supported_config_version\<rparr>"
    and "\<not> read_fails faults'"
  shows "load_for_engine_startup env serde faults' file' = (Inr c, file')"
  using assms by (rule startup_idempotent)

lemma startup_load_is_idempotent_witness:
  "load_for_engine_startup sample_config_env sample_serde
      \<lparr>inspect_fails = False, read_fails = False, mkdir_fails = False, prepare_fails = True,
       replace_fails = True\<rparr> (Some [2]) = (Inr default_config, Some [2])"
  by (rule startup_load_is_idempotent [OF sample_startup]) (simp_all add: sample_reload)

end
