(* ===== verification/Config_Commit.thy ===== *)
theory Config_Commit
  imports Config_Wire Config_Load Rpc_Reply
begin

text \<open>
  Hot updates of the configuration
  (\<^verbatim>\<open>weather-core/engine/src/handlers/config.rs\<close>): the handlers \<open>GET_CONFIG\<close> and
  \<open>UPDATE_CONFIG\<close> and the serialised commit, which validates, checks the hot-update
  boundary, replaces the file and publishes the live value. Decoding a payload and formatting
  an error are library code and arguments here.
\<close>

datatype commit_error =
    CommitInvalid config_error
  | CommitRestartRequired "ustring list"
  | CommitPersistence ustring

record commit_world =
  cw_state :: config_state
  cw_file :: "ustring option"

definition persistence_error :: "ustring \<Rightarrow> config_state \<Rightarrow> commit_error \<times> config_state" where
  "persistence_error message st = (CommitPersistence message, record_error message st)"

text \<open>
  \<open>commit_config\<close> under the commit lock. \<open>task_error\<close> is the error of the blocking task
  which prepares the file, if it died; \<open>show_error\<close> formats an error.
\<close>

definition commit_config ::
  "config_env \<Rightarrow> config_serde \<Rightarrow> (load_error \<Rightarrow> ustring) \<Rightarrow> disk_faults \<Rightarrow> ustring option \<Rightarrow> app_config
     \<Rightarrow> commit_world \<Rightarrow> (commit_error + app_config) \<times> commit_world" where
  "commit_config env serde show_error faults task_error requested w =
     (let current = live_config (cw_state w);
          (normalized, candidate) = normalize_config_stations requested
      in case validate env candidate of
           Some e \<Rightarrow> (Inl (CommitInvalid e), w)
         | None \<Rightarrow>
             (let restart_fields = restart_required_fields current candidate
              in if restart_fields \<noteq> [] then (Inl (CommitRestartRequired restart_fields), w)
                 else if candidate = current then (Inr current, w)
                 else if task_error \<noteq> None then
                   (let (err, st) = persistence_error
                          (lit ''config prepare task failed: '' @ the task_error) (cw_state w)
                    in (Inl err, w\<lparr>cw_state := st\<rparr>))
                 else
                   (case prepare_config_atomic serde faults candidate of
                      Inl e \<Rightarrow>
                        (let (err, st) = persistence_error (show_error e) (cw_state w)
                         in (Inl err, w\<lparr>cw_state := st\<rparr>))
                    | Inr prepared \<Rightarrow>
                        (case persist_prepared faults prepared (cw_file w) of
                           (Some e, file) \<Rightarrow>
                             (let (err, st) = persistence_error (show_error e) (cw_state w)
                              in (Inl err, w\<lparr>cw_state := st, cw_file := file\<rparr>))
                         | (None, file) \<Rightarrow>
                             (Inr candidate,
                              w\<lparr>cw_state := config_apply candidate (cw_state w), cw_file := file\<rparr>)))))"

definition restart_required_message :: "ustring list \<Rightarrow> ustring" where
  "restart_required_message fs =
     lit ''configuration changes require an engine restart: '' @ join (lit '', '') fs"

definition handle_get_config :: "(ustring + bool) \<Rightarrow> config_state \<Rightarrow> schema_config reply" where
  "handle_get_config decoded st =
     (case decoded of
        Inl e \<Rightarrow> ReplyError BadRequest e
      | Inr defaults \<Rightarrow>
          ReplyOk (schema_of_config (if defaults then default_config else live_config st)))"

definition handle_update_config ::
  "config_env \<Rightarrow> config_serde \<Rightarrow> (load_error \<Rightarrow> ustring) \<Rightarrow> (config_error \<Rightarrow> ustring) \<Rightarrow> disk_faults
     \<Rightarrow> ustring option \<Rightarrow> (ustring + schema_config option) \<Rightarrow> commit_world
     \<Rightarrow> schema_config reply \<times> commit_world" where
  "handle_update_config env serde show_error show_invalid faults task_error decoded w =
     (case decoded of
        Inl e \<Rightarrow> (ReplyError BadRequest e, w)
      | Inr None \<Rightarrow> (ReplyError BadRequest (lit ''missing config field''), w)
      | Inr (Some schema) \<Rightarrow>
          (case commit_config env serde show_error faults task_error (config_of_schema schema) w of
             (Inr config, w') \<Rightarrow> (ReplyOk (schema_of_config config), w')
           | (Inl (CommitInvalid e), w') \<Rightarrow> (ReplyError BadRequest (show_invalid e), w')
           | (Inl (CommitRestartRequired fs), w') \<Rightarrow>
               (ReplyError RestartRequired (restart_required_message fs), w')
           | (Inl (CommitPersistence message), w') \<Rightarrow> (ReplyError Config message, w')))"

section \<open>Commits one after another\<close>

text \<open>The commit lock serialises the updates, so a history is a sequence of attempts.\<close>

record commit_attempt =
  at_faults :: disk_faults
  at_task_error :: "ustring option"
  at_requested :: app_config

definition commit_step ::
  "config_env \<Rightarrow> config_serde \<Rightarrow> (load_error \<Rightarrow> ustring) \<Rightarrow> commit_attempt \<Rightarrow> commit_world \<Rightarrow> commit_world" where
  "commit_step env serde show_error a w =
     snd (commit_config env serde show_error (at_faults a) (at_task_error a) (at_requested a) w)"

definition commit_init :: "app_config \<Rightarrow> ustring option \<Rightarrow> commit_world" where
  "commit_init c file = \<lparr>cw_state = config_state_new c, cw_file = file\<rparr>"

text \<open>What a commit does, in one place.\<close>

lemma commit_cases:
  assumes "commit_config env serde show_error faults tf req w = (r, w')"
  shows "(\<exists>e. r = Inl e \<and> live_config (cw_state w') = live_config (cw_state w)
            \<and> cw_file w' = cw_file w
            \<and> (case e of CommitPersistence m \<Rightarrow> last_error (cw_state w') = Some m | _ \<Rightarrow> w' = w))
    \<or> (r = Inr (live_config (cw_state w)) \<and> w' = w
        \<and> snd (normalize_config_stations req) = live_config (cw_state w)
        \<and> validate env (snd (normalize_config_stations req)) = None)
    \<or> (\<exists>c. r = Inr c \<and> c = snd (normalize_config_stations req) \<and> c \<noteq> live_config (cw_state w)
        \<and> validate env c = None \<and> restart_required_fields (live_config (cw_state w)) c = []
        \<and> live_config (cw_state w') = c \<and> last_error (cw_state w') = None
        \<and> cw_file w' = print_toml serde c \<and> cw_file w' \<noteq> None)"
proof -
  obtain n c where nc: "normalize_config_stations req = (n, c)" by fastforce
  show ?thesis
  proof (cases "validate env c")
    case (Some e)
    with assms nc show ?thesis by (intro disjI1) (auto simp: commit_config_def)
  next
    case valid: None
    show ?thesis
    proof (cases "restart_required_fields (live_config (cw_state w)) c = []
        \<and> c \<noteq> live_config (cw_state w) \<and> tf = None \<and> \<not> prepare_fails faults \<and> \<not> replace_fails faults
        \<and> print_toml serde c \<noteq> None")
      case True
      with assms nc valid show ?thesis
        by (intro disjI2) (auto simp: commit_config_def prepare_config_atomic_def
            persist_prepared_def config_apply_def)
    next
      case False
      consider (restart) "restart_required_fields (live_config (cw_state w)) c \<noteq> []"
        | (same) "restart_required_fields (live_config (cw_state w)) c = []"
            "c = live_config (cw_state w)"
        | (fault) "restart_required_fields (live_config (cw_state w)) c = []"
            "c \<noteq> live_config (cw_state w)"
            "tf \<noteq> None \<or> prepare_fails faults \<or> replace_fails faults \<or> print_toml serde c = None"
        using False by auto
      then show ?thesis
      proof cases
        case restart
        with assms nc valid show ?thesis by (intro disjI1) (auto simp: commit_config_def)
      next
        case same
        with assms nc valid show ?thesis
          by (intro disjI2 disjI1) (auto simp: commit_config_def)
      next
        case fault
        with assms nc valid show ?thesis
          by (intro disjI1)
             (auto simp: commit_config_def prepare_config_atomic_def persist_prepared_def
               persistence_error_def record_error_def Let_def split: if_splits option.splits)
      qed
    qed
  qed
qed

definition commit_inv ::
  "config_env \<Rightarrow> config_serde \<Rightarrow> app_config \<Rightarrow> ustring option \<Rightarrow> commit_world \<Rightarrow> bool" where
  "commit_inv env serde initial file w \<longleftrightarrow>
     (let c = live_config (cw_state w)
      in restart_required_fields initial c = []
         \<and> (validate env initial = None \<longrightarrow> validate env c = None)
         \<and> (normalize_config_stations initial = (False, initial) \<longrightarrow>
              normalize_config_stations c = (False, c))
         \<and> ((c = initial \<and> cw_file w = file) \<or> (cw_file w = print_toml serde c \<and> cw_file w \<noteq> None)))"

lemma restart_fields_trans:
  "restart_required_fields a b = [] \<Longrightarrow> restart_required_fields b c = [] \<Longrightarrow>
   restart_required_fields a c = []"
  unfolding restart_required_fields_Nil by (metis (no_types, lifting) updater_config.update_convs(1,2)
      updater_config.cases updater_config.select_convs(1,2))

lemma commit_inv_step:
  assumes "commit_inv env serde initial file w"
  shows "commit_inv env serde initial file (commit_step env serde show_error a w)"
proof -
  obtain r w' where r: "commit_config env serde show_error (at_faults a) (at_task_error a)
      (at_requested a) w = (r, w')" by fastforce
  then have "commit_step env serde show_error a w = w'" by (simp add: commit_step_def)
  with commit_cases [OF r] assms show ?thesis
    by (auto simp: commit_inv_def Let_def normalize_config_idem intro: restart_fields_trans)
qed

lemma commit_inv_init: "commit_inv env serde initial file (commit_init initial file)"
  by (simp add: commit_inv_def commit_init_def config_state_new_def restart_required_fields_def)

interpretation commits: invariant_system
  "commit_init initial content" "commit_step env serde show_error"
  "commit_inv env serde initial content"
  for env serde show_error initial content
  by unfold_locales (rule commit_inv_init, rule commit_inv_step)


section \<open>Properties\<close>

text \<open>
  C16: An update is all or nothing, on every path: an error reply leaves the live configuration
  and the file as they were, and only a persistence error leaves a trace, the recorded last
  error; an OK reply carries exactly the configuration that is now live, which is the
  normalised request, valid, equal to the former one in every field that needs a restart, and
  if it differs from the former one the file is its complete serialisation.
\<close>

theorem update_config_all_or_nothing:
  "(case handle_update_config env serde show_error show_invalid faults tf decoded w of
      (ReplyError code m, w') \<Rightarrow>
        live_config (cw_state w') = live_config (cw_state w) \<and> cw_file w' = cw_file w
        \<and> (if code = Config then last_error (cw_state w') = Some m else w' = w)
    | (ReplyAccepted msg, w') \<Rightarrow> False
    | (ReplyOk msg, w') \<Rightarrow>
        (let c = live_config (cw_state w')
         in msg = schema_of_config c
            \<and> (\<exists>schema. decoded = Inr (Some schema)
                 \<and> c = snd (normalize_config_stations (config_of_schema schema)))
            \<and> validate env c = None
            \<and> restart_required_fields (live_config (cw_state w)) c = []
            \<and> (if c = live_config (cw_state w) then w' = w
               else cw_file w' = print_toml serde c \<and> cw_file w' \<noteq> None
                    \<and> last_error (cw_state w') = None)))"
proof (cases "\<exists>schema. decoded = Inr (Some schema)")
  case False
  then show ?thesis
    by (auto simp: handle_update_config_def split: sum.split option.split)
next
  case True
  then obtain schema where d: "decoded = Inr (Some schema)" by blast
  obtain r w' where r: "commit_config env serde show_error faults tf (config_of_schema schema) w
      = (r, w')" by fastforce
  have same: "restart_required_fields c c = []" for c by (simp add: restart_required_fields_def)
  from commit_cases [OF r] show ?thesis
    by (elim disjE exE conjE)
       (auto simp: handle_update_config_def d r Let_def same split: commit_error.split)
qed

text \<open>
  Also: Whatever updates are attempted and however the disk misbehaves, the engine keeps running
  on a valid configuration that agrees with the one it started with in every field that needs
  a restart, and the file never falls behind or ahead: it is the original one as long as the
  original configuration is live, and the complete serialisation of the live one otherwise.
\<close>

theorem live_config_stays_valid_and_persisted:
  assumes "validate env initial = None"
  shows "(let w = fold (commit_step env serde show_error) attempts (commit_init initial file);
              c = live_config (cw_state w)
          in validate env c = None \<and> restart_required_fields initial c = []
             \<and> ((c = initial \<and> cw_file w = file)
                \<or> (cw_file w = print_toml serde c \<and> cw_file w \<noteq> None)))"
  using commits.inv_run [where env = env and serde = serde and initial = initial and content = "file"
      and show_error = show_error and es = attempts] assms
  by (simp add: commit_inv_def Let_def)

lemma live_config_stays_valid_and_persisted_witness:
  "(let w = fold (commit_step sample_config_env sample_serde (\<lambda>e. []))
               [\<lparr>at_faults = \<lparr>inspect_fails = False, read_fails = False, mkdir_fails = False,
                   prepare_fails = False, replace_fails = False\<rparr>, at_task_error = None,
                 at_requested = default_config\<lparr>ac_stations := []\<rparr>\<rparr>]
               (commit_init default_config (Some [2]));
        c = live_config (cw_state w)
    in validate sample_config_env c = None \<and> restart_required_fields default_config c = []
       \<and> ((c = default_config \<and> cw_file w = Some [2])
          \<or> (cw_file w = print_toml sample_serde c \<and> cw_file w \<noteq> None)))"
proof -
  have "validate sample_config_env default_config = None"
    by (subst validate_defaults)
       (simp_all add: default_config_def default_ipc_config_def validate_hmac_def
          sample_config_env_def del: list.map)
  then show ?thesis by (rule live_config_stays_valid_and_persisted)
qed

end
