(* ===== verification/Refresh.thy ===== *)
theory Refresh
  imports Config Local_Date
begin

text \<open>
  The refresh scheduler (\<^verbatim>\<open>weather-core/engine/src/refresh.rs\<close>): one schedule per
  enabled station, at most four fetch jobs at a time, staggered refreshes when the local date
  changes. Instants and durations are nanoseconds; \<open>Instant::checked_add\<close> fails beyond the
  last instant whose seconds fit a 64-bit signed integer.
\<close>

section \<open>Schedules\<close>

record station_schedule =
  last_completed :: "nat option"
  next_due :: "nat option"
  in_flight :: bool
  date_refresh_pending :: bool

type_synonym schedules = "(ustring, station_schedule) hmap"

definition instant_max :: nat where
  "instant_max = 9223372036854775807 * 1000000000 + 999999999"

definition stagger_ns :: nat where "stagger_ns = 5 * 1000000000"
definition fallback_wake :: nat where "fallback_wake = 60 * 1000000000"
definition max_concurrent_refreshes :: nat where "max_concurrent_refreshes = 4"

definition deadline :: "nat \<Rightarrow> nat \<Rightarrow> nat option" where
  "deadline start delay = (if start + delay \<le> instant_max then Some (start + delay) else None)"

definition stagger :: "nat \<Rightarrow> nat" where
  "stagger index = stagger_ns * min index u32_max"

text \<open>\<open>enabled_stations\<close>: \<open>seen\<close> holds the names inserted so far; a parent goes before its child.\<close>

fun enabled_loop :: "ustring list \<Rightarrow> station_config list \<Rightarrow> ustring list" where
  "enabled_loop seen [] = []"
| "enabled_loop seen (s # ss) =
     (if \<not> sc_enabled s then enabled_loop seen ss
      else
        let parents = (case parent_station_name (sc_name s) of
                         Some p \<Rightarrow> if p \<in> set seen then [] else [p]
                       | None \<Rightarrow> []);
            seen' = parents @ seen;
            own = (if sc_name s \<in> set seen' then [] else [sc_name s])
        in parents @ own @ enabled_loop (own @ seen') ss)"

definition enabled_stations :: "app_config \<Rightarrow> ustring list" where
  "enabled_stations config = enabled_loop [] (ac_stations config)"

definition weather_ttl :: "app_config \<Rightarrow> nat" where
  "weather_ttl config = max 1 (weather_ttl_seconds (ac_updater config)) * 1000000000"

fun reconcile_loop :: "nat \<Rightarrow> ustring list \<Rightarrow> nat \<Rightarrow> nat \<Rightarrow> schedules \<Rightarrow> schedules" where
  "reconcile_loop index [] now ttl schedules = schedules"
| "reconcile_loop index (name # names) now ttl schedules =
     reconcile_loop (Suc index) names now ttl
       (case hget schedules name of
          Some schedule \<Rightarrow>
            (case last_completed schedule of
               Some completed \<Rightarrow>
                 if \<not> date_refresh_pending schedule
                 then hput name (schedule\<lparr>next_due := deadline completed ttl\<rparr>) schedules
                 else schedules
             | None \<Rightarrow> schedules)
        | None \<Rightarrow>
            hput name \<lparr>last_completed = None, next_due = deadline now (stagger index),
                       in_flight = False, date_refresh_pending = False\<rparr> schedules)"

definition reconcile_schedules :: "schedules \<Rightarrow> ustring list \<Rightarrow> nat \<Rightarrow> nat \<Rightarrow> schedules" where
  "reconcile_schedules schedules order now ttl =
     reconcile_loop 0 order now ttl (filter (\<lambda>(name, _). name \<in> set order) schedules)"

fun date_refresh_loop :: "nat \<Rightarrow> ustring list \<Rightarrow> nat \<Rightarrow> schedules \<Rightarrow> schedules" where
  "date_refresh_loop index [] now schedules = schedules"
| "date_refresh_loop index (name # names) now schedules =
     date_refresh_loop (Suc index) names now
       (case hget schedules name of
          Some schedule \<Rightarrow>
            hput name
              (if in_flight schedule then schedule\<lparr>date_refresh_pending := True\<rparr>
               else schedule\<lparr>date_refresh_pending := True,
                             next_due := deadline now (stagger index)\<rparr>) schedules
        | None \<Rightarrow> schedules)"

definition schedule_date_refresh :: "schedules \<Rightarrow> ustring list \<Rightarrow> nat \<Rightarrow> schedules" where
  "schedule_date_refresh schedules order now = date_refresh_loop 0 order now schedules"

definition is_due :: "nat \<Rightarrow> station_schedule \<Rightarrow> bool" where
  "is_due now schedule \<longleftrightarrow>
     \<not> (in_flight schedule \<or> (case next_due schedule of None \<Rightarrow> True | Some d \<Rightarrow> d > now))"

fun claim_loop ::
  "nat \<Rightarrow> nat \<Rightarrow> nat \<Rightarrow> ustring list \<Rightarrow> ustring list \<Rightarrow> schedules \<Rightarrow> ustring list \<times> schedules" where
  "claim_loop available now ttl claimed [] schedules = (claimed, schedules)"
| "claim_loop available now ttl claimed (name # names) schedules =
     (if length claimed \<ge> available then (claimed, schedules)
      else (case hget schedules name of
              None \<Rightarrow> claim_loop available now ttl claimed names schedules
            | Some schedule \<Rightarrow>
                if \<not> is_due now schedule then claim_loop available now ttl claimed names schedules
                else claim_loop available now ttl (claimed @ [name]) names
                       (hput name (schedule\<lparr>in_flight := True, date_refresh_pending := False,
                                           next_due := deadline now ttl\<rparr>) schedules)))"

definition claim_due_stations ::
  "ustring list \<Rightarrow> schedules \<Rightarrow> nat \<Rightarrow> nat \<Rightarrow> nat \<Rightarrow> ustring list \<times> schedules" where
  "claim_due_stations order schedules now ttl available =
     claim_loop available now ttl [] order schedules"

definition finish_job :: "schedules \<Rightarrow> ustring \<Rightarrow> nat \<Rightarrow> nat \<Rightarrow> schedules" where
  "finish_job schedules name completed_at ttl =
     (case hget schedules name of
        None \<Rightarrow> schedules
      | Some schedule \<Rightarrow>
          hput name (schedule\<lparr>in_flight := False, last_completed := Some completed_at,
              next_due := (if date_refresh_pending schedule then Some completed_at
                           else deadline completed_at ttl)\<rparr>) schedules)"

definition next_scheduler_wait :: "schedules \<Rightarrow> nat \<Rightarrow> nat \<Rightarrow> nat" where
  "next_scheduler_wait schedules now active_jobs =
     (if active_jobs \<ge> max_concurrent_refreshes then fallback_wake
      else (case min_by_key (\<lambda>d. d)
                   (map (\<lambda>due. due - now)
                     (List.map_filter next_due
                       (filter (\<lambda>s. \<not> in_flight s) (map snd schedules)))) of
              None \<Rightarrow> fallback_wake
            | Some w \<Rightarrow> w))"

section \<open>The loop\<close>

text \<open>
  The loop's variables. \<open>rf_jobs\<close> is the \<open>JoinSet\<close>: the identifiers of the tasks not yet
  joined; \<open>rf_job_names\<close> maps them to stations. A task identifier is never used again.
\<close>

record refresh_state =
  rf_order :: "ustring list"
  rf_ttl :: nat
  rf_schedules :: schedules
  rf_jobs :: "nat list"
  rf_job_names :: "(nat, ustring) hmap"
  rf_next_id :: nat
  rf_last_date :: "ustring option"
  rf_stopped :: bool

datatype refresh_event =
    Cancelled
  | ConfigClosed
  | ConfigChanged app_config nat
  | JobJoined nat nat
  | WakeUp

definition refresh_init :: "app_config \<Rightarrow> ustring option \<Rightarrow> nat \<Rightarrow> refresh_state" where
  "refresh_init config date now =
     (let order = enabled_stations config; ttl = weather_ttl config
      in \<lparr>rf_order = order, rf_ttl = ttl, rf_schedules = reconcile_schedules [] order now ttl,
          rf_jobs = [], rf_job_names = [], rf_next_id = 0, rf_last_date = date,
          rf_stopped = False\<rparr>)"

definition observe_date :: "ustring option \<Rightarrow> nat \<Rightarrow> refresh_state \<Rightarrow> refresh_state" where
  "observe_date date now st =
     (case date of
        None \<Rightarrow> st
      | Some d \<Rightarrow>
          (let st' = (if rf_last_date st \<noteq> None \<and> rf_last_date st \<noteq> Some d
                      then st\<lparr>rf_schedules := schedule_date_refresh (rf_schedules st) (rf_order st) now\<rparr>
                      else st)
           in st'\<lparr>rf_last_date := Some d\<rparr>))"

definition spawn_job :: "ustring \<Rightarrow> refresh_state \<Rightarrow> refresh_state" where
  "spawn_job name st =
     st\<lparr>rf_jobs := rf_jobs st @ [rf_next_id st],
        rf_job_names := hput (rf_next_id st) name (rf_job_names st),
        rf_next_id := Suc (rf_next_id st)\<rparr>"

definition dispatch_due :: "nat \<Rightarrow> refresh_state \<Rightarrow> refresh_state" where
  "dispatch_due now st =
     (let available = max_concurrent_refreshes - length (rf_jobs st);
          (claimed, schedules) = claim_due_stations (rf_order st) (rf_schedules st) now (rf_ttl st) available
      in fold spawn_job claimed (st\<lparr>rf_schedules := schedules\<rparr>))"

definition handle_refresh_event :: "refresh_event \<Rightarrow> refresh_state \<Rightarrow> refresh_state" where
  "handle_refresh_event ev st =
     (case ev of
        Cancelled \<Rightarrow> st\<lparr>rf_jobs := [], rf_stopped := True\<rparr>
      | ConfigClosed \<Rightarrow> st\<lparr>rf_jobs := [], rf_stopped := True\<rparr>
      | ConfigChanged config now \<Rightarrow>
          (let order = enabled_stations config; ttl = weather_ttl config
           in st\<lparr>rf_order := order, rf_ttl := ttl,
                 rf_schedules := reconcile_schedules (rf_schedules st) order now ttl\<rparr>)
      | JobJoined job now \<Rightarrow>
          if job \<in> set (rf_jobs st) then
            (let st' = st\<lparr>rf_jobs := remove1 job (rf_jobs st)\<rparr>
             in case hget (rf_job_names st') job of
                  None \<Rightarrow> st'
                | Some name \<Rightarrow>
                    st'\<lparr>rf_job_names := hdel job (rf_job_names st'),
                        rf_schedules := finish_job (rf_schedules st') name now (rf_ttl st')\<rparr>)
          else st
      | WakeUp \<Rightarrow> st)"

text \<open>One turn of the loop: the wall-clock date and the instant it reads, then one event.\<close>

definition refresh_turn :: "ustring option \<times> nat \<times> refresh_event \<Rightarrow> refresh_state \<Rightarrow> refresh_state" where
  "refresh_turn inputs st =
     (let (date, now, ev) = inputs
      in if rf_stopped st then st
         else handle_refresh_event ev (dispatch_due now (observe_date date now st)))"

definition date_and_wait ::
  "(ustring \<Rightarrow> zone option) \<Rightarrow> int \<Rightarrow> ustring \<Rightarrow> ustring option \<times> nat" where
  "date_and_wait zones unix_ms timezone =
     (case local_date_and_next_change zones unix_ms timezone of
        Inr (date, wait) \<Rightarrow> (Some date, wait * 1000000)
      | Inl e \<Rightarrow> (None, fallback_wake))"

definition refresh_wait :: "nat \<Rightarrow> nat \<Rightarrow> refresh_state \<Rightarrow> nat" where
  "refresh_wait date_wait now st =
     min (min (next_scheduler_wait (rf_schedules st) now (length (rf_jobs st))) date_wait) fallback_wake"

section \<open>Which stations are refreshed\<close>

lemma parent_of_parent: "parent_station_name n = Some p \<Longrightarrow> parent_station_name p = None"
  using parent_parts [of n p] by (simp add: parent_station_parts)

lemma enabled_loop_distinct:
  "distinct (enabled_loop seen ss) \<and> set (enabled_loop seen ss) \<inter> set seen = {}"
proof (induction ss arbitrary: seen)
  case (Cons s ss)
  show ?case
  proof (cases "sc_enabled s")
    case True
    define ps where "ps = (case parent_station_name (sc_name s) of
        Some p \<Rightarrow> if p \<in> set seen then [] else [p] | None \<Rightarrow> [])"
    define own where "own = (if sc_name s \<in> set (ps @ seen) then [] else [sc_name s])"
    have "enabled_loop seen (s # ss) = (ps @ own) @ enabled_loop (own @ ps @ seen) ss"
      using True by (simp add: ps_def own_def Let_def)
    moreover have "distinct (ps @ own)" "set (ps @ own) \<inter> set seen = {}"
      by (auto simp: ps_def own_def split: option.splits)
    ultimately show ?thesis using Cons.IH [of "own @ ps @ seen"] by auto
  qed (use Cons.IH in simp)
qed simp

lemma enabled_loop_set:
  "set (enabled_loop seen ss) =
     (\<Union>s\<in>{s \<in> set ss. sc_enabled s}. insert (sc_name s) (set_option (parent_station_name (sc_name s))))
     - set seen"
  by (induction seen ss rule: enabled_loop.induct)
     (auto simp: Let_def split: option.splits if_splits)

lemma parent_before_append:
  assumes "\<And>xs n ys p. as = xs @ n # ys \<Longrightarrow> parent_station_name n = Some p \<Longrightarrow> p \<in> set seen \<union> set xs"
    and "\<And>xs n ys p. bs = xs @ n # ys \<Longrightarrow> parent_station_name n = Some p \<Longrightarrow>
            p \<in> set (as @ seen) \<union> set xs"
    and "as @ bs = xs @ n # ys" and "parent_station_name n = Some p"
  shows "p \<in> set seen \<union> set xs"
proof -
  from assms(3) have "(\<exists>us. as = xs @ us \<and> us @ bs = n # ys)
      \<or> (\<exists>us. xs = as @ us \<and> bs = us @ n # ys)"
    by (auto simp: append_eq_append_conv2)
  then show ?thesis
  proof (elim disjE exE conjE)
    fix us assume "as = xs @ us" "us @ bs = n # ys"
    then show ?thesis using assms(1) [of xs n] assms(2) [of "[]"] assms(4) by (cases us) auto
  next
    fix us assume "xs = as @ us" "bs = us @ n # ys"
    then show ?thesis using assms(2) [OF _ assms(4)] by auto
  qed
qed

lemma enabled_loop_parent_first:
  "enabled_loop seen ss = xs @ n # ys \<Longrightarrow> parent_station_name n = Some p \<Longrightarrow>
   p \<in> set seen \<union> set xs"
proof (induction seen ss arbitrary: xs n ys p rule: enabled_loop.induct)
  case (2 seen s ss)
  show ?case
  proof (cases "sc_enabled s")
    case False
    with "2.IH"(1) [OF False] "2.prems" show ?thesis by simp
  next
    case True
    define ps where "ps = (case parent_station_name (sc_name s) of
        Some p \<Rightarrow> if p \<in> set seen then [] else [p] | None \<Rightarrow> [])"
    define own where "own = (if sc_name s \<in> set (ps @ seen) then [] else [sc_name s])"
    have split: "enabled_loop seen (s # ss) = (ps @ own) @ enabled_loop (own @ ps @ seen) ss"
      using True by (simp add: ps_def own_def Let_def)
    have head: "\<And>xs n ys p. ps @ own = xs @ n # ys \<Longrightarrow> parent_station_name n = Some p \<Longrightarrow>
        p \<in> set seen \<union> set xs"
      by (auto simp: ps_def own_def Cons_eq_append_conv append_eq_Cons_conv
          dest: parent_of_parent split: option.splits if_splits)
    have tail: "\<And>xs n ys p. enabled_loop (own @ ps @ seen) ss = xs @ n # ys \<Longrightarrow>
        parent_station_name n = Some p \<Longrightarrow> p \<in> set ((ps @ own) @ seen) \<union> set xs"
      using "2.IH"(2) [OF _ ps_def refl own_def] True by fastforce
    show ?thesis
      by (rule parent_before_append [OF head tail])
         (use "2.prems" in \<open>simp_all only: split\<close>)
  qed
qed simp

section \<open>Claiming\<close>

definition due_now :: "nat \<Rightarrow> schedules \<Rightarrow> ustring \<Rightarrow> bool" where
  "due_now now s name = (case hget s name of None \<Rightarrow> False | Some sch \<Rightarrow> is_due now sch)"

definition claimed_schedule :: "nat \<Rightarrow> nat \<Rightarrow> station_schedule \<Rightarrow> station_schedule" where
  "claimed_schedule now ttl sch =
     sch\<lparr>in_flight := True, date_refresh_pending := False, next_due := deadline now ttl\<rparr>"

lemma claim_loop_spec:
  assumes "distinct names"
  shows "claim_loop available now ttl claimed names s = (c, s') \<Longrightarrow>
     c = claimed @ take (available - length claimed) (filter (due_now now s) names)
     \<and> hget s' name = (if name \<in> set (take (available - length claimed) (filter (due_now now s) names))
                       then map_option (claimed_schedule now ttl) (hget s name) else hget s name)"
  using assms
proof (induction names arbitrary: claimed s)
  case (Cons n names)
  show ?case
  proof (cases "length claimed \<ge> available")
    case True
    with Cons.prems show ?thesis by simp
  next
    case room: False
    then have room': "available - length claimed = Suc (available - length (claimed @ [n]))" by simp
    show ?thesis
    proof (cases "due_now now s n")
      case False
      then have "claim_loop available now ttl claimed names s = (c, s')"
        using Cons.prems room by (auto simp: due_now_def split: option.splits)
      with Cons.IH [OF this] Cons.prems False show ?thesis by simp
    next
      case True
      then obtain sch where sch: "hget s n = Some sch" "is_due now sch"
        by (auto simp: due_now_def split: option.splits)
      define t where "t = hput n (claimed_schedule now ttl sch) s"
      have run: "claim_loop available now ttl (claimed @ [n]) names t = (c, s')"
        using Cons.prems room sch by (simp add: t_def claimed_schedule_def)
      have same: "filter (due_now now t) names = filter (due_now now s) names"
        using Cons.prems(2) by (intro filter_cong) (auto simp: due_now_def t_def)
      from Cons.IH [OF run] Cons.prems(2) sch True show ?thesis
        unfolding same room' by (auto simp: t_def dest: in_set_takeD)
    qed
  qed
qed simp

lemma claim_spec:
  assumes "distinct order" and "claim_due_stations order s now ttl available = (c, s')"
  shows "c = take available (filter (due_now now s) order)"
    and "hget s' name = (if name \<in> set c then map_option (claimed_schedule now ttl) (hget s name)
                         else hget s name)"
  using claim_loop_spec [OF assms(1), of available now ttl "[]" s c s' name] assms(2)
  by (simp_all add: claim_due_stations_def)

section \<open>The scheduler's invariant\<close>

text \<open>
  At most four jobs, each with its station; every schedule that says it is in flight has a job
  that will finish it; the order of stations has no duplicates.
\<close>

definition job_of :: "refresh_state \<Rightarrow> ustring \<Rightarrow> nat \<Rightarrow> bool" where
  "job_of st name j \<longleftrightarrow> j \<in> set (rf_jobs st) \<and> hget (rf_job_names st) j = Some name"

definition flying :: "schedules \<Rightarrow> ustring \<Rightarrow> bool" where
  "flying s name = (case hget s name of None \<Rightarrow> False | Some sch \<Rightarrow> in_flight sch)"

definition refresh_inv :: "refresh_state \<Rightarrow> bool" where
  "refresh_inv st \<longleftrightarrow>
     (if rf_stopped st then rf_jobs st = []
      else distinct (rf_order st) \<and> distinct (rf_jobs st)
        \<and> length (rf_jobs st) \<le> max_concurrent_refreshes
        \<and> (\<forall>j \<in> set (rf_jobs st). j < rf_next_id st \<and> hget (rf_job_names st) j \<noteq> None)
        \<and> (\<forall>name. flying (rf_schedules st) name \<longrightarrow> (\<exists>j. job_of st name j)))"

lemma job_of_cong:
  "rf_jobs st' = rf_jobs st \<Longrightarrow> rf_job_names st' = rf_job_names st \<Longrightarrow> job_of st' = job_of st"
  by (simp add: job_of_def fun_eq_iff)

lemma hget_filter_keys: "hget (filter (\<lambda>(k, _). P k) m) n = (if P n then hget m n else None)"
  by (induction m) auto

lemma flying_put: "flying (hput n sch s) name = (if name = n then in_flight sch else flying s name)"
  by (auto simp: flying_def)

lemma flying_reconcile_loop: "flying (reconcile_loop i names now ttl s) name = flying s name"
proof (induction i names now ttl s rule: reconcile_loop.induct)
  case (2 i n names now ttl s)
  then show ?case
    by (auto simp: flying_def split: option.split)
qed simp

lemma flying_reconcile:
  "flying (reconcile_schedules s order now ttl) name \<longleftrightarrow> name \<in> set order \<and> flying s name"
proof -
  have "flying (filter (\<lambda>(name, _). name \<in> set order) s) name \<longleftrightarrow> name \<in> set order \<and> flying s name"
    by (simp add: flying_def hget_filter_keys)
  then show ?thesis by (simp add: reconcile_schedules_def flying_reconcile_loop)
qed

lemma flying_date_refresh_loop: "flying (date_refresh_loop i names now s) name = flying s name"
proof (induction i names now s rule: date_refresh_loop.induct)
  case (2 i n names now s)
  then show ?case by (auto simp: flying_def split: option.split)
qed simp

lemma flying_observe_date [simp]:
  "flying (rf_schedules (observe_date date now st)) name = flying (rf_schedules st) name"
  by (simp add: observe_date_def schedule_date_refresh_def flying_date_refresh_loop Let_def
      split: option.split)

lemma observe_date_fields [simp]:
  "rf_order (observe_date date now st) = rf_order st"
  "rf_ttl (observe_date date now st) = rf_ttl st"
  "rf_jobs (observe_date date now st) = rf_jobs st"
  "rf_job_names (observe_date date now st) = rf_job_names st"
  "rf_next_id (observe_date date now st) = rf_next_id st"
  "rf_stopped (observe_date date now st) = rf_stopped st"
  by (simp_all add: observe_date_def Let_def split: option.split)

lemma spawn_fields [simp]:
  "rf_order (fold spawn_job c st) = rf_order st" "rf_ttl (fold spawn_job c st) = rf_ttl st"
  "rf_schedules (fold spawn_job c st) = rf_schedules st"
  "rf_stopped (fold spawn_job c st) = rf_stopped st"
  "rf_next_id (fold spawn_job c st) = rf_next_id st + length c"
  "rf_jobs (fold spawn_job c st) = rf_jobs st @ [rf_next_id st..<rf_next_id st + length c]"
  by (induction c arbitrary: st) (simp_all add: spawn_job_def upt_conv_Cons del: upt_Suc)

lemma spawn_names:
  "hget (rf_job_names (fold spawn_job c st)) j =
     (if rf_next_id st \<le> j \<and> j < rf_next_id st + length c then Some (c ! (j - rf_next_id st))
      else hget (rf_job_names st) j)"
proof (induction c arbitrary: st)
  case (Cons n c)
  have first: "hget (rf_job_names (spawn_job n st)) j
      = (if j = rf_next_id st then Some n else hget (rf_job_names st) j)"
    "rf_next_id (spawn_job n st) = Suc (rf_next_id st)"
    by (simp_all add: spawn_job_def)
  have "rf_next_id st < j \<Longrightarrow> (n # c) ! (j - rf_next_id st) = c ! (j - Suc (rf_next_id st))"
    by (simp add: nth_Cons')
  with Cons.IH [of "spawn_job n st"] first show ?case by auto
qed auto

lemma spawned_job:
  "n \<in> set c \<Longrightarrow> \<exists>j. job_of (fold spawn_job c st) n j"
proof -
  assume "n \<in> set c"
  then obtain i where "i < length c" "c ! i = n" by (auto simp: in_set_conv_nth)
  then have "job_of (fold spawn_job c st) n (rf_next_id st + i)"
    by (simp add: job_of_def spawn_names)
  then show ?thesis ..
qed

lemma flying_claim:
  assumes "distinct order" and "claim_due_stations order s now ttl available = (c, s')"
  shows "flying s' name \<longleftrightarrow> name \<in> set c \<or> flying s name"
proof -
  have "name \<in> set c \<Longrightarrow> hget s name \<noteq> None"
    using claim_spec(1) [OF assms] by (auto dest!: in_set_takeD simp: due_now_def split: option.splits)
  then show ?thesis
    using claim_spec(2) [OF assms, of name]
    by (auto simp: flying_def claimed_schedule_def split: option.splits)
qed

lemma refresh_inv_dispatch [inv_intros]:
  assumes "refresh_inv st" and "\<not> rf_stopped st"
  shows "refresh_inv (dispatch_due now st)"
proof -
  obtain c s' where claim: "claim_due_stations (rf_order st) (rf_schedules st) now (rf_ttl st)
      (max_concurrent_refreshes - length (rf_jobs st)) = (c, s')" by fastforce
  define mid where "mid = st\<lparr>rf_schedules := s'\<rparr>"
  have d: "dispatch_due now st = fold spawn_job c mid"
    by (simp add: dispatch_due_def claim mid_def)
  from assms have ord: "distinct (rf_order st)" and jobs: "distinct (rf_jobs st)"
    "length (rf_jobs st) \<le> max_concurrent_refreshes"
    "\<And>j. j \<in> set (rf_jobs st) \<Longrightarrow> j < rf_next_id st \<and> hget (rf_job_names st) j \<noteq> None"
    and fly: "\<And>n. flying (rf_schedules st) n \<Longrightarrow> \<exists>j. job_of st n j"
    by (auto simp: refresh_inv_def)
  have len: "length c \<le> max_concurrent_refreshes - length (rf_jobs st)"
    using claim_spec(1) [OF ord claim] by simp
  have old: "job_of st n j \<Longrightarrow> job_of (fold spawn_job c mid) n j" for n j
    using jobs(3) by (fastforce simp: job_of_def spawn_names mid_def)
  have "flying s' n \<Longrightarrow> \<exists>j. job_of (fold spawn_job c mid) n j" for n
    using flying_claim [OF ord claim] fly old spawned_job by blast
  with ord jobs len assms(2) show ?thesis
    unfolding d refresh_inv_def by (fastforce simp: mid_def spawn_names)
qed

lemma refresh_inv_observe [inv_intros]:
  "refresh_inv st \<Longrightarrow> refresh_inv (observe_date date now st)"
  using job_of_cong [of "observe_date date now st" st] by (simp add: refresh_inv_def)

lemma flying_finish:
  "flying (finish_job s n t ttl) name \<longleftrightarrow> name \<noteq> n \<and> flying s name"
  by (auto simp: finish_job_def flying_def split: option.splits)

lemma refresh_inv_event [inv_intros]:
  assumes "refresh_inv st" and "\<not> rf_stopped st"
  shows "refresh_inv (handle_refresh_event ev st)"
proof (cases ev)
  case (ConfigChanged config now)
  have "distinct (enabled_stations config)"
    using enabled_loop_distinct by (simp add: enabled_stations_def)
  moreover have "job_of (handle_refresh_event ev st) = job_of st"
    by (rule job_of_cong) (simp_all add: ConfigChanged handle_refresh_event_def Let_def)
  ultimately show ?thesis using ConfigChanged assms
    by (simp add: handle_refresh_event_def refresh_inv_def flying_reconcile Let_def)
next
  case (JobJoined j now)
  show ?thesis
  proof (cases "j \<in> set (rf_jobs st)")
    case True
    with assms obtain name where name: "hget (rf_job_names st) j = Some name"
      by (auto simp: refresh_inv_def)
    let ?st = "st\<lparr>rf_jobs := remove1 j (rf_jobs st), rf_job_names := hdel j (rf_job_names st),
        rf_schedules := finish_job (rf_schedules st) name now (rf_ttl st)\<rparr>"
    have ev: "handle_refresh_event ev st = ?st"
      using JobJoined True name by (simp add: handle_refresh_event_def)
    have "\<exists>i. job_of ?st n i" if "flying (rf_schedules ?st) n" for n
    proof -
      from that have "n \<noteq> name" "flying (rf_schedules st) n" by (auto simp: flying_finish)
      with assms obtain i where i: "job_of st n i" by (auto simp: refresh_inv_def)
      with name \<open>n \<noteq> name\<close> have "i \<noteq> j" by (auto simp: job_of_def)
      with i have "job_of ?st n i" by (simp add: job_of_def)
      then show ?thesis ..
    qed
    with assms show ?thesis unfolding ev
      by (auto simp: refresh_inv_def length_remove1 set_remove1_eq)
  qed (use assms JobJoined in \<open>simp add: handle_refresh_event_def\<close>)
qed (use assms in \<open>simp_all add: handle_refresh_event_def refresh_inv_def\<close>)

lemma refresh_inv_turn: "refresh_inv st \<Longrightarrow> refresh_inv (refresh_turn inputs st)"
proof (cases "rf_stopped st")
  case False
  assume inv: "refresh_inv st"
  obtain date now ev where i: "inputs = (date, now, ev)" by (cases inputs)
  have "\<not> rf_stopped (dispatch_due now (observe_date date now st))"
    using False by (simp add: dispatch_due_def case_prod_beta Let_def)
  with inv False show ?thesis
    by (simp add: refresh_turn_def i inv_intros)
qed (simp add: refresh_turn_def)

lemma refresh_inv_init: "refresh_inv (refresh_init config date now)"
proof -
  have "\<not> flying [] n" for n by (simp add: flying_def)
  then show ?thesis
    using enabled_loop_distinct [of "[]"]
    by (simp add: refresh_inv_def refresh_init_def Let_def enabled_stations_def
        flying_reconcile max_concurrent_refreshes_def)
qed

interpretation refresh_loop: invariant_system "refresh_init config date now" refresh_turn refresh_inv
  for config date now
  by unfold_locales (rule refresh_inv_init, rule refresh_inv_turn)

section \<open>One job per station between reconfigurations\<close>

definition single_inv :: "refresh_state \<Rightarrow> bool" where
  "single_inv st \<longleftrightarrow>
     (\<forall>n i j. job_of st n i \<longrightarrow> job_of st n j \<longrightarrow> i = j)
     \<and> (\<forall>n j. job_of st n j \<longrightarrow> flying (rf_schedules st) n)"

lemma single_inv_dispatch:
  assumes inv: "refresh_inv st" and run: "\<not> rf_stopped st" and single: "single_inv st"
  shows "single_inv (dispatch_due now st)"
proof -
  obtain c s' where claim: "claim_due_stations (rf_order st) (rf_schedules st) now (rf_ttl st)
      (max_concurrent_refreshes - length (rf_jobs st)) = (c, s')" by fastforce
  define mid where "mid = st\<lparr>rf_schedules := s'\<rparr>"
  have d: "dispatch_due now st = fold spawn_job c mid"
    by (simp add: dispatch_due_def claim mid_def)
  from inv run have ord: "distinct (rf_order st)"
    and old: "\<And>j. j \<in> set (rf_jobs st) \<Longrightarrow> j < rf_next_id st" by (auto simp: refresh_inv_def)
  have c: "distinct c" "\<And>n. n \<in> set c \<Longrightarrow> \<not> flying (rf_schedules st) n"
    using claim_spec(1) [OF ord claim] ord
    by (auto simp: due_now_def is_due_def flying_def dest!: in_set_takeD split: option.splits)
  have job: "job_of (fold spawn_job c mid) n j \<longleftrightarrow>
      (if j < rf_next_id st then job_of st n j
       else j < rf_next_id st + length c \<and> c ! (j - rf_next_id st) = n)" for n j
    using old [of j] by (auto simp: job_of_def spawn_names mid_def)
  have "flying s' n" if "job_of (fold spawn_job c mid) n j" for n j
    using that single flying_claim [OF ord claim, of n]
    by (auto simp: job single_inv_def split: if_splits)
  moreover have "i = j" if "job_of (fold spawn_job c mid) n i" "job_of (fold spawn_job c mid) n j"
    for n i j
  proof -
    have new: "\<not> flying (rf_schedules st) n" if "k \<ge> rf_next_id st" "job_of (fold spawn_job c mid) n k" for k
      using that c(2) by (auto simp: job)
    show ?thesis
    proof (cases "i < rf_next_id st \<or> j < rf_next_id st")
      case True
      have older: "job_of st n k \<and> flying (rf_schedules st) n"
        if "k < rf_next_id st" "job_of (fold spawn_job c mid) n k" for k
        using that single by (auto simp: job single_inv_def)
      from True that new [of i] new [of j] older [of i] older [of j]
      have "job_of st n i" "job_of st n j" by (meson not_le)+
      with single show ?thesis unfolding single_inv_def by blast
    next
      case False
      with that c(1) have "i - rf_next_id st = j - rf_next_id st"
        by (auto simp: job nth_eq_iff_index_eq [symmetric])
      with False show ?thesis by linarith
    qed
  qed
  ultimately show ?thesis unfolding d single_inv_def by (simp add: mid_def)
qed

lemma single_inv_observe: "single_inv st \<Longrightarrow> single_inv (observe_date date now st)"
  using job_of_cong [of "observe_date date now st" st] by (simp add: single_inv_def)

lemma single_inv_event:
  assumes inv: "refresh_inv st" "\<not> rf_stopped st" and single: "single_inv st"
    and "\<And>config t. ev \<noteq> ConfigChanged config t"
  shows "single_inv (handle_refresh_event ev st)"
proof (cases ev)
  case (JobJoined j now)
  show ?thesis
  proof (cases "j \<in> set (rf_jobs st)")
    case True
    with inv obtain name where name: "hget (rf_job_names st) j = Some name"
      and dist: "distinct (rf_jobs st)" by (auto simp: refresh_inv_def)
    let ?st = "st\<lparr>rf_jobs := remove1 j (rf_jobs st), rf_job_names := hdel j (rf_job_names st),
        rf_schedules := finish_job (rf_schedules st) name now (rf_ttl st)\<rparr>"
    have ev: "handle_refresh_event ev st = ?st"
      using JobJoined True name by (simp add: handle_refresh_event_def)
    have job: "job_of ?st n i \<longleftrightarrow> i \<noteq> j \<and> job_of st n i" for n i
      using dist by (auto simp: job_of_def)
    have "job_of st name j" using True name by (simp add: job_of_def)
    with single show ?thesis unfolding ev single_inv_def job
      by (auto simp: flying_finish)
  qed (use single JobJoined in \<open>simp add: handle_refresh_event_def\<close>)
qed (use assms in \<open>auto simp: handle_refresh_event_def single_inv_def job_of_def\<close>)

definition reconfigures :: "ustring option \<times> nat \<times> refresh_event \<Rightarrow> bool" where
  "reconfigures inputs = (case inputs of (_, _, ConfigChanged _ _) \<Rightarrow> True | _ \<Rightarrow> False)"

lemma single_inv_run:
  assumes "refresh_inv st" and "single_inv st" and "list_all (\<lambda>i. \<not> reconfigures i) inputs"
  shows "single_inv (fold refresh_turn inputs st)"
  using assms
proof (induction inputs arbitrary: st)
  case (Cons i inputs)
  obtain date now ev where i: "i = (date, now, ev)" by (cases i)
  have ev: "ev \<noteq> ConfigChanged config t" for config t
    using Cons.prems(3) by (auto simp: i reconfigures_def)
  have "single_inv (refresh_turn i st)"
  proof (cases "rf_stopped st")
    case False
    have "\<not> rf_stopped (dispatch_due now (observe_date date now st))"
      using False by (simp add: dispatch_due_def case_prod_beta Let_def)
    with False Cons.prems ev show ?thesis
      by (simp add: refresh_turn_def i single_inv_event single_inv_dispatch single_inv_observe inv_intros)
  qed (use Cons.prems in \<open>simp add: refresh_turn_def\<close>)
  with Cons show ?case by (simp add: refresh_inv_turn)
qed simp

section \<open>Waiting\<close>

lemma scheduler_wait_le:
  assumes "(n, sch) \<in> set s" and "\<not> in_flight sch" and "next_due sch = Some d"
    and "active < max_concurrent_refreshes"
  shows "next_scheduler_wait s now active \<le> d - now"
proof -
  let ?ws = "map (\<lambda>due. due - now) (List.map_filter next_due (filter (\<lambda>s. \<not> in_flight s) (map snd s)))"
  from assms(1-3) have mem: "d - now \<in> set ?ws"
    by (force simp: List.map_filter_def)
  show ?thesis
  proof (cases "min_by_key (\<lambda>d. d) ?ws")
    case None
    then have "?ws = []" by (simp only: min_by_key_None)
    with mem show ?thesis by (metis empty_iff empty_set)
  next
    case (Some w)
    from min_by_key_le [OF Some mem] Some assms(4) show ?thesis
      by (simp add: next_scheduler_wait_def)
  qed
qed

lemma scheduler_wait_pos:
  assumes "\<And>n sch. (n, sch) \<in> set s \<Longrightarrow> \<not> is_due now sch"
  shows "0 < next_scheduler_wait s now active"
proof -
  let ?ws = "map (\<lambda>due. due - now) (List.map_filter next_due (filter (\<lambda>s. \<not> in_flight s) (map snd s)))"
  have pos: "0 < w" if "w \<in> set ?ws" for w
    using that assms by (fastforce simp: List.map_filter_def is_due_def)
  show ?thesis
    using pos min_by_key_mem [of "\<lambda>d. d" ?ws]
    by (auto simp: next_scheduler_wait_def fallback_wake_def split: option.split simp del: set_map)
qed

text \<open>Schedules exist only for stations of the current order.\<close>

definition keys_inv :: "refresh_state \<Rightarrow> bool" where
  "keys_inv st \<longleftrightarrow> hkeys_ok (rf_schedules st) \<and> hkeys (rf_schedules st) \<subseteq> set (rf_order st)"

lemma put_existing: "hget m k = Some v \<Longrightarrow> hkeys (hput k w m) = hkeys m"
  by (metis hkeys_hget hkeys_put insert_absorb option.distinct(1))

lemma claim_loop_keys:
  "hkeys (snd (claim_loop available now ttl claimed names s)) = hkeys s
   \<and> (hkeys_ok s \<longrightarrow> hkeys_ok (snd (claim_loop available now ttl claimed names s)))"
  by (induction available now ttl claimed names s rule: claim_loop.induct)
     (auto simp: put_existing split: option.splits)

lemma date_refresh_keys:
  "hkeys (date_refresh_loop i names now s) = hkeys s
   \<and> (hkeys_ok s \<longrightarrow> hkeys_ok (date_refresh_loop i names now s))"
  by (induction i names now s rule: date_refresh_loop.induct)
     (auto simp: put_existing split: option.splits)

lemma reconcile_keys:
  "hkeys (reconcile_loop i names now ttl s) = hkeys s \<union> set names
   \<and> (hkeys_ok s \<longrightarrow> hkeys_ok (reconcile_loop i names now ttl s))"
  by (induction i names now ttl s rule: reconcile_loop.induct)
     (auto simp: hkeys_put hkeys_hget split: option.splits)

lemma hkeys_filter: "hkeys (filter (\<lambda>(k, _). P k) m) = {k \<in> hkeys m. P k}"
  by force

lemma reconcile_schedules_keys:
  assumes "hkeys_ok s"
  shows "hkeys_ok (reconcile_schedules s order now ttl)
    \<and> hkeys (reconcile_schedules s order now ttl) = set order"
  using assms reconcile_keys [of 0 order now ttl "filter (\<lambda>(name, _). name \<in> set order) s"]
  by (auto simp: reconcile_schedules_def hkeys_filter hkeys_ok_filter)

lemma finish_keys:
  "hkeys (finish_job s n t ttl) = hkeys s \<and> (hkeys_ok s \<longrightarrow> hkeys_ok (finish_job s n t ttl))"
  by (auto simp: finish_job_def put_existing split: option.splits)

lemma keys_inv_observe: "keys_inv st \<Longrightarrow> keys_inv (observe_date date now st)"
  using date_refresh_keys [of 0 "rf_order st" now "rf_schedules st"]
  by (auto simp: keys_inv_def observe_date_def schedule_date_refresh_def Let_def split: option.splits)

lemma keys_inv_dispatch: "keys_inv st \<Longrightarrow> keys_inv (dispatch_due now st)"
  using claim_loop_keys [of "max_concurrent_refreshes - length (rf_jobs st)" now "rf_ttl st" "[]"
      "rf_order st" "rf_schedules st"]
  by (auto simp: keys_inv_def dispatch_due_def claim_due_stations_def case_prod_beta Let_def)

lemma keys_inv_event: "keys_inv st \<Longrightarrow> keys_inv (handle_refresh_event ev st)"
  by (cases ev)
     (auto simp: handle_refresh_event_def keys_inv_def reconcile_schedules_keys finish_keys Let_def
        split: option.split)

lemma keys_inv_turn: "keys_inv st \<Longrightarrow> keys_inv (refresh_turn i st)"
  by (auto simp: refresh_turn_def case_prod_beta intro: keys_inv_event keys_inv_dispatch keys_inv_observe)

lemma keys_inv_init: "keys_inv (refresh_init config date now)"
  by (simp add: keys_inv_def refresh_init_def Let_def reconcile_schedules_keys)

interpretation refresh_keys: invariant_system "refresh_init config date now" refresh_turn keys_inv
  for config date now
  by unfold_locales (rule keys_inv_init, rule keys_inv_turn)

text \<open>After dispatching with a slot left, no idle schedule is due any more.\<close>

lemma dispatched_not_due:
  assumes inv: "refresh_inv st" "keys_inv st" and run: "\<not> rf_stopped st"
    and slot: "length (rf_jobs (dispatch_due now st)) < max_concurrent_refreshes"
    and mem: "(n, sch) \<in> set (rf_schedules (dispatch_due now st))"
  shows "\<not> is_due now sch"
proof -
  let ?avail = "max_concurrent_refreshes - length (rf_jobs st)"
  obtain c s' where claim: "claim_due_stations (rf_order st) (rf_schedules st) now (rf_ttl st) ?avail
      = (c, s')" by fastforce
  from inv run have ord: "distinct (rf_order st)" by (simp add: refresh_inv_def)
  have s': "rf_schedules (dispatch_due now st) = s'" and "length c < ?avail"
    using slot by (simp_all add: dispatch_due_def claim)
  with claim_spec(1) [OF ord claim] have c: "c = filter (due_now now (rf_schedules st)) (rf_order st)"
    by (simp add: min_def split: if_splits)
  have k: "hkeys_ok s'" "hkeys s' \<subseteq> set (rf_order st)"
    using claim_loop_keys [of ?avail now "rf_ttl st" "[]" "rf_order st" "rf_schedules st"] inv(2) claim
    by (simp_all add: keys_inv_def claim_due_stations_def)
  from mem s' have "(n, sch) \<in> set s'" by simp
  then have n2: "hget s' n = Some sch" using k(1) by (simp only: mem_hget)
  with k(2) have "n \<in> set (rf_order st)" by (simp only: subset_iff hkeys_hget) simp
  with c n2 claim_spec(2) [OF ord claim, of n] show ?thesis
    by (auto simp: claimed_schedule_def is_due_def due_now_def split: if_splits)
qed

section \<open>Properties\<close>

text \<open>
  Also: The stations to refresh are exactly the enabled ones and their parents, each once, and a
  parent always comes before its districts, so its data is there when they need it.
\<close>

theorem enabled_stations_parents_first:
  "distinct (enabled_stations config)
   \<and> set (enabled_stations config) =
       (\<Union>s\<in>{s \<in> set (ac_stations config). sc_enabled s}.
          insert (sc_name s) (set_option (parent_station_name (sc_name s))))
   \<and> (\<forall>i < length (enabled_stations config).
        set_option (parent_station_name (enabled_stations config ! i))
          \<subseteq> set (take i (enabled_stations config)))"
proof -
  have "set_option (parent_station_name (enabled_stations config ! i))
          \<subseteq> set (take i (enabled_stations config))" if "i < length (enabled_stations config)" for i
    using enabled_loop_parent_first [of "[]" "ac_stations config" "take i (enabled_stations config)"]
      id_take_nth_drop [OF that]
    by (cases "parent_station_name (enabled_stations config ! i)")
       (auto simp: enabled_stations_def)
  then show ?thesis
    using enabled_loop_distinct [of "[]"] enabled_loop_set [of "[]"]
    by (simp add: enabled_stations_def)
qed

definition sample_refresh_config :: app_config where
  "sample_refresh_config = default_config\<lparr>ac_stations :=
     [\<lparr>sc_name = lit ''a-b-c'', sc_enabled = True\<rparr>]\<rparr>"

lemma enabled_stations_parents_first_witness:
  "length (enabled_stations sample_refresh_config) = 2
   \<and> set_option (parent_station_name (enabled_stations sample_refresh_config ! 1))
       \<subseteq> set (take 1 (enabled_stations sample_refresh_config))"
proof -
  have "length (enabled_stations sample_refresh_config) = 2"
    by (simp add: enabled_stations_def sample_refresh_config_def parent_station_name_def Let_def
        normalize_station_name_def trim_def is_whitespace_def)
  with enabled_stations_parents_first [of sample_refresh_config] show ?thesis by simp
qed

text \<open>
  Also: A round of claims takes exactly the idle stations that are due, in the configured order
  and no more than there are free slots; each claimed schedule is marked in flight with its
  next deadline one TTL away (none if that instant does not exist), all others stay.
\<close>

theorem claims_due_stations_in_order:
  "(let order = enabled_stations config;
        (claimed, s') = claim_due_stations order s now ttl available
    in claimed = take available (filter (due_now now s) order)
     \<and> (\<forall>name. hget s' name =
          (if name \<in> set claimed
           then map_option (\<lambda>sch. sch\<lparr>in_flight := True, date_refresh_pending := False,
                  next_due := if now + ttl \<le> instant_max then Some (now + ttl) else None\<rparr>) (hget s name)
           else hget s name)))"
proof -
  obtain c s' where claim: "claim_due_stations (enabled_stations config) s now ttl available = (c, s')"
    by fastforce
  have ord: "distinct (enabled_stations config)"
    using enabled_loop_distinct by (simp add: enabled_stations_def)
  have "claimed_schedule now ttl = (\<lambda>sch. sch\<lparr>in_flight := True, date_refresh_pending := False,
      next_due := if now + ttl \<le> instant_max then Some (now + ttl) else None\<rparr>)"
    by (simp add: claimed_schedule_def deadline_def fun_eq_iff)
  with claim_spec [OF ord claim] show ?thesis by (simp add: claim)
qed

text \<open>
  C18: However stations are reconfigured, dates change and jobs end, never more than four
  refreshes run at once, and no station is stuck: every schedule marked in flight has a
  running job that will clear the mark. After cancellation no job is left.
\<close>

theorem refresh_bounded_and_never_stuck:
  "(let st = fold refresh_turn inputs (refresh_init config date now)
    in length (rf_jobs st) \<le> 4
     \<and> (if rf_stopped st then rf_jobs st = []
        else {name. flying (rf_schedules st) name}
               \<subseteq> {name. \<exists>job \<in> set (rf_jobs st). hget (rf_job_names st) job = Some name}))"
  using refresh_loop.inv_run [where config = config and date = date and now = now and es = inputs]
  by (auto simp: Let_def refresh_inv_def job_of_def max_concurrent_refreshes_def split: if_splits)

text \<open>
  Also: As long as the configuration does not change, no station is ever refreshed by two jobs
  at the same time, and a running job's station is marked in flight.
\<close>

theorem one_refresh_per_station:
  assumes "list_all (\<lambda>i. \<not> reconfigures i) inputs"
    and "st = fold refresh_turn inputs (refresh_init config date now)"
    and "job_of st name i" and "job_of st name j"
  shows "i = j \<and> flying (rf_schedules st) name"
proof -
  have "single_inv (refresh_init config date now)"
    by (simp add: single_inv_def job_of_def refresh_init_def Let_def)
  with single_inv_run [OF refresh_inv_init _ assms(1)] assms(2) have "single_inv st" by simp
  with assms(3,4) show ?thesis by (auto simp: single_inv_def)
qed

definition one_station_config :: app_config where
  "one_station_config = default_config\<lparr>ac_stations := [\<lparr>sc_name = lit ''A'', sc_enabled = True\<rparr>]\<rparr>"

lemma one_station_order: "enabled_stations one_station_config = [lit ''A'']"
  by (simp add: enabled_stations_def one_station_config_def parent_station_name_def Let_def
      normalize_station_name_def trim_def is_whitespace_def)

lemma one_station_ttl: "weather_ttl one_station_config = 600000000000"
  by (simp add: weather_ttl_def one_station_config_def default_config_def default_updater_config_def)

lemmas refresh_eval = refresh_turn_def refresh_init_def one_station_order one_station_ttl
  reconcile_schedules_def observe_date_def dispatch_due_def claim_due_stations_def is_due_def
  deadline_def stagger_def stagger_ns_def instant_max_def max_concurrent_refreshes_def
  handle_refresh_event_def spawn_job_def job_of_def

lemma one_refresh_per_station_witness:
  "(let st = fold refresh_turn [(None, 0, WakeUp)] (refresh_init one_station_config None 0)
    in job_of st (lit ''A'') 0 \<and> flying (rf_schedules st) (lit ''A''))"
proof -
  let ?st = "fold refresh_turn [(None, 0, WakeUp)] (refresh_init one_station_config None 0)"
  have j: "job_of ?st (lit ''A'') 0" by (simp add: refresh_eval)
  from one_refresh_per_station [of "[(None, 0, WakeUp)]", OF _ refl j j] j show ?thesis
    by (simp add: reconfigures_def Let_def del: list.map)
qed

text \<open>
  C39: Across a reconfiguration it can happen: a station removed from the configuration while
  its refresh is running and then added again gets a fresh schedule that knows nothing of the
  running job, so that a second job for the same station starts beside the first.
\<close>

theorem readded_station_refreshed_twice:
  "(let st = fold refresh_turn
         [(None, 0, ConfigChanged (default_config\<lparr>ac_stations := []\<rparr>) 1),
          (None, 2, ConfigChanged one_station_config 3), (None, 4, WakeUp)]
         (refresh_init one_station_config None 0)
    in job_of st (lit ''A'') 0 \<and> job_of st (lit ''A'') 1)"
proof -
  have e: "enabled_stations (default_config\<lparr>ac_stations := []\<rparr>) = []"
    by (simp add: enabled_stations_def)
  show ?thesis by (simp add: refresh_eval e)
qed

text \<open>
  Also: The loop neither oversleeps nor spins. It wakes within a minute and at the local date
  change; while a slot is free it wakes no later than any idle station is due; and right after
  a dispatch it always sleeps for a positive time, in every reachable state.
\<close>

theorem refresh_wait_is_tight:
  assumes "st = fold refresh_turn inputs (refresh_init config date t0)" and "\<not> rf_stopped st"
    and "st' = dispatch_due now (observe_date date' now st)" and "0 < date_wait"
  shows "0 < refresh_wait date_wait now st' \<and> refresh_wait date_wait now st' \<le> 60000000000
    \<and> refresh_wait date_wait now st' \<le> date_wait
    \<and> (\<forall>name sch due. hget (rf_schedules st') name = Some sch \<longrightarrow> \<not> in_flight sch \<longrightarrow>
         next_due sch = Some due \<longrightarrow> length (rf_jobs st') < 4 \<longrightarrow>
         refresh_wait date_wait now st' \<le> due - now)"
proof -
  let ?ob = "observe_date date' now st"
  have inv: "refresh_inv ?ob" "keys_inv ?ob"
    using refresh_loop.inv_run refresh_keys.inv_run assms(1)
    by (auto intro: refresh_inv_observe keys_inv_observe)
  have run: "\<not> rf_stopped ?ob" using assms(2) by simp
  have "0 < next_scheduler_wait (rf_schedules st') now (length (rf_jobs st'))"
  proof (cases "length (rf_jobs st') < max_concurrent_refreshes")
    case True
    with dispatched_not_due [OF inv run] assms(3) show ?thesis
      by (intro scheduler_wait_pos) blast
  qed (simp add: next_scheduler_wait_def fallback_wake_def)
  moreover have "next_scheduler_wait (rf_schedules st') now (length (rf_jobs st')) \<le> due - now"
    if "hget (rf_schedules st') name = Some sch" "\<not> in_flight sch" "next_due sch = Some due"
      "length (rf_jobs st') < 4" for name sch due
    using scheduler_wait_le [OF hget_mem [OF that(1)] that(2,3)] that(4)
    by (simp add: max_concurrent_refreshes_def)
  ultimately show ?thesis
    using assms(4) by (auto simp: refresh_wait_def fallback_wake_def min_le_iff_disj)
qed

lemma refresh_wait_is_tight_witness:
  "0 < refresh_wait 7 0 (dispatch_due 0 (observe_date None 0 (refresh_init one_station_config None 0)))"
  using refresh_wait_is_tight [of "refresh_init one_station_config None 0" "[]" one_station_config
      None 0 "dispatch_due 0 (observe_date None 0 (refresh_init one_station_config None 0))" 0 None 7]
  by (simp add: refresh_init_def Let_def del: list.map)

end
