(* ===== verification/Fuzzy.thy ===== *)
theory Fuzzy
  imports Station_Names Paging Rpc_Reply "HOL-Library.List_Lexorder"
begin

text \<open>
  Fuzzy station search (\<^verbatim>\<open>weather-core/engine/src/handlers/fuzzy.rs\<close>): tokens and
  ranks of a query, the candidate list (sorted, one entry per public identity), the paged
  handler, and the resolution of a station name from the provincial index. The Unicode tables
  behind \<open>char::is_alphanumeric\<close> and \<open>char::to_lowercase\<close> are the two functions of
  \<open>char_tables\<close>; the catalog lookups and the mapping table are arguments.
\<close>

section \<open>Matching and ranking\<close>

record char_tables =
  alphanumeric :: "nat \<Rightarrow> bool"
  to_lower :: "nat \<Rightarrow> ustring"

record provider_catalog =
  cat_provinces :: "provider_province list"
  cat_cities :: "provider_city list"

datatype search_candidate =
    StationCandidate provider_station
  | CityCandidate provider_city
  | ProvinceCandidate provider_province

datatype candidate_key = StationKey ustring | CityKey ustring ustring | ProvinceKey ustring

definition compact_search_text :: "char_tables \<Rightarrow> ustring \<Rightarrow> ustring" where
  "compact_search_text ct value = concat (map (to_lower ct) (filter (alphanumeric ct) value))"

text \<open>\<open>str::split\<close> with a predicate.\<close>

fun split_by :: "(nat \<Rightarrow> bool) \<Rightarrow> ustring \<Rightarrow> ustring list" where
  "split_by sep [] = [[]]"
| "split_by sep (c # cs) =
     (if sep c then [] # split_by sep cs
      else (case split_by sep cs of [] \<Rightarrow> [[c]] | p # ps \<Rightarrow> (c # p) # ps))"

definition search_tokens :: "char_tables \<Rightarrow> ustring \<Rightarrow> ustring list" where
  "search_tokens ct query =
     filter (\<lambda>t. t \<noteq> [])
       (map (compact_search_text ct) (split_by (\<lambda>c. \<not> alphanumeric ct c) query))"

definition search_values_match :: "char_tables \<Rightarrow> ustring list \<Rightarrow> ustring \<Rightarrow> bool" where
  "search_values_match ct values query =
     (if trim query = [] then True
      else let tokens = search_tokens ct query
           in if tokens = [] then False
              else let vs = map (compact_search_text ct) values
                   in list_all (\<lambda>token. list_ex (\<lambda>v. contains_str v token) vs) tokens)"

definition search_match_rank :: "char_tables \<Rightarrow> ustring list \<Rightarrow> ustring \<Rightarrow> nat" where
  "search_match_rank ct values query =
     (let q = compact_search_text ct query;
          ranks = map (\<lambda>value. let v = compact_search_text ct value
                                in if v = q then 0 else if prefix q v then 1 else 2) values
      in case min_by_key (\<lambda>r. r) ranks of Some r \<Rightarrow> r | None \<Rightarrow> 2)"

definition location_search_values :: "ustring \<Rightarrow> ustring \<Rightarrow> ustring \<Rightarrow> ustring list" where
  "location_search_values name province city =
     [name, province, short_region_name province, city, province @ city,
      short_region_name province @ city]"

definition city_search_values :: "provider_city \<Rightarrow> ustring list" where
  "city_search_values c =
     location_search_values (canonical_station_name (pc_province c) (pc_city c))
       (pc_province c) (pc_city c)"

definition province_search_values :: "provider_province \<Rightarrow> ustring list" where
  "province_search_values p = [pp_name p, short_region_name (pp_name p)]"

definition city_matches :: "char_tables \<Rightarrow> provider_city \<Rightarrow> ustring \<Rightarrow> bool" where
  "city_matches ct c query = search_values_match ct (city_search_values c) query"

definition province_matches_query :: "char_tables \<Rightarrow> provider_province \<Rightarrow> ustring \<Rightarrow> bool" where
  "province_matches_query ct p query = search_values_match ct (province_search_values p) query"

fun candidate_kind_rank :: "search_candidate \<Rightarrow> nat" where
  "candidate_kind_rank (StationCandidate s) = 0"
| "candidate_kind_rank (CityCandidate c) = 1"
| "candidate_kind_rank (ProvinceCandidate p) = 2"

fun candidate_match_rank :: "char_tables \<Rightarrow> search_candidate \<Rightarrow> ustring \<Rightarrow> nat" where
  "candidate_match_rank ct (StationCandidate s) query =
     search_match_rank ct (location_search_values (ps_name s) (ps_province s) (ps_city s)) query"
| "candidate_match_rank ct (CityCandidate c) query = search_match_rank ct (city_search_values c) query"
| "candidate_match_rank ct (ProvinceCandidate p) query =
     search_match_rank ct (province_search_values p) query"

text \<open>
  A chain of \<open>cmp(..).then_with(..)\<close> compares the fields one after another, which is the
  lexicographic order of their list. Candidates of different kinds never reach the stable part.
\<close>

definition station_stable_key :: "provider_station \<Rightarrow> ustring list" where
  "station_stable_key s = [ps_name s, ps_province s, ps_city s, ps_provider_station_id s]"

fun candidate_stable_key :: "search_candidate \<Rightarrow> ustring list" where
  "candidate_stable_key (StationCandidate s) = station_stable_key s"
| "candidate_stable_key (CityCandidate c) =
     [pc_province c, pc_city c, pc_provider_province_code c, pc_provider_code c]"
| "candidate_stable_key (ProvinceCandidate p) = [pp_name p, pp_provider_code p]"

definition candidate_order :: "char_tables \<Rightarrow> ustring \<Rightarrow> search_candidate \<Rightarrow> ustring list" where
  "candidate_order ct query c =
     [candidate_kind_rank c] # [candidate_match_rank ct c query] # candidate_stable_key c"

fun candidate_key_of :: "search_candidate \<Rightarrow> candidate_key" where
  "candidate_key_of (StationCandidate s) = StationKey (ps_unified_uuid s)"
| "candidate_key_of (CityCandidate c) = CityKey (pc_province c) (pc_city c)"
| "candidate_key_of (ProvinceCandidate p) = ProvinceKey (pp_name p)"

fun retain_unseen :: "('a \<Rightarrow> 'k) \<Rightarrow> 'k list \<Rightarrow> 'a list \<Rightarrow> 'a list" where
  "retain_unseen key seen [] = []"
| "retain_unseen key seen (x # xs) =
     (if key x \<in> set seen then retain_unseen key seen xs
      else x # retain_unseen key (key x # seen) xs)"

definition raw_candidates ::
  "(byte list \<Rightarrow> byte list) \<Rightarrow> char_tables \<Rightarrow> ustring \<Rightarrow> provider_catalog \<Rightarrow> ustring \<Rightarrow> search_candidate list" where
  "raw_candidates sha ct provider_name catalog query =
     concat (map (\<lambda>c. [StationCandidate (city_to_provider_station sha provider_name
                          (pc_provider_province_code c) c), CityCandidate c])
               (filter (\<lambda>c. city_matches ct c query) (cat_cities catalog)))
     @ map ProvinceCandidate (filter (\<lambda>p. province_matches_query ct p query) (cat_provinces catalog))"

definition search_candidates ::
  "(byte list \<Rightarrow> byte list) \<Rightarrow> char_tables \<Rightarrow> ustring \<Rightarrow> provider_catalog \<Rightarrow> ustring \<Rightarrow> search_candidate list" where
  "search_candidates sha ct provider_name catalog query =
     retain_unseen candidate_key_of []
       (sort_key (candidate_order ct query) (raw_candidates sha ct provider_name catalog query))"

section \<open>The handler\<close>

record fuzzy_request =
  fz_query :: ustring
  fz_province :: "ustring option"
  fz_page_offset :: nat
  fz_page_size :: nat

record fuzzy_response =
  fr_stations :: "station_ref list"
  fr_cities :: "(ustring \<times> ustring) list"
  fr_provinces :: "ustring list"
  fr_has_more :: bool
  fr_next_offset :: nat

text \<open>
  \<open>cache_station_mapping\<close> writes one row per name of the station, stopping at the first
  error; \<open>put\<close> is the database operation.
\<close>

type_synonym 'db put_mapping = "provider_station \<Rightarrow> 'db \<Rightarrow> (error_chain + unit) \<times> 'db"

fun put_names :: "'db put_mapping \<Rightarrow> provider_station \<Rightarrow> ustring list \<Rightarrow> 'db \<Rightarrow> (error_chain + unit) \<times> 'db" where
  "put_names put station [] db = (Inr (), db)"
| "put_names put station (name # names) db =
     (case put (station\<lparr>ps_display_name := name\<rparr>) db of
        (Inl e, db') \<Rightarrow> (Inl e, db')
      | (Inr _, db') \<Rightarrow> put_names put station names db')"

definition cache_station_mapping ::
  "'db put_mapping \<Rightarrow> provider_station \<Rightarrow> 'db \<Rightarrow> (error_chain + unit) \<times> 'db" where
  "cache_station_mapping put station db = put_names put station (station_names station) db"

fun cache_all_mappings :: "'db put_mapping \<Rightarrow> provider_station list \<Rightarrow> 'db \<Rightarrow> (error_chain + unit) \<times> 'db" where
  "cache_all_mappings put [] db = (Inr (), db)"
| "cache_all_mappings put (s # ss) db =
     (case cache_station_mapping put s db of
        (Inl e, db') \<Rightarrow> (Inl e, db')
      | (Inr _, db') \<Rightarrow> cache_all_mappings put ss db')"

definition page_stations :: "search_candidate list \<Rightarrow> provider_station list" where
  "page_stations cs = List.map_filter (\<lambda>c. case c of StationCandidate s \<Rightarrow> Some s | _ \<Rightarrow> None) cs"

definition page_cities :: "search_candidate list \<Rightarrow> provider_city list" where
  "page_cities cs = List.map_filter (\<lambda>c. case c of CityCandidate s \<Rightarrow> Some s | _ \<Rightarrow> None) cs"

definition page_provinces :: "search_candidate list \<Rightarrow> provider_province list" where
  "page_provinces cs = List.map_filter (\<lambda>c. case c of ProvinceCandidate s \<Rightarrow> Some s | _ \<Rightarrow> None) cs"

definition fuzzy ::
  "(byte list \<Rightarrow> byte list) \<Rightarrow> char_tables \<Rightarrow> ustring \<Rightarrow> 'db put_mapping
     \<Rightarrow> (ustring option \<Rightarrow> error_chain + provider_catalog) \<Rightarrow> fuzzy_request \<Rightarrow> nat \<Rightarrow> nat \<Rightarrow> 'db
     \<Rightarrow> (error_chain + fuzzy_response) \<times> 'db" where
  "fuzzy sha ct provider_name put catalog_for req offset page_size db =
     (case catalog_for (fz_province req) of
        Inl e \<Rightarrow> (Inl e, db)
      | Inr catalog \<Rightarrow>
          (let candidates = search_candidates sha ct provider_name catalog (fz_query req);
               (page, has_more, next_offset) = paginate candidates offset page_size;
               stations = page_stations page
           in case cache_all_mappings put stations db of
                (Inl e, db') \<Rightarrow> (Inl e, db')
              | (Inr _, db') \<Rightarrow>
                  (Inr \<lparr>fr_stations = map station_public_ref stations,
                        fr_cities = map city_public_ref (page_cities page),
                        fr_provinces = map province_public_ref (page_provinces page),
                        fr_has_more = has_more, fr_next_offset = next_offset\<rparr>, db')))"

definition handle_fuzzy ::
  "(byte list \<Rightarrow> byte list) \<Rightarrow> char_tables \<Rightarrow> ustring \<Rightarrow> 'db put_mapping
     \<Rightarrow> (ustring option \<Rightarrow> error_chain + provider_catalog) \<Rightarrow> (page_error \<Rightarrow> ustring)
     \<Rightarrow> (ustring + fuzzy_request) \<Rightarrow> 'db \<Rightarrow> fuzzy_response reply \<times> 'db" where
  "handle_fuzzy sha ct provider_name put catalog_for show_page_error decoded db =
     (case decoded of
        Inl e \<Rightarrow> (ReplyError BadRequest e, db)
      | Inr req \<Rightarrow>
          (case normalize_pagination (fz_page_offset req) (fz_page_size req) default_fuzzy_page_size of
             Inl e \<Rightarrow> (ReplyError BadRequest (show_page_error e), db)
           | Inr (offset, page_size) \<Rightarrow>
               (case fuzzy sha ct provider_name put catalog_for req offset page_size db of
                  (Inr resp, db') \<Rightarrow> (ReplyOk resp, db')
                | (Inl e, db') \<Rightarrow> (ReplyError Fuzzy (hd e), db'))))"

section \<open>Resolving a name\<close>

definition province_matches_hint :: "provider_province \<Rightarrow> ustring \<Rightarrow> ustring \<Rightarrow> bool" where
  "province_matches_hint p hint name \<longleftrightarrow>
     pp_name p = hint \<or> short_region_name (pp_name p) = hint \<or> contains_str (pp_name p) hint
     \<or> prefix (pp_name p) name"

definition resolve_station_name ::
  "(byte list \<Rightarrow> byte list) \<Rightarrow> ustring \<Rightarrow> 'db put_mapping \<Rightarrow> (error_chain + provider_province list)
     \<Rightarrow> (provider_province list \<Rightarrow> error_chain + provider_city list)
     \<Rightarrow> (provider_province list \<Rightarrow> error_chain + provider_city list) \<Rightarrow> ustring \<Rightarrow> 'db
     \<Rightarrow> (error_chain + provider_station) \<times> 'db" where
  "resolve_station_name sha provider_name put fetched cities_of_all cities_of_matched name db =
     (case fetched of
        Inl e \<Rightarrow> (Inl e, db)
      | Inr provinces \<Rightarrow>
          (let hint = hd (split_on dash name);
               matched = filter (\<lambda>p. province_matches_hint p hint name) provinces
           in case (if matched = [] then cities_of_all provinces else cities_of_matched matched) of
                Inl e \<Rightarrow> (Inl e, db)
              | Inr cities \<Rightarrow>
                  (let stations = filter (\<lambda>s. list_ex (\<lambda>candidate. candidate = name) (station_names s))
                         (map (\<lambda>c. city_to_provider_station sha provider_name (pc_provider_province_code c) c)
                            cities)
                   in case sort_key station_stable_key stations of
                        [] \<Rightarrow> (Inl [lit ''station `'' @ name @
                                 lit ''` was not found in provider station index''], db)
                      | s # _ \<Rightarrow>
                          (case cache_station_mapping put s db of
                             (Inl e, db') \<Rightarrow> (Inl e, db')
                           | (Inr _, db') \<Rightarrow> (Inr s, db')))))"

section \<open>Lemmas\<close>

lemma retain_unseen_subset: "set (retain_unseen key seen xs) \<subseteq> set xs"
  by (induction key seen xs rule: retain_unseen.induct) auto

lemma retain_unseen_keys: "key ` set (retain_unseen key seen xs) = key ` set xs - set seen"
  by (induction key seen xs rule: retain_unseen.induct) auto

lemma retain_unseen_distinct: "distinct (map key (retain_unseen key seen xs))"
proof (induction key seen xs rule: retain_unseen.induct)
  case (2 key seen x xs)
  then show ?case
    using retain_unseen_keys [of key "key x # seen" xs] by auto
qed simp

lemma retain_unseen_sorted: "sorted_wrt P xs \<Longrightarrow> sorted_wrt P (retain_unseen key seen xs)"
  using retain_unseen_subset by (induction key seen xs rule: retain_unseen.induct) fastforce+

lemma cons_order [simp]: "(x # xs :: 'a::linorder list) \<le> y # ys \<longleftrightarrow> x < y \<or> x = y \<and> xs \<le> ys"
  by (simp add: Cons_le_Cons)

lemma min_rank_zero: "(0::nat) \<in> set rs \<Longrightarrow> min_by_key (\<lambda>r. r) rs = Some 0"
  using min_by_key_le [of "\<lambda>r. r" rs _ 0] min_by_key_None [of "\<lambda>r. r" rs]
  by (cases "min_by_key (\<lambda>r. r) rs") (auto simp del: min_by_key_None)

lemma exact_match_rank:
  assumes "v \<in> set values" and "compact_search_text ct v = compact_search_text ct query"
  shows "search_match_rank ct values query = 0"
proof -
  from assms have "0 \<in> set (map (\<lambda>value. let v = compact_search_text ct value
      in if v = compact_search_text ct query then 0 else
         if prefix (compact_search_text ct query) v then 1 else (2::nat)) values)"
    by (force simp: Let_def)
  from min_rank_zero [OF this] show ?thesis by (simp add: search_match_rank_def Let_def)
qed

lemma station_names_single: "station_names s = [canonical_station_name (ps_province s) (ps_city s)]"
  by (simp add: station_names_def)

lemma cache_all_ok:
  "cache_all_mappings put ss db = (Inr u, db') \<Longrightarrow>
     db' = fold (\<lambda>s d. snd (put (s\<lparr>ps_display_name := canonical_station_name (ps_province s) (ps_city s)\<rparr>) d)) ss db"
  by (induction put ss db rule: cache_all_mappings.induct)
     (auto simp: cache_station_mapping_def station_names_single split: prod.splits sum.splits)

section \<open>Properties\<close>

text \<open>
  Also: A search lists each public identity once, in the documented order (stations, then
  cities, then provinces, better matches first, ties broken by name), and it lists exactly
  the identities of the matching cities and provinces of the catalog.
\<close>

theorem search_lists_each_match_once:
  "(let cs = search_candidates sha ct provider_name catalog query
    in sorted (map (candidate_order ct query) cs) \<and> distinct (map candidate_key_of cs)
     \<and> candidate_key_of ` set cs =
         (\<Union>c\<in>{c \<in> set (cat_cities catalog). city_matches ct c query}.
            {StationKey (unified_station_uuid sha (canonical_station_name (pc_province c) (pc_city c))),
             CityKey (pc_province c) (pc_city c)})
         \<union> ProvinceKey ` pp_name ` {p \<in> set (cat_provinces catalog). province_matches_query ct p query})"
proof -
  let ?raw = "raw_candidates sha ct provider_name catalog query"
  have "sorted (map (candidate_order ct query) (search_candidates sha ct provider_name catalog query))"
    using sorted_sort_key [of "candidate_order ct query" ?raw]
    unfolding search_candidates_def sorted_map by (rule retain_unseen_sorted)
  moreover have "candidate_key_of ` set ?raw =
         (\<Union>c\<in>{c \<in> set (cat_cities catalog). city_matches ct c query}.
            {StationKey (unified_station_uuid sha (canonical_station_name (pc_province c) (pc_city c))),
             CityKey (pc_province c) (pc_city c)})
         \<union> ProvinceKey ` pp_name ` {p \<in> set (cat_provinces catalog). province_matches_query ct p query}"
    by (auto simp: raw_candidates_def city_to_provider_station_def Let_def image_Un image_UN image_image)
  ultimately show ?thesis
    by (simp add: search_candidates_def retain_unseen_keys retain_unseen_distinct Let_def)
qed

text \<open>
  Also: A query that spells out a station (up to case and punctuation) finds it first: if a
  matching city's canonical station name reads the same as the query, the first candidate is
  a station whose text equals the query.
\<close>

theorem exact_station_first:
  assumes "c \<in> set (cat_cities catalog)" and "city_matches ct c query"
    and "compact_search_text ct (canonical_station_name (pc_province c) (pc_city c))
           = compact_search_text ct query"
  shows "\<exists>s rest. search_candidates sha ct provider_name catalog query = StationCandidate s # rest
    \<and> candidate_match_rank ct (StationCandidate s) query = 0"
proof -
  let ?raw = "raw_candidates sha ct provider_name catalog query"
  let ?s = "StationCandidate (city_to_provider_station sha provider_name (pc_provider_province_code c) c)"
  let ?k = "candidate_order ct query"
  have mem: "?s \<in> set ?raw" using assms(1,2) by (force simp: raw_candidates_def)
  have rank: "candidate_match_rank ct ?s query = 0"
    using assms(3) by (auto simp: city_to_provider_station_def Let_def location_search_values_def
        intro!: exact_match_rank)
  have "?s \<in> set (sort_key ?k ?raw)" using mem by simp
  then obtain x xs where sorted: "sort_key ?k ?raw = x # xs"
    by (cases "sort_key ?k ?raw") auto
  have "sorted (map ?k (x # xs))" using sorted_sort_key [of ?k ?raw] by (simp only: sorted)
  moreover have "?s \<in> set (x # xs)" using mem sorted set_sort [of ?k ?raw] by simp
  ultimately have "?k x \<le> ?k ?s" by auto
  with rank have x: "candidate_kind_rank x = 0" "candidate_match_rank ct x query = 0"
    by (auto simp: candidate_order_def)
  then obtain s where "x = StationCandidate s" by (cases x) auto
  with x sorted show ?thesis by (simp add: search_candidates_def)
qed

definition ascii_tables :: char_tables where
  "ascii_tables = \<lparr>alphanumeric = (\<lambda>c. 48 \<le> c \<and> c \<le> 57 \<or> 65 \<le> c \<and> c \<le> 90 \<or> 97 \<le> c \<and> c \<le> 122),
     to_lower = (\<lambda>c. [if 65 \<le> c \<and> c \<le> 90 then c + 32 else c])\<rparr>"

definition sample_catalog :: provider_catalog where
  "sample_catalog = \<lparr>cat_provinces = [],
     cat_cities = [\<lparr>pc_provider_code = lit ''1'', pc_provider_province_code = lit ''P'',
                    pc_province = lit ''Pr'', pc_city = lit ''Ci'', pc_url = []\<rparr>]\<rparr>"

lemma exact_station_first_witness:
  "\<exists>s rest. search_candidates (\<lambda>b. b) ascii_tables (lit ''nmc'') sample_catalog (lit ''pr pr ci'')
      = StationCandidate s # rest
    \<and> candidate_match_rank ascii_tables (StationCandidate s) (lit ''pr pr ci'') = 0"
  by (rule exact_station_first [where c = "hd (cat_cities sample_catalog)"])
     (simp_all add: sample_catalog_def city_matches_def city_search_values_def
        location_search_values_def search_values_match_def search_tokens_def compact_search_text_def
        ascii_tables_def canonical_station_name_def short_region_name_def strip_suffix_def
        suffix_city_def suffix_province_def suffix_autonomous_def suffix_special_def Let_def
        trim_def is_whitespace_def contains_str_def suffix_def Cons_eq_append_conv)

text \<open>
  Also: A fuzzy reply never names a station the engine cannot resolve later: an OK reply holds
  exactly the stations, cities and provinces of one page of the search result, in its order,
  and the mapping of every one of its stations has been written under its canonical name;
  a rejected request writes nothing.
\<close>

theorem fuzzy_reply_is_a_stored_page:
  "(case handle_fuzzy sha ct provider_name put catalog_for show_page_error decoded db of
      (ReplyOk resp, db') \<Rightarrow>
        (\<exists>req offset page_size catalog. decoded = Inr req
           \<and> normalize_pagination (fz_page_offset req) (fz_page_size req) default_fuzzy_page_size
               = Inr (offset, page_size)
           \<and> catalog_for (fz_province req) = Inr catalog
           \<and> (let (page, more_pages, next) = paginate
                  (search_candidates sha ct provider_name catalog (fz_query req)) offset page_size
              in resp = \<lparr>fr_stations = map station_public_ref (page_stations page),
                   fr_cities = map city_public_ref (page_cities page),
                   fr_provinces = map province_public_ref (page_provinces page),
                   fr_has_more = more_pages, fr_next_offset = next\<rparr>
                 \<and> db' = fold (\<lambda>s d. snd (put (s\<lparr>ps_display_name :=
                      canonical_station_name (ps_province s) (ps_city s)\<rparr>) d)) (page_stations page) db))
    | (ReplyAccepted resp, db') \<Rightarrow> False
    | (ReplyError code m, db') \<Rightarrow> code \<in> {BadRequest, Fuzzy} \<and> (if code = BadRequest then db' = db else True))"
proof (cases "\<exists>req offset page_size catalog. decoded = Inr req
           \<and> normalize_pagination (fz_page_offset req) (fz_page_size req) default_fuzzy_page_size
               = Inr (offset, page_size) \<and> catalog_for (fz_province req) = Inr catalog")
  case False
  then show ?thesis
    by (auto simp: handle_fuzzy_def fuzzy_def split: sum.splits)
next
  case True
  then obtain req offset page_size catalog where r: "decoded = Inr req"
    "normalize_pagination (fz_page_offset req) (fz_page_size req) default_fuzzy_page_size
       = Inr (offset, page_size)" "catalog_for (fz_province req) = Inr catalog" by blast
  obtain page m n where p: "paginate (search_candidates sha ct provider_name catalog (fz_query req))
      offset page_size = (page, m, n)" by (metis prod_cases3)
  obtain res db' where c: "cache_all_mappings put (page_stations page) db = (res, db')" by fastforce
  show ?thesis
  proof (cases res)
    case (Inl e)
    then show ?thesis by (simp add: handle_fuzzy_def fuzzy_def r p c Let_def)
  next
    case (Inr u)
    from cache_all_ok [OF c [unfolded Inr]] show ?thesis
      by (simp add: handle_fuzzy_def fuzzy_def r p c Inr Let_def)
  qed
qed

end
