(* ===== verification/Events.thy ===== *)
theory Events
  imports Config Rpc_Reply
begin

text \<open>
  What the engine publishes: the status message
  (\<^verbatim>\<open>weather-core/engine/src/handlers/response.rs\<close>) and the signed event envelopes of
  \<^verbatim>\<open>weather-core/engine/src/handlers/events.rs\<close>. Protobuf encoding is a parameter; the
  broadcast channel is the list of the events sent to it, and its correlation identifiers
  come from the process-wide generator of \<open>Wire\<close>.
\<close>

section \<open>Status and diagnostics\<close>

datatype lifecycle_state = LifecycleUnspecified | Starting | LifecycleReady | Stopping | LifecycleFailed

fun lifecycle_number :: "lifecycle_state \<Rightarrow> nat" where
  "lifecycle_number LifecycleUnspecified = 0"
| "lifecycle_number Starting = 1"
| "lifecycle_number LifecycleReady = 2"
| "lifecycle_number Stopping = 3"
| "lifecycle_number LifecycleFailed = 4"

record engine_status =
  es_ready :: bool
  es_mode :: ustring
  es_rpc_endpoint :: ustring
  es_pub_endpoint :: ustring
  es_config_path :: ustring
  es_last_config_error :: "ustring option"
  es_message :: "ustring option"
  es_engine_version :: ustring
  es_schema_version :: ustring
  es_build_version :: ustring
  es_instance_id :: ustring
  es_lifecycle_state :: nat

text \<open>What an engine process keeps for its whole life.\<close>

record engine_identity =
  ei_config_path :: ustring
  ei_engine_version :: ustring
  ei_build_version :: ustring
  ei_instance_id :: ustring
  ei_owner_token :: "ustring option"

definition lifecycle_status ::
  "engine_identity \<Rightarrow> config_state \<Rightarrow> ustring \<Rightarrow> ustring \<Rightarrow> ustring \<Rightarrow> lifecycle_state \<Rightarrow> ustring option
     \<Rightarrow> engine_status" where
  "lifecycle_status me config mode rpc pub st message =
     \<lparr>es_ready = (st = LifecycleReady), es_mode = mode, es_rpc_endpoint = rpc,
      es_pub_endpoint = pub, es_config_path = ei_config_path me,
      es_last_config_error = last_error config, es_message = message,
      es_engine_version = ei_engine_version me, es_schema_version = schema_version,
      es_build_version = ei_build_version me, es_instance_id = ei_instance_id me,
      es_lifecycle_state = lifecycle_number st\<rparr>"

definition status_message ::
  "engine_identity \<Rightarrow> config_state \<Rightarrow> ustring \<Rightarrow> ustring \<Rightarrow> ustring \<Rightarrow> engine_status" where
  "status_message me config mode rpc pub = lifecycle_status me config mode rpc pub LifecycleReady None"

datatype fetch_outcome = FetchSuccess | FetchWarning | FetchFailure
datatype refresh_phase = PhaseStarted | PhaseCompleted
datatype refresh_outcome = OutcomeUnspecified | OutcomeSuccess | OutcomeStale | OutcomeFailure
datatype refresh_terminal = TerminalSuccess | TerminalStale | TerminalFailure ustring

record fetch_log_event =
  fl_unified_uuid :: "ustring option"
  fl_endpoint :: ustring
  fl_ok :: bool
  fl_message :: "ustring option"
  fl_timestamp :: "64 word"
  fl_outcome :: fetch_outcome

record refresh_event_payload =
  rv_unified_uuid :: "ustring option"
  rv_started :: bool
  rv_completed :: bool
  rv_message :: "ustring option"
  rv_phase :: refresh_phase
  rv_outcome :: refresh_outcome

definition make_fetch_log_event ::
  "64 word \<Rightarrow> ustring option \<Rightarrow> ustring \<Rightarrow> bool \<Rightarrow> ustring option \<Rightarrow> fetch_log_event" where
  "make_fetch_log_event now uuid endpoint ok message =
     \<lparr>fl_unified_uuid = uuid, fl_endpoint = endpoint, fl_ok = ok, fl_message = message,
      fl_timestamp = now,
      fl_outcome = (case (ok, message \<noteq> None) of
                      (True, False) \<Rightarrow> FetchSuccess
                    | (True, True) \<Rightarrow> FetchWarning
                    | (False, _) \<Rightarrow> FetchFailure)\<rparr>"

definition make_refresh_event ::
  "ustring option \<Rightarrow> refresh_phase \<Rightarrow> refresh_outcome \<Rightarrow> ustring option \<Rightarrow> refresh_event_payload" where
  "make_refresh_event uuid phase outcome message =
     \<lparr>rv_unified_uuid = uuid, rv_started = (phase = PhaseStarted),
      rv_completed = (phase = PhaseCompleted), rv_message = message, rv_phase = phase,
      rv_outcome = outcome\<rparr>"

fun into_diagnostics :: "refresh_terminal \<Rightarrow> refresh_outcome \<times> ustring" where
  "into_diagnostics TerminalSuccess = (OutcomeSuccess, lit ''success'')"
| "into_diagnostics TerminalStale = (OutcomeStale, lit ''stale'')"
| "into_diagnostics (TerminalFailure m) = (OutcomeFailure, lit ''failure: '' @ m)"

definition fetch_log_output_line ::
  "ustring option \<Rightarrow> ustring \<Rightarrow> bool \<Rightarrow> ustring option \<Rightarrow> ustring option" where
  "fetch_log_output_line uuid endpoint ok message =
     (if ok \<and> message = None then None
      else
        let station = (case uuid of Some v \<Rightarrow> if v = [] then [] else lit '' station='' @ v | None \<Rightarrow> []);
            text = (case message of Some v \<Rightarrow> if v = [] then [] else lit '' message='' @ v | None \<Rightarrow> [])
        in Some (lit ''upstream fetch endpoint='' @ endpoint @ station @ text))"

section \<open>Publishing\<close>

definition topic_snapshot :: ustring where "topic_snapshot = lit ''weather.snapshot''"
definition topic_status :: ustring where "topic_status = lit ''engine.status''"
definition topic_log :: ustring where "topic_log = lit ''engine.log''"
definition topic_refresh :: ustring where "topic_refresh = lit ''engine.refresh''"

definition kind_snapshot :: "32 word" where "kind_snapshot = 1"
definition kind_status :: "32 word" where "kind_status = 2"
definition kind_fetch_log :: "32 word" where "kind_fetch_log = 3"
definition kind_refresh :: "32 word" where "kind_refresh = 4"

record event_bus =
  eb_generator :: correlation_generator
  eb_sent :: "(ustring \<times> event_envelope) list"

definition event_signature ::
  "mac \<Rightarrow> config_env \<Rightarrow> app_config \<Rightarrow> event_envelope \<Rightarrow> byte list option" where
  "event_signature mac env config envelope =
     (case resolve_hmac_key env config of
        Inl e \<Rightarrow> None
      | Inr None \<Rightarrow> None
      | Inr (Some key) \<Rightarrow> Some (event_hmac mac envelope key))"

text \<open>\<open>None\<close> is the panic of the exhausted identifier generator.\<close>

definition publish_event ::
  "mac \<Rightarrow> config_env \<Rightarrow> app_config \<Rightarrow> 64 word \<Rightarrow> ustring \<Rightarrow> 32 word \<Rightarrow> byte list \<Rightarrow> event_bus
     \<Rightarrow> event_bus option" where
  "publish_event mac env config now topic kind payload bus =
     (case correlation_next (lit ''engine-event'') (eb_generator bus) of
        None \<Rightarrow> None
      | Some (event_id, gen) \<Rightarrow>
          (let envelope = \<lparr>ev_schema_version = schema_version, ev_event_id = event_id, ev_kind = kind,
                 ev_timestamp = now, ev_hmac = [], ev_payload = payload\<rparr>;
               signed = (case event_signature mac env config envelope of
                           Some sig \<Rightarrow> envelope\<lparr>ev_hmac := sig\<rparr> | None \<Rightarrow> envelope)
           in Some \<lparr>eb_generator = gen, eb_sent = eb_sent bus @ [(topic, signed)]\<rparr>))"

text \<open>What is published, before the envelope: topic, kind and payload.\<close>

record 'snap payload_encoders =
  enc_snapshot :: "'snap \<Rightarrow> byte list"
  enc_status :: "engine_status \<Rightarrow> byte list"
  enc_fetch_log :: "fetch_log_event \<Rightarrow> byte list"
  enc_refresh :: "refresh_event_payload \<Rightarrow> byte list"
  strip_debug :: "'snap \<Rightarrow> 'snap"

definition publish_snapshot ::
  "mac \<Rightarrow> config_env \<Rightarrow> app_config \<Rightarrow> 64 word \<Rightarrow> 'snap payload_encoders \<Rightarrow> 'snap \<Rightarrow> event_bus
     \<Rightarrow> event_bus option" where
  "publish_snapshot mac env config now enc snap =
     publish_event mac env config now topic_snapshot kind_snapshot (enc_snapshot enc (strip_debug enc snap))"

definition publish_lifecycle_status ::
  "mac \<Rightarrow> config_env \<Rightarrow> config_state \<Rightarrow> 64 word \<Rightarrow> 'snap payload_encoders \<Rightarrow> engine_identity
     \<Rightarrow> ustring \<Rightarrow> ustring \<Rightarrow> ustring \<Rightarrow> lifecycle_state \<Rightarrow> ustring option \<Rightarrow> event_bus \<Rightarrow> event_bus option" where
  "publish_lifecycle_status mac env config now enc me mode rpc pub st message =
     publish_event mac env (live_config config) now topic_status kind_status
       (enc_status enc (lifecycle_status me config mode rpc pub st message))"

definition publish_fetch_log ::
  "mac \<Rightarrow> config_env \<Rightarrow> app_config \<Rightarrow> 64 word \<Rightarrow> 'snap payload_encoders \<Rightarrow> ustring option \<Rightarrow> ustring
     \<Rightarrow> bool \<Rightarrow> ustring option \<Rightarrow> event_bus \<Rightarrow> event_bus option" where
  "publish_fetch_log mac env config now enc uuid endpoint ok message =
     publish_event mac env config now topic_log kind_fetch_log
       (enc_fetch_log enc (make_fetch_log_event now uuid endpoint ok message))"

definition publish_refresh ::
  "mac \<Rightarrow> config_env \<Rightarrow> app_config \<Rightarrow> 64 word \<Rightarrow> 'snap payload_encoders \<Rightarrow> ustring option
     \<Rightarrow> refresh_phase \<Rightarrow> refresh_outcome \<Rightarrow> ustring option \<Rightarrow> event_bus \<Rightarrow> event_bus option" where
  "publish_refresh mac env config now enc uuid phase outcome message =
     publish_event mac env config now topic_refresh kind_refresh
       (enc_refresh enc (make_refresh_event uuid phase outcome message))"

definition publish_refresh_started ::
  "mac \<Rightarrow> config_env \<Rightarrow> app_config \<Rightarrow> 64 word \<Rightarrow> 'snap payload_encoders \<Rightarrow> ustring option \<Rightarrow> event_bus
     \<Rightarrow> event_bus option" where
  "publish_refresh_started mac env config now enc uuid =
     publish_refresh mac env config now enc uuid PhaseStarted OutcomeUnspecified None"

definition publish_refresh_terminal ::
  "mac \<Rightarrow> config_env \<Rightarrow> app_config \<Rightarrow> 64 word \<Rightarrow> 'snap payload_encoders \<Rightarrow> ustring option
     \<Rightarrow> refresh_terminal \<Rightarrow> event_bus \<Rightarrow> event_bus option" where
  "publish_refresh_terminal mac env config now enc uuid terminal =
     (let (outcome, message) = into_diagnostics terminal
      in publish_refresh mac env config now enc uuid PhaseCompleted outcome (Some message))"

section \<open>Published events\<close>

text \<open>
  A sequence of publications, each with the configuration and the time it reads; the events
  the channel holds afterwards are in that order.
\<close>

record publication =
  pb_config :: app_config
  pb_now :: "64 word"
  pb_topic :: ustring
  pb_kind :: "32 word"
  pb_payload :: "byte list"

fun publish_all :: "mac \<Rightarrow> config_env \<Rightarrow> publication list \<Rightarrow> event_bus \<Rightarrow> event_bus option" where
  "publish_all mac env [] bus = Some bus"
| "publish_all mac env (p # ps) bus =
     (case publish_event mac env (pb_config p) (pb_now p) (pb_topic p) (pb_kind p) (pb_payload p) bus of
        None \<Rightarrow> None
      | Some bus' \<Rightarrow> publish_all mac env ps bus')"

lemma event_hmac_ignores_hmac [simp]: "event_hmac mac (e\<lparr>ev_hmac := h\<rparr>) key = event_hmac mac e key"
  by (simp add: event_hmac_def)

lemma publish_event_Some:
  "publish_event mac env config now topic kind payload bus = Some bus' \<Longrightarrow>
   \<exists>i gen e. correlation_next (lit ''engine-event'') (eb_generator bus) = Some (i, gen)
     \<and> bus' = \<lparr>eb_generator = gen, eb_sent = eb_sent bus @ [(topic, e)]\<rparr>
     \<and> ev_event_id e = i \<and> ev_kind e = kind \<and> ev_timestamp e = now \<and> ev_payload e = payload
     \<and> ev_schema_version e = schema_version
     \<and> (case resolve_hmac_key env config of Inr (Some key) \<Rightarrow> verify_event_hmac mac e key
        | _ \<Rightarrow> ev_hmac e = [])"
  by (auto simp: publish_event_def event_signature_def verify_event_hmac_def event_hmac_def Let_def
      split: option.splits sum.splits)

lemma publish_all_ids:
  "publish_all mac env ps bus = Some bus' \<Longrightarrow>
   \<exists>new ids. eb_sent bus' = eb_sent bus @ new \<and> length new = length ps
     \<and> correlation_ids (replicate (length ps) (lit ''engine-event'')) (eb_generator bus) = Some ids
     \<and> map (ev_event_id \<circ> snd) new = ids"
proof (induction ps arbitrary: bus)
  case (Cons p ps)
  then obtain b where b: "publish_event mac env (pb_config p) (pb_now p) (pb_topic p) (pb_kind p)
      (pb_payload p) bus = Some b" and rest: "publish_all mac env ps b = Some bus'"
    by (auto split: option.splits)
  from publish_event_Some [OF b] obtain i gen e where
    e: "correlation_next (lit ''engine-event'') (eb_generator bus) = Some (i, gen)"
       "b = \<lparr>eb_generator = gen, eb_sent = eb_sent bus @ [(pb_topic p, e)]\<rparr>" "ev_event_id e = i"
    by blast
  from Cons.IH [OF rest] e obtain new ids where
    "eb_sent bus' = eb_sent bus @ (pb_topic p, e) # new" "length new = length ps"
    "correlation_ids (replicate (length ps) (lit ''engine-event'')) gen = Some ids"
    "map (ev_event_id \<circ> snd) new = ids" by auto
  with e show ?case by (intro exI [of _ "(pb_topic p, e) # new"] exI [of _ "i # ids"]) auto
qed auto

text \<open>The event carries the publication, signed by the configured key.\<close>

definition carries :: "mac \<Rightarrow> config_env \<Rightarrow> publication \<Rightarrow> ustring \<times> event_envelope \<Rightarrow> bool" where
  "carries mac env p te \<longleftrightarrow>
     fst te = pb_topic p \<and> ev_kind (snd te) = pb_kind p \<and> ev_payload (snd te) = pb_payload p
     \<and> ev_schema_version (snd te) = schema_version
     \<and> (case resolve_hmac_key env (pb_config p) of
          Inr (Some key) \<Rightarrow> verify_event_hmac mac (snd te) key
        | _ \<Rightarrow> ev_hmac (snd te) = [])"

lemma publish_all_events:
  "publish_all mac env ps bus = Some bus' \<Longrightarrow>
   \<exists>new. eb_sent bus' = eb_sent bus @ new \<and>
     list_all2 (carries mac env) ps new"
proof (induction ps arbitrary: bus)
  case (Cons p ps)
  then obtain b where b: "publish_event mac env (pb_config p) (pb_now p) (pb_topic p) (pb_kind p)
      (pb_payload p) bus = Some b" and rest: "publish_all mac env ps b = Some bus'"
    by (auto split: option.splits)
  from publish_event_Some [OF b] obtain e where
    "eb_sent b = eb_sent bus @ [(pb_topic p, e)]" "ev_kind e = pb_kind p"
    "ev_payload e = pb_payload p" "ev_schema_version e = schema_version"
    "(case resolve_hmac_key env (pb_config p) of Inr (Some key) \<Rightarrow> verify_event_hmac mac e key
      | _ \<Rightarrow> ev_hmac e = [])" by auto
  then have "carries mac env p (pb_topic p, e)" "eb_sent b = eb_sent bus @ [(pb_topic p, e)]"
    by (simp_all add: carries_def split: sum.splits option.splits)
  moreover from Cons.IH [OF rest] obtain new where
    "eb_sent bus' = eb_sent b @ new" "list_all2 (carries mac env) ps new" by blast
  ultimately show ?case by (intro exI [of _ "(pb_topic p, e) # new"]) simp
qed simp

section \<open>Properties\<close>

text \<open>
  Also: Subscribers can tell events apart and authenticate them: the events published by one
  engine process carry pairwise distinct identifiers, the requested topic, kind and payload in
  the order of publication, and whenever a key is configured a signature that verifies (and
  none otherwise).
\<close>

theorem published_events_distinct_and_signed:
  assumes "publish_all mac env ps \<lparr>eb_generator = gen, eb_sent = []\<rparr> = Some bus"
  shows "distinct (map (ev_event_id \<circ> snd) (eb_sent bus))
    \<and> list_all2 (carries mac env) ps (eb_sent bus)"
proof -
  from publish_all_ids [OF assms] obtain ids where
    "correlation_ids (replicate (length ps) (lit ''engine-event'')) gen = Some ids"
    "map (ev_event_id \<circ> snd) (eb_sent bus) = ids" by auto
  with distinct_correlation_ids publish_all_events [OF assms] show ?thesis by auto
qed

definition sample_publication :: publication where
  "sample_publication = \<lparr>pb_config = default_config, pb_now = 7, pb_topic = topic_log,
     pb_kind = kind_fetch_log, pb_payload = [1]\<rparr>"

lemma published_events_distinct_and_signed_witness:
  "\<exists>bus. publish_all (\<lambda>k m. m) sample_config_env [sample_publication, sample_publication]
       \<lparr>eb_generator = \<lparr>cg_nonce = lit ''n'', cg_next_sequence = 0\<rparr>, eb_sent = []\<rparr> = Some bus
     \<and> distinct (map (ev_event_id \<circ> snd) (eb_sent bus)) \<and> length (eb_sent bus) = 2"
proof -
  obtain bus where b: "publish_all (\<lambda>k m. m) sample_config_env [sample_publication, sample_publication]
       \<lparr>eb_generator = \<lparr>cg_nonce = lit ''n'', cg_next_sequence = 0\<rparr>, eb_sent = []\<rparr> = Some bus"
    by (simp add: publish_event_def correlation_next_def Let_def)
  from published_events_distinct_and_signed [OF b] b show ?thesis
    by (auto dest: list_all2_lengthD)
qed

end
