(* ===== verification/Router.thy ===== *)
theory Router
  imports Events
begin

text \<open>
  The RPC front end of the engine: the exit control
  (\<^verbatim>\<open>weather-core/engine/src/lifecycle.rs\<close>), the envelope checks and the dispatch by kind
  (\<^verbatim>\<open>handlers/envelope.rs\<close>), and the router, the timeouts and the shutdown sequence of
  \<^verbatim>\<open>server.rs\<close>. Protobuf decoding is a parameter; the handlers of the other kinds are
  one function of the kind, the request and the engine's state.
\<close>

unbundle bit_operations_syntax

section \<open>Exit control\<close>

datatype engine_exit = ExitShutdown | ExitRestart

type_synonym engine_control = "engine_exit option"

definition control_new :: engine_control where "control_new = None"

definition request_exit :: "engine_exit \<Rightarrow> engine_control \<Rightarrow> engine_control" where
  "request_exit exit current = (if current \<noteq> None then current else Some exit)"

section \<open>Envelope checks and dispatch\<close>

datatype rpc_kind =
    KindUnspecified | Ping | GetEngineStatus | GetWeather | ListProvinces | ListCities
  | FuzzyMatchStations | ListConfiguredStations | BatchListRegions | ResolveStationUuid
  | MigrateDbTimezone | GetConfig | UpdateConfig | GetResource | GetTemperatureHistory
  | TriggerRefresh | RestartEngine | Shutdown

fun rpc_kind_number :: "rpc_kind \<Rightarrow> 32 word" where
  "rpc_kind_number KindUnspecified = 0"
| "rpc_kind_number Ping = 1"
| "rpc_kind_number GetEngineStatus = 2"
| "rpc_kind_number GetWeather = 10"
| "rpc_kind_number ListProvinces = 11"
| "rpc_kind_number ListCities = 12"
| "rpc_kind_number FuzzyMatchStations = 13"
| "rpc_kind_number ListConfiguredStations = 14"
| "rpc_kind_number BatchListRegions = 15"
| "rpc_kind_number ResolveStationUuid = 16"
| "rpc_kind_number MigrateDbTimezone = 17"
| "rpc_kind_number GetConfig = 18"
| "rpc_kind_number UpdateConfig = 19"
| "rpc_kind_number GetResource = 20"
| "rpc_kind_number GetTemperatureHistory = 21"
| "rpc_kind_number TriggerRefresh = 30"
| "rpc_kind_number RestartEngine = 40"
| "rpc_kind_number Shutdown = 41"

definition all_rpc_kinds :: "rpc_kind list" where
  "all_rpc_kinds = [KindUnspecified, Ping, GetEngineStatus, GetWeather, ListProvinces, ListCities,
     FuzzyMatchStations, ListConfiguredStations, BatchListRegions, ResolveStationUuid,
     MigrateDbTimezone, GetConfig, UpdateConfig, GetResource, GetTemperatureHistory,
     TriggerRefresh, RestartEngine, Shutdown]"

text \<open>\<open>RpcKind::try_from(kind).unwrap_or(Unspecified)\<close>.\<close>

definition rpc_kind_of :: "32 word \<Rightarrow> rpc_kind" where
  "rpc_kind_of n = (case find (\<lambda>k. rpc_kind_number k = n) all_rpc_kinds of
                      Some k \<Rightarrow> k | None \<Rightarrow> KindUnspecified)"

definition shutdown_owner_authorized :: "ustring option \<Rightarrow> ustring option \<Rightarrow> bool" where
  "shutdown_owner_authorized actual requested =
     (case requested of None \<Rightarrow> True | Some r \<Rightarrow> actual = Some r)"

text \<open>
  What the front end uses of the rest of the engine, whose state is \<open>'st\<close>: the live
  configuration, the encoded status, the shutdown request's decoder (an error message or the
  owner token) and the handlers of the remaining kinds.
\<close>

record 'st engine_services =
  sv_config :: "'st \<Rightarrow> app_config"
  sv_status :: "'st \<Rightarrow> byte list"
  sv_owner :: "ustring option"
  sv_decode_shutdown :: "byte list \<Rightarrow> ustring + ustring option"
  sv_handle :: "rpc_kind \<Rightarrow> rpc_request \<Rightarrow> 'st \<Rightarrow> rpc_response \<times> 'st"

definition handle_shutdown ::
  "mac \<Rightarrow> (ustring + byte list option) \<Rightarrow> 64 word \<Rightarrow> 'st engine_services \<Rightarrow> rpc_request \<Rightarrow> rpc_response" where
  "handle_shutdown mac key now sv request =
     (case sv_decode_shutdown sv (rq_payload request) of
        Inl e \<Rightarrow> rpc_error_response now (rq_request_id request) BadRequest
                   (lit ''invalid shutdown payload: '' @ e)
      | Inr requested \<Rightarrow>
          if \<not> shutdown_owner_authorized (sv_owner sv) requested
          then rpc_error_response now (rq_request_id request) OwnerMismatch
                 (lit ''engine ownership changed before conditional shutdown'')
          else build_response mac key now (rq_request_id request) status_accepted [] None)"

definition dispatch_rpc ::
  "mac \<Rightarrow> (ustring + byte list option) \<Rightarrow> 64 word \<Rightarrow> 'st engine_services \<Rightarrow> rpc_kind \<Rightarrow> rpc_request
     \<Rightarrow> 'st \<Rightarrow> rpc_response \<times> 'st" where
  "dispatch_rpc mac key now sv kind request st =
     (case kind of
        Ping \<Rightarrow> (build_response mac key now (rq_request_id request) status_ok [] None, st)
      | GetEngineStatus \<Rightarrow>
          (build_response mac key now (rq_request_id request) status_ok (sv_status sv st) None, st)
      | RestartEngine \<Rightarrow>
          (build_response mac key now (rq_request_id request) status_accepted [] None, st)
      | Shutdown \<Rightarrow> (handle_shutdown mac key now sv request, st)
      | KindUnspecified \<Rightarrow>
          (rpc_error_response now (rq_request_id request) BadRequest (lit ''rpc kind is unspecified''), st)
      | _ \<Rightarrow> sv_handle sv kind request st)"

definition handle_rpc_request ::
  "mac \<Rightarrow> config_env \<Rightarrow> 64 word \<Rightarrow> 'st engine_services \<Rightarrow> rpc_request \<Rightarrow> 'st \<Rightarrow> rpc_response \<times> 'st" where
  "handle_rpc_request mac env now sv request st =
     (if rq_schema_version request \<noteq> schema_version
      then (rpc_error_response now (rq_request_id request) SchemaVersion
              (lit ''unsupported schema version''), st)
      else (case resolve_hmac_key env (sv_config sv st) of
              Inl e \<Rightarrow> (rpc_error_response now (rq_request_id request) Auth e, st)
            | Inr opt \<Rightarrow>
                if (case opt of Some key \<Rightarrow> \<not> verify_rpc_request_hmac mac request key | None \<Rightarrow> False)
                then (rpc_error_response now (rq_request_id request) Auth (lit ''invalid hmac''), st)
                else dispatch_rpc mac (Inr opt) now sv (rpc_kind_of (rq_kind request)) request st))"

section \<open>Timeouts and limits\<close>

definition max_rpc_payload_bytes :: nat where "max_rpc_payload_bytes = 1024 * 1024"
definition max_concurrent_requests :: nat where "max_concurrent_requests = 64"

definition payload_exceeds_limit :: "nat \<Rightarrow> bool" where
  "payload_exceeds_limit len = (len > max_rpc_payload_bytes)"

text \<open>Durations in nanoseconds, saturating at the largest \<open>Duration\<close>.\<close>

definition duration_max :: nat where "duration_max = u64_max * 1000000000 + 999999999"
definition upstream_rpc_overhead :: nat where "upstream_rpc_overhead = 2 * 1000000000"

definition upstream_stages :: "rpc_kind \<Rightarrow> nat option" where
  "upstream_stages kind =
     (if kind = GetWeather \<or> kind = TriggerRefresh then Some 6
      else if kind = ListProvinces then Some 1
      else if kind = ListCities \<or> kind = FuzzyMatchStations \<or> kind = BatchListRegions
              \<or> kind = ResolveStationUuid then Some 8
      else None)"

definition request_timeout_for :: "app_config \<Rightarrow> rpc_kind \<Rightarrow> nat \<Rightarrow> nat" where
  "request_timeout_for config kind configured =
     (case upstream_stages kind of
        None \<Rightarrow> configured
      | Some stages \<Rightarrow>
          (let provider_timeout =
             (case find (\<lambda>p. pc_name p = default_provider (ac_updater config))
                        (up_provider (ac_updater config)) of
                Some p \<Rightarrow> max 1 (pc_request_timeout_seconds p) * 1000000000
              | None \<Rightarrow> configured)
           in max configured
                (min duration_max (min duration_max (provider_timeout * stages) + upstream_rpc_overhead))))"

definition cleanup_timeout :: "nat \<Rightarrow> nat" where
  "cleanup_timeout request_timeout = min (max request_timeout (2 * 1000000000)) (10 * 1000000000)"

definition accepted_exit :: "rpc_kind \<Rightarrow> rpc_response \<Rightarrow> engine_exit option" where
  "accepted_exit kind response =
     (if rs_status response \<noteq> status_accepted then None
      else if kind = RestartEngine then Some ExitRestart
      else if kind = Shutdown then Some ExitShutdown
      else None)"

definition peer_label :: "byte list \<Rightarrow> ustring" where
  "peer_label peer =
     hex_digits 16 (unat (fold (\<lambda>b hash. (hash XOR ucast b) * 0x00000100000001b3) peer
        (0xcbf29ce484222325 :: 64 word)))"

section \<open>Requests\<close>

record rpc_reply =
  rr_identity :: "byte list"
  rr_response :: rpc_response
  rr_exit :: "engine_exit option"

text \<open>
  \<open>process_request\<close>: \<open>late = Some st'\<close> says that the timeout struck and the abandoned
  handler left the state \<open>st'\<close>.
\<close>

type_synonym decoder = "byte list \<Rightarrow> ustring + rpc_request"

definition timeout_message :: "(nat \<Rightarrow> ustring) \<Rightarrow> nat \<Rightarrow> ustring" where
  "timeout_message show_duration t = lit ''rpc request timed out after '' @ show_duration t"

definition process_request ::
  "mac \<Rightarrow> config_env \<Rightarrow> 64 word \<Rightarrow> decoder \<Rightarrow> (nat \<Rightarrow> ustring) \<Rightarrow> 'st engine_services \<Rightarrow> nat
     \<Rightarrow> 'st option \<Rightarrow> byte list \<Rightarrow> byte list \<Rightarrow> 'st \<Rightarrow> rpc_reply \<times> 'st" where
  "process_request mac env now decode show_duration sv request_timeout late identity payload st =
     (case decode payload of
        Inl e \<Rightarrow>
          (\<lparr>rr_identity = identity,
            rr_response = rpc_error_response now [] BadRequest (lit ''invalid rpc request: '' @ e),
            rr_exit = None\<rparr>, st)
      | Inr request \<Rightarrow>
          (let kind = rpc_kind_of (rq_kind request);
               effective = request_timeout_for (sv_config sv st) kind request_timeout;
               (response, st') =
                 (case late of
                    Some abandoned \<Rightarrow>
                      (rpc_error_response now (rq_request_id request) Timeout
                         (timeout_message show_duration effective), abandoned)
                  | None \<Rightarrow> handle_rpc_request mac env now sv request st)
           in (\<lparr>rr_identity = identity, rr_response = response, rr_exit = accepted_exit kind response\<rparr>,
               st')))"

definition decoded_request_id :: "decoder \<Rightarrow> byte list \<Rightarrow> ustring" where
  "decoded_request_id decode payload =
     (case decode payload of Inl e \<Rightarrow> [] | Inr request \<Rightarrow> rq_request_id request)"

section \<open>The router\<close>

text \<open>
  The router's loop as steps. A received message is its list of frames. A running task, which
  holds a permit, is its number with the client's identity and the payload; a handler takes
  effect when its task ends, which frees the permit and leaves the reply to be joined.
  \<open>ro_log\<close> records every reply the router tried to send, with whether it could.
\<close>

record 'st router =
  ro_engine :: 'st
  ro_inflight :: "(nat \<times> byte list \<times> byte list) list"
  ro_finished :: "(nat \<times> rpc_reply) list"
  ro_next :: nat
  ro_log :: "(rpc_reply \<times> bool) list"
  ro_control :: engine_control
  ro_stopped :: bool

datatype 'st router_event =
    Received "byte list list" bool
  | TaskDone nat "'st option"
  | ReplyJoined nat bool
  | TaskPanicked nat
  | RouterCancelled
  | ReceiveFailed

definition error_reply ::
  "64 word \<Rightarrow> byte list \<Rightarrow> ustring \<Rightarrow> rpc_error_code \<Rightarrow> ustring \<Rightarrow> rpc_reply" where
  "error_reply now identity request_id code message =
     \<lparr>rr_identity = identity, rr_response = rpc_error_response now request_id code message,
      rr_exit = None\<rparr>"

text \<open>What becomes of a message: nothing, an immediate error, or a task.\<close>

datatype admission = Discarded | Rejected rpc_reply | Admitted "byte list" "byte list"

definition admit :: "64 word \<Rightarrow> decoder \<Rightarrow> nat \<Rightarrow> byte list list \<Rightarrow> admission" where
  "admit now decode active frames =
     (case frames of
        [] \<Rightarrow> Discarded
      | [identity] \<Rightarrow> Rejected (error_reply now identity [] BadRequest (lit ''missing rpc frame''))
      | identity # payload # extra \<Rightarrow>
          if extra \<noteq> [] then
            Rejected (error_reply now identity (decoded_request_id decode payload) BadRequest
              (lit ''unexpected extra rpc frames''))
          else if payload_exceeds_limit (length payload) then
            Rejected (error_reply now identity (decoded_request_id decode payload) PayloadTooLarge
              (lit ''rpc payload '' @ show_nat (length payload) @ lit '' bytes exceeds maximum ''
               @ show_nat max_rpc_payload_bytes))
          else if active \<ge> max_concurrent_requests then
            Rejected (error_reply now identity (decoded_request_id decode payload) Busy
              (lit ''maximum concurrent RPC requests reached''))
          else Admitted identity payload)"

definition router_step ::
  "mac \<Rightarrow> config_env \<Rightarrow> decoder \<Rightarrow> (nat \<Rightarrow> ustring) \<Rightarrow> 'st engine_services \<Rightarrow> nat
     \<Rightarrow> 64 word \<times> 'st router_event \<Rightarrow> 'st router \<Rightarrow> 'st router" where
  "router_step mac env decode show_duration sv request_timeout ev ro =
     (if ro_stopped ro then ro
      else case snd ev of
        RouterCancelled \<Rightarrow> ro\<lparr>ro_inflight := [], ro_finished := [], ro_stopped := True\<rparr>
      | ReceiveFailed \<Rightarrow> ro\<lparr>ro_inflight := [], ro_finished := [], ro_stopped := True\<rparr>
      | TaskPanicked t \<Rightarrow> ro\<lparr>ro_inflight := hdel t (ro_inflight ro)\<rparr>
      | TaskDone t late \<Rightarrow>
          (case hget (ro_inflight ro) t of
             None \<Rightarrow> ro
           | Some (identity, payload) \<Rightarrow>
               (let (reply, st') = process_request mac env (fst ev) decode show_duration sv
                      request_timeout late identity payload (ro_engine ro)
                in ro\<lparr>ro_engine := st', ro_inflight := hdel t (ro_inflight ro),
                      ro_finished := hput t reply (ro_finished ro)\<rparr>))
      | ReplyJoined t sent \<Rightarrow>
          (case hget (ro_finished ro) t of
             None \<Rightarrow> ro
           | Some reply \<Rightarrow>
               ro\<lparr>ro_finished := hdel t (ro_finished ro), ro_log := ro_log ro @ [(reply, sent)],
                  ro_control := (case rr_exit reply of
                      Some exit \<Rightarrow> if sent then request_exit exit (ro_control ro) else ro_control ro
                    | None \<Rightarrow> ro_control ro)\<rparr>)
      | Received frames sent \<Rightarrow>
          (case admit (fst ev) decode (length (ro_inflight ro)) frames of
             Discarded \<Rightarrow> ro
           | Rejected reply \<Rightarrow> ro\<lparr>ro_log := ro_log ro @ [(reply, sent)]\<rparr>
           | Admitted identity payload \<Rightarrow>
               ro\<lparr>ro_inflight := hput (ro_next ro) (identity, payload) (ro_inflight ro),
                  ro_next := Suc (ro_next ro)\<rparr>))"

definition router_init :: "'st \<Rightarrow> 'st router" where
  "router_init st = \<lparr>ro_engine = st, ro_inflight = [], ro_finished = [], ro_next = 0, ro_log = [],
     ro_control = control_new, ro_stopped = False\<rparr>"

section \<open>The shutdown sequence\<close>

text \<open>
  \<open>run_bound_engine_sockets\<close> after its tasks have started: what ended the wait, the results of
  the drained tasks, the database and the publisher, and what is made of them. An error is its
  message; \<open>ctx\<close> puts a context in front of it.
\<close>

definition ctx :: "ustring \<Rightarrow> ustring \<Rightarrow> ustring" where
  "ctx c e = c @ lit '': '' @ e"

datatype task_kind = TaskRouter | TaskRpcMonitor | TaskPubMonitor | TaskSignal | TaskRefresh

datatype join_result = JoinedOk | JoinedErr ustring | JoinPanicked ustring

datatype wake =
    ExitRequested engine_exit
  | TaskEnded task_kind join_result
  | AllTasksEnded
  | PublisherEnded join_result

datatype drain_item = DrainJoined task_kind join_result | DrainTimedOut

fun task_name :: "task_kind \<Rightarrow> ustring" where
  "task_name TaskRouter = lit ''Router''"
| "task_name TaskRpcMonitor = lit ''RpcMonitor''"
| "task_name TaskPubMonitor = lit ''PubMonitor''"
| "task_name TaskSignal = lit ''Signal''"
| "task_name TaskRefresh = lit ''Refresh''"

definition add_failure :: "ustring option \<Rightarrow> ustring \<Rightarrow> ustring option" where
  "add_failure failure error =
     Some (case failure of Some previous \<Rightarrow> previous @ lit ''; additionally: '' @ error | None \<Rightarrow> error)"

fun unexpected_publisher_exit :: "join_result \<Rightarrow> ustring" where
  "unexpected_publisher_exit JoinedOk = lit ''critical engine task Publisher exited unexpectedly''"
| "unexpected_publisher_exit (JoinedErr e) = ctx (lit ''critical engine task Publisher failed'') e"
| "unexpected_publisher_exit (JoinPanicked e) =
     lit ''critical engine task Publisher panicked or was cancelled: '' @ e"

fun publisher_cleanup_failure :: "join_result \<Rightarrow> ustring option" where
  "publisher_cleanup_failure JoinedOk = None"
| "publisher_cleanup_failure (JoinedErr e) = Some (ctx (lit ''publisher cleanup failed'') e)"
| "publisher_cleanup_failure (JoinPanicked e) =
     Some (lit ''publisher cleanup task panicked or was cancelled: '' @ e)"

text \<open>The first result of the \<open>select\<close>: requested exit, failure, whether the publisher ended.\<close>

fun first_wake :: "wake \<Rightarrow> engine_exit option \<times> ustring option \<times> bool" where
  "first_wake (ExitRequested e) = (Some e, None, False)"
| "first_wake (TaskEnded k JoinedOk) =
     (if k = TaskSignal then (Some ExitShutdown, None, False)
      else (None, Some (lit ''critical engine task '' @ task_name k @ lit '' exited unexpectedly''), False))"
| "first_wake (TaskEnded k (JoinedErr e)) =
     (None, Some (ctx (lit ''critical engine task '' @ task_name k @ lit '' failed'') e), False)"
| "first_wake (TaskEnded k (JoinPanicked e)) =
     (None, Some (lit ''critical engine task panicked or was cancelled: '' @ e), False)"
| "first_wake AllTasksEnded = (None, Some (lit ''all critical engine tasks exited unexpectedly''), False)"
| "first_wake (PublisherEnded j) = (None, Some (unexpected_publisher_exit j), True)"

fun drain_work_tasks :: "ustring \<Rightarrow> ustring option \<Rightarrow> drain_item list \<Rightarrow> ustring option" where
  "drain_work_tasks shown failure [] = failure"
| "drain_work_tasks shown failure (DrainJoined k JoinedOk # rest) = drain_work_tasks shown failure rest"
| "drain_work_tasks shown failure (DrainJoined k (JoinedErr e) # rest) =
     drain_work_tasks shown (add_failure failure
       (ctx (lit ''engine task '' @ task_name k @ lit '' cleanup failed'') e)) rest"
| "drain_work_tasks shown failure (DrainJoined k (JoinPanicked e) # rest) =
     drain_work_tasks shown (add_failure failure
       (lit ''engine task cleanup panicked or was cancelled: '' @ e)) rest"
| "drain_work_tasks shown failure (DrainTimedOut # rest) =
     add_failure failure (lit ''engine task cleanup timed out after '' @ shown)"

definition terminal_lifecycle ::
  "engine_exit option \<Rightarrow> ustring option \<Rightarrow> lifecycle_state \<times> ustring option" where
  "terminal_lifecycle requested failure =
     (case failure of
        Some error \<Rightarrow> (LifecycleFailed, Some error)
      | None \<Rightarrow>
          if requested = Some ExitRestart then (Stopping, Some (lit ''engine restart requested''))
          else (Stopping, Some (lit ''engine shutdown requested'')))"

text \<open>The end of a run: every wait is bounded by the cleanup timeout, whose outcome is given; \<open>ru_timeout_text\<close> is
  the timeout as it is printed.\<close>

record run_outcomes =
  ru_wake :: wake
  ru_drained :: "drain_item list"
  ru_db_error :: "ustring option"
  ru_publisher_ended_meanwhile :: "join_result option"
  ru_publisher_cleanup :: "join_result option"
  ru_timeout_text :: ustring

definition finish_engine_run ::
  "run_outcomes \<Rightarrow> (lifecycle_state \<times> ustring option) \<times> (ustring + engine_exit)" where
  "finish_engine_run ru =
     (let (requested, failure0, finished0) = first_wake (ru_wake ru);
          failure1 = (case drain_work_tasks (ru_timeout_text ru) None (ru_drained ru) of
                        Some e \<Rightarrow> add_failure failure0 e | None \<Rightarrow> failure0);
          failure2 = (case ru_db_error ru of Some e \<Rightarrow> add_failure failure1 e | None \<Rightarrow> failure1);
          (failure3, finished) =
            (case (if finished0 then None else ru_publisher_ended_meanwhile ru) of
               Some j \<Rightarrow> (add_failure failure2 (unexpected_publisher_exit j), True)
             | None \<Rightarrow> (failure2, finished0));
          published = terminal_lifecycle requested failure3;
          failure4 =
            (if finished then failure3
             else (case ru_publisher_cleanup ru of
                     Some j \<Rightarrow> (case publisher_cleanup_failure j of
                                 Some e \<Rightarrow> add_failure failure3 e | None \<Rightarrow> failure3)
                   | None \<Rightarrow> add_failure failure3 (lit ''publisher cleanup timed out after '' @ ru_timeout_text ru)))
      in (published,
          case failure4 of
            Some error \<Rightarrow> Inl error
          | None \<Rightarrow> Inr (case requested of Some e \<Rightarrow> e | None \<Rightarrow> ExitShutdown)))"

section \<open>Lemmas\<close>

lemma rpc_kind_number_inj: "rpc_kind_number a = rpc_kind_number b \<longleftrightarrow> a = b"
  by (cases a; cases b) simp_all

lemma all_rpc_kinds_complete: "k \<in> set all_rpc_kinds"
  by (cases k) (simp_all add: all_rpc_kinds_def)

lemma rpc_kind_roundtrip_lemma: "rpc_kind_of (rpc_kind_number k) = k"
proof -
  have "find (\<lambda>j. rpc_kind_number j = rpc_kind_number k) xs = Some k" if "k \<in> set xs" for xs
    using that by (induction xs) (auto simp: rpc_kind_number_inj)
  then show ?thesis using all_rpc_kinds_complete by (simp add: rpc_kind_of_def)
qed

lemma status_distinct [simp]:
  "status_error \<noteq> status_accepted" "status_accepted \<noteq> status_error"
  "status_ok \<noteq> status_accepted" "status_ok \<noteq> status_error"
  by (simp_all add: status_error_def status_accepted_def status_ok_def)

lemma error_response_status [simp]: "rs_status (rpc_error_response now i c m) = status_error"
  by (simp add: rpc_error_response_def)

lemma build_response_status [simp]: "rs_status (build_response mac key now i s p e) = s"
  by (simp add: build_response_def Let_def split: option.split)

text \<open>An exit is only ever attached to an accepted reply of the two control requests.\<close>

lemma process_request_exit:
  assumes "rr_exit (fst (process_request mac env now decode shw sv timeout late identity payload st)) = Some e"
  shows "\<exists>request. decode payload = Inr request \<and> late = None
    \<and> rq_schema_version request = schema_version
    \<and> (case resolve_hmac_key env (sv_config sv st) of
         Inr (Some key) \<Rightarrow> verify_rpc_request_hmac mac request key | Inr None \<Rightarrow> True | Inl _ \<Rightarrow> False)
    \<and> (case e of ExitRestart \<Rightarrow> rpc_kind_of (rq_kind request) = RestartEngine
       | ExitShutdown \<Rightarrow> rpc_kind_of (rq_kind request) = Shutdown
           \<and> (\<exists>owner. sv_decode_shutdown sv (rq_payload request) = Inr owner
                \<and> shutdown_owner_authorized (sv_owner sv) owner))"
proof -
  from assms obtain request where req: "decode payload = Inr request"
    by (cases "decode payload") (simp_all add: process_request_def)
  from assms req have late: "late = None"
    by (cases late) (simp_all add: process_request_def Let_def accepted_exit_def)
  let ?r = "fst (handle_rpc_request mac env now sv request st)"
  from assms req late have acc: "rs_status ?r = status_accepted"
    and kind: "rpc_kind_of (rq_kind request) = (case e of ExitRestart \<Rightarrow> RestartEngine | ExitShutdown \<Rightarrow> Shutdown)"
    by (auto simp: process_request_def Let_def accepted_exit_def case_prod_beta split: if_splits)
  from acc have version: "rq_schema_version request = schema_version"
    by (auto simp: handle_rpc_request_def split: if_splits)
  have key: "case resolve_hmac_key env (sv_config sv st) of
         Inr (Some key) \<Rightarrow> verify_rpc_request_hmac mac request key | Inr None \<Rightarrow> True | Inl _ \<Rightarrow> False"
    using acc version
    by (auto simp: handle_rpc_request_def split: sum.splits option.splits if_splits)
  have "e = ExitShutdown \<Longrightarrow> \<exists>owner. sv_decode_shutdown sv (rq_payload request) = Inr owner
                \<and> shutdown_owner_authorized (sv_owner sv) owner"
    using acc version kind
    by (auto simp: handle_rpc_request_def dispatch_rpc_def handle_shutdown_def
        split: sum.splits option.splits if_splits)
  with req late version key kind show ?thesis by (cases e) auto
qed

definition exit_of :: "rpc_reply \<times> bool \<Rightarrow> engine_exit option" where
  "exit_of entry = (if snd entry then rr_exit (fst entry) else None)"

text \<open>The first exit the log allows.\<close>

fun first_exit :: "(rpc_reply \<times> bool) list \<Rightarrow> engine_exit option" where
  "first_exit [] = None"
| "first_exit (x # xs) = (case exit_of x of Some e \<Rightarrow> Some e | None \<Rightarrow> first_exit xs)"

lemma first_exit_snoc:
  "first_exit (xs @ [x]) = (case first_exit xs of Some e \<Rightarrow> Some e | None \<Rightarrow> exit_of x)"
  by (induction xs) (auto split: option.split)

definition router_inv :: "'st router \<Rightarrow> bool" where
  "router_inv ro \<longleftrightarrow>
     length (ro_inflight ro) \<le> max_concurrent_requests \<and> ro_control ro = first_exit (ro_log ro)
     \<and> (ro_stopped ro \<longrightarrow> ro_inflight ro = [] \<and> ro_finished ro = [])
     \<and> (\<forall>t \<in> hkeys (ro_inflight ro) \<union> hkeys (ro_finished ro). t < ro_next ro)"

lemma rejected_exit: "admit now decode active frames = Rejected reply \<Longrightarrow> rr_exit reply = None"
  by (auto simp: admit_def error_reply_def split: list.splits if_splits)

lemma admitted_room: "admit now decode active frames = Admitted i p \<Longrightarrow> active < max_concurrent_requests"
  by (auto simp: admit_def split: list.splits if_splits)

lemma exit_of_none: "rr_exit reply = None \<Longrightarrow> exit_of (reply, sent) = None"
  by (simp add: exit_of_def)

lemma router_inv_step:
  assumes "router_inv ro"
  shows "router_inv (router_step mac env decode shw sv timeout ev ro)"
proof (cases "ro_stopped ro")
  case False
  obtain now e where ev: "ev = (now, e)" by (cases ev)
  show ?thesis
  proof (cases e)
    case (Received frames sent)
    show ?thesis
    proof (cases "admit now decode (length (ro_inflight ro)) frames")
      case Discarded
      with assms False Received ev show ?thesis by (simp add: router_step_def)
    next
      case (Rejected reply)
      with rejected_exit [OF Rejected] assms False Received ev show ?thesis
        by (simp add: router_step_def router_inv_def first_exit_snoc exit_of_none split: option.split)
    next
      case (Admitted i p)
      have "hget (ro_inflight ro) (ro_next ro) = None"
        using assms by (auto simp: router_inv_def map_of_eq_None_iff)
      with Admitted admitted_room [OF Admitted] assms False Received ev show ?thesis
        by (auto simp: router_step_def router_inv_def length_hput_new hkeys_put)
           (metis UnI1 UnI2 fst_conv image_eqI less_SucI)+
    qed
  next
    case (TaskDone t late)
    with assms False ev show ?thesis
      by (auto simp: router_step_def router_inv_def case_prod_beta Let_def hkeys_put hkeys_del
          split: option.split intro: le_trans [OF length_hdel_le] dest: hget_mem)
         (force dest: hget_mem)
  next
    case (ReplyJoined t sent)
    with assms False ev show ?thesis
      by (auto simp: router_step_def router_inv_def hkeys_del first_exit_snoc exit_of_def
          request_exit_def split: option.split)
  next
    case (TaskPanicked t)
    with assms False ev show ?thesis
      by (auto simp: router_step_def router_inv_def hkeys_del intro: le_trans [OF length_hdel_le])
  qed (use assms ev in \<open>simp_all add: router_step_def router_inv_def\<close>)
qed (use assms in \<open>simp add: router_step_def\<close>)

lemma router_inv_init: "router_inv (router_init st)"
  by (simp add: router_inv_def router_init_def control_new_def)

interpretation router_system: invariant_system "router_init st"
  "router_step mac env decode shw sv timeout" router_inv
  for st mac env decode shw sv timeout
  by unfold_locales (rule router_inv_init, rule router_inv_step)

lemma min_add_mono: "(a :: nat) \<le> b \<Longrightarrow> min d (a + k) \<le> min d (min d b + k)"
  by auto

lemma add_failure_Some [simp]: "add_failure f e \<noteq> None"
  by (simp add: add_failure_def)

lemma drain_mono: "drain_work_tasks sh (Some f) ds \<noteq> None"
  by (induction sh "Some f" ds arbitrary: f rule: drain_work_tasks.induct)
     (auto simp: add_failure_def)

lemma drain_None:
  "drain_work_tasks sh None ds = None \<Longrightarrow>
    list_all (\<lambda>d. case d of DrainJoined _ JoinedOk \<Rightarrow> True | _ \<Rightarrow> False) ds"
proof (induction ds)
  case (Cons d ds)
  then show ?case
    by (cases "(sh, None :: ustring option, d # ds)" rule: drain_work_tasks.cases)
       (auto simp: add_failure_def drain_mono)
qed simp

lemma first_wake_clean:
  "first_wake w = (r, None, fin) \<Longrightarrow>
     \<not> fin \<and> (\<exists>e. r = Some e \<and> (w = ExitRequested e \<or> w = TaskEnded TaskSignal JoinedOk \<and> e = ExitShutdown))"
  by (cases w rule: first_wake.cases) (auto split: if_splits)

lemma clean_finish:
  assumes "snd (finish_engine_run ru) = Inr exit"
  shows "(ru_wake ru = ExitRequested exit
           \<or> (ru_wake ru = TaskEnded TaskSignal JoinedOk \<and> exit = ExitShutdown))
        \<and> list_all (\<lambda>d. case d of DrainJoined _ JoinedOk \<Rightarrow> True | _ \<Rightarrow> False) (ru_drained ru)
        \<and> ru_db_error ru = None \<and> ru_publisher_ended_meanwhile ru = None
        \<and> ru_publisher_cleanup ru = Some JoinedOk
        \<and> fst (fst (finish_engine_run ru)) = Stopping"
proof -
  obtain r f fin where w: "first_wake (ru_wake ru) = (r, f, fin)" by (metis prod_cases3)
  let ?d = "drain_work_tasks (ru_timeout_text ru) None (ru_drained ru)"
  from assms w have none: "f = None" "?d = None" "ru_db_error ru = None"
    and pub: "fin \<or> ru_publisher_ended_meanwhile ru = None"
    by (auto simp: finish_engine_run_def Let_def split: option.splits if_splits prod.splits)
  from first_wake_clean [OF w [unfolded none]] obtain e where
    e: "\<not> fin" "r = Some e" "ru_wake ru = ExitRequested e \<or> ru_wake ru = TaskEnded TaskSignal JoinedOk \<and> e = ExitShutdown"
    by blast
  from assms w none pub e(1,2) have ex: "ru_publisher_cleanup ru = Some JoinedOk" "e = exit"
    by (auto simp: finish_engine_run_def Let_def split: option.splits if_splits
        elim: publisher_cleanup_failure.elims)
  have "fst (fst (finish_engine_run ru)) = Stopping"
    using w none pub e(1,2) ex by (simp add: finish_engine_run_def Let_def terminal_lifecycle_def)
  with none drain_None pub e ex show ?thesis by auto
qed

section \<open>Properties\<close>

text \<open>
  Also: The envelope gate comes before everything: a request of another schema version, or one
  whose signature does not verify while a key is configured, changes nothing in the engine and
  is answered with a schema or authentication error under its own identifier.
\<close>

theorem rejected_requests_change_nothing:
  assumes "rq_schema_version request \<noteq> schema_version
      \<or> (\<exists>key. resolve_hmac_key env (sv_config sv st) = Inr (Some key)
              \<and> \<not> verify_rpc_request_hmac mac request key)"
  shows "snd (handle_rpc_request mac env now sv request st) = st
    \<and> (\<exists>code m. code \<in> {SchemaVersion, Auth} \<and>
         fst (handle_rpc_request mac env now sv request st)
           = rpc_error_response now (rq_request_id request) code m)"
  using assms by (auto simp: handle_rpc_request_def simp del: list.map) blast

definition sample_services :: "nat engine_services" where
  "sample_services = \<lparr>sv_config = (\<lambda>_. default_config), sv_status = (\<lambda>_. []),
     sv_owner = Some (lit ''o''), sv_decode_shutdown = (\<lambda>p. Inr (if p = [] then None else Some (lit ''o''))),
     sv_handle = (\<lambda>k r st. (rpc_error_response 0 (rq_request_id r) EngineCode [], Suc st))\<rparr>"

definition sample_rpc :: "32 word \<Rightarrow> ustring \<Rightarrow> rpc_request" where
  "sample_rpc kind version = \<lparr>rq_schema_version = version, rq_request_id = lit ''r'', rq_kind = kind,
     rq_timestamp = 0, rq_hmac = [], rq_payload = []\<rparr>"

lemma rejected_requests_change_nothing_witness:
  "snd (handle_rpc_request (\<lambda>k m. m) sample_config_env 0 sample_services (sample_rpc 18 (lit ''v0'')) 3) = 3"
  using rejected_requests_change_nothing [of "sample_rpc 18 (lit ''v0'')" sample_config_env
      sample_services 3 "\<lambda>k m. m" 0]
  by (simp add: sample_rpc_def schema_version_def)

text \<open>
  C30: Only an authorised request can stop the engine: a reply that asks for an exit answers a
  request that was handled in time, had the supported version and a signature that verifies
  with the configured key, and was a restart, or a shutdown without an owner token or with
  the token of the running engine.
\<close>

theorem exit_needs_an_authorised_request:
  assumes "rr_exit (fst (process_request mac env now decode shw sv timeout late identity payload st)) = Some e"
  shows "\<exists>request. decode payload = Inr request \<and> late = None
    \<and> rq_schema_version request = schema_version
    \<and> (case resolve_hmac_key env (sv_config sv st) of
         Inr (Some key) \<Rightarrow> verify_rpc_request_hmac mac request key | Inr None \<Rightarrow> True | Inl _ \<Rightarrow> False)
    \<and> (case e of ExitRestart \<Rightarrow> rpc_kind_of (rq_kind request) = RestartEngine
       | ExitShutdown \<Rightarrow> rpc_kind_of (rq_kind request) = Shutdown
           \<and> (\<exists>owner. sv_decode_shutdown sv (rq_payload request) = Inr owner
                \<and> (owner = None \<or> owner = sv_owner sv)))"
  using process_request_exit [OF assms]
  by (cases e) (fastforce simp: shutdown_owner_authorized_def split: option.splits)+

lemma sample_resolves: "resolve_hmac_key env default_config = Inr None"
  by (simp add: resolve_hmac_key_def default_config_def default_ipc_config_def Let_def)

lemma sample_shutdown_reply:
  "rr_exit (fst (process_request (\<lambda>k m. m) env 0 (\<lambda>p. Inr (sample_rpc 41 schema_version)) show_nat
       sample_services 9 None [1] [2] 3)) = Some ExitShutdown"
proof -
  have "rpc_kind_of 41 = Shutdown" using rpc_kind_roundtrip_lemma [of Shutdown] by simp
  then show ?thesis
    by (simp add: process_request_def handle_rpc_request_def sample_rpc_def sample_services_def
        sample_resolves dispatch_rpc_def handle_shutdown_def shutdown_owner_authorized_def
        accepted_exit_def Let_def)
qed

lemma exit_needs_an_authorised_request_witness:
  "\<exists>owner. sv_decode_shutdown sample_services (rq_payload (sample_rpc 41 schema_version)) = Inr owner
     \<and> (owner = None \<or> owner = sv_owner sample_services)"
  using exit_needs_an_authorised_request [OF sample_shutdown_reply [of sample_config_env]] by auto

text \<open>
  Also: The router never runs more than 64 requests at once, and the engine's exit is decided by
  the first exit-carrying reply that really reached its client, whatever comes later: a reply
  that could not be sent requests nothing. Once stopped, no task is left.
\<close>

theorem router_bounded_and_first_exit_wins:
  "(let ro = fold (router_step mac env decode shw sv timeout) events (router_init st)
    in length (ro_inflight ro) \<le> 64 \<and> ro_control ro = first_exit (ro_log ro)
     \<and> (if ro_stopped ro then ro_inflight ro = [] \<and> ro_finished ro = [] else True))"
  using router_system.inv_run [where mac = mac and env = env and decode = decode and shw = shw
      and sv = sv and timeout = timeout and es = events and st = st]
  by (simp add: router_inv_def Let_def max_concurrent_requests_def)

text \<open>
  Also: Every message that names its client gets an answer or becomes a running request: an
  over-full message, a payload of more than one mebibyte and a message while 64 requests run
  are answered at once, with the client's identity and the request's own identifier where it
  can be decoded; everything else runs.
\<close>

theorem messages_are_answered_or_run:
  "admit now decode active (identity # payload # extra) =
     (if extra \<noteq> [] \<or> 1048576 < length payload \<or> 64 \<le> active
      then Rejected \<lparr>rr_identity = identity,
             rr_response = rpc_error_response now
               (case decode payload of Inr request \<Rightarrow> rq_request_id request | Inl _ \<Rightarrow> [])
               (if extra \<noteq> [] then BadRequest
                else if 1048576 < length payload then PayloadTooLarge else Busy)
               (if extra \<noteq> [] then lit ''unexpected extra rpc frames''
                else if 1048576 < length payload
                then lit ''rpc payload '' @ show_nat (length payload)
                     @ lit '' bytes exceeds maximum '' @ show_nat 1048576
                else lit ''maximum concurrent RPC requests reached''),
             rr_exit = None\<rparr>
      else Admitted identity payload)"
  by (cases "decode payload")
     (simp_all add: admit_def error_reply_def decoded_request_id_def payload_exceeds_limit_def
        max_rpc_payload_bytes_def max_concurrent_requests_def del: list.map)

text \<open>
  Also: A network-backed request always gets time for all its upstream stages: the timeout is
  never below the configured one, nor below the stages times the provider's own timeout plus
  two seconds (up to the largest duration); control requests keep the configured timeout.
\<close>

theorem request_timeout_covers_upstream:
  assumes "find (\<lambda>p. pc_name p = default_provider (ac_updater config)) (up_provider (ac_updater config)) = Some p"
  shows "configured \<le> request_timeout_for config kind configured
    \<and> (case upstream_stages kind of
         None \<Rightarrow> request_timeout_for config kind configured = configured
       | Some stages \<Rightarrow>
           min duration_max (pc_request_timeout_seconds p * 1000000000 * stages + 2000000000)
             \<le> request_timeout_for config kind configured)"
proof (cases "upstream_stages kind")
  case (Some stages)
  have "pc_request_timeout_seconds p * 1000000000 * stages
      \<le> max 1 (pc_request_timeout_seconds p) * 1000000000 * stages"
    by (intro mult_le_mono) auto
  then have "min duration_max (pc_request_timeout_seconds p * 1000000000 * stages + 2000000000)
      \<le> min duration_max (min duration_max (max 1 (pc_request_timeout_seconds p) * 1000000000 * stages)
            + 2000000000)"
    by (rule min_add_mono)
  with Some assms show ?thesis
    by (simp only: request_timeout_for_def upstream_rpc_overhead_def Let_def option.case)
       (simp only: max.cobounded1 max.coboundedI2 simp_thms mult_2 numeral_times_numeral
          semiring_norm)
qed (simp add: request_timeout_for_def)

lemma request_timeout_covers_upstream_witness:
  "122000000000 \<le> request_timeout_for default_config GetWeather 3000000000"
proof -
  have f: "find (\<lambda>p. pc_name p = default_provider (ac_updater default_config))
      (up_provider (ac_updater default_config)) = Some (hd (up_provider default_updater_config))"
    by (simp add: default_config_def default_updater_config_def)
  have t: "pc_request_timeout_seconds (hd (up_provider default_updater_config)) = 20"
    by (simp add: default_updater_config_def)
  from request_timeout_covers_upstream [OF f, of 3000000000 GetWeather] t show ?thesis
    by (simp add: upstream_stages_def duration_max_def u64_max_def)
qed

text \<open>
  Also: No failure at the end of a run is swallowed: the run ends with an exit code exactly when
  it was asked to (a client or a signal), every task drained cleanly, the database shut down
  and the publisher ended only when told to; and whenever subscribers were told that the
  engine failed, the process fails too.
\<close>

theorem engine_run_reports_every_failure:
  "(case finish_engine_run ru of
      (published, Inr exit) \<Rightarrow>
        (ru_wake ru = ExitRequested exit
           \<or> (ru_wake ru = TaskEnded TaskSignal JoinedOk \<and> exit = ExitShutdown))
        \<and> list_all (\<lambda>d. case d of DrainJoined _ JoinedOk \<Rightarrow> True | _ \<Rightarrow> False) (ru_drained ru)
        \<and> ru_db_error ru = None \<and> ru_publisher_ended_meanwhile ru = None
        \<and> ru_publisher_cleanup ru = Some JoinedOk \<and> fst published = Stopping
    | (published, Inl error) \<Rightarrow> True)"
proof (cases "snd (finish_engine_run ru)")
  case (Inl e)
  then show ?thesis by (simp add: case_prod_beta)
next
  case (Inr exit)
  note facts = clean_finish [OF Inr]
  with Inr show ?thesis by (simp add: case_prod_beta)
qed

end
