(* ===== verification/Db_Tables.thy ===== *)
theory Db_Tables
  imports Station_Names "HOL-Library.Product_Lexorder"
begin

text \<open>
  The tables of the engine's database and the statements on them
  (\<^verbatim>\<open>weather-core/db/src/storage.rs\<close>, schema in
  \<^verbatim>\<open>weather-core/db/src/migration.rs\<close>), the catalog checks of
  \<^verbatim>\<open>weather-core/db/src/validation.rs\<close>, and the catalog, mapping and fetch-log
  operations. A table is an association list on its primary key; a query filters, sorts and
  cuts it as its SQL text says. SQLite itself is a library: it may fail any statement (the
  argument of type \<open>sql_faults\<close>), and a transaction in which a statement fails is rolled back.
\<close>

section \<open>Tables\<close>

datatype catalog_kind = CatalogProvinces | CatalogCities

definition province_scope :: ustring where "province_scope = []"

record history_row =
  hr_schema :: ustring
  hr_proto :: "byte list"
  hr_fetched :: int

record fetch_log_row =
  fl_id :: nat
  fl_uuid :: "ustring option"
  fl_endpoint :: ustring
  fl_ok :: bool
  fl_message :: "ustring option"
  fl_fetched :: int

text \<open>
  Keys are the primary keys: \<open>(provider, provider_code)\<close> for provinces and cities,
  \<open>(provider, catalog_kind, scope)\<close> for the cache state with the values
  \<open>(fetched_at_unix_ms, row_count)\<close>, \<open>(provider, display_name)\<close> for station mappings,
  \<open>(unified_uuid, date)\<close> for the history. The second component of a catalog or engine-state
  row is \<open>updated_at_unix_ms\<close>.
\<close>

record tables =
  tb_provinces :: "(ustring \<times> ustring, provider_province \<times> int) hmap"
  tb_cities :: "(ustring \<times> ustring, provider_city \<times> int) hmap"
  tb_catalog_state :: "(ustring \<times> catalog_kind \<times> ustring, int \<times> int) hmap"
  tb_mappings :: "(ustring \<times> ustring, provider_station \<times> int) hmap"
  tb_history :: "(ustring \<times> ustring, history_row) hmap"
  tb_fetch_log :: "fetch_log_row list"
  tb_next_log_id :: nat
  tb_engine_state :: "(ustring, ustring \<times> int) hmap"

definition initial_schema :: tables where
  "initial_schema = \<lparr>tb_provinces = [], tb_cities = [], tb_catalog_state = [], tb_mappings = [],
     tb_history = [], tb_fetch_log = [], tb_next_log_id = 1, tb_engine_state = []\<rparr>"

datatype db_error =
    SqlFailed | ConstraintViolated
  | ProviderEmpty | ProvinceCodeEmpty | CodeEmpty ustring | CodeDuplicate ustring ustring
  | CityWrongScope ustring ustring ustring | RowCountOverflow
  | CatalogCountMismatch ustring catalog_kind ustring int int
  | CityWithoutState ustring ustring ustring
  | StationNameBlank | StationUuidBlank | StationUuidNotCanonical ustring ustring
  | TimestampInvalid int | SnapshotStationMissing
  | SnapshotSchemaUnsupported ustring ustring ustring | SnapshotUndecodable ustring ustring
  | CursorInvalid ustring | PageSizeOverflow
  | DbTimezoneInvalid ustring ustring | TimezoneMetadataMissing
  | TimezonePendingMismatch ustring ustring ustring | TimezoneDiffers ustring ustring
  | TimezoneSyncPending ustring | TimezoneNotOld ustring ustring
  | TimezonePendingNotExpected ustring ustring | TimezonePendingNotStored ustring ustring
  | HistorySchemaUnsupported | StagedCountMismatch int int
  | MigrationRefused

section \<open>Statements and transactions\<close>

type_synonym sql_faults = "nat \<Rightarrow> bool"
type_synonym statement = "tables \<Rightarrow> db_error + tables"

text \<open>Statements one after another; \<open>i\<close> counts them for the faults.\<close>

fun exec_all :: "sql_faults \<Rightarrow> nat \<Rightarrow> statement list \<Rightarrow> statement" where
  "exec_all faults i [] t = Inr t"
| "exec_all faults i (s # ss) t =
     (if faults i then Inl SqlFailed
      else (case s t of Inl e \<Rightarrow> Inl e | Inr t' \<Rightarrow> exec_all faults (Suc i) ss t'))"

definition begin_tx :: statement where "begin_tx t = Inr t"
definition commit_tx :: statement where "commit_tx t = Inr t"

definition transaction :: "sql_faults \<Rightarrow> statement list \<Rightarrow> tables \<Rightarrow> (db_error + unit) \<times> tables" where
  "transaction faults ss t =
     (case exec_all faults 0 (begin_tx # ss @ [commit_tx]) t of
        Inl e \<Rightarrow> (Inl e, t)
      | Inr t' \<Rightarrow> (Inr (), t'))"

definition insert_row :: "'k \<Rightarrow> 'v \<Rightarrow> ('k, 'v) hmap \<Rightarrow> ('k, 'v) hmap option" where
  "insert_row k v m = (if hget m k = None then Some (m @ [(k, v)]) else None)"

lemma exec_all_append:
  "exec_all faults i (ss @ rest) t =
     (case exec_all faults i ss t of
        Inl e \<Rightarrow> Inl e | Inr t' \<Rightarrow> exec_all faults (i + length ss) rest t')"
proof (induction ss arbitrary: i t)
  case (Cons s ss)
  show ?case by (cases "s t") (auto simp: Cons.IH split: sum.split)
qed simp

lemma transaction_Inl [simp]: "transaction faults ss t = (Inl e, t') \<Longrightarrow> t' = t"
  by (auto simp: transaction_def split: sum.splits)

lemma transaction_Inr:
  assumes "transaction faults ss t = (Inr u, t')"
  shows "\<exists>i. exec_all faults i ss t = Inr t'"
proof (cases "exec_all faults 1 ss t")
  case (Inl e)
  with assms show ?thesis
    by (simp add: transaction_def begin_tx_def exec_all_append split: if_splits)
next
  case (Inr s)
  with assms have "s = t'"
    by (simp add: transaction_def begin_tx_def commit_tx_def exec_all_append split: if_splits)
  with Inr show ?thesis by blast
qed

lemma transaction_no_fault:
  "(\<And>i. \<not> faults i) \<Longrightarrow> exec_all faults 1 ss t = Inr t' \<Longrightarrow> transaction faults ss t = (Inr (), t')"
  by (simp add: transaction_def begin_tx_def commit_tx_def exec_all_append)

section \<open>Catalog checks\<close>

definition validate_provider :: "ustring \<Rightarrow> db_error option" where
  "validate_provider provider = (if trim provider = [] then Some ProviderEmpty else None)"

fun validate_unique_codes :: "ustring \<Rightarrow> ustring list \<Rightarrow> ustring list \<Rightarrow> db_error option" where
  "validate_unique_codes kind seen [] = None"
| "validate_unique_codes kind seen (code # codes) =
     (if trim code = [] then Some (CodeEmpty kind)
      else if code \<in> set seen then Some (CodeDuplicate kind code)
      else validate_unique_codes kind (code # seen) codes)"

definition validate_provider_province_catalog :: "provider_province list \<Rightarrow> db_error option" where
  "validate_provider_province_catalog provinces =
     validate_unique_codes (lit ''province'') [] (map pp_provider_code provinces)"

fun first_wrong_scope :: "ustring \<Rightarrow> provider_city list \<Rightarrow> db_error option" where
  "first_wrong_scope code [] = None"
| "first_wrong_scope code (c # cs) =
     (if pc_provider_province_code c \<noteq> code
      then Some (CityWrongScope (pc_provider_code c) (pc_provider_province_code c) code)
      else first_wrong_scope code cs)"

definition validate_provider_city_catalog :: "ustring \<Rightarrow> provider_city list \<Rightarrow> db_error option" where
  "validate_provider_city_catalog code cities =
     (if trim code = [] then Some ProvinceCodeEmpty
      else (case validate_unique_codes (lit ''city'') [] (map pc_provider_code cities) of
              Some e \<Rightarrow> Some e
            | None \<Rightarrow> first_wrong_scope code cities))"

lemma validate_unique_codes_iff:
  "validate_unique_codes kind seen codes = None \<longleftrightarrow>
     distinct codes \<and> set codes \<inter> set seen = {} \<and> (\<forall>c\<in>set codes. trim c \<noteq> [])"
  by (induction codes arbitrary: seen) auto

lemma first_wrong_scope_iff:
  "first_wrong_scope code cs = None \<longleftrightarrow> (\<forall>c\<in>set cs. pc_provider_province_code c = code)"
  by (induction cs) auto

section \<open>Provider catalogs\<close>

text \<open>\<open>ON CONFLICT DO UPDATE\<close> of the cache state: the row is replaced.\<close>

definition upsert_catalog_state ::
  "ustring \<Rightarrow> catalog_kind \<Rightarrow> ustring \<Rightarrow> int \<Rightarrow> int \<Rightarrow> statement" where
  "upsert_catalog_state provider kind scope fetched row_count t =
     Inr (t\<lparr>tb_catalog_state := hput (provider, kind, scope) (fetched, row_count)
            (tb_catalog_state t)\<rparr>)"

definition delete_provinces :: "ustring \<Rightarrow> statement" where
  "delete_provinces provider t =
     Inr (t\<lparr>tb_provinces := filter (\<lambda>r. fst (fst r) \<noteq> provider) (tb_provinces t)\<rparr>)"

definition insert_province :: "ustring \<Rightarrow> int \<Rightarrow> provider_province \<Rightarrow> statement" where
  "insert_province provider now p t =
     (case insert_row (provider, pp_provider_code p) (p, now) (tb_provinces t) of
        None \<Rightarrow> Inl ConstraintViolated
      | Some m \<Rightarrow> Inr (t\<lparr>tb_provinces := m\<rparr>))"

definition province_exists :: "tables \<Rightarrow> ustring \<Rightarrow> ustring \<Rightarrow> bool" where
  "province_exists t provider code \<longleftrightarrow> hget (tb_provinces t) (provider, code) \<noteq> None"

definition delete_orphan_cities :: "ustring \<Rightarrow> statement" where
  "delete_orphan_cities provider t =
     Inr (t\<lparr>tb_cities := filter (\<lambda>r. fst (fst r) \<noteq> provider
            \<or> province_exists t provider (pc_provider_province_code (fst (snd r)))) (tb_cities t)\<rparr>)"

definition delete_orphan_states :: "ustring \<Rightarrow> statement" where
  "delete_orphan_states provider t =
     Inr (t\<lparr>tb_catalog_state := filter (\<lambda>((p, kind, scope), _). p \<noteq> provider
            \<or> kind \<noteq> CatalogCities \<or> province_exists t provider scope) (tb_catalog_state t)\<rparr>)"

definition delete_orphan_mappings :: "ustring \<Rightarrow> statement" where
  "delete_orphan_mappings provider t =
     Inr (t\<lparr>tb_mappings := filter (\<lambda>r. fst (fst r) \<noteq> provider
            \<or> province_exists t provider (ps_provider_province_code (fst (snd r)))) (tb_mappings t)\<rparr>)"

definition replace_provider_provinces ::
  "sql_faults \<Rightarrow> int \<Rightarrow> ustring \<Rightarrow> provider_province list \<Rightarrow> tables \<Rightarrow> (db_error + unit) \<times> tables" where
  "replace_provider_provinces faults now provider provinces t =
     (case validate_provider provider of
        Some e \<Rightarrow> (Inl e, t)
      | None \<Rightarrow>
          (case validate_provider_province_catalog provinces of
             Some e \<Rightarrow> (Inl e, t)
           | None \<Rightarrow>
               (case checked_i64 (int (length provinces)) of
                  None \<Rightarrow> (Inl RowCountOverflow, t)
                | Some row_count \<Rightarrow>
                    transaction faults
                      ([delete_provinces provider]
                       @ map (insert_province provider now) provinces
                       @ [delete_orphan_cities provider, delete_orphan_states provider,
                          delete_orphan_mappings provider,
                          upsert_catalog_state provider CatalogProvinces province_scope now row_count])
                      t)))"

definition delete_scope_mappings :: "ustring \<Rightarrow> ustring \<Rightarrow> statement" where
  "delete_scope_mappings provider code t =
     Inr (t\<lparr>tb_mappings := filter (\<lambda>r. \<not> (fst (fst r) = provider
            \<and> ps_provider_province_code (fst (snd r)) = code)) (tb_mappings t)\<rparr>)"

definition in_scope :: "ustring \<Rightarrow> ustring \<Rightarrow> (ustring \<times> ustring) \<times> provider_city \<times> int \<Rightarrow> bool" where
  "in_scope provider code r \<longleftrightarrow> fst (fst r) = provider \<and> pc_provider_province_code (fst (snd r)) = code"

definition delete_scope_cities :: "ustring \<Rightarrow> ustring \<Rightarrow> statement" where
  "delete_scope_cities provider code t =
     Inr (t\<lparr>tb_cities := filter (\<lambda>r. \<not> in_scope provider code r) (tb_cities t)\<rparr>)"

text \<open>The inserted row takes its province code from the scope, not from the city.\<close>

definition insert_city :: "ustring \<Rightarrow> ustring \<Rightarrow> int \<Rightarrow> provider_city \<Rightarrow> statement" where
  "insert_city provider code now c t =
     (case insert_row (provider, pc_provider_code c) (c\<lparr>pc_provider_province_code := code\<rparr>, now)
             (tb_cities t) of
        None \<Rightarrow> Inl ConstraintViolated
      | Some m \<Rightarrow> Inr (t\<lparr>tb_cities := m\<rparr>))"

definition replace_provider_cities ::
  "sql_faults \<Rightarrow> int \<Rightarrow> ustring \<Rightarrow> ustring \<Rightarrow> provider_city list \<Rightarrow> tables
     \<Rightarrow> (db_error + unit) \<times> tables" where
  "replace_provider_cities faults now provider code cities t =
     (case validate_provider provider of
        Some e \<Rightarrow> (Inl e, t)
      | None \<Rightarrow>
          (case validate_provider_city_catalog code cities of
             Some e \<Rightarrow> (Inl e, t)
           | None \<Rightarrow>
               (case checked_i64 (int (length cities)) of
                  None \<Rightarrow> (Inl RowCountOverflow, t)
                | Some row_count \<Rightarrow>
                    transaction faults
                      ([delete_scope_mappings provider code, delete_scope_cities provider code]
                       @ map (insert_city provider code now) cities
                       @ [upsert_catalog_state provider CatalogCities code now row_count])
                      t)))"

record 'a catalog_cache =
  cc_items :: "'a list"
  cc_fetched_at :: int

record provider_city_scope_cache =
  cs_province_code :: ustring
  cs_items :: "provider_city list"
  cs_fetched_at :: int

definition validate_catalog_count ::
  "ustring \<Rightarrow> catalog_kind \<Rightarrow> ustring \<Rightarrow> int \<Rightarrow> nat \<Rightarrow> db_error option" where
  "validate_catalog_count provider kind scope expected actual =
     (case checked_i64 (int actual) of
        None \<Rightarrow> Some RowCountOverflow
      | Some n \<Rightarrow> if expected \<noteq> n then Some (CatalogCountMismatch provider kind scope expected n) else None)"

text \<open>\<open>ORDER BY provider_code\<close> and \<open>ORDER BY city, provider_code\<close>.\<close>

definition select_provinces :: "ustring \<Rightarrow> tables \<Rightarrow> provider_province list" where
  "select_provinces provider t =
     sort_key pp_provider_code (map (fst \<circ> snd) (filter (\<lambda>r. fst (fst r) = provider) (tb_provinces t)))"

definition select_cities :: "ustring \<Rightarrow> ustring \<Rightarrow> tables \<Rightarrow> provider_city list" where
  "select_cities provider code t =
     sort_key (\<lambda>c. (pc_city c, pc_provider_code c))
       (map (fst \<circ> snd) (filter (in_scope provider code) (tb_cities t)))"

definition get_provider_provinces ::
  "sql_faults \<Rightarrow> ustring \<Rightarrow> tables \<Rightarrow> db_error + provider_province catalog_cache option" where
  "get_provider_provinces faults provider t =
     (case validate_provider provider of
        Some e \<Rightarrow> Inl e
      | None \<Rightarrow>
          if faults 0 then Inl SqlFailed
          else (case hget (tb_catalog_state t) (provider, CatalogProvinces, province_scope) of
             None \<Rightarrow> Inr None
           | Some (fetched, expected) \<Rightarrow>
               if faults 1 then Inl SqlFailed
               else (let items = select_provinces provider t
                     in case validate_catalog_count provider CatalogProvinces province_scope
                               expected (length items) of
                          Some e \<Rightarrow> Inl e
                        | None \<Rightarrow> Inr (Some \<lparr>cc_items = items, cc_fetched_at = fetched\<rparr>))))"

definition get_provider_cities ::
  "sql_faults \<Rightarrow> ustring \<Rightarrow> ustring \<Rightarrow> tables \<Rightarrow> db_error + provider_city catalog_cache option" where
  "get_provider_cities faults provider code t =
     (case validate_provider provider of
        Some e \<Rightarrow> Inl e
      | None \<Rightarrow>
          if faults 0 then Inl SqlFailed
          else (case hget (tb_catalog_state t) (provider, CatalogCities, code) of
             None \<Rightarrow> Inr None
           | Some (fetched, expected) \<Rightarrow>
               if faults 1 then Inl SqlFailed
               else (let items = select_cities provider code t
                     in case validate_catalog_count provider CatalogCities code
                               expected (length items) of
                          Some e \<Rightarrow> Inl e
                        | None \<Rightarrow> Inr (Some \<lparr>cc_items = items, cc_fetched_at = fetched\<rparr>))))"

text \<open>All city scopes of a provider: first the check for cities without a cache state.\<close>

definition orphan_cities :: "ustring \<Rightarrow> tables \<Rightarrow> (ustring \<times> ustring) list" where
  "orphan_cities provider t =
     sort (map (\<lambda>r. (pc_provider_province_code (fst (snd r)), snd (fst r)))
       (filter (\<lambda>r. fst (fst r) = provider
          \<and> hget (tb_catalog_state t)
              (provider, CatalogCities, pc_provider_province_code (fst (snd r))) = None)
         (tb_cities t)))"

definition city_states :: "ustring \<Rightarrow> tables \<Rightarrow> (ustring \<times> int \<times> int) list" where
  "city_states provider t =
     sort_key fst (map (\<lambda>r. (snd (snd (fst r)), snd r))
       (filter (\<lambda>r. fst (fst r) = provider \<and> fst (snd (fst r)) = CatalogCities) (tb_catalog_state t)))"

fun city_scopes ::
  "sql_faults \<Rightarrow> nat \<Rightarrow> ustring \<Rightarrow> tables \<Rightarrow> (ustring \<times> int \<times> int) list
     \<Rightarrow> db_error + provider_city_scope_cache list" where
  "city_scopes faults i provider t [] = Inr []"
| "city_scopes faults i provider t ((scope, fetched, expected) # states) =
     (if faults i then Inl SqlFailed
      else (let items = select_cities provider scope t
            in case validate_catalog_count provider CatalogCities scope expected (length items) of
                 Some e \<Rightarrow> Inl e
               | None \<Rightarrow>
                   (case city_scopes faults (Suc i) provider t states of
                      Inl e \<Rightarrow> Inl e
                    | Inr scopes \<Rightarrow>
                        Inr (\<lparr>cs_province_code = scope, cs_items = items, cs_fetched_at = fetched\<rparr> # scopes))))"

definition get_all_provider_city_scopes ::
  "sql_faults \<Rightarrow> ustring \<Rightarrow> tables \<Rightarrow> db_error + provider_city_scope_cache list" where
  "get_all_provider_city_scopes faults provider t =
     (case validate_provider provider of
        Some e \<Rightarrow> Inl e
      | None \<Rightarrow>
          if faults 0 then Inl SqlFailed
          else (case orphan_cities provider t of
             (scope, code) # _ \<Rightarrow> Inl (CityWithoutState provider scope code)
           | [] \<Rightarrow> if faults 1 then Inl SqlFailed
                   else city_scopes faults 2 provider t (city_states provider t)))"

section \<open>Station mappings\<close>

definition put_provider_station_mapping ::
  "(byte list \<Rightarrow> byte list) \<Rightarrow> sql_faults \<Rightarrow> int \<Rightarrow> provider_station \<Rightarrow> tables
     \<Rightarrow> (db_error + unit) \<times> tables" where
  "put_provider_station_mapping sha faults now s t =
     (case validate_provider (ps_provider_name s) of
        Some e \<Rightarrow> (Inl e, t)
      | None \<Rightarrow>
          if trim (ps_name s) = [] then (Inl StationNameBlank, t)
          else if trim (ps_unified_uuid s) = [] then (Inl StationUuidBlank, t)
          else if ps_unified_uuid s \<noteq> unified_station_uuid sha (ps_name s)
            then (Inl (StationUuidNotCanonical (ps_unified_uuid s) (ps_name s)), t)
          else if faults 0 then (Inl SqlFailed, t)
          else (Inr (), t\<lparr>tb_mappings :=
                  hput (ps_provider_name s, ps_display_name s) (s, now) (tb_mappings t)\<rparr>))"

definition get_provider_station_by_name ::
  "sql_faults \<Rightarrow> ustring \<Rightarrow> ustring \<Rightarrow> tables \<Rightarrow> db_error + provider_station option" where
  "get_provider_station_by_name faults provider name t =
     (if faults 0 then Inl SqlFailed
      else Inr (map_option fst (hget (tb_mappings t) (provider, name))))"

definition get_provider_station_by_uuid ::
  "sql_faults \<Rightarrow> ustring \<Rightarrow> ustring \<Rightarrow> tables \<Rightarrow> db_error + provider_station option" where
  "get_provider_station_by_uuid faults provider uuid t =
     (if faults 0 then Inl SqlFailed
      else Inr (min_by_key ps_display_name
             (map (fst \<circ> snd) (filter (\<lambda>r. fst (fst r) = provider
                \<and> ps_unified_uuid (fst (snd r)) = uuid) (tb_mappings t)))))"

section \<open>The fetch log\<close>

definition fetch_log_retention_ms :: int where "fetch_log_retention_ms = 30 * 24 * 60 * 60 * 1000"
definition fetch_log_max_rows :: "nat option" where "fetch_log_max_rows = Some 10000"

definition delete_old_logs :: "int \<Rightarrow> statement" where
  "delete_old_logs cutoff t =
     Inr (t\<lparr>tb_fetch_log := filter (\<lambda>r. \<not> fl_fetched r < cutoff) (tb_fetch_log t)\<rparr>)"

text \<open>The newest first: \<open>ORDER BY fetched_at_unix_ms DESC, id DESC\<close>.\<close>

definition log_order :: "fetch_log_row \<Rightarrow> int \<times> int" where
  "log_order r = (- fl_fetched r, - int (fl_id r))"

definition delete_excess_logs :: "nat \<Rightarrow> statement" where
  "delete_excess_logs max_rows t =
     (let excess = map fl_id (drop max_rows (sort_key log_order (tb_fetch_log t)))
      in Inr (t\<lparr>tb_fetch_log := filter (\<lambda>r. fl_id r \<notin> set excess) (tb_fetch_log t)\<rparr>))"

definition prune_fetch_logs :: "int \<Rightarrow> int \<Rightarrow> nat option \<Rightarrow> statement list" where
  "prune_fetch_logs now retention max_rows =
     (let cutoff = sat_i64 (now - max 0 retention)
      in [delete_old_logs cutoff]
         @ (case max_rows of None \<Rightarrow> [] | Some n \<Rightarrow> [delete_excess_logs n]))"

definition insert_fetch_log ::
  "ustring option \<Rightarrow> ustring \<Rightarrow> bool \<Rightarrow> ustring option \<Rightarrow> int \<Rightarrow> statement" where
  "insert_fetch_log uuid endpoint ok message now t =
     Inr (t\<lparr>tb_fetch_log := tb_fetch_log t @
              [\<lparr>fl_id = tb_next_log_id t, fl_uuid = uuid, fl_endpoint = endpoint, fl_ok = ok,
                fl_message = message, fl_fetched = now\<rparr>],
            tb_next_log_id := Suc (tb_next_log_id t)\<rparr>)"

definition log_fetch ::
  "sql_faults \<Rightarrow> int \<Rightarrow> ustring option \<Rightarrow> ustring \<Rightarrow> bool \<Rightarrow> ustring option \<Rightarrow> tables
     \<Rightarrow> (db_error + unit) \<times> tables" where
  "log_fetch faults now uuid endpoint ok message t =
     transaction faults
       (insert_fetch_log uuid endpoint ok message now
        # prune_fetch_logs now fetch_log_retention_ms fetch_log_max_rows) t"

end
