(* ===== verification/Db_Catalog.thy ===== *)
theory Db_Catalog
  imports Db_Tables
begin

text \<open>
  Properties of the provider catalogs in the database
  (\<^verbatim>\<open>weather-core/db/src/storage.rs\<close>): the consistency of the catalog tables with
  the cache state, what replacing a catalog does to what is read afterwards, station mappings
  and the bounds of the fetch log.
\<close>

section \<open>What a replacement does\<close>

abbreviation row_provider :: "(ustring \<times> ustring) \<times> 'v \<Rightarrow> ustring" where
  "row_provider r \<equiv> fst (fst r)"

abbreviation city_scope :: "(ustring \<times> ustring) \<times> provider_city \<times> int \<Rightarrow> ustring" where
  "city_scope r \<equiv> pc_provider_province_code (fst (snd r))"

abbreviation mapping_scope :: "(ustring \<times> ustring) \<times> provider_station \<times> int \<Rightarrow> ustring" where
  "mapping_scope r \<equiv> ps_provider_province_code (fst (snd r))"

definition province_rows ::
  "ustring \<Rightarrow> int \<Rightarrow> provider_province list \<Rightarrow> ((ustring \<times> ustring) \<times> provider_province \<times> int) list" where
  "province_rows provider now ps = map (\<lambda>p. ((provider, pp_provider_code p), (p, now))) ps"

definition city_rows ::
  "ustring \<Rightarrow> ustring \<Rightarrow> int \<Rightarrow> provider_city list \<Rightarrow> ((ustring \<times> ustring) \<times> provider_city \<times> int) list" where
  "city_rows provider code now cs =
     map (\<lambda>c. ((provider, pc_provider_code c), (c\<lparr>pc_provider_province_code := code\<rparr>, now))) cs"

definition provinces_replaced ::
  "int \<Rightarrow> ustring \<Rightarrow> provider_province list \<Rightarrow> tables \<Rightarrow> tables" where
  "provinces_replaced now provider ps t =
     (let codes = pp_provider_code ` set ps
      in t\<lparr>tb_provinces := filter (\<lambda>r. row_provider r \<noteq> provider) (tb_provinces t)
                            @ province_rows provider now ps,
           tb_cities := filter (\<lambda>r. row_provider r \<noteq> provider \<or> city_scope r \<in> codes) (tb_cities t),
           tb_catalog_state := hput (provider, CatalogProvinces, province_scope) (now, int (length ps))
             (filter (\<lambda>r. fst (fst r) \<noteq> provider \<or> fst (snd (fst r)) \<noteq> CatalogCities
                \<or> snd (snd (fst r)) \<in> codes) (tb_catalog_state t)),
           tb_mappings := filter (\<lambda>r. row_provider r \<noteq> provider \<or> mapping_scope r \<in> codes)
             (tb_mappings t)\<rparr>)"

definition cities_replaced ::
  "int \<Rightarrow> ustring \<Rightarrow> ustring \<Rightarrow> provider_city list \<Rightarrow> tables \<Rightarrow> tables" where
  "cities_replaced now provider code cs t =
     t\<lparr>tb_mappings := filter (\<lambda>r. \<not> (row_provider r = provider \<and> mapping_scope r = code)) (tb_mappings t),
       tb_cities := filter (\<lambda>r. \<not> in_scope provider code r) (tb_cities t)
                      @ city_rows provider code now cs,
       tb_catalog_state := hput (provider, CatalogCities, code) (now, int (length cs))
         (tb_catalog_state t)\<rparr>"

lemma insert_row_Some:
  "insert_row k v m = Some m' \<longleftrightarrow> hget m k = None \<and> m' = m @ [(k, v)]"
  by (auto simp: insert_row_def)

lemma exec_Cons_Inr:
  "exec_all faults i (s # ss) t = Inr t' \<longleftrightarrow>
     \<not> faults i \<and> (\<exists>t1. s t = Inr t1 \<and> exec_all faults (Suc i) ss t1 = Inr t')"
  by (cases "s t") simp_all

lemma exec_append_Inr:
  "exec_all faults i (ss @ rest) t = Inr t' \<longleftrightarrow>
     (\<exists>t1. exec_all faults i ss t = Inr t1 \<and> exec_all faults (i + length ss) rest t1 = Inr t')"
  by (cases "exec_all faults i ss t") (simp_all add: exec_all_append)

lemma insert_province_Inr:
  "insert_province provider now p t = Inr t1 \<longleftrightarrow>
     hget (tb_provinces t) (provider, pp_provider_code p) = None
     \<and> t1 = t\<lparr>tb_provinces := tb_provinces t @ [((provider, pp_provider_code p), (p, now))]\<rparr>"
  by (auto simp: insert_province_def insert_row_def)

lemma insert_city_Inr:
  "insert_city provider code now c t = Inr t1 \<longleftrightarrow>
     hget (tb_cities t) (provider, pc_provider_code c) = None
     \<and> t1 = t\<lparr>tb_cities := tb_cities t
           @ [((provider, pc_provider_code c), (c\<lparr>pc_provider_province_code := code\<rparr>, now))]\<rparr>"
  by (auto simp: insert_city_def insert_row_def)

lemma exec_insert_provinces:
  "exec_all faults i (map (insert_province provider now) ps) t = Inr t' \<Longrightarrow>
     t' = t\<lparr>tb_provinces := tb_provinces t @ province_rows provider now ps\<rparr>"
proof (induction ps arbitrary: i t)
  case (Cons p ps)
  from Cons.prems have "exec_all faults (Suc i) (map (insert_province provider now) ps)
      (t\<lparr>tb_provinces := tb_provinces t @ [((provider, pp_provider_code p), (p, now))]\<rparr>) = Inr t'"
    by (simp only: list.map exec_Cons_Inr insert_province_Inr) blast
  from Cons.IH [OF this] show ?case by (simp add: province_rows_def)
qed (simp add: province_rows_def)

lemma exec_insert_cities:
  "exec_all faults i (map (insert_city provider code now) cs) t = Inr t' \<Longrightarrow>
     t' = t\<lparr>tb_cities := tb_cities t @ city_rows provider code now cs\<rparr>"
proof (induction cs arbitrary: i t)
  case (Cons c cs)
  from Cons.prems have "exec_all faults (Suc i) (map (insert_city provider code now) cs)
      (t\<lparr>tb_cities := tb_cities t @ [((provider, pc_provider_code c),
          (c\<lparr>pc_provider_province_code := code\<rparr>, now))]\<rparr>) = Inr t'"
    by (simp only: list.map exec_Cons_Inr insert_city_Inr) blast
  from Cons.IH [OF this] show ?case by (simp add: city_rows_def)
qed (simp add: city_rows_def)

lemma exec_insert_cities_keys:
  "exec_all faults i (map (insert_city provider code now) cs) t = Inr t' \<Longrightarrow>
     hkeys_ok (tb_cities t) \<Longrightarrow> hkeys_ok (tb_cities t')"
proof (induction cs arbitrary: i t)
  case (Cons c cs)
  then obtain t1 where "insert_city provider code now c t = Inr t1"
    and "exec_all faults (Suc i) (map (insert_city provider code now) cs) t1 = Inr t'"
    by (simp only: list.map exec_Cons_Inr) blast
  moreover from this(1) Cons.prems(2) have "hkeys_ok (tb_cities t1)"
    by (auto simp: insert_city_Inr hkeys_ok_def map_of_eq_None_iff)
  ultimately show ?case using Cons.IH by blast
qed simp

lemma checked_i64_Some: "checked_i64 x = Some y \<longleftrightarrow> y = x \<and> i64_min \<le> x \<and> x \<le> i64_max"
  by (auto simp: checked_i64_def)

lemma hget_provinces_replaced:
  "hget (filter (\<lambda>r. row_provider r \<noteq> provider) m @ province_rows provider now ps) (provider, c) \<noteq> None
     \<longleftrightarrow> c \<in> pp_provider_code ` set ps"
  by (auto simp: map_of_eq_None_iff province_rows_def image_iff)

lemma replace_provinces_effect:
  assumes "replace_provider_provinces faults now provider ps t = (Inr u, t')"
  shows "t' = provinces_replaced now provider ps t" "trim provider \<noteq> []"
    "distinct (map pp_provider_code ps)" "int (length ps) \<le> i64_max"
proof -
  from assms obtain n where checks: "trim provider \<noteq> []" "distinct (map pp_provider_code ps)"
      "int (length ps) \<le> i64_max" and n: "n = int (length ps)"
    and tx: "transaction faults ([delete_provinces provider]
         @ map (insert_province provider now) ps
         @ [delete_orphan_cities provider, delete_orphan_states provider,
            delete_orphan_mappings provider,
            upsert_catalog_state provider CatalogProvinces province_scope now n]) t = (Inr u, t')"
    by (auto simp: replace_provider_provinces_def validate_provider_def checked_i64_Some
        validate_provider_province_catalog_def validate_unique_codes_iff split: option.splits if_splits)
  then show "trim provider \<noteq> []" "distinct (map pp_provider_code ps)" "int (length ps) \<le> i64_max"
    by simp_all
  obtain i where ex: "exec_all faults i ([delete_provinces provider]
         @ map (insert_province provider now) ps
         @ [delete_orphan_cities provider, delete_orphan_states provider,
            delete_orphan_mappings provider,
            upsert_catalog_state provider CatalogProvinces province_scope now n]) t = Inr t'"
    using transaction_Inr [OF tx] by blast
  let ?t1 = "t\<lparr>tb_provinces := filter (\<lambda>r. row_provider r \<noteq> provider) (tb_provinces t)\<rparr>"
  from ex obtain t2 j where
    ins: "exec_all faults (Suc i) (map (insert_province provider now) ps) ?t1 = Inr t2"
    and rest: "exec_all faults j [delete_orphan_cities provider,
          delete_orphan_states provider, delete_orphan_mappings provider,
          upsert_catalog_state provider CatalogProvinces province_scope now n] t2 = Inr t'"
    by (simp only: append_Cons append_Nil exec_Cons_Inr exec_append_Inr delete_provinces_def sum.inject)
       blast
  have t2: "t2 = t\<lparr>tb_provinces := filter (\<lambda>r. row_provider r \<noteq> provider) (tb_provinces t)
      @ province_rows provider now ps\<rparr>"
    using exec_insert_provinces [OF ins] by simp
  have ex2: "province_exists (t2\<lparr>tb_cities := a, tb_catalog_state := b, tb_mappings := c\<rparr>) provider s
      \<longleftrightarrow> s \<in> pp_provider_code ` set ps" for a b c s
    unfolding province_exists_def t2 using hget_provinces_replaced by simp
  show "t' = provinces_replaced now provider ps t"
    using rest ex2
    by (auto simp: delete_orphan_cities_def delete_orphan_states_def delete_orphan_mappings_def
        upsert_catalog_state_def provinces_replaced_def Let_def province_exists_def t2 n case_prod_unfold
        split: if_splits)
qed

lemma replace_cities_effect:
  assumes "replace_provider_cities faults now provider code cs t = (Inr u, t')"
    and "hkeys_ok (tb_cities t)"
  shows "t' = cities_replaced now provider code cs t" "hkeys_ok (tb_cities t')" "trim provider \<noteq> []"
    "\<forall>c\<in>set cs. pc_provider_province_code c = code" "int (length cs) \<le> i64_max"
proof -
  from assms(1) obtain n where checks: "trim provider \<noteq> []"
      "\<forall>c\<in>set cs. pc_provider_province_code c = code"
      "int (length cs) \<le> i64_max" and n: "n = int (length cs)"
    and tx: "transaction faults ([delete_scope_mappings provider code, delete_scope_cities provider code]
         @ map (insert_city provider code now) cs
         @ [upsert_catalog_state provider CatalogCities code now n]) t = (Inr u, t')"
    by (auto simp: replace_provider_cities_def validate_provider_def checked_i64_Some
        validate_provider_city_catalog_def first_wrong_scope_iff split: option.splits if_splits)
  then show "trim provider \<noteq> []" "\<forall>c\<in>set cs. pc_provider_province_code c = code"
      "int (length cs) \<le> i64_max"
    by simp_all
  obtain i where ex: "exec_all faults i
       ([delete_scope_mappings provider code, delete_scope_cities provider code]
         @ map (insert_city provider code now) cs
         @ [upsert_catalog_state provider CatalogCities code now n]) t = Inr t'"
    using transaction_Inr [OF tx] by blast
  let ?t1 = "t\<lparr>tb_mappings := filter (\<lambda>r. \<not> (row_provider r = provider \<and> mapping_scope r = code))
                 (tb_mappings t),
               tb_cities := filter (\<lambda>r. \<not> in_scope provider code r) (tb_cities t)\<rparr>"
  have t1: "\<And>t1 t2. delete_scope_mappings provider code t = Inr t1 \<Longrightarrow>
      delete_scope_cities provider code t1 = Inr t2 \<Longrightarrow> t2 = ?t1"
    by (auto simp: delete_scope_mappings_def delete_scope_cities_def)
  from ex obtain t1 t2 t3 j k where
    "delete_scope_mappings provider code t = Inr t1" "delete_scope_cities provider code t1 = Inr t2"
    and ins: "exec_all faults j (map (insert_city provider code now) cs) t2 = Inr t3"
    and rest: "exec_all faults k [upsert_catalog_state provider CatalogCities code now n] t3 = Inr t'"
    by (simp only: append_Cons append_Nil exec_Cons_Inr exec_append_Inr) blast
  with t1 have t2: "t2 = ?t1" by blast
  from exec_insert_cities [OF ins] have t3: "t3 = ?t1\<lparr>tb_cities := tb_cities ?t1
      @ city_rows provider code now cs\<rparr>"
    by (simp only: t2)
  have ok: "hkeys_ok (tb_cities t3)"
    by (rule exec_insert_cities_keys [OF ins]) (simp add: t2 assms(2))
  from rest have t': "t' = t3\<lparr>tb_catalog_state := hput (provider, CatalogCities, code) (now, n)
      (tb_catalog_state t3)\<rparr>"
    by (simp add: upsert_catalog_state_def split: if_splits)
  then show "hkeys_ok (tb_cities t')" using ok by simp
  show "t' = cities_replaced now provider code cs t"
    unfolding t' t3 n by (simp add: cities_replaced_def)
qed

lemma replace_Inl_unchanged:
  "replace_provider_provinces faults now provider ps t = (Inl e, t') \<Longrightarrow> t' = t"
  "replace_provider_cities faults now provider code cs t = (Inl e, t') \<Longrightarrow> t' = t"
  by (auto simp: replace_provider_provinces_def replace_provider_cities_def
      split: option.splits dest: transaction_Inl)

section \<open>Consistency of the catalog\<close>

text \<open>
  Every table has unique keys that agree with its rows; every city belongs to a scope the
  cache state knows; the row counts of the cache state are the numbers of rows.
\<close>

definition catalog_keys_ok :: "tables \<Rightarrow> bool" where
  "catalog_keys_ok t \<longleftrightarrow>
     hkeys_ok (tb_provinces t) \<and> hkeys_ok (tb_cities t)
     \<and> hkeys_ok (tb_catalog_state t) \<and> hkeys_ok (tb_mappings t)
     \<and> (\<forall>r\<in>set (tb_provinces t). snd (fst r) = pp_provider_code (fst (snd r)))
     \<and> (\<forall>r\<in>set (tb_cities t). snd (fst r) = pc_provider_code (fst (snd r)))
     \<and> (\<forall>r\<in>set (tb_mappings t).
          fst r = (ps_provider_name (fst (snd r)), ps_display_name (fst (snd r))))"

definition provinces_counted :: "tables \<Rightarrow> bool" where
  "provinces_counted t \<longleftrightarrow>
     (\<forall>pv f n. hget (tb_catalog_state t) (pv, CatalogProvinces, province_scope) = Some (f, n) \<longrightarrow>
        n = int (length (filter (\<lambda>r. row_provider r = pv) (tb_provinces t))) \<and> n \<le> i64_max)"

definition cities_counted :: "tables \<Rightarrow> bool" where
  "cities_counted t \<longleftrightarrow>
     (\<forall>pv s f n. hget (tb_catalog_state t) (pv, CatalogCities, s) = Some (f, n) \<longrightarrow>
        n = int (length (filter (in_scope pv s) (tb_cities t))) \<and> n \<le> i64_max)"

definition cities_in_known_scopes :: "tables \<Rightarrow> bool" where
  "cities_in_known_scopes t \<longleftrightarrow>
     (\<forall>r\<in>set (tb_cities t).
        hget (tb_catalog_state t) (row_provider r, CatalogCities, city_scope r) \<noteq> None)"

definition catalog_ok :: "tables \<Rightarrow> bool" where
  "catalog_ok t \<longleftrightarrow> catalog_keys_ok t \<and> provinces_counted t \<and> cities_counted t
     \<and> cities_in_known_scopes t"

lemma catalog_ok_initial: "catalog_ok initial_schema"
  by (simp add: catalog_ok_def catalog_keys_ok_def provinces_counted_def cities_counted_def
      cities_in_known_scopes_def initial_schema_def)

lemma state_after_provinces:
  assumes "hkeys_ok (tb_catalog_state t)"
  shows "hget (tb_catalog_state (provinces_replaced now pv ps t)) (pv', kind, s) =
    (if pv' = pv \<and> kind = CatalogProvinces \<and> s = province_scope then Some (now, int (length ps))
     else if pv' = pv \<and> kind = CatalogCities \<and> s \<notin> pp_provider_code ` set ps then None
     else hget (tb_catalog_state t) (pv', kind, s))"
  using assms
  by (auto simp: provinces_replaced_def Let_def hget_filter split: option.split)

lemma state_after_cities:
  "hget (tb_catalog_state (cities_replaced now pv code cs t)) (pv', kind, s) =
    (if pv' = pv \<and> kind = CatalogCities \<and> s = code then Some (now, int (length cs))
     else hget (tb_catalog_state t) (pv', kind, s))"
  by (auto simp: cities_replaced_def)

lemma provinces_of_after:
  "filter (\<lambda>r. row_provider r = pv') (tb_provinces (provinces_replaced now pv ps t)) =
     (if pv' = pv then province_rows pv now ps
      else filter (\<lambda>r. row_provider r = pv') (tb_provinces t))"
proof -
  have "filter (\<lambda>r. row_provider r = pv') (province_rows pv now ps)
      = (if pv' = pv then province_rows pv now ps else [])"
    by (auto simp: province_rows_def filter_map o_def)
  moreover have "filter (\<lambda>r. row_provider r = pv') (filter (\<lambda>r. row_provider r \<noteq> pv) (tb_provinces t))
      = (if pv' = pv then [] else filter (\<lambda>r. row_provider r = pv') (tb_provinces t))"
    by (auto simp: filter_empty_conv intro!: filter_cong)
  ultimately show ?thesis by (simp add: provinces_replaced_def Let_def)
qed

lemma cities_of_after_provinces:
  "filter (in_scope pv' s) (tb_cities (provinces_replaced now pv ps t)) =
     (if pv' = pv \<and> s \<notin> pp_provider_code ` set ps then []
      else filter (in_scope pv' s) (tb_cities t))"
  by (auto simp: provinces_replaced_def Let_def in_scope_def filter_empty_conv intro!: filter_cong)

lemma cities_of_after_cities:
  "filter (in_scope pv' s) (tb_cities (cities_replaced now pv code cs t)) =
     (if pv' = pv \<and> s = code then city_rows pv code now cs
      else filter (in_scope pv' s) (tb_cities t))"
proof -
  have "filter (in_scope pv' s) (city_rows pv code now cs)
      = (if pv' = pv \<and> s = code then city_rows pv code now cs else [])"
    by (auto simp: city_rows_def filter_map o_def in_scope_def)
  moreover have "filter (in_scope pv' s) (filter (\<lambda>r. \<not> in_scope pv code r) (tb_cities t))
      = (if pv' = pv \<and> s = code then [] else filter (in_scope pv' s) (tb_cities t))"
    by (auto simp: in_scope_def filter_empty_conv intro!: filter_cong)
  ultimately show ?thesis by (simp add: cities_replaced_def)
qed

lemma provinces_replaced_ok:
  assumes ok: "catalog_ok t" and ps: "distinct (map pp_provider_code ps)" "int (length ps) \<le> i64_max"
  shows "catalog_ok (provinces_replaced now pv ps t)"
proof -
  let ?t = "provinces_replaced now pv ps t"
  have keys: "hkeys_ok (tb_catalog_state t)" using ok by (simp add: catalog_ok_def catalog_keys_ok_def)
  have "map fst (province_rows pv now ps) = map (Pair pv) (map pp_provider_code ps)"
    by (simp add: province_rows_def)
  with ps(1) have "hkeys_ok (province_rows pv now ps)"
    by (simp only: hkeys_ok_def distinct_map [where f = "Pair pv"] inj_on_def) simp
  then have "hkeys_ok (tb_provinces ?t)"
    using ok
    by (auto simp: catalog_ok_def catalog_keys_ok_def provinces_replaced_def Let_def hkeys_ok_def
        distinct_map_filter province_rows_def)
  then have "catalog_keys_ok ?t"
    using ok
    by (auto simp: catalog_ok_def catalog_keys_ok_def provinces_replaced_def Let_def province_rows_def)
  moreover have "provinces_counted ?t"
    using ok ps(2)
    by (auto simp: catalog_ok_def provinces_counted_def state_after_provinces [OF keys]
        provinces_of_after province_rows_def split: if_splits)
  moreover have "cities_counted ?t"
    using ok
    by (auto simp: catalog_ok_def cities_counted_def state_after_provinces [OF keys]
        cities_of_after_provinces split: if_splits)
  moreover have "cities_in_known_scopes ?t"
    unfolding cities_in_known_scopes_def
  proof
    fix r assume "r \<in> set (tb_cities ?t)"
    then have r: "r \<in> set (tb_cities t)" "row_provider r \<noteq> pv \<or> city_scope r \<in> pp_provider_code ` set ps"
      by (auto simp: provinces_replaced_def Let_def)
    from r(1) ok have "hget (tb_catalog_state t) (row_provider r, CatalogCities, city_scope r) \<noteq> None"
      by (auto simp: catalog_ok_def cities_in_known_scopes_def)
    with r(2) show "hget (tb_catalog_state ?t) (row_provider r, CatalogCities, city_scope r) \<noteq> None"
      by (auto simp: state_after_provinces [OF keys])
  qed
  ultimately show ?thesis by (simp add: catalog_ok_def)
qed

lemma cities_replaced_ok:
  assumes ok: "catalog_ok t" and cs: "hkeys_ok (tb_cities (cities_replaced now pv code cs t))"
    "int (length cs) \<le> i64_max"
  shows "catalog_ok (cities_replaced now pv code cs t)"
proof -
  let ?t = "cities_replaced now pv code cs t"
  have "catalog_keys_ok ?t"
    using ok cs(1)
    by (auto simp: catalog_ok_def catalog_keys_ok_def cities_replaced_def city_rows_def)
  moreover have "provinces_counted ?t"
    using ok
    by (auto simp: catalog_ok_def provinces_counted_def state_after_cities)
       (simp_all add: cities_replaced_def)
  moreover have "cities_counted ?t"
    using ok cs(2)
    by (auto simp: catalog_ok_def cities_counted_def state_after_cities
        cities_of_after_cities city_rows_def split: if_splits)
  moreover have "cities_in_known_scopes ?t"
    using ok
    by (auto simp: catalog_ok_def cities_in_known_scopes_def state_after_cities)
       (auto simp: cities_replaced_def city_rows_def)
  ultimately show ?thesis by (simp add: catalog_ok_def)
qed

lemma replace_catalog_ok [inv_intros]:
  "catalog_ok t \<Longrightarrow> catalog_ok (snd (replace_provider_provinces faults now pv ps t))"
  "catalog_ok t \<Longrightarrow> catalog_ok (snd (replace_provider_cities faults now pv code cs t))"
proof -
  assume ok: "catalog_ok t"
  then have keys: "hkeys_ok (tb_cities t)" by (simp add: catalog_ok_def catalog_keys_ok_def)
  obtain r t1 where r: "replace_provider_provinces faults now pv ps t = (r, t1)" by fastforce
  show "catalog_ok (snd (replace_provider_provinces faults now pv ps t))"
  proof (cases r)
    case (Inl e)
    from replace_Inl_unchanged(1) [OF r [unfolded Inl]] ok r show ?thesis by simp
  next
    case (Inr u)
    from replace_provinces_effect [OF r [unfolded Inr]] provinces_replaced_ok [OF ok] r
    show ?thesis by simp
  qed
  obtain q t2 where q: "replace_provider_cities faults now pv code cs t = (q, t2)" by fastforce
  show "catalog_ok (snd (replace_provider_cities faults now pv code cs t))"
  proof (cases q)
    case (Inl e)
    from replace_Inl_unchanged(2) [OF q [unfolded Inl]] ok q show ?thesis by simp
  next
    case (Inr u)
    note eff = replace_cities_effect [OF q [unfolded Inr] keys]
    from cities_replaced_ok [OF ok eff(2) [unfolded eff(1)] eff(5)] eff(1) q show ?thesis by simp
  qed
qed

section \<open>Reading a consistent catalog\<close>

lemma count_ok:
  "catalog_ok t \<Longrightarrow> hget (tb_catalog_state t) (pv, CatalogProvinces, province_scope) = Some (f, n) \<Longrightarrow>
     validate_catalog_count pv CatalogProvinces province_scope n (length (select_provinces pv t)) = None"
  "catalog_ok t \<Longrightarrow> hget (tb_catalog_state t) (pv, CatalogCities, s) = Some (f, n) \<Longrightarrow>
     validate_catalog_count pv CatalogCities s n (length (select_cities pv s t)) = None"
  by (force simp: catalog_ok_def provinces_counted_def cities_counted_def validate_catalog_count_def
      select_provinces_def select_cities_def checked_i64_def i64_min_def)+

lemma get_provinces_consistent:
  assumes "catalog_ok t" and "trim pv \<noteq> []" and "\<And>i. \<not> faults i"
  shows "get_provider_provinces faults pv t =
    Inr (map_option (\<lambda>(f, n). \<lparr>cc_items = select_provinces pv t, cc_fetched_at = f\<rparr>)
      (hget (tb_catalog_state t) (pv, CatalogProvinces, province_scope)))"
  using assms
  by (auto simp: get_provider_provinces_def validate_provider_def Let_def count_ok split: option.split)

lemma get_cities_consistent:
  assumes "catalog_ok t" and "trim pv \<noteq> []" and "\<And>i. \<not> faults i"
  shows "get_provider_cities faults pv s t =
    Inr (map_option (\<lambda>(f, n). \<lparr>cc_items = select_cities pv s t, cc_fetched_at = f\<rparr>)
      (hget (tb_catalog_state t) (pv, CatalogCities, s)))"
  using assms
  by (auto simp: get_provider_cities_def validate_provider_def Let_def count_ok split: option.split)

lemma no_orphan_cities:
  assumes "catalog_ok t"
  shows "orphan_cities pv t = []"
proof -
  have "filter (\<lambda>r. row_provider r = pv
          \<and> hget (tb_catalog_state t) (pv, CatalogCities, city_scope r) = None) (tb_cities t) = []"
    using assms by (auto simp: catalog_ok_def cities_in_known_scopes_def filter_empty_conv)
  then show ?thesis by (simp add: orphan_cities_def)
qed

lemma city_scopes_consistent:
  assumes "catalog_ok t"
    and "\<And>s f n. (s, f, n) \<in> set states \<Longrightarrow> hget (tb_catalog_state t) (pv, CatalogCities, s) = Some (f, n)"
  shows "case city_scopes faults i pv t states of
      Inl e \<Rightarrow> e = SqlFailed
    | Inr scopes \<Rightarrow> scopes = map (\<lambda>(s, f, n). \<lparr>cs_province_code = s, cs_items = select_cities pv s t,
                                            cs_fetched_at = f\<rparr>) states"
  using assms(2)
proof (induction states arbitrary: i)
  case (Cons st states)
  obtain s f n where st: "st = (s, f, n)" by (cases st)
  from Cons.prems [of s f n] st
  have "validate_catalog_count pv CatalogCities s n (length (select_cities pv s t)) = None"
    by (simp add: count_ok [OF assms(1)])
  moreover from Cons have "case city_scopes faults (Suc i) pv t states of
      Inl e \<Rightarrow> e = SqlFailed
    | Inr scopes \<Rightarrow> scopes = map (\<lambda>(s, f, n). \<lparr>cs_province_code = s, cs_items = select_cities pv s t,
                                            cs_fetched_at = f\<rparr>) states"
    by (meson list.set_intros(2))
  ultimately show ?case by (simp add: st Let_def split: sum.splits)
qed simp

lemma city_states_lookup:
  assumes "catalog_ok t" and "(s, f, n) \<in> set (city_states pv t)"
  shows "hget (tb_catalog_state t) (pv, CatalogCities, s) = Some (f, n)"
  using assms by (auto simp: city_states_def catalog_ok_def catalog_keys_ok_def intro!: mem_hget)

text \<open>Reads of a consistent catalog only fail for a blank provider name or a failing SQLite.\<close>

definition read_failure :: "db_error \<Rightarrow> bool" where
  "read_failure e \<longleftrightarrow> e = ProviderEmpty \<or> e = SqlFailed"

lemma catalog_reads:
  assumes "catalog_ok t"
  shows "case get_provider_provinces faults pv t of Inl e \<Rightarrow> read_failure e | Inr r \<Rightarrow> True"
    "case get_provider_cities faults pv s t of Inl e \<Rightarrow> read_failure e | Inr r \<Rightarrow> True"
    "case get_all_provider_city_scopes faults pv t of Inl e \<Rightarrow> read_failure e | Inr r \<Rightarrow> True"
proof -
  show "case get_provider_provinces faults pv t of Inl e \<Rightarrow> read_failure e | Inr r \<Rightarrow> True"
    using assms
    by (auto simp: get_provider_provinces_def validate_provider_def read_failure_def Let_def count_ok
        split: option.split)
  show "case get_provider_cities faults pv s t of Inl e \<Rightarrow> read_failure e | Inr r \<Rightarrow> True"
    using assms
    by (auto simp: get_provider_cities_def validate_provider_def read_failure_def Let_def count_ok
        split: option.split)
  have "case city_scopes faults 2 pv t (city_states pv t) of Inl e \<Rightarrow> e = SqlFailed
      | Inr scopes \<Rightarrow> scopes = map (\<lambda>(s, f, n). \<lparr>cs_province_code = s, cs_items = select_cities pv s t,
                                            cs_fetched_at = f\<rparr>) (city_states pv t)"
    by (rule city_scopes_consistent [OF assms]) (rule city_states_lookup [OF assms])
  then show "case get_all_provider_city_scopes faults pv t of Inl e \<Rightarrow> read_failure e | Inr r \<Rightarrow> True"
    by (auto simp: get_all_provider_city_scopes_def validate_provider_def read_failure_def
        no_orphan_cities [OF assms] split: option.split sum.splits)
qed

section \<open>When a replacement succeeds\<close>

lemma exec_insert_provinces_ok:
  assumes "distinct (map pp_provider_code ps)"
    and "\<forall>p\<in>set ps. hget (tb_provinces t) (provider, pp_provider_code p) = None"
  shows "\<exists>t'. exec_all (\<lambda>_. False) i (map (insert_province provider now) ps) t = Inr t'"
  using assms
proof (induction ps arbitrary: i t)
  case (Cons p ps)
  let ?t = "t\<lparr>tb_provinces := tb_provinces t @ [((provider, pp_provider_code p), p, now)]\<rparr>"
  have "\<exists>t'. exec_all (\<lambda>_. False) (Suc i) (map (insert_province provider now) ps) ?t = Inr t'"
    using Cons.prems by (intro Cons.IH) (auto simp: map_add_def map_of_append image_iff split: option.split)
  moreover have "insert_province provider now p t = Inr ?t"
    using Cons.prems by (simp add: insert_province_def insert_row_def)
  ultimately show ?case by simp
qed simp

lemma exec_insert_cities_ok:
  assumes "distinct (map pc_provider_code cs)"
    and "\<forall>c\<in>set cs. hget (tb_cities t) (provider, pc_provider_code c) = None"
  shows "\<exists>t'. exec_all (\<lambda>_. False) i (map (insert_city provider code now) cs) t = Inr t'"
  using assms
proof (induction cs arbitrary: i t)
  case (Cons c cs)
  let ?t = "t\<lparr>tb_cities := tb_cities t
    @ [((provider, pc_provider_code c), c\<lparr>pc_provider_province_code := code\<rparr>, now)]\<rparr>"
  have "\<exists>t'. exec_all (\<lambda>_. False) (Suc i) (map (insert_city provider code now) cs) ?t = Inr t'"
    using Cons.prems by (intro Cons.IH) (auto simp: map_add_def map_of_append image_iff split: option.split)
  moreover have "insert_city provider code now c t = Inr ?t"
    using Cons.prems by (simp add: insert_city_def insert_row_def)
  ultimately show ?case by simp
qed simp

lemma replace_provinces_succeeds:
  assumes "trim provider \<noteq> []"
    and "distinct (map pp_provider_code ps)" and "\<forall>p\<in>set ps. trim (pp_provider_code p) \<noteq> []"
    and "int (length ps) \<le> i64_max"
  shows "fst (replace_provider_provinces (\<lambda>_. False) now provider ps t) = Inr ()"
proof -
  let ?t = "t\<lparr>tb_provinces := filter (\<lambda>r. row_provider r \<noteq> provider) (tb_provinces t)\<rparr>"
  have "hget (tb_provinces ?t) (provider, c) = None" for c
    by (auto simp: map_of_eq_None_iff)
  then obtain t1 where t1: "exec_all (\<lambda>_. False) 2 (map (insert_province provider now) ps) ?t = Inr t1"
    using exec_insert_provinces_ok [OF assms(2)] by metis
  have n: "checked_i64 (int (length ps)) = Some (int (length ps))"
    using assms(4) by (simp add: checked_i64_Some i64_min_def)
  have v: "validate_provider_province_catalog ps = None"
    using assms(2,3) by (auto simp: validate_provider_province_catalog_def validate_unique_codes_iff)
  have "\<exists>t'. exec_all (\<lambda>_. False) 1 ([delete_provinces provider] @ map (insert_province provider now) ps
      @ [delete_orphan_cities provider, delete_orphan_states provider, delete_orphan_mappings provider,
         upsert_catalog_state provider CatalogProvinces province_scope now (int (length ps))]) t = Inr t'"
    using t1 by (simp add: exec_all_append delete_provinces_def numeral_2_eq_2 delete_orphan_cities_def
        delete_orphan_states_def delete_orphan_mappings_def upsert_catalog_state_def)
  then obtain t' where t': "transaction (\<lambda>_. False) ([delete_provinces provider] @ map (insert_province provider now) ps
      @ [delete_orphan_cities provider, delete_orphan_states provider, delete_orphan_mappings provider,
         upsert_catalog_state provider CatalogProvinces province_scope now (int (length ps))]) t = (Inr (), t')"
    using transaction_no_fault [of "\<lambda>_. False"] by blast
  show ?thesis
    unfolding replace_provider_provinces_def n v option.case validate_provider_def
    using assms(1) t' by simp
qed

lemma replace_cities_succeeds:
  assumes "trim provider \<noteq> []" and "trim code \<noteq> []"
    and "distinct (map pc_provider_code cs)"
    and "\<forall>c\<in>set cs. trim (pc_provider_code c) \<noteq> [] \<and> pc_provider_province_code c = code"
    and "int (length cs) \<le> i64_max"
    and "\<forall>c\<in>set cs. \<forall>r\<in>set (tb_cities t). fst r = (provider, pc_provider_code c) \<longrightarrow> city_scope r = code"
  shows "fst (replace_provider_cities (\<lambda>_. False) now provider code cs t) = Inr ()"
proof -
  let ?t = "t\<lparr>tb_mappings := filter (\<lambda>r. \<not> (row_provider r = provider \<and> mapping_scope r = code)) (tb_mappings t),
    tb_cities := filter (\<lambda>r. \<not> in_scope provider code r) (tb_cities t)\<rparr>"
  have "\<forall>c\<in>set cs. hget (tb_cities ?t) (provider, pc_provider_code c) = None"
  proof (intro ballI)
    fix c assume c: "c \<in> set cs"
    have "(provider, pc_provider_code c) \<notin> fst ` set (tb_cities ?t)"
    proof
      assume "(provider, pc_provider_code c) \<in> fst ` set (tb_cities ?t)"
      then obtain r where r: "r \<in> set (tb_cities t)" "\<not> in_scope provider code r"
          "fst r = (provider, pc_provider_code c)" by auto
      with assms(6) c have "city_scope r = code" by blast
      with r show False by (simp add: in_scope_def)
    qed
    then show "hget (tb_cities ?t) (provider, pc_provider_code c) = None"
      by (simp only: map_of_eq_None_iff not_False_eq_True)
  qed
  from exec_insert_cities_ok [OF assms(3) this] obtain t1
    where t1: "exec_all (\<lambda>_. False) 3 (map (insert_city provider code now) cs) ?t = Inr t1" by blast
  have n: "checked_i64 (int (length cs)) = Some (int (length cs))"
    using assms(5) by (simp add: checked_i64_Some i64_min_def)
  have v: "validate_provider_city_catalog code cs = None"
  proof -
    have "validate_unique_codes (lit ''city'') [] (map pc_provider_code cs) = None"
      using assms(3,4) by (auto simp: validate_unique_codes_iff)
    moreover have "first_wrong_scope code cs = None" using assms(4) by (simp add: first_wrong_scope_iff)
    ultimately show ?thesis using assms(2) by (simp only: validate_provider_city_catalog_def option.case if_False)
  qed
  have "\<exists>t'. exec_all (\<lambda>_. False) 1 ([delete_scope_mappings provider code, delete_scope_cities provider code]
      @ map (insert_city provider code now) cs
      @ [upsert_catalog_state provider CatalogCities code now (int (length cs))]) t = Inr t'"
    using t1
    by (simp add: exec_all_append delete_scope_mappings_def delete_scope_cities_def
        upsert_catalog_state_def numeral_3_eq_3)
  then obtain t' where t': "transaction (\<lambda>_. False) ([delete_scope_mappings provider code, delete_scope_cities provider code]
      @ map (insert_city provider code now) cs
      @ [upsert_catalog_state provider CatalogCities code now (int (length cs))]) t = (Inr (), t')"
    using transaction_no_fault [of "\<lambda>_. False"] by blast
  show ?thesis
    unfolding replace_provider_cities_def n v option.case validate_provider_def
    using assms(1) t' by simp
qed

section \<open>A sample catalog\<close>

definition sample_provinces :: "provider_province list" where
  "sample_provinces = [\<lparr>pp_provider_code = [50], pp_name = [66], pp_url = []\<rparr>,
     \<lparr>pp_provider_code = [49], pp_name = [65], pp_url = []\<rparr>]"

definition sample_cities :: "provider_city list" where
  "sample_cities = [\<lparr>pc_provider_code = [55], pc_provider_province_code = [49], pc_province = [65],
     pc_city = [68], pc_url = []\<rparr>,
   \<lparr>pc_provider_code = [54], pc_provider_province_code = [49], pc_province = [65],
     pc_city = [67], pc_url = []\<rparr>]"

definition sample_catalog :: tables where
  "sample_catalog = snd (replace_provider_cities (\<lambda>_. False) 2 [120] [49] sample_cities
     (snd (replace_provider_provinces (\<lambda>_. False) 1 [120] sample_provinces initial_schema)))"

lemma sample_catalog_rows: "tb_cities sample_catalog = city_rows [120] [49] 2 sample_cities"
proof -
  let ?t = "snd (replace_provider_provinces (\<lambda>_. False) 1 [120] sample_provinces initial_schema)"
  have 1: "replace_provider_provinces (\<lambda>_. False) 1 [120] sample_provinces initial_schema = (Inr (), ?t)"
    by (rule prod_eqI) (simp_all add: replace_provinces_succeeds sample_provinces_def trim_def is_whitespace_def i64_max_def)
  have t: "tb_cities ?t = []"
    using replace_provinces_effect(1) [OF 1] by (simp add: provinces_replaced_def initial_schema_def)
  have 2: "replace_provider_cities (\<lambda>_. False) 2 [120] [49] sample_cities ?t = (Inr (), sample_catalog)"
    unfolding sample_catalog_def
    by (rule prod_eqI)
      (simp_all add: replace_cities_succeeds t sample_cities_def trim_def is_whitespace_def i64_max_def)
  have "tb_cities (cities_replaced 2 [120] [49] sample_cities ?t) = city_rows [120] [49] 2 sample_cities"
    using t by (simp add: cities_replaced_def)
  then show ?thesis by (simp only: replace_cities_effect(1) [OF 2, unfolded t, simplified])
qed

lemma sample_catalog_ok: "catalog_ok sample_catalog"
  unfolding sample_catalog_def by (intro replace_catalog_ok catalog_ok_initial)

section \<open>Properties\<close>

lemma by_name_after:
  assumes "catalog_ok t"
  shows "get_provider_station_by_name q pv' n (provinces_replaced now pv ps t) =
      (case get_provider_station_by_name q pv' n t of
         Inr (Some st) \<Rightarrow> if pv' = pv \<and> ps_provider_province_code st \<notin> pp_provider_code ` set ps
           then Inr None else Inr (Some st)
       | r \<Rightarrow> r)"
    "get_provider_station_by_name q pv' n (cities_replaced now pv code cs t) =
      (case get_provider_station_by_name q pv' n t of
         Inr (Some st) \<Rightarrow> if pv' = pv \<and> ps_provider_province_code st = code
           then Inr None else Inr (Some st)
       | r \<Rightarrow> r)"
  using assms
  by (auto simp: get_provider_station_by_name_def provinces_replaced_def cities_replaced_def Let_def
      catalog_ok_def catalog_keys_ok_def hget_filter split: option.split)

text \<open>
  Also: Replacing the cities of a province is exact: afterwards the cities read for that province
  are the given ones sorted by name and code, with the time of the replacement; the provinces
  and the cities of every other province or provider read as before; and a station mapping is
  gone if it was derived from the replaced cities and otherwise untouched. A failed
  replacement changes nothing.
\<close>

theorem city_replacement_is_exact:
  assumes "catalog_ok t" and "replace_provider_cities faults now pv code cs t = (r, t')"
    and "\<And>i. \<not> q i" and "trim pv' \<noteq> []"
  shows "case r of
      Inl e \<Rightarrow> t' = t
    | Inr u \<Rightarrow>
        get_provider_cities q pv code t' =
          Inr (Some \<lparr>cc_items = sort_key (\<lambda>c. (pc_city c, pc_provider_code c)) cs, cc_fetched_at = now\<rparr>)
        \<and> get_provider_provinces q pv' t' = get_provider_provinces q pv' t
        \<and> (if pv' = pv \<and> s = code then True
           else get_provider_cities q pv' s t' = get_provider_cities q pv' s t)
        \<and> get_provider_station_by_name q pv' n t' =
            (case get_provider_station_by_name q pv' n t of
               Inr (Some st) \<Rightarrow> if pv' = pv \<and> ps_provider_province_code st = code
                 then Inr None else Inr (Some st)
             | e \<Rightarrow> e)"
proof (cases r)
  case (Inl e)
  with replace_Inl_unchanged(2) assms(2) show ?thesis by simp
next
  case (Inr u)
  have keys: "hkeys_ok (tb_cities t)" using assms(1) by (simp add: catalog_ok_def catalog_keys_ok_def)
  note eff = replace_cities_effect [OF assms(2) [unfolded Inr] keys]
  have ok: "catalog_ok t'"
    using replace_catalog_ok(2) [OF assms(1), of faults now pv code cs] assms(2) by simp
  have "map (fst \<circ> snd) (city_rows pv code now cs) = cs"
    using eff(4) by (simp add: city_rows_def o_def map_idI)
  then have sel: "select_cities pv' s t' = (if pv' = pv \<and> s = code
      then sort_key (\<lambda>c. (pc_city c, pc_provider_code c)) cs else select_cities pv' s t)" for pv' s
    by (simp add: select_cities_def eff(1) cities_of_after_cities)
  have "select_provinces pv' t' = select_provinces pv' t"
    by (simp add: select_provinces_def eff(1) cities_replaced_def)
  moreover have "hget (tb_catalog_state t') (pv', k, s) = (if pv' = pv \<and> k = CatalogCities \<and> s = code
      then Some (now, int (length cs)) else hget (tb_catalog_state t) (pv', k, s))" for pv' k s
    by (simp only: eff(1) state_after_cities)
  moreover have "get_provider_station_by_name q pv' n t' =
      (case get_provider_station_by_name q pv' n t of
         Inr (Some st) \<Rightarrow> if pv' = pv \<and> ps_provider_province_code st = code
           then Inr None else Inr (Some st)
       | e \<Rightarrow> e)"
    unfolding eff(1) by (rule by_name_after(2) [OF assms(1)])
  ultimately show ?thesis
    using Inr eff(3) sel
    by (simp add: get_cities_consistent [OF ok _ assms(3)]
        get_cities_consistent [OF assms(1) assms(4,3)] get_cities_consistent [OF ok assms(4,3)]
        get_provinces_consistent [OF ok assms(4,3)] get_provinces_consistent [OF assms(1,4,3)])
qed

lemma city_replacement_is_exact_witness:
  "get_provider_cities (\<lambda>_. False) [120] [49]
      (snd (replace_provider_cities (\<lambda>_. False) 3 [120] [49] (rev sample_cities) sample_catalog))
    = Inr (Some \<lparr>cc_items = rev sample_cities, cc_fetched_at = 3\<rparr>)"
proof -
  have ok: "replace_provider_cities (\<lambda>_. False) 3 [120] [49] (rev sample_cities) sample_catalog
      = (Inr (), snd (replace_provider_cities (\<lambda>_. False) 3 [120] [49] (rev sample_cities) sample_catalog))"
    by (rule prod_eqI) (simp_all add: replace_cities_succeeds sample_catalog_rows city_rows_def
        sample_cities_def trim_def is_whitespace_def i64_max_def)
  have sorted: "sort_key (\<lambda>c. (pc_city c, pc_provider_code c)) (rev sample_cities) = rev sample_cities"
    by code_simp
  show ?thesis
    using city_replacement_is_exact [OF sample_catalog_ok ok, of "\<lambda>_. False" "[120]" "[]" "[]"]
    by (simp add: sorted trim_def is_whitespace_def)
qed

text \<open>
  Also: Replacing the provinces of a provider is exact and cascades: afterwards the provinces read
  are the given ones sorted by code, with the time of the replacement; the cities and station
  mappings of a province that is still listed read as before, those of a province that is not
  are gone (as if never cached); other providers read as before. A failed replacement changes
  nothing.
\<close>

theorem province_replacement_cascades:
  assumes "catalog_ok t" and "replace_provider_provinces faults now pv ps t = (r, t')"
    and "\<And>i. \<not> q i" and "trim pv' \<noteq> []"
  shows "case r of
      Inl e \<Rightarrow> t' = t
    | Inr u \<Rightarrow>
        get_provider_provinces q pv t' =
          Inr (Some \<lparr>cc_items = sort_key pp_provider_code ps, cc_fetched_at = now\<rparr>)
        \<and> (if pv' = pv then True
           else get_provider_provinces q pv' t' = get_provider_provinces q pv' t)
        \<and> get_provider_cities q pv' s t' =
            (if pv' = pv \<and> s \<notin> pp_provider_code ` set ps then Inr None
             else get_provider_cities q pv' s t)
        \<and> get_provider_station_by_name q pv' n t' =
            (case get_provider_station_by_name q pv' n t of
               Inr (Some st) \<Rightarrow>
                 if pv' = pv \<and> ps_provider_province_code st \<notin> pp_provider_code ` set ps
                 then Inr None else Inr (Some st)
             | e \<Rightarrow> e)"
proof (cases r)
  case (Inl e)
  with replace_Inl_unchanged(1) assms(2) show ?thesis by simp
next
  case (Inr u)
  have keys: "hkeys_ok (tb_catalog_state t)"
    using assms(1) by (simp add: catalog_ok_def catalog_keys_ok_def)
  note eff = replace_provinces_effect [OF assms(2) [unfolded Inr]]
  have ok: "catalog_ok t'"
    using replace_catalog_ok(1) [OF assms(1), of faults now pv ps] assms(2) by simp
  have "map (fst \<circ> snd) (province_rows pv now ps) = ps"
    by (simp add: province_rows_def o_def)
  then have sel: "select_provinces pv' t' = (if pv' = pv then sort_key pp_provider_code ps
      else select_provinces pv' t)" for pv'
    by (simp add: select_provinces_def eff(1) provinces_of_after)
  have cit: "pv' = pv \<and> s \<notin> pp_provider_code ` set ps \<or> select_cities pv' s t' = select_cities pv' s t"
    for pv' s
    by (simp add: select_cities_def eff(1) cities_of_after_provinces)
  have st: "hget (tb_catalog_state t') (pv', k, s) =
      (if pv' = pv \<and> k = CatalogProvinces \<and> s = province_scope then Some (now, int (length ps))
       else if pv' = pv \<and> k = CatalogCities \<and> s \<notin> pp_provider_code ` set ps then None
       else hget (tb_catalog_state t) (pv', k, s))" for pv' k s
    by (simp only: eff(1) state_after_provinces [OF keys])
  have "get_provider_station_by_name q pv' n t' =
      (case get_provider_station_by_name q pv' n t of
         Inr (Some st) \<Rightarrow> if pv' = pv \<and> ps_provider_province_code st \<notin> pp_provider_code ` set ps
           then Inr None else Inr (Some st)
       | e \<Rightarrow> e)"
    unfolding eff(1) by (rule by_name_after(1) [OF assms(1)])
  moreover have "get_provider_cities q pv' s t' =
            (if pv' = pv \<and> s \<notin> pp_provider_code ` set ps then Inr None
             else get_provider_cities q pv' s t)"
    using cit [of pv' s]
    by (auto simp: get_cities_consistent [OF ok assms(4,3)] get_cities_consistent [OF assms(1,4,3)] st)
  moreover have "get_provider_provinces q pv t' =
          Inr (Some \<lparr>cc_items = sort_key pp_provider_code ps, cc_fetched_at = now\<rparr>)"
    by (simp add: get_provinces_consistent [OF ok eff(2) assms(3)] st sel)
  moreover have "pv' = pv \<or> get_provider_provinces q pv' t' = get_provider_provinces q pv' t"
    by (simp add: get_provinces_consistent [OF ok assms(4,3)]
        get_provinces_consistent [OF assms(1,4,3)] st sel)
  ultimately show ?thesis using Inr by auto
qed

lemma province_replacement_cascades_witness:
  "get_provider_cities (\<lambda>_. False) [120] [49]
      (snd (replace_provider_provinces (\<lambda>_. False) 3 [120] (take 1 sample_provinces) sample_catalog))
    = Inr None"
proof -
  have ok: "replace_provider_provinces (\<lambda>_. False) 3 [120] (take 1 sample_provinces) sample_catalog
      = (Inr (), snd (replace_provider_provinces (\<lambda>_. False) 3 [120] (take 1 sample_provinces) sample_catalog))"
    by (rule prod_eqI) (simp_all add: replace_provinces_succeeds sample_provinces_def trim_def
        is_whitespace_def i64_max_def)
  show ?thesis
    using province_replacement_cascades [OF sample_catalog_ok ok, of "\<lambda>_. False" "[120]" "[49]" "[]"]
    by (simp add: trim_def is_whitespace_def sample_provinces_def)
qed

section \<open>The fetch log\<close>

definition log_ids_ok :: "tables \<Rightarrow> bool" where
  "log_ids_ok t \<longleftrightarrow> distinct (map fl_id (tb_fetch_log t))
     \<and> (\<forall>r\<in>set (tb_fetch_log t). fl_id r < tb_next_log_id t)"

lemma distinct_map_filter_key:
  assumes "distinct (map f xs)"
  shows "filter (\<lambda>x. f x \<notin> f ` set (drop k (sort_key g xs))) xs
      = filter (\<lambda>x. x \<in> set (take k (sort_key g xs))) xs"
proof (rule filter_cong [OF refl])
  fix x assume x: "x \<in> set xs"
  let ?ys = "sort_key g xs"
  have d: "distinct (map f ?ys)"
    using assms by (simp add: distinct_map inj_on_def)
  have split: "map f ?ys = map f (take k ?ys) @ map f (drop k ?ys)"
    by (simp flip: map_append)
  from d have dis: "f ` set (take k ?ys) \<inter> f ` set (drop k ?ys) = {}"
    unfolding split by (simp add: image_image)
  from x have "x \<in> set (take k ?ys @ drop k ?ys)" by simp
  then have "x \<in> set (take k ?ys) \<or> x \<in> set (drop k ?ys)" by (simp only: set_append Un_iff)
  with dis show "f x \<notin> f ` set (drop k ?ys) \<longleftrightarrow> x \<in> set (take k ?ys)" by blast
qed

lemma length_filter_take:
  assumes "distinct xs" and "set ys \<subseteq> set xs" and "distinct ys"
  shows "length (filter (\<lambda>x. x \<in> set ys) xs) = length ys"
proof -
  have "length (filter (\<lambda>x. x \<in> set ys) xs) = card (set ys \<inter> set xs)"
    using assms(1) by (metis distinct_card distinct_filter set_filter Int_commute Collect_conj_eq Collect_mem_eq)
  with assms(2,3) show ?thesis by (simp add: Int_absorb2 distinct_card)
qed

text \<open>
  Also: The fetch log stays bounded and loses only what it should: after a fetch is logged, the
  rows kept are exactly the newest 10000 (by time, then by identifier) of the old rows and the
  new one that are at most thirty days old, their identifiers stay unique, and nothing else in
  the database changes; if a statement fails, nothing changes.
\<close>

theorem fetch_log_stays_bounded:
  assumes "log_ids_ok t" and "log_fetch faults now uuid endpoint ok message t = (r, t')"
  shows "case r of
      Inl e \<Rightarrow> t' = t
    | Inr u \<Rightarrow>
        (let row = \<lparr>fl_id = tb_next_log_id t, fl_uuid = uuid, fl_endpoint = endpoint, fl_ok = ok,
               fl_message = message, fl_fetched = now\<rparr>;
             recent = filter (\<lambda>x. sat_i64 (now - fetch_log_retention_ms) \<le> fl_fetched x)
               (tb_fetch_log t @ [row])
         in set (tb_fetch_log t') = set (take 10000 (sort_key log_order recent))
            \<and> length (tb_fetch_log t') = min 10000 (length recent)
            \<and> log_ids_ok t'
            \<and> t' = t\<lparr>tb_fetch_log := tb_fetch_log t', tb_next_log_id := Suc (tb_next_log_id t)\<rparr>)"
proof (cases r)
  case (Inl e)
  with assms(2) show ?thesis by (auto simp: log_fetch_def dest: transaction_Inl)
next
  case (Inr u)
  define row where "row = \<lparr>fl_id = tb_next_log_id t, fl_uuid = uuid, fl_endpoint = endpoint,
    fl_ok = ok, fl_message = message, fl_fetched = now\<rparr>"
  define recent where "recent = filter (\<lambda>x. sat_i64 (now - fetch_log_retention_ms) \<le> fl_fetched x)
    (tb_fetch_log t @ [row])"
  have dids: "distinct (map fl_id (tb_fetch_log t @ [row]))"
    using assms(1) by (auto simp: log_ids_ok_def row_def)
  then have ids: "distinct (map fl_id recent)"
    unfolding recent_def by (rule distinct_map_filter)
  then have dr: "distinct recent" by (simp add: distinct_map)
  have prune: "prune_fetch_logs now fetch_log_retention_ms fetch_log_max_rows
      = [delete_old_logs (sat_i64 (now - fetch_log_retention_ms)), delete_excess_logs 10000]"
    by (simp add: prune_fetch_logs_def fetch_log_max_rows_def fetch_log_retention_ms_def)
  let ?keep = "filter (\<lambda>x. x \<in> set (take 10000 (sort_key log_order recent))) recent"
  from assms(2) [unfolded Inr] obtain i where
    "exec_all faults i (insert_fetch_log uuid endpoint ok message now
        # prune_fetch_logs now fetch_log_retention_ms fetch_log_max_rows) t = Inr t'"
    unfolding log_fetch_def by (blast dest: transaction_Inr)
  then have "delete_excess_logs 10000
      (t\<lparr>tb_next_log_id := Suc (tb_next_log_id t), tb_fetch_log := recent\<rparr>) = Inr t'"
    unfolding prune recent_def row_def
    by (simp add: insert_fetch_log_def delete_old_logs_def not_less split: if_splits sum.splits del: filter_append)
  then have "t' = t\<lparr>tb_next_log_id := Suc (tb_next_log_id t), tb_fetch_log :=
      filter (\<lambda>r. fl_id r \<notin> fl_id ` set (drop 10000 (sort_key log_order recent))) recent\<rparr>"
    by (simp add: delete_excess_logs_def)
  then have t': "t' = t\<lparr>tb_next_log_id := Suc (tb_next_log_id t), tb_fetch_log := ?keep\<rparr>"
    by (simp only: distinct_map_filter_key [OF ids, of 10000 log_order])
  have sub: "set (take 10000 (sort_key log_order recent)) \<subseteq> set recent"
    using set_take_subset [of 10000 "sort_key log_order recent"] by simp
  have len: "length ?keep = min 10000 (length recent)"
    using length_filter_take [OF dr sub] dr by simp
  have "log_ids_ok t'"
    using assms(1) distinct_map_filter [OF ids]
    by (auto simp: log_ids_ok_def t' recent_def row_def less_Suc_eq)
  with len sub show ?thesis
    unfolding Inr row_def [symmetric] recent_def [symmetric] Let_def
    by (auto simp: t')
qed

lemma fetch_log_stays_bounded_witness:
  "tb_fetch_log (snd (log_fetch (\<lambda>_. False) 5 None [97] True None initial_schema)) \<noteq> []"
proof -
  have ok: "log_fetch (\<lambda>_. False) 5 None [97] True None initial_schema
      = (Inr (), snd (log_fetch (\<lambda>_. False) 5 None [97] True None initial_schema))"
    by code_simp
  have ids: "log_ids_ok initial_schema" by (simp add: log_ids_ok_def initial_schema_def)
  let ?log = "tb_fetch_log (snd (log_fetch (\<lambda>_. False) 5 None [97] True None initial_schema))"
  have "length ?log = min 10000 1"
    using fetch_log_stays_bounded [OF ids ok]
    by (simp add: Let_def initial_schema_def sat_i64_def fetch_log_retention_ms_def i64_min_def i64_max_def)
  then show ?thesis by auto
qed

end
