(* ===== verification/Db_History.thy ===== *)
theory Db_History
  imports Db_Tables
begin

text \<open>
  The weather history in the database (\<^verbatim>\<open>weather-core/db/src/storage.rs\<close>): one
  snapshot per station and local day, reading the newest one and pages of the past, and moving
  the whole history to another time zone. The calendar and the time-zone database (chrono,
  chrono-tz) and the protobuf encoding of a snapshot are parameters. The abstract view of the
  history is a register per station that holds its newest snapshot.
\<close>

section \<open>Parameters\<close>

text \<open>
  \<open>cal_instant_ok\<close>: \<open>DateTime::from_timestamp_millis\<close> succeeds; \<open>cal_day\<close>: the local date
  formatted as \<^verbatim>\<open>%Y-%m-%d\<close>; \<open>cal_date_ok\<close>: \<open>NaiveDate::parse_from_str\<close> accepts.
\<close>

record 'tz calendar =
  cal_parse :: "ustring \<Rightarrow> 'tz option"
  cal_name :: "'tz \<Rightarrow> ustring"
  cal_instant_ok :: "int \<Rightarrow> bool"
  cal_day :: "'tz \<Rightarrow> int \<Rightarrow> ustring"
  cal_date_ok :: "ustring \<Rightarrow> bool"

record 'snap snapshot_codec =
  sn_station :: "'snap \<Rightarrow> station_ref option"
  sn_encode :: "'snap \<Rightarrow> byte list"
  sn_decode :: "byte list \<Rightarrow> 'snap option"

record 'tz db_instance =
  di_tables :: tables
  di_timezone :: 'tz

section \<open>Writing and reading\<close>

text \<open>\<open>ON CONFLICT DO UPDATE ... WHERE excluded.fetched_at_unix_ms >= ...\<close>.\<close>

definition upsert_history ::
  "ustring \<times> ustring \<Rightarrow> history_row \<Rightarrow> (ustring \<times> ustring, history_row) hmap
     \<Rightarrow> (ustring \<times> ustring, history_row) hmap" where
  "upsert_history k row h =
     (case hget h k of
        None \<Rightarrow> hput k row h
      | Some old \<Rightarrow> if hr_fetched old \<le> hr_fetched row then hput k row h else h)"

definition put_history_snapshot ::
  "'snap snapshot_codec \<Rightarrow> (byte list \<Rightarrow> byte list) \<Rightarrow> 'tz calendar \<Rightarrow> sql_faults \<Rightarrow> 'snap \<Rightarrow> int
     \<Rightarrow> 'tz db_instance \<Rightarrow> (db_error + unit) \<times> 'tz db_instance" where
  "put_history_snapshot codec sha cal faults snapshot fetched db =
     (if \<not> cal_instant_ok cal fetched then (Inl (TimestampInvalid fetched), db)
      else
        let date = cal_day cal (di_timezone db) fetched
        in case sn_station codec snapshot of
             None \<Rightarrow> (Inl SnapshotStationMissing, db)
           | Some station \<Rightarrow>
               if trim (sr_name station) = [] then (Inl StationNameBlank, db)
               else if trim (sr_unified_uuid station) = [] then (Inl StationUuidBlank, db)
               else if sr_unified_uuid station \<noteq> unified_station_uuid sha (sr_name station)
                 then (Inl (StationUuidNotCanonical (sr_unified_uuid station) (sr_name station)), db)
               else if faults 0 then (Inl SqlFailed, db)
               else (Inr (), db\<lparr>di_tables := (di_tables db)\<lparr>tb_history :=
                       upsert_history (sr_unified_uuid station, date)
                         \<lparr>hr_schema = schema_version, hr_proto = sn_encode codec snapshot,
                          hr_fetched = fetched\<rparr> (tb_history (di_tables db))\<rparr>\<rparr>))"

record 'snap stored_snapshot =
  st_date :: ustring
  st_snapshot :: 'snap
  st_fetched :: int

record 'snap stored_snapshot_page =
  sp_snapshots :: "'snap stored_snapshot list"
  sp_has_more :: bool

definition decode_stored_snapshot ::
  "'snap snapshot_codec \<Rightarrow> ustring \<Rightarrow> ustring \<times> history_row \<Rightarrow> db_error + 'snap stored_snapshot" where
  "decode_stored_snapshot codec uuid r =
     (if hr_schema (snd r) \<noteq> schema_version
      then Inl (SnapshotSchemaUnsupported uuid (fst r) (hr_schema (snd r)))
      else (case sn_decode codec (hr_proto (snd r)) of
              None \<Rightarrow> Inl (SnapshotUndecodable uuid (fst r))
            | Some s \<Rightarrow> Inr \<lparr>st_date = fst r, st_snapshot = s, st_fetched = hr_fetched (snd r)\<rparr>))"

definition history_of :: "ustring \<Rightarrow> (ustring \<times> ustring, history_row) hmap \<Rightarrow> (ustring \<times> history_row) list" where
  "history_of uuid h = map (\<lambda>r. (snd (fst r), snd r)) (filter (\<lambda>r. fst (fst r) = uuid) h)"

text \<open>\<open>ORDER BY fetched_at_unix_ms DESC LIMIT 1\<close>.\<close>

definition latest_row :: "ustring \<Rightarrow> (ustring \<times> ustring, history_row) hmap \<Rightarrow> (ustring \<times> history_row) option" where
  "latest_row uuid h = min_by_key (\<lambda>r. - hr_fetched (snd r)) (history_of uuid h)"

definition get_latest_snapshot ::
  "'snap snapshot_codec \<Rightarrow> sql_faults \<Rightarrow> ustring \<Rightarrow> tables \<Rightarrow> db_error + 'snap stored_snapshot option" where
  "get_latest_snapshot codec faults uuid t =
     (if faults 0 then Inl SqlFailed
      else (case latest_row uuid (tb_history t) of
              None \<Rightarrow> Inr None
            | Some r \<Rightarrow> (case decode_stored_snapshot codec uuid r of
                           Inl e \<Rightarrow> Inl e | Inr s \<Rightarrow> Inr (Some s))))"

fun collect_results :: "('a \<Rightarrow> 'e + 'b) \<Rightarrow> 'a list \<Rightarrow> 'e + 'b list" where
  "collect_results f [] = Inr []"
| "collect_results f (x # xs) =
     (case f x of
        Inl e \<Rightarrow> Inl e
      | Inr y \<Rightarrow> (case collect_results f xs of Inl e \<Rightarrow> Inl e | Inr ys \<Rightarrow> Inr (y # ys)))"

text \<open>\<open>date < before ORDER BY date DESC LIMIT page_size + 1\<close>, then the page in ascending order.\<close>

definition history_before ::
  "ustring \<Rightarrow> ustring option \<Rightarrow> (ustring \<times> ustring, history_row) hmap \<Rightarrow> (ustring \<times> history_row) list" where
  "history_before uuid before h =
     sort_key fst (filter (\<lambda>r. case before of None \<Rightarrow> True | Some d \<Rightarrow> fst r < d) (history_of uuid h))"

definition get_history_snapshot_page ::
  "'snap snapshot_codec \<Rightarrow> 'tz calendar \<Rightarrow> sql_faults \<Rightarrow> ustring \<Rightarrow> ustring option \<Rightarrow> nat \<Rightarrow> tables
     \<Rightarrow> db_error + 'snap stored_snapshot_page" where
  "get_history_snapshot_page codec cal faults uuid before page_size t =
     (if page_size = 0 then Inr \<lparr>sp_snapshots = [], sp_has_more = False\<rparr>
      else if (case before of None \<Rightarrow> False | Some d \<Rightarrow> \<not> cal_date_ok cal d)
        then Inl (CursorInvalid (the before))
      else (case checked_i64 (int (sat_add page_size 1)) of
         None \<Rightarrow> Inl PageSizeOverflow
       | Some fetch_limit \<Rightarrow>
           if faults 0 then Inl SqlFailed
           else
             let rows = take (nat fetch_limit) (rev (history_before uuid before (tb_history t)));
                 has_more = page_size < length rows;
                 page = rev (take page_size rows)
             in (case collect_results (decode_stored_snapshot codec uuid) page of
                   Inl e \<Rightarrow> Inl e
                 | Inr snapshots \<Rightarrow> Inr \<lparr>sp_snapshots = snapshots, sp_has_more = has_more\<rparr>)))"

section \<open>Time-zone metadata\<close>

definition db_timezone_key :: ustring where "db_timezone_key = lit ''db_timezone''"
definition timezone_sync_pending_key :: ustring where
  "timezone_sync_pending_key = lit ''timezone_config_sync_pending''"

lemma engine_keys_distinct [simp]:
  "db_timezone_key \<noteq> timezone_sync_pending_key" "timezone_sync_pending_key \<noteq> db_timezone_key"
  by (simp_all add: db_timezone_key_def timezone_sync_pending_key_def)

definition engine_value :: "ustring \<Rightarrow> tables \<Rightarrow> ustring option" where
  "engine_value key t = map_option fst (hget (tb_engine_state t) key)"

definition upsert_engine_value :: "ustring \<Rightarrow> ustring \<Rightarrow> int \<Rightarrow> statement" where
  "upsert_engine_value key v now t =
     Inr (t\<lparr>tb_engine_state := hput key (v, now) (tb_engine_state t)\<rparr>)"

definition parse_timezone :: "'tz calendar \<Rightarrow> ustring \<Rightarrow> ustring \<Rightarrow> db_error + 'tz" where
  "parse_timezone cal v label =
     (case cal_parse cal v of None \<Rightarrow> Inl (DbTimezoneInvalid label v) | Some z \<Rightarrow> Inr z)"

definition get_db_timezone :: "sql_faults \<Rightarrow> tables \<Rightarrow> db_error + ustring option" where
  "get_db_timezone faults t = (if faults 0 then Inl SqlFailed else Inr (engine_value db_timezone_key t))"

definition get_pending_timezone :: "sql_faults \<Rightarrow> tables \<Rightarrow> db_error + ustring option" where
  "get_pending_timezone faults t =
     (if faults 0 then Inl SqlFailed else Inr (engine_value timezone_sync_pending_key t))"

definition set_db_timezone ::
  "'tz calendar \<Rightarrow> sql_faults \<Rightarrow> int \<Rightarrow> ustring \<Rightarrow> 'tz db_instance
     \<Rightarrow> (db_error + unit) \<times> 'tz db_instance" where
  "set_db_timezone cal faults now timezone db =
     (case parse_timezone cal timezone (lit ''database timezone'') of
        Inl e \<Rightarrow> (Inl e, db)
      | Inr z \<Rightarrow>
          if faults 0 then (Inl SqlFailed, db)
          else (case upsert_engine_value db_timezone_key (cal_name cal z) now (di_tables db) of
                  Inl e \<Rightarrow> (Inl e, db)
                | Inr t \<Rightarrow> (Inr (), db\<lparr>di_tables := t, di_timezone := z\<rparr>)))"

text \<open>The marker is deleted only if it names the expected zone.\<close>

definition delete_expected_pending :: "'tz calendar \<Rightarrow> 'tz \<Rightarrow> statement" where
  "delete_expected_pending cal expected t =
     (case engine_value timezone_sync_pending_key t of
        None \<Rightarrow> Inr t
      | Some pending \<Rightarrow>
          (case parse_timezone cal pending (lit ''pending database timezone'') of
             Inl e \<Rightarrow> Inl e
           | Inr z \<Rightarrow>
               if z \<noteq> expected then Inl (TimezonePendingNotExpected pending (cal_name cal expected))
               else Inr (t\<lparr>tb_engine_state := hdel timezone_sync_pending_key (tb_engine_state t)\<rparr>)))"

definition clear_pending_timezone ::
  "'tz calendar \<Rightarrow> sql_faults \<Rightarrow> ustring \<Rightarrow> tables \<Rightarrow> (db_error + unit) \<times> tables" where
  "clear_pending_timezone cal faults expected t =
     (case parse_timezone cal expected (lit ''expected pending database timezone'') of
        Inl e \<Rightarrow> (Inl e, t)
      | Inr z \<Rightarrow> transaction faults [delete_expected_pending cal z] t)"

definition ensure_timezone ::
  "'tz calendar \<Rightarrow> sql_faults \<Rightarrow> int \<Rightarrow> ustring \<Rightarrow> 'tz db_instance
     \<Rightarrow> (db_error + unit) \<times> 'tz db_instance" where
  "ensure_timezone cal faults now config_tz db =
     (let t = di_tables db
      in case parse_timezone cal config_tz (lit ''configured database timezone'') of
        Inl e \<Rightarrow> (Inl e, db)
      | Inr config_timezone \<Rightarrow>
      (case get_db_timezone faults t of
        Inl e \<Rightarrow> (Inl e, db)
      | Inr stored \<Rightarrow>
      (case get_pending_timezone (\<lambda>i. faults (i + 1)) t of
        Inl e \<Rightarrow> (Inl e, db)
      | Inr (Some pending) \<Rightarrow>
          (case parse_timezone cal pending (lit ''pending database timezone'') of
             Inl e \<Rightarrow> (Inl e, db)
           | Inr pending_timezone \<Rightarrow>
          (case stored of
             None \<Rightarrow> (Inl TimezoneMetadataMissing, db)
           | Some s \<Rightarrow>
          (case parse_timezone cal s (lit ''stored database timezone'') of
             Inl e \<Rightarrow> (Inl e, db)
           | Inr stored_timezone \<Rightarrow>
               if stored_timezone \<noteq> pending_timezone \<or> config_timezone \<noteq> pending_timezone
               then (Inl (TimezonePendingMismatch pending s config_tz), db)
               else
                 let db1 = db\<lparr>di_timezone := pending_timezone\<rparr>
                 in case clear_pending_timezone cal (\<lambda>i. faults (i + 2))
                            (cal_name cal pending_timezone) t of
                      (r, t') \<Rightarrow> (r, db1\<lparr>di_tables := t'\<rparr>))))
      | Inr None \<Rightarrow>
          (case stored of
             None \<Rightarrow> set_db_timezone cal (\<lambda>i. faults (i + 2)) now (cal_name cal config_timezone) db
           | Some s \<Rightarrow>
               (case parse_timezone cal s (lit ''stored database timezone'') of
                  Inl e \<Rightarrow> (Inl e, db)
                | Inr stored_timezone \<Rightarrow>
                    if stored_timezone \<noteq> config_timezone then (Inl (TimezoneDiffers s config_tz), db)
                    else (Inr (), db\<lparr>di_timezone := stored_timezone\<rparr>))))))"

text \<open>\<open>inspect_pending_timezone\<close> opens an existing file read-only; a fresh one has no tables.\<close>

definition inspect_pending_timezone ::
  "'tz calendar \<Rightarrow> sql_faults \<Rightarrow> tables option \<Rightarrow> db_error + ustring option" where
  "inspect_pending_timezone cal faults file =
     (case file of
        None \<Rightarrow> Inr None
      | Some t \<Rightarrow>
          (case get_pending_timezone faults t of
             Inl e \<Rightarrow> Inl e
           | Inr None \<Rightarrow> Inr None
           | Inr (Some pending) \<Rightarrow>
               (case get_db_timezone (\<lambda>i. faults (i + 1)) t of
                  Inl e \<Rightarrow> Inl e
                | Inr None \<Rightarrow> Inl TimezoneMetadataMissing
                | Inr (Some stored) \<Rightarrow>
                    (case parse_timezone cal pending (lit ''pending database timezone'') of
                       Inl e \<Rightarrow> Inl e
                     | Inr pz \<Rightarrow>
                         (case parse_timezone cal stored (lit ''stored database timezone'') of
                            Inl e \<Rightarrow> Inl e
                          | Inr sz \<Rightarrow>
                              if pz \<noteq> sz then Inl (TimezonePendingNotStored pending stored)
                              else Inr (Some (cal_name cal pz)))))))"

section \<open>Moving the history to another time zone\<close>

text \<open>The temporary mapping table: \<open>(unified_uuid, old_date, new_date, fetched_at)\<close>.\<close>

type_synonym timezone_map = "(ustring \<times> ustring \<times> ustring \<times> int) list"

definition timezone_map ::
  "'tz calendar \<Rightarrow> 'tz \<Rightarrow> (ustring \<times> ustring, history_row) hmap \<Rightarrow> timezone_map" where
  "timezone_map cal z h =
     map (\<lambda>((uuid, old_date), row). (uuid, old_date, cal_day cal z (hr_fetched row), hr_fetched row))
       (sort_key fst h)"

definition newer_entry ::
  "ustring \<times> ustring \<times> ustring \<times> int \<Rightarrow> ustring \<times> ustring \<times> ustring \<times> int \<Rightarrow> bool" where
  "newer_entry n m \<longleftrightarrow>
     (case (n, m) of ((nu, nold, nnew, nf), (mu, mold, mnew, mf)) \<Rightarrow>
        nu = mu \<and> nnew = mnew \<and> (mf < nf \<or> (nf = mf \<and> mold < nold)))"

text \<open>The join of the old table with the mapping, without the entries a newer one supersedes.\<close>

definition staged_rows ::
  "timezone_map \<Rightarrow> (ustring \<times> ustring, history_row) hmap \<Rightarrow> ((ustring \<times> ustring) \<times> history_row) list" where
  "staged_rows m h =
     concat (map (\<lambda>((uuid, date), row).
       map (\<lambda>(u, od, nd, f). ((uuid, nd), row))
         (filter (\<lambda>e. fst e = uuid \<and> fst (snd e) = date \<and> \<not> list_ex (\<lambda>n. newer_entry n e) m) m)) h)"

fun insert_rows :: "('k \<times> 'v) list \<Rightarrow> ('k, 'v) hmap \<Rightarrow> ('k, 'v) hmap option" where
  "insert_rows [] m = Some m"
| "insert_rows (r # rs) m =
     (case insert_row (fst r) (snd r) m of None \<Rightarrow> None | Some m' \<Rightarrow> insert_rows rs m')"

definition rebuild_history :: "'tz calendar \<Rightarrow> 'tz \<Rightarrow> statement" where
  "rebuild_history cal z t =
     (let h = tb_history t
      in case find (\<lambda>r. \<not> cal_instant_ok cal (hr_fetched (snd r))) (sort_key fst h) of
           Some r \<Rightarrow> Inl (TimestampInvalid (hr_fetched (snd r)))
         | None \<Rightarrow>
             (let m = timezone_map cal z h;
                  expected = int (length (remdups (map (\<lambda>(u, od, nd, f). (u, nd)) m)))
              in case insert_rows (staged_rows m h) [] of
                   None \<Rightarrow> Inl ConstraintViolated
                 | Some h' \<Rightarrow>
                     if int (length h') \<noteq> expected
                     then Inl (StagedCountMismatch (int (length h')) expected)
                     else Inr (t\<lparr>tb_history := h'\<rparr>)))"

definition rewritten_rows :: "'tz calendar \<Rightarrow> 'tz \<Rightarrow> tables \<Rightarrow> nat" where
  "rewritten_rows cal z t =
     length (filter (\<lambda>(u, od, nd, f). nd \<noteq> od) (timezone_map cal z (tb_history t)))"

definition check_not_pending :: statement where
  "check_not_pending t =
     (case engine_value timezone_sync_pending_key t of
        None \<Rightarrow> Inr t | Some pending \<Rightarrow> Inl (TimezoneSyncPending pending))"

definition check_stored_timezone :: "'tz calendar \<Rightarrow> 'tz \<Rightarrow> ustring \<Rightarrow> statement" where
  "check_stored_timezone cal old old_tz t =
     (case engine_value db_timezone_key t of
        None \<Rightarrow> Inl TimezoneMetadataMissing
      | Some stored \<Rightarrow>
          (case parse_timezone cal stored (lit ''stored database timezone'') of
             Inl e \<Rightarrow> Inl e
           | Inr z \<Rightarrow> if z \<noteq> old then Inl (TimezoneNotOld stored old_tz) else Inr t))"

definition check_history_schema :: "bool \<Rightarrow> statement" where
  "check_history_schema schema_ok t = (if schema_ok then Inr t else Inl HistorySchemaUnsupported)"

text \<open>\<open>schema_ok\<close> is the outcome of \<open>validate_history_rebuild_schema\<close>, which reads SQLite's
  own schema table.\<close>

definition migrate_timezone ::
  "'tz calendar \<Rightarrow> bool \<Rightarrow> sql_faults \<Rightarrow> int \<Rightarrow> ustring \<Rightarrow> ustring \<Rightarrow> 'tz db_instance
     \<Rightarrow> (db_error + nat) \<times> 'tz db_instance" where
  "migrate_timezone cal schema_ok faults now old_tz new_tz db =
     (case parse_timezone cal old_tz (lit ''old database timezone'') of
        Inl e \<Rightarrow> (Inl e, db)
      | Inr old \<Rightarrow>
     (case parse_timezone cal new_tz (lit ''new database timezone'') of
        Inl e \<Rightarrow> (Inl e, db)
      | Inr new \<Rightarrow>
          (let rewrite = (if old = new then []
                 else [check_history_schema schema_ok, rebuild_history cal new,
                       upsert_engine_value db_timezone_key (cal_name cal new) now,
                       upsert_engine_value timezone_sync_pending_key (cal_name cal new) now])
           in case transaction faults
                     ([check_not_pending, check_stored_timezone cal old old_tz] @ rewrite)
                     (di_tables db) of
                (Inl e, t) \<Rightarrow> (Inl e, db\<lparr>di_tables := t\<rparr>)
              | (Inr u, t) \<Rightarrow>
                  (Inr (if old = new then 0 else rewritten_rows cal new (di_tables db)),
                   db\<lparr>di_tables := t, di_timezone := new\<rparr>))))"

end
