(* ===== verification/Db_History_Spec.thy ===== *)
theory Db_History_Spec
  imports Db_History Db_Catalog
begin

text \<open>
  What the history keeps: its rows carry the local day of their instant, the newest snapshot of
  a station behaves like a register, moving to another time zone keeps the newest snapshot of
  every new day, and pages of the past join up.
\<close>

section \<open>The invariant of the history\<close>

definition day_rows_ok :: "'tz calendar \<Rightarrow> 'tz \<Rightarrow> (ustring \<times> ustring, history_row) hmap \<Rightarrow> bool" where
  "day_rows_ok cal z h \<longleftrightarrow> hkeys_ok h \<and>
     (\<forall>r\<in>set h. snd (fst r) = cal_day cal z (hr_fetched (snd r)) \<and> cal_instant_ok cal (hr_fetched (snd r)))"

definition history_ok :: "'tz calendar \<Rightarrow> 'tz db_instance \<Rightarrow> bool" where
  "history_ok cal db \<longleftrightarrow> day_rows_ok cal (di_timezone db) (tb_history (di_tables db))"

lemma day_rows_lookup:
  "day_rows_ok cal z h \<Longrightarrow> hget h (u, d) = Some r \<Longrightarrow>
     d = cal_day cal z (hr_fetched r) \<and> cal_instant_ok cal (hr_fetched r)"
  by (fastforce simp: day_rows_ok_def dest: hget_mem)

lemma hget_upsert:
  "hget (upsert_history k row h) k' =
     (if k' = k then (case hget h k of
        Some old \<Rightarrow> if hr_fetched old \<le> hr_fetched row then Some row else Some old
      | None \<Rightarrow> Some row) else hget h k')"
  by (auto simp: upsert_history_def split: option.split)

lemma day_rows_upsert:
  assumes "day_rows_ok cal z h" and "cal_instant_ok cal (hr_fetched row)"
  shows "day_rows_ok cal z (upsert_history (u, cal_day cal z (hr_fetched row)) row h)"
proof -
  let ?h = "upsert_history (u, cal_day cal z (hr_fetched row)) row h"
  have keys: "hkeys_ok ?h" using assms(1) by (simp add: upsert_history_def day_rows_ok_def split: option.split)
  have "snd k = cal_day cal z (hr_fetched r) \<and> cal_instant_ok cal (hr_fetched r)"
    if "hget ?h k = Some r" for k r
    using that assms(2) day_rows_lookup [OF assms(1), of "fst k" "snd k" r]
      day_rows_lookup [OF assms(1), of u "cal_day cal z (hr_fetched row)"]
    by (simp add: hget_upsert split: if_splits option.splits)
  then have "snd (fst r) = cal_day cal z (hr_fetched (snd r)) \<and> cal_instant_ok cal (hr_fetched (snd r))"
    if "r \<in> set ?h" for r
    using mem_hget [OF keys, of "fst r" "snd r"] that by simp
  with keys show ?thesis by (simp add: day_rows_ok_def)
qed

lemma history_of_iff: "hkeys_ok h \<Longrightarrow> (d, r) \<in> set (history_of u h) \<longleftrightarrow> hget h (u, d) = Some r"
  by (force simp: history_of_def mem_hget dest: hget_mem)

text \<open>With the invariant the newest snapshot of a station is unique.\<close>

lemma latest_row_iff:
  assumes "day_rows_ok cal z h"
  shows "latest_row u h = Some (d, r) \<longleftrightarrow> hget h (u, d) = Some r
    \<and> (\<forall>d' r'. hget h (u, d') = Some r' \<longrightarrow> hr_fetched r' \<le> hr_fetched r)"
proof -
  have keys: "hkeys_ok h" using assms by (simp add: day_rows_ok_def)
  show ?thesis
  proof
    assume l: "latest_row u h = Some (d, r)"
    from min_by_key_mem [OF l [unfolded latest_row_def]] min_by_key_le [OF l [unfolded latest_row_def]]
    show "hget h (u, d) = Some r \<and> (\<forall>d' r'. hget h (u, d') = Some r' \<longrightarrow> hr_fetched r' \<le> hr_fetched r)"
      by (auto simp flip: history_of_iff [OF keys])
  next
    assume h: "hget h (u, d) = Some r \<and> (\<forall>d' r'. hget h (u, d') = Some r' \<longrightarrow> hr_fetched r' \<le> hr_fetched r)"
    show "latest_row u h = Some (d, r)"
      unfolding latest_row_def
    proof (rule min_by_key_unique)
      show "(d, r) \<in> set (history_of u h)" using h by (simp add: history_of_iff [OF keys])
    next
      fix y assume "y \<in> set (history_of u h)"
      then have "hget h (u, fst y) = Some (snd y)"
        using history_of_iff [OF keys, of "fst y" "snd y"] by simp
      with h show "- hr_fetched (snd (d, r)) \<le> - hr_fetched (snd y)" by auto
    next
      fix y assume y: "y \<in> set (history_of u h)" "- hr_fetched (snd y) = - hr_fetched (snd (d, r))"
      obtain d' r' where d': "y = (d', r')" by (cases y)
      with y have r': "hget h (u, d') = Some r'" "hr_fetched r' = hr_fetched r"
        by (simp_all add: history_of_iff [OF keys])
      with h day_rows_lookup [OF assms, of u d' r'] day_rows_lookup [OF assms, of u d r]
      have "d' = d" by simp
      with r' h d' show "y = (d, r)" by simp
    qed
  qed
qed

lemma latest_row_None:
  assumes "hkeys_ok h"
  shows "latest_row u h = None \<longleftrightarrow> (\<forall>d. hget h (u, d) = None)"
proof -
  have "set (history_of u h) = {(d, r). hget h (u, d) = Some r}"
    using history_of_iff [OF assms] by auto
  then show ?thesis by (auto simp: latest_row_def simp flip: set_empty)
qed

lemma latest_row_cong:
  assumes "day_rows_ok cal z h" and "day_rows_ok cal z h'" and "\<And>d. hget h' (u, d) = hget h (u, d)"
  shows "latest_row u h' = latest_row u h"
proof (cases "latest_row u h")
  case None
  with assms(3) have "latest_row u h' = None"
    using latest_row_None [of h] latest_row_None [of h'] assms(1,2) by (simp add: day_rows_ok_def)
  with None show ?thesis by simp
next
  case (Some l)
  obtain d r where l: "l = (d, r)" by (cases l)
  with Some have "latest_row u h' = Some (d, r)"
    by (simp add: latest_row_iff [OF assms(1)] latest_row_iff [OF assms(2)] assms(3))
  with Some l show ?thesis by simp
qed

section \<open>The register of newest snapshots\<close>

type_synonym newest = "ustring \<Rightarrow> history_row option"

definition newest_rows :: "'tz db_instance \<Rightarrow> newest" where
  "newest_rows db = (\<lambda>u. map_option snd (latest_row u (tb_history (di_tables db))))"

definition newest_put :: "ustring \<Rightarrow> history_row \<Rightarrow> newest \<Rightarrow> newest" where
  "newest_put u row reg =
     reg(u := (case reg u of
        Some old \<Rightarrow> if hr_fetched old \<le> hr_fetched row then Some row else Some old
      | None \<Rightarrow> Some row))"

text \<open>The row a put writes, if it is accepted; the state of the database plays no part.\<close>

definition accepted_row ::
  "'snap snapshot_codec \<Rightarrow> (byte list \<Rightarrow> byte list) \<Rightarrow> 'tz calendar \<Rightarrow> sql_faults \<Rightarrow> 'snap \<Rightarrow> int
     \<Rightarrow> (ustring \<times> history_row) option" where
  "accepted_row codec sha cal faults snapshot fetched =
     (case sn_station codec snapshot of
        None \<Rightarrow> None
      | Some station \<Rightarrow>
          if cal_instant_ok cal fetched \<and> trim (sr_name station) \<noteq> []
             \<and> trim (sr_unified_uuid station) \<noteq> []
             \<and> sr_unified_uuid station = unified_station_uuid sha (sr_name station) \<and> \<not> faults 0
          then Some (sr_unified_uuid station,
                 \<lparr>hr_schema = schema_version, hr_proto = sn_encode codec snapshot, hr_fetched = fetched\<rparr>)
          else None)"

lemma put_accepted:
  "put_history_snapshot codec sha cal faults snapshot fetched db =
     (case accepted_row codec sha cal faults snapshot fetched of
        None \<Rightarrow> (fst (put_history_snapshot codec sha cal faults snapshot fetched db), db)
      | Some (u, row) \<Rightarrow> (Inr (), db\<lparr>di_tables := (di_tables db)\<lparr>tb_history :=
          upsert_history (u, cal_day cal (di_timezone db) (hr_fetched row)) row
            (tb_history (di_tables db))\<rparr>\<rparr>))"
  by (auto simp: put_history_snapshot_def accepted_row_def Let_def split: option.split)

lemma put_rejected_Inl:
  "accepted_row codec sha cal faults snapshot fetched = None \<Longrightarrow>
     \<exists>e. fst (put_history_snapshot codec sha cal faults snapshot fetched db) = Inl e"
  by (auto simp: put_history_snapshot_def accepted_row_def Let_def split: option.splits if_splits)

lemma accepted_instant:
  "accepted_row codec sha cal faults snapshot fetched = Some (u, row) \<Longrightarrow>
     cal_instant_ok cal (hr_fetched row) \<and> hr_fetched row = fetched
     \<and> hr_proto row = sn_encode codec snapshot \<and> hr_schema row = schema_version"
  by (auto simp: accepted_row_def split: option.splits if_splits)

lemma put_history_ok:
  assumes "history_ok cal db"
  shows "history_ok cal (snd (put_history_snapshot codec sha cal faults snapshot fetched db))"
proof (cases "accepted_row codec sha cal faults snapshot fetched")
  case None
  with assms show ?thesis by (subst put_accepted) simp
next
  case (Some a)
  then obtain u row where a: "accepted_row codec sha cal faults snapshot fetched = Some (u, row)"
    by (cases a) simp
  from accepted_instant [OF a] have "cal_instant_ok cal (hr_fetched row)" by (rule conjunct1)
  from day_rows_upsert [OF assms [unfolded history_ok_def] this, of u] show ?thesis
    by (subst put_accepted) (simp add: a history_ok_def)
qed

lemma newest_upsert:
  assumes ok: "day_rows_ok cal z h" and i: "cal_instant_ok cal (hr_fetched row)"
  shows "map_option snd (latest_row u' (upsert_history (u, cal_day cal z (hr_fetched row)) row h)) =
    newest_put u row (\<lambda>u. map_option snd (latest_row u h)) u'"
proof -
  let ?d = "cal_day cal z (hr_fetched row)"
  let ?h = "upsert_history (u, ?d) row h"
  have ok': "day_rows_ok cal z ?h" using ok i by (rule day_rows_upsert)
  have keys: "hkeys_ok h" "hkeys_ok ?h" using ok ok' by (simp_all add: day_rows_ok_def)
  show ?thesis
  proof (cases "u' = u")
    case False
    then have "hget ?h (u', d) = hget h (u', d)" for d by (simp add: hget_upsert)
    then have "latest_row u' ?h = latest_row u' h" by (rule latest_row_cong [OF ok ok'])
    with False show ?thesis by (simp add: newest_put_def)
  next
    case True
    show ?thesis
    proof (cases "latest_row u h")
      case None
      then have "\<And>d. hget h (u, d) = None" by (simp add: latest_row_None [OF keys(1)])
      then have "latest_row u ?h = Some (?d, row)"
        by (auto simp: latest_row_iff [OF ok'] hget_upsert split: if_splits)
      with None True show ?thesis by (simp add: newest_put_def)
    next
      case (Some l)
      then obtain d r where l: "latest_row u h = Some (d, r)" by (cases l) simp
      then have r: "hget h (u, d) = Some r"
          "\<And>d' r'. hget h (u, d') = Some r' \<Longrightarrow> hr_fetched r' \<le> hr_fetched r"
        by (simp_all add: latest_row_iff [OF ok])
      have "latest_row u ?h = Some (if hr_fetched r \<le> hr_fetched row then (?d, row) else (d, r))"
      proof (cases "hr_fetched r \<le> hr_fetched row")
        case True
        with r(2) show ?thesis
          by (fastforce simp: latest_row_iff [OF ok'] hget_upsert split: if_splits option.splits)
      next
        case False
        with r show ?thesis
          by (auto simp: latest_row_iff [OF ok'] hget_upsert split: if_splits option.splits)
      qed
      with l True show ?thesis by (simp add: newest_put_def)
    qed
  qed
qed

section \<open>Rebuilding the history for another time zone\<close>

definition map_entry :: "'tz calendar \<Rightarrow> 'tz \<Rightarrow> (ustring \<times> ustring) \<times> history_row
    \<Rightarrow> ustring \<times> ustring \<times> ustring \<times> int" where
  "map_entry cal z r =
     (fst (fst r), snd (fst r), cal_day cal z (hr_fetched (snd r)), hr_fetched (snd r))"

definition superseded ::
  "'tz calendar \<Rightarrow> 'tz \<Rightarrow> (ustring \<times> ustring, history_row) hmap \<Rightarrow> (ustring \<times> ustring) \<times> history_row \<Rightarrow> bool" where
  "superseded cal z h r \<longleftrightarrow>
     list_ex (\<lambda>n. newer_entry (map_entry cal z n) (map_entry cal z r)) h"

definition rekey :: "'tz calendar \<Rightarrow> 'tz \<Rightarrow> (ustring \<times> ustring) \<times> history_row \<Rightarrow> (ustring \<times> ustring) \<times> history_row" where
  "rekey cal z r = ((fst (fst r), cal_day cal z (hr_fetched (snd r))), snd r)"

definition rebuilt_rows :: "'tz calendar \<Rightarrow> 'tz \<Rightarrow> (ustring \<times> ustring, history_row) hmap
    \<Rightarrow> (ustring \<times> ustring, history_row) hmap" where
  "rebuilt_rows cal z h = map (rekey cal z) (filter (\<lambda>r. \<not> superseded cal z h r) h)"

lemma timezone_map_entries: "timezone_map cal z h = map (map_entry cal z) (sort_key fst h)"
  by (auto simp: timezone_map_def map_entry_def)

lemma newer_in_map:
  "list_ex (\<lambda>n. newer_entry n e) (timezone_map cal z h) = list_ex (\<lambda>n. newer_entry (map_entry cal z n) e) h"
  by (simp add: timezone_map_entries list_ex_iff)

lemma newer_entry_iff:
  "newer_entry (map_entry cal z n) (map_entry cal z r) \<longleftrightarrow>
     fst (rekey cal z n) = fst (rekey cal z r)
     \<and> (hr_fetched (snd r), snd (fst r)) < (hr_fetched (snd n), snd (fst n))"
  by (auto simp: newer_entry_def map_entry_def rekey_def less_prod_def)

text \<open>The join finds the one mapping entry of each row.\<close>

lemma staged_rows_rebuilt:
  assumes "hkeys_ok h"
  shows "staged_rows (timezone_map cal z h) h = rebuilt_rows cal z h"
proof -
  let ?m = "timezone_map cal z h"
  have one: "filter (\<lambda>e. fst e = fst (fst r) \<and> fst (snd e) = snd (fst r)) ?m = [map_entry cal z r]"
    if "r \<in> set h" for r
  proof -
    have "distinct (map fst (sort_key fst h))"
      using assms by (auto simp: hkeys_ok_def intro: distinct_sort_key)
    with that have "filter (\<lambda>y. fst y = fst r) (sort_key fst h) = [r]"
      by (intro filter_key_singleton) auto
    moreover have "(\<lambda>y. fst (map_entry cal z y) = fst (fst r) \<and> fst (snd (map_entry cal z y)) = snd (fst r))
        = (\<lambda>y. fst y = fst r)"
      by (auto simp: map_entry_def prod_eq_iff)
    ultimately show ?thesis by (simp add: timezone_map_entries filter_map o_def)
  qed
  have row: "map (\<lambda>(u, od, nd, f). ((fst (fst r), nd), snd r))
        (filter (\<lambda>e. fst e = fst (fst r) \<and> fst (snd e) = snd (fst r) \<and> \<not> list_ex (\<lambda>n. newer_entry n e) ?m) ?m)
      = (if superseded cal z h r then [] else [rekey cal z r])" if "r \<in> set h" for r
  proof -
    have "filter (\<lambda>e. fst e = fst (fst r) \<and> fst (snd e) = snd (fst r) \<and> \<not> list_ex (\<lambda>n. newer_entry n e) ?m) ?m
        = filter (\<lambda>e. \<not> list_ex (\<lambda>n. newer_entry n e) ?m)
            (filter (\<lambda>e. fst e = fst (fst r) \<and> fst (snd e) = snd (fst r)) ?m)"
      by (simp add: conj_commute conj_left_commute)
    also have "\<dots> = (if superseded cal z h r then [] else [map_entry cal z r])"
      by (simp add: one [OF that] superseded_def newer_in_map)
    finally show ?thesis by (simp add: map_entry_def rekey_def)
  qed
  have "staged_rows ?m h = concat (map (\<lambda>r. if superseded cal z h r then [] else [rekey cal z r]) h)"
    unfolding staged_rows_def
    by (rule arg_cong [where f = concat], rule map_cong [OF refl]) (simp add: case_prod_unfold flip: row)
  also have "\<dots> = rebuilt_rows cal z h"
  proof -
    have "concat (map (\<lambda>r. if superseded cal z h r then [] else [rekey cal z r]) xs)
        = map (rekey cal z) (filter (\<lambda>r. \<not> superseded cal z h r) xs)" for xs
      by (induction xs) auto
    then show ?thesis by (simp add: rebuilt_rows_def)
  qed
  finally show ?thesis .
qed

lemma rebuilt_keys:
  assumes "hkeys_ok h"
  shows "hkeys_ok (rebuilt_rows cal z h)"
proof -
  have "inj_on (\<lambda>r. fst (rekey cal z r)) (set (filter (\<lambda>r. \<not> superseded cal z h r) h))"
  proof (rule inj_onI)
    fix a b
    assume ab: "a \<in> set (filter (\<lambda>r. \<not> superseded cal z h r) h)"
        "b \<in> set (filter (\<lambda>r. \<not> superseded cal z h r) h)" "fst (rekey cal z a) = fst (rekey cal z b)"
    then have "\<not> (hr_fetched (snd a), snd (fst a)) < (hr_fetched (snd b), snd (fst b))"
        "\<not> (hr_fetched (snd b), snd (fst b)) < (hr_fetched (snd a), snd (fst a))"
      by (auto simp: superseded_def list_ex_iff newer_entry_iff)
    then have "snd (fst a) = snd (fst b)" by (simp add: not_less antisym)
    with ab(3) have "fst a = fst b" by (simp add: rekey_def prod_eq_iff)
    moreover have "hget h (fst x) = Some (snd x)" if "x \<in> set h" for x
      using mem_hget [OF assms, of "fst x" "snd x"] that by simp
    ultimately show "a = b" using ab(1,2) by (metis filter_is_subset option.inject prod_eqI subsetD)
  qed
  moreover have "distinct h" using assms by (simp add: hkeys_ok_def distinct_map)
  ultimately show ?thesis
    by (simp add: hkeys_ok_def rebuilt_rows_def distinct_map o_def)
qed

text \<open>Every row of the old table has a survivor on the same new day that is at least as new.\<close>

lemma survivor:
  assumes "r \<in> set h"
  shows "\<exists>s\<in>set h. \<not> superseded cal z h s \<and> fst (rekey cal z s) = fst (rekey cal z r)
    \<and> (hr_fetched (snd r), snd (fst r)) \<le> (hr_fetched (snd s), snd (fst s))"
proof -
  let ?rank = "\<lambda>r. (hr_fetched (snd r), snd (fst r))"
  let ?g = "{s \<in> set h. fst (rekey cal z s) = fst (rekey cal z r)}"
  have fin: "finite (?rank ` ?g)" by simp
  have "r \<in> ?g" using assms by simp
  then have ne: "?rank ` ?g \<noteq> {}" by blast
  from Max_in [OF fin ne] obtain s where s: "s \<in> ?g" "?rank s = Max (?rank ` ?g)" by force
  with fin have max: "\<And>x. x \<in> ?g \<Longrightarrow> ?rank x \<le> ?rank s" by simp
  then have "\<not> superseded cal z h s"
    using s(1) by (auto simp: superseded_def list_ex_iff newer_entry_iff leD simp del: less_prod_simp)
  with s max assms show ?thesis by blast
qed

lemma staged_count:
  assumes "hkeys_ok h"
  shows "length (rebuilt_rows cal z h) =
    length (remdups (map (\<lambda>(u, od, nd, f). (u, nd)) (timezone_map cal z h)))"
proof -
  let ?keys = "map (\<lambda>(u, od, nd, f). (u, nd)) (timezone_map cal z h)"
  have keys: "set ?keys = (\<lambda>r. fst (rekey cal z r)) ` set h"
    by (auto simp: timezone_map_entries map_entry_def rekey_def image_image)
  have "fst ` set (rebuilt_rows cal z h) = set ?keys"
    unfolding keys
  proof
    show "fst ` set (rebuilt_rows cal z h) \<subseteq> (\<lambda>r. fst (rekey cal z r)) ` set h"
      by (auto simp: rebuilt_rows_def)
    show "(\<lambda>r. fst (rekey cal z r)) ` set h \<subseteq> fst ` set (rebuilt_rows cal z h)"
    proof
      fix k assume "k \<in> (\<lambda>r. fst (rekey cal z r)) ` set h"
      then obtain r where "r \<in> set h" "k = fst (rekey cal z r)" by blast
      with survivor obtain s where "s \<in> set h" "\<not> superseded cal z h s" "fst (rekey cal z s) = k"
        by metis
      then have "rekey cal z s \<in> set (rebuilt_rows cal z h)" by (simp add: rebuilt_rows_def)
      with \<open>fst (rekey cal z s) = k\<close> show "k \<in> fst ` set (rebuilt_rows cal z h)" by blast
    qed
  qed
  moreover have "length (rebuilt_rows cal z h) = card (fst ` set (rebuilt_rows cal z h))"
    using rebuilt_keys [OF assms] by (metis distinct_card hkeys_ok_def length_map list.set_map)
  ultimately show ?thesis by (simp add: length_remdups_card_conv)
qed

lemma insert_rows_distinct:
  "distinct (map fst rows) \<Longrightarrow> fst ` set rows \<inter> hkeys m = {} \<Longrightarrow> insert_rows rows m = Some (m @ rows)"
proof (induction rows arbitrary: m)
  case (Cons r rows)
  then have "insert_row (fst r) (snd r) m = Some (m @ [r])"
    by (auto simp: insert_row_def map_of_eq_None_iff)
  moreover from Cons.prems have "insert_rows rows (m @ [r]) = Some ((m @ [r]) @ rows)"
    by (intro Cons.IH) auto
  ultimately show ?case by simp
qed simp

lemma rebuild_history_succeeds:
  assumes "day_rows_ok cal z0 (tb_history t)"
  shows "rebuild_history cal z t = Inr (t\<lparr>tb_history := rebuilt_rows cal z (tb_history t)\<rparr>)"
proof -
  have keys: "hkeys_ok (tb_history t)" using assms by (simp add: day_rows_ok_def)
  have "find (\<lambda>r. \<not> cal_instant_ok cal (hr_fetched (snd r))) (sort_key fst (tb_history t)) = None"
    unfolding find_None_iff using assms by (auto simp only: day_rows_ok_def set_sort)
  moreover have "insert_rows (rebuilt_rows cal z (tb_history t)) [] = Some (rebuilt_rows cal z (tb_history t))"
    using rebuilt_keys [OF keys, of cal z] by (subst insert_rows_distinct) (auto simp: hkeys_ok_def)
  ultimately show ?thesis
    by (simp add: rebuild_history_def Let_def staged_rows_rebuilt [OF keys] staged_count [OF keys])
qed

lemma rebuilt_day_rows:
  assumes "day_rows_ok cal z0 h"
  shows "day_rows_ok cal z (rebuilt_rows cal z h)"
  using assms rebuilt_keys [of h cal z]
  by (auto simp: day_rows_ok_def rebuilt_rows_def rekey_def)

lemma rebuilt_lookup:
  assumes "hkeys_ok h"
  shows "hget (rebuilt_rows cal z h) (u, d) = Some r \<longleftrightarrow>
    (\<exists>od. hget h (u, od) = Some r \<and> d = cal_day cal z (hr_fetched r)
      \<and> (\<forall>od' r'. hget h (u, od') = Some r' \<and> cal_day cal z (hr_fetched r') = d \<longrightarrow>
           (hr_fetched r', od') \<le> (hr_fetched r, od)))"
proof -
  have sup: "superseded cal z h ((u, od), r) \<longleftrightarrow>
      (\<exists>od' r'. hget h (u, od') = Some r' \<and> cal_day cal z (hr_fetched r') = cal_day cal z (hr_fetched r)
         \<and> (hr_fetched r, od) < (hr_fetched r', od'))" for od
  proof -
    have "superseded cal z h ((u, od), r) \<longleftrightarrow> (\<exists>k r'. hget h k = Some r' \<and>
        newer_entry (map_entry cal z (k, r')) (map_entry cal z ((u, od), r)))"
      by (auto simp: superseded_def list_ex_iff simp flip: mem_hget_iff [OF assms])
    then show ?thesis by (simp add: newer_entry_iff rekey_def)
  qed
  have key: "((u, d), r) = rekey cal z s \<longleftrightarrow> (\<exists>od. s = ((u, od), r) \<and> d = cal_day cal z (hr_fetched r))"
    for s by (cases s) (auto simp: rekey_def)
  have "hget (rebuilt_rows cal z h) (u, d) = Some r \<longleftrightarrow> ((u, d), r) \<in> set (rebuilt_rows cal z h)"
    by (rule mem_hget_iff [OF rebuilt_keys [OF assms], symmetric])
  also have "\<dots> \<longleftrightarrow> (\<exists>s\<in>set h. \<not> superseded cal z h s \<and> ((u, d), r) = rekey cal z s)"
    unfolding rebuilt_rows_def by auto
  also have "\<dots> \<longleftrightarrow> (\<exists>od. hget h (u, od) = Some r \<and> d = cal_day cal z (hr_fetched r)
      \<and> \<not> superseded cal z h ((u, od), r))"
    unfolding key using mem_hget_iff [OF assms] by blast
  finally show ?thesis by (auto simp: sup not_less simp del: less_prod_simp less_eq_prod_simp)
qed

lemma newest_rebuilt:
  assumes ok: "day_rows_ok cal z0 h"
  shows "map_option snd (latest_row u (rebuilt_rows cal z h)) = map_option snd (latest_row u h)"
proof (cases "latest_row u h")
  case None
  then have "\<And>d. hget h (u, d) = None" using ok by (simp add: latest_row_None day_rows_ok_def)
  then have "\<And>d. hget (rebuilt_rows cal z h) (u, d) = None"
    using rebuilt_lookup [of h cal z u] ok by (auto simp: day_rows_ok_def) (metis not_None_eq)
  then have "latest_row u (rebuilt_rows cal z h) = None"
    using rebuilt_keys [of h cal z] ok by (simp add: latest_row_None day_rows_ok_def)
  with None show ?thesis by simp
next
  case (Some l)
  obtain d r where "l = (d, r)" by (cases l)
  with Some ok have r: "hget h (u, d) = Some r"
      "\<And>d' r'. hget h (u, d') = Some r' \<Longrightarrow> hr_fetched r' \<le> hr_fetched r"
    by (simp_all add: latest_row_iff)
  have keys: "hkeys_ok h" using ok by (simp add: day_rows_ok_def)
  have "(hr_fetched r', od') \<le> (hr_fetched r, d)" if "hget h (u, od') = Some r'" for od' r'
    using r that day_rows_lookup [OF ok that] day_rows_lookup [OF ok r(1)]
    by (auto simp: less_eq_prod_def less_le)
  then have "hget (rebuilt_rows cal z h) (u, cal_day cal z (hr_fetched r)) = Some r"
    using r(1) by (auto simp: rebuilt_lookup [OF keys])
  moreover have "hr_fetched r' \<le> hr_fetched r" if "hget (rebuilt_rows cal z h) (u, d') = Some r'" for d' r'
    using that r(2) by (auto simp: rebuilt_lookup [OF keys])
  ultimately have "latest_row u (rebuilt_rows cal z h) = Some (cal_day cal z (hr_fetched r), r)"
    by (simp add: latest_row_iff [OF rebuilt_day_rows [OF ok]])
  with Some \<open>l = (d, r)\<close> show ?thesis by simp
qed

section \<open>A consistent instance\<close>

text \<open>
  What a crash leaves behind: no history without a recorded time zone, rows dated in the
  recorded zone, and a pending marker that names the recorded zone. An open instance works in
  the recorded zone.
\<close>

definition durable_ok :: "'tz calendar \<Rightarrow> tables \<Rightarrow> bool" where
  "durable_ok cal t \<longleftrightarrow>
     (case engine_value db_timezone_key t of
        None \<Rightarrow> tb_history t = [] \<and> engine_value timezone_sync_pending_key t = None
      | Some s \<Rightarrow>
          (case cal_parse cal s of
             None \<Rightarrow> False
           | Some z \<Rightarrow> day_rows_ok cal z (tb_history t)
               \<and> (case engine_value timezone_sync_pending_key t of
                    None \<Rightarrow> True | Some p \<Rightarrow> cal_parse cal p = Some z)))"

definition recorded_timezone :: "'tz calendar \<Rightarrow> tables \<Rightarrow> 'tz option" where
  "recorded_timezone cal t = Option.bind (engine_value db_timezone_key t) (cal_parse cal)"

definition instance_ok :: "'tz calendar \<Rightarrow> 'tz db_instance \<Rightarrow> bool" where
  "instance_ok cal db \<longleftrightarrow> durable_ok cal (di_tables db)
     \<and> recorded_timezone cal (di_tables db) = Some (di_timezone db)"

definition calendar_ok :: "'tz calendar \<Rightarrow> bool" where
  "calendar_ok cal \<longleftrightarrow> (\<forall>z. cal_parse cal (cal_name cal z) = Some z)"

lemma durable_recorded:
  "recorded_timezone cal t = Some z \<Longrightarrow>
     durable_ok cal t \<longleftrightarrow> day_rows_ok cal z (tb_history t)
       \<and> (case engine_value timezone_sync_pending_key t of
            None \<Rightarrow> True | Some p \<Rightarrow> cal_parse cal p = Some z)"
  by (auto simp: durable_ok_def recorded_timezone_def split: option.splits)

lemma instance_ok_iff:
  "instance_ok cal db \<longleftrightarrow> recorded_timezone cal (di_tables db) = Some (di_timezone db)
     \<and> history_ok cal db
     \<and> (case engine_value timezone_sync_pending_key (di_tables db) of
          None \<Rightarrow> True | Some p \<Rightarrow> cal_parse cal p = Some (di_timezone db))"
  by (auto simp: instance_ok_def durable_recorded history_ok_def)

lemma put_keeps_metadata:
  "put_history_snapshot codec sha cal faults snapshot fetched db = (r, db') \<Longrightarrow>
     di_timezone db' = di_timezone db
     \<and> tb_engine_state (di_tables db') = tb_engine_state (di_tables db)"
  by (auto simp: put_history_snapshot_def Let_def split: option.splits if_splits)

lemma put_instance_ok [inv_intros]:
  assumes "instance_ok cal db"
  shows "instance_ok cal (snd (put_history_snapshot codec sha cal faults snapshot fetched db))"
proof -
  obtain r db' where p: "put_history_snapshot codec sha cal faults snapshot fetched db = (r, db')"
    by fastforce
  from put_keeps_metadata [OF p] have "di_timezone db' = di_timezone db"
    "\<And>k. engine_value k (di_tables db') = engine_value k (di_tables db)"
    by (simp_all add: engine_value_def)
  with put_history_ok [of cal db codec sha faults snapshot fetched] assms p
  show ?thesis by (simp add: instance_ok_iff recorded_timezone_def split: option.splits)
qed

lemma upsert_engine_value_reads:
  "upsert_engine_value k v now t = Inr t' \<Longrightarrow>
     engine_value k' t' = (if k' = k then Some v else engine_value k' t) \<and> tb_history t' = tb_history t"
  by (auto simp: upsert_engine_value_def engine_value_def)

text \<open>What a migration does, in one place.\<close>

lemma migrate_cases:
  assumes m: "migrate_timezone cal schema_ok faults now old_tz new_tz db = (r, db')"
    and ok: "instance_ok cal db"
  shows "(\<exists>e. r = Inl e \<and> db' = db
            \<and> e \<notin> {ConstraintViolated} \<union> range TimestampInvalid \<union> range (case_prod StagedCountMismatch))
    \<or> (\<exists>z. r = Inr 0 \<and> db' = db \<and> cal_parse cal old_tz = Some z \<and> cal_parse cal new_tz = Some z
         \<and> z = di_timezone db \<and> engine_value timezone_sync_pending_key (di_tables db) = None)
    \<or> (\<exists>z. r = Inr (rewritten_rows cal z (di_tables db)) \<and> cal_parse cal new_tz = Some z
         \<and> z \<noteq> di_timezone db \<and> cal_parse cal old_tz = Some (di_timezone db) \<and> di_timezone db' = z
         \<and> engine_value timezone_sync_pending_key (di_tables db) = None
         \<and> engine_value db_timezone_key (di_tables db') = Some (cal_name cal z)
         \<and> engine_value timezone_sync_pending_key (di_tables db') = Some (cal_name cal z)
         \<and> tb_history (di_tables db') = rebuilt_rows cal z (tb_history (di_tables db)))"
proof -
  let ?t = "di_tables db"
  from ok have rec: "recorded_timezone cal ?t = Some (di_timezone db)"
    and days: "day_rows_ok cal (di_timezone db) (tb_history ?t)"
    by (simp_all add: instance_ok_iff history_ok_def)
  show ?thesis
  proof (cases "cal_parse cal old_tz")
    case None
    with m show ?thesis by (auto simp: migrate_timezone_def parse_timezone_def)
  next
    case old: (Some old)
    show ?thesis
    proof (cases "cal_parse cal new_tz")
      case None
      with m old show ?thesis by (auto simp: migrate_timezone_def parse_timezone_def)
    next
      case new: (Some new)
      let ?rewrite = "if old = new then []
                 else [check_history_schema schema_ok, rebuild_history cal new,
                       upsert_engine_value db_timezone_key (cal_name cal new) now,
                       upsert_engine_value timezone_sync_pending_key (cal_name cal new) now]"
      obtain q t' where tx: "transaction faults
          ([check_not_pending, check_stored_timezone cal old old_tz] @ ?rewrite) ?t = (q, t')"
        by fastforce
      show ?thesis
      proof (cases q)
        case (Inl e)
        with tx have t': "t' = ?t" by (auto dest: transaction_Inl)
        have "e \<notin> {ConstraintViolated} \<union> range TimestampInvalid \<union> range (case_prod StagedCountMismatch)"
          using tx [unfolded Inl] days
          by (auto simp: transaction_def begin_tx_def commit_tx_def check_not_pending_def
              check_stored_timezone_def check_history_schema_def rebuild_history_succeeds
              upsert_engine_value_def parse_timezone_def split: if_splits option.splits)
        with m old new tx t' Inl show ?thesis
          by (auto simp: migrate_timezone_def parse_timezone_def)
      next
        case (Inr u)
        obtain i where ex: "exec_all faults i
            ([check_not_pending, check_stored_timezone cal old old_tz] @ ?rewrite) ?t = Inr t'"
          using transaction_Inr [OF tx [unfolded Inr]] by blast
        then have pend: "engine_value timezone_sync_pending_key ?t = None"
          and old_rec: "old = di_timezone db"
          using rec
          by (auto simp: check_not_pending_def check_stored_timezone_def recorded_timezone_def
              parse_timezone_def split: if_splits option.splits)
        show ?thesis
        proof (cases "old = new")
          case True
          with ex have "t' = ?t"
            by (auto simp: check_not_pending_def check_stored_timezone_def split: if_splits option.splits sum.splits)
          with True m old new tx Inr pend old_rec show ?thesis
            by (auto simp: migrate_timezone_def parse_timezone_def)
        next
          case False
          from ex False have "\<exists>j. exec_all faults j
              [rebuild_history cal new, upsert_engine_value db_timezone_key (cal_name cal new) now,
               upsert_engine_value timezone_sync_pending_key (cal_name cal new) now] ?t = Inr t'"
            by (auto simp: check_not_pending_def check_stored_timezone_def check_history_schema_def
                split: if_splits option.splits sum.splits)
          then obtain t1 where
            t1: "upsert_engine_value db_timezone_key (cal_name cal new) now
                   (?t\<lparr>tb_history := rebuilt_rows cal new (tb_history ?t)\<rparr>) = Inr t1"
              "upsert_engine_value timezone_sync_pending_key (cal_name cal new) now t1 = Inr t'"
            by (auto simp: rebuild_history_succeeds [OF days] split: if_splits sum.splits)
          from upsert_engine_value_reads [OF t1(1)] upsert_engine_value_reads [OF t1(2)]
            False m old new tx Inr pend old_rec show ?thesis
            by (auto simp: migrate_timezone_def parse_timezone_def)
        qed
      qed
    qed
  qed
qed

lemma migrate_instance_ok [inv_intros]:
  assumes "calendar_ok cal" and ok: "instance_ok cal db"
  shows "instance_ok cal (snd (migrate_timezone cal schema_ok faults now old_tz new_tz db))"
proof -
  obtain r db' where m: "migrate_timezone cal schema_ok faults now old_tz new_tz db = (r, db')"
    by fastforce
  from migrate_cases [OF m ok] show ?thesis
  proof (elim disjE exE conjE)
    fix z
    assume "di_timezone db' = z" "engine_value db_timezone_key (di_tables db') = Some (cal_name cal z)"
      "engine_value timezone_sync_pending_key (di_tables db') = Some (cal_name cal z)"
      "tb_history (di_tables db') = rebuilt_rows cal z (tb_history (di_tables db))"
    with assms rebuilt_day_rows [of cal "di_timezone db" "tb_history (di_tables db)" z] show ?thesis
      by (simp add: m instance_ok_iff history_ok_def recorded_timezone_def calendar_ok_def)
  qed (use ok m in simp_all)
qed

section \<open>Histories of a database\<close>

datatype 'snap history_event =
    PutSnapshot sql_faults 'snap int
  | MigrateZone bool sql_faults int ustring ustring

definition history_step ::
  "'snap snapshot_codec \<Rightarrow> (byte list \<Rightarrow> byte list) \<Rightarrow> 'tz calendar \<Rightarrow> 'snap history_event
     \<Rightarrow> 'tz db_instance \<Rightarrow> 'tz db_instance" where
  "history_step codec sha cal e db =
     (case e of
        PutSnapshot faults s fetched \<Rightarrow> snd (put_history_snapshot codec sha cal faults s fetched db)
      | MigrateZone schema_ok faults now old new \<Rightarrow>
          snd (migrate_timezone cal schema_ok faults now old new db))"

definition register_step ::
  "'snap snapshot_codec \<Rightarrow> (byte list \<Rightarrow> byte list) \<Rightarrow> 'tz calendar \<Rightarrow> 'snap history_event
     \<Rightarrow> newest \<Rightarrow> newest" where
  "register_step codec sha cal e reg =
     (case e of
        PutSnapshot faults s fetched \<Rightarrow>
          (case accepted_row codec sha cal faults s fetched of
             None \<Rightarrow> reg | Some (u, row) \<Rightarrow> newest_put u row reg)
      | MigrateZone schema_ok faults now old new \<Rightarrow> reg)"

definition fresh_instance :: "'tz calendar \<Rightarrow> int \<Rightarrow> 'tz \<Rightarrow> 'tz db_instance" where
  "fresh_instance cal now z =
     snd (set_db_timezone cal (\<lambda>_. False) now (cal_name cal z)
            \<lparr>di_tables = initial_schema, di_timezone = z\<rparr>)"

lemma fresh_instance_ok: "calendar_ok cal \<Longrightarrow> instance_ok cal (fresh_instance cal now z)"
  by (simp add: fresh_instance_def set_db_timezone_def parse_timezone_def calendar_ok_def
      upsert_engine_value_def instance_ok_iff recorded_timezone_def engine_value_def history_ok_def
      day_rows_ok_def initial_schema_def)

lemma put_effect:
  "snd (put_history_snapshot codec sha cal faults s fetched db) =
     (case accepted_row codec sha cal faults s fetched of
        None \<Rightarrow> db
      | Some (u, row) \<Rightarrow> db\<lparr>di_tables := (di_tables db)\<lparr>tb_history :=
          upsert_history (u, cal_day cal (di_timezone db) (hr_fetched row)) row
            (tb_history (di_tables db))\<rparr>\<rparr>)"
  by (subst put_accepted) (simp split: option.split)

lemma history_step_ok:
  "calendar_ok cal \<Longrightarrow> instance_ok cal db \<Longrightarrow> instance_ok cal (history_step codec sha cal e db)"
  by (cases e) (simp_all add: history_step_def inv_intros)

lemma history_step_newest:
  assumes "instance_ok cal db"
  shows "newest_rows (history_step codec sha cal e db) = register_step codec sha cal e (newest_rows db)"
proof (cases e)
  case (PutSnapshot faults s fetched)
  show ?thesis
  proof (cases "accepted_row codec sha cal faults s fetched")
    case None
    with PutSnapshot show ?thesis
      by (simp add: history_step_def register_step_def put_effect)
  next
    case (Some a)
    then obtain u row where a: "accepted_row codec sha cal faults s fetched = Some (u, row)"
      by (cases a) simp
    have days: "day_rows_ok cal (di_timezone db) (tb_history (di_tables db))"
      using assms by (simp add: instance_ok_iff history_ok_def)
    show ?thesis
      using newest_upsert [OF days conjunct1 [OF accepted_instant [OF a]]] PutSnapshot
      by (simp add: history_step_def register_step_def put_effect
          a newest_rows_def fun_eq_iff)
  qed
next
  case (MigrateZone schema_ok faults now old new)
  obtain r db' where m: "migrate_timezone cal schema_ok faults now old new db = (r, db')" by fastforce
  have days: "day_rows_ok cal (di_timezone db) (tb_history (di_tables db))"
    using assms by (simp add: instance_ok_iff history_ok_def)
  have "newest_rows db' = newest_rows db"
    using migrate_cases [OF m assms]
    by (auto simp: newest_rows_def newest_rebuilt [OF days])
  with MigrateZone m show ?thesis by (simp add: history_step_def register_step_def)
qed

text \<open>
  The instance implements the register. The calendar's law (parsing the name of a zone gives the
  zone) is part of the abstraction, so that the system is interpreted for every calendar.
\<close>

definition register_view :: "'tz calendar \<Rightarrow> 'tz db_instance \<Rightarrow> newest option" where
  "register_view cal db = (if calendar_ok cal then Some (newest_rows db) else None)"

interpretation histories: refined_system
  "fresh_instance cal now z" "history_step codec sha cal" "\<lambda>db. calendar_ok cal \<longrightarrow> instance_ok cal db"
  "register_view cal" "\<lambda>e. map_option (register_step codec sha cal e)"
  for codec sha cal now z
  by unfold_locales
     (simp_all add: fresh_instance_ok history_step_ok history_step_newest register_view_def)

lemma register_view_fold:
  "fold (\<lambda>e. map_option (f e)) es (Some reg) = Some (fold f es reg)"
  by (induction es arbitrary: reg) simp_all

section \<open>Properties\<close>

text \<open>
  C3: Whatever is stored and however often the time zone moves, the newest snapshot of each
  station behaves like one register: an accepted snapshot replaces it exactly if it is not older,
  and neither a rejected snapshot nor a time-zone migration, successful or failed, changes it,
  although the rows of the history are keyed by local day and are merged when days fall together.
\<close>

theorem newest_snapshot_is_a_register:
  assumes "calendar_ok cal" and "instance_ok cal db"
  shows "newest_rows (fold (history_step codec sha cal) es db)
    = fold (register_step codec sha cal) es (newest_rows db)"
  using histories.simulation_fold [where cal = cal and s = db and codec = codec and sha = sha and es = es]
    assms
  by (simp add: register_view_def register_view_fold)

definition sample_calendar :: "nat calendar" where
  "sample_calendar = \<lparr>cal_parse = (\<lambda>s. Some (length s)), cal_name = (\<lambda>z. replicate z 65),
     cal_instant_ok = (\<lambda>t. True), cal_day = (\<lambda>z t. show_nat (nat ((t + int z) div 10))),
     cal_date_ok = (\<lambda>d. d \<noteq> [])\<rparr>"

definition sample_codec :: "station_ref snapshot_codec" where
  "sample_codec = \<lparr>sn_station = Some, sn_encode = (\<lambda>s. as_bytes (sr_name s)), sn_decode = (\<lambda>b. None)\<rparr>"

lemma sample_calendar_ok: "calendar_ok sample_calendar"
  by (simp add: calendar_ok_def sample_calendar_def)

lemma newest_snapshot_is_a_register_witness:
  "newest_rows (fold (history_step sample_codec (\<lambda>b. b) sample_calendar)
       [PutSnapshot (\<lambda>i. False) \<lparr>sr_province = [], sr_city = [], sr_name = [65], sr_unified_uuid = [66]\<rparr> 4,
        MigrateZone True (\<lambda>i. False) 9 [65, 65] [65]] (fresh_instance sample_calendar 0 2))
   = fold (register_step sample_codec (\<lambda>b. b) sample_calendar)
       [PutSnapshot (\<lambda>i. False) \<lparr>sr_province = [], sr_city = [], sr_name = [65], sr_unified_uuid = [66]\<rparr> 4,
        MigrateZone True (\<lambda>i. False) 9 [65, 65] [65]] (newest_rows (fresh_instance sample_calendar 0 2))"
  by (rule newest_snapshot_is_a_register [OF sample_calendar_ok fresh_instance_ok [OF sample_calendar_ok]])

lemma unchanged_days:
  assumes "day_rows_ok cal z h"
  shows "hget h (u, d) = Some row \<longleftrightarrow>
    (\<exists>od. hget h (u, od) = Some row \<and> d = cal_day cal z (hr_fetched row)
      \<and> (\<forall>od' r'. hget h (u, od') = Some r' \<and> cal_day cal z (hr_fetched r') = d \<longrightarrow>
           (hr_fetched r', od') \<le> (hr_fetched row, od)))"
  (is "_ \<longleftrightarrow> ?rhs")
proof
  assume row: "hget h (u, d) = Some row"
  have "(hr_fetched r', od') \<le> (hr_fetched row, d)"
    if "hget h (u, od') = Some r' \<and> cal_day cal z (hr_fetched r') = d" for od' r'
    using that row day_rows_lookup [OF assms, of u od' r'] by simp
  with row day_rows_lookup [OF assms row] show ?rhs by blast
next
  assume ?rhs
  then obtain od where "hget h (u, od) = Some row" "d = cal_day cal z (hr_fetched row)" by blast
  with day_rows_lookup [OF assms, of u od row] show "hget h (u, d) = Some row" by simp
qed

text \<open>
  C17: A time-zone migration rekeys the whole history and loses nothing it need not lose: if it
  succeeds, the row of a station and a day of the new zone is exactly the newest of the station's
  old rows that fall on that day, all other old rows are dropped, the instance works in the new
  zone and is consistent, and the number it reports is the number of rows whose date changed; if
  it fails, nothing has changed, and its internal checks (invalid instants, key conflicts, staged
  row count) are never the reason.
\<close>

theorem timezone_migration_keeps_newest_of_each_day:
  assumes "calendar_ok cal" and "instance_ok cal db"
    and "migrate_timezone cal schema_ok faults now old_tz new_tz db = (r, db')"
  shows "case r of
      Inl e \<Rightarrow> db' = db
        \<and> e \<notin> {ConstraintViolated} \<union> range TimestampInvalid \<union> range (case_prod StagedCountMismatch)
    | Inr n \<Rightarrow> \<exists>z. cal_parse cal new_tz = Some z \<and> di_timezone db' = z \<and> instance_ok cal db'
        \<and> n = length (filter (\<lambda>r. cal_day cal z (hr_fetched (snd r)) \<noteq> snd (fst r))
                (tb_history (di_tables db)))
        \<and> (\<forall>u d row. hget (tb_history (di_tables db')) (u, d) = Some row \<longleftrightarrow>
             (\<exists>od. hget (tb_history (di_tables db)) (u, od) = Some row
                \<and> d = cal_day cal z (hr_fetched row)
                \<and> (\<forall>od' r'. hget (tb_history (di_tables db)) (u, od') = Some r'
                      \<and> cal_day cal z (hr_fetched r') = d \<longrightarrow>
                      (hr_fetched r', od') \<le> (hr_fetched row, od))))"
proof -
  let ?h = "tb_history (di_tables db)"
  have days: "day_rows_ok cal (di_timezone db) ?h"
    using assms(2) by (simp add: instance_ok_iff history_ok_def)
  then have keys: "hkeys_ok ?h" by (simp add: day_rows_ok_def)
  have ok': "instance_ok cal db'"
    using migrate_instance_ok [OF assms(1,2), of schema_ok faults now old_tz new_tz] assms(3) by simp
  have rewritten: "rewritten_rows cal z (di_tables db)
      = length (filter (\<lambda>r. cal_day cal z (hr_fetched (snd r)) \<noteq> snd (fst r)) ?h)" for z
  proof -
    have "length (filter P (sort_key fst ?h)) = length (filter P ?h)" for P
      by (simp add: filter_sort)
    then show ?thesis
      by (simp add: rewritten_rows_def timezone_map_entries filter_map o_def map_entry_def case_prod_unfold)
  qed
  from migrate_cases [OF assms(3,2)] show ?thesis
  proof (elim disjE exE conjE)
    fix z
    assume z: "r = Inr 0" "db' = db" "cal_parse cal new_tz = Some z" "z = di_timezone db"
    have "filter (\<lambda>r. cal_day cal z (hr_fetched (snd r)) \<noteq> snd (fst r)) ?h = []"
      using days z by (auto simp: day_rows_ok_def filter_empty_conv)
    then have "0 = length (filter (\<lambda>r. cal_day cal z (hr_fetched (snd r)) \<noteq> snd (fst r)) ?h)"
      by (simp only: list.size)
    then show ?thesis
      unfolding z(1) z(2) sum.case using z(3) z(4) [symmetric] ok' [unfolded z(2)]
        unchanged_days [OF days, folded z(4)]
      by (intro exI [of _ z] conjI allI) assumption+
  next
    fix z
    assume z: "r = Inr (rewritten_rows cal z (di_tables db))" "cal_parse cal new_tz = Some z"
      "di_timezone db' = z" "tb_history (di_tables db') = rebuilt_rows cal z ?h"
    show ?thesis
      unfolding z(1) sum.case z(4) using z(2,3) ok' rewritten [of z] rebuilt_lookup [OF keys, of cal z]
      by (intro exI [of _ z] conjI allI) assumption+
  qed simp
qed

lemma fresh_instance_value:
  "calendar_ok cal \<Longrightarrow> fresh_instance cal now z =
     \<lparr>di_tables = initial_schema\<lparr>tb_engine_state := [(db_timezone_key, (cal_name cal z, now))]\<rparr>,
      di_timezone = z\<rparr>"
  by (simp add: fresh_instance_def set_db_timezone_def parse_timezone_def calendar_ok_def
      upsert_engine_value_def initial_schema_def del: list.map)

lemma migrate_fresh_instance:
  assumes "calendar_ok cal" and "cal_parse cal old_tz = Some z" and "cal_parse cal new_tz = Some z'"
    and "z \<noteq> z'"
  shows "\<exists>db'. migrate_timezone cal True (\<lambda>i. False) now old_tz new_tz (fresh_instance cal now z) = (Inr 0, db')"
proof -
  let ?t = "initial_schema\<lparr>tb_engine_state := [(db_timezone_key, (cal_name cal z, now))]\<rparr>"
  have "cal_parse cal (cal_name cal z) = Some z" using assms(1) by (simp add: calendar_ok_def)
  then have checks: "check_not_pending ?t = Inr ?t" "check_stored_timezone cal z old_tz ?t = Inr ?t"
    by (simp_all add: check_not_pending_def check_stored_timezone_def engine_value_def parse_timezone_def
        del: list.map)
  have "rebuild_history cal z' ?t = Inr ?t"
    by (simp add: rebuild_history_def initial_schema_def timezone_map_def staged_rows_def)
  with checks have "\<exists>t'. transaction (\<lambda>i. False) ([check_not_pending, check_stored_timezone cal z old_tz]
      @ [check_history_schema True, rebuild_history cal z',
         upsert_engine_value db_timezone_key (cal_name cal z') now,
         upsert_engine_value timezone_sync_pending_key (cal_name cal z') now]) ?t = (Inr (), t')"
    by (simp add: transaction_def begin_tx_def commit_tx_def check_history_schema_def upsert_engine_value_def)
  moreover have "rewritten_rows cal z' ?t = 0"
    by (simp add: rewritten_rows_def timezone_map_def initial_schema_def)
  ultimately show ?thesis
    using assms by (auto simp: migrate_timezone_def parse_timezone_def fresh_instance_value simp del: list.map)
qed

lemma sample_migration:
  "\<exists>db'. migrate_timezone sample_calendar True (\<lambda>i. False) 0 [65, 65] [65] (fresh_instance sample_calendar 0 2)
     = (Inr 0, db')"
  by (rule migrate_fresh_instance [OF sample_calendar_ok, where z' = 1]) (simp_all add: sample_calendar_def)

lemma timezone_migration_keeps_newest_of_each_day_witness:
  "\<exists>db'. migrate_timezone sample_calendar True (\<lambda>i. False) 0 [65, 65] [65]
       (fresh_instance sample_calendar 0 2) = (Inr 0, db')
     \<and> di_timezone db' = 1 \<and> instance_ok sample_calendar db'"
proof -
  obtain db' where m: "migrate_timezone sample_calendar True (\<lambda>i. False) 0 [65, 65] [65]
       (fresh_instance sample_calendar 0 2) = (Inr 0, db')"
    using sample_migration by blast
  have "cal_parse sample_calendar [65] = Some 1" by (simp add: sample_calendar_def)
  with timezone_migration_keeps_newest_of_each_day [OF sample_calendar_ok
      fresh_instance_ok [OF sample_calendar_ok] m] m
  show ?thesis by auto
qed

section \<open>Pages of the past\<close>

lemma history_of_dates:
  "hkeys_ok h \<Longrightarrow> distinct (map fst (history_of u h))"
  by (induction h) (auto simp: history_of_def hkeys_ok_def, force)

lemma sorted_history:
  assumes "hkeys_ok h"
  shows "sorted_wrt (<) (map fst (history_before u before h))"
proof -
  have "distinct (map fst (filter P (history_of u h)))" for P
    using history_of_dates [OF assms] by (rule distinct_map_filter)
  then have "distinct (map fst (history_before u before h))"
    by (simp add: history_before_def distinct_sort_key)
  moreover have "sorted (map fst (history_before u before h))" by (simp add: history_before_def)
  ultimately show ?thesis by (simp add: strict_sorted_iff)
qed

lemma set_history_before:
  "set (history_before u (Some d) h) = {r \<in> set (history_before u None h). fst r < d}"
  by (auto simp: history_before_def)

text \<open>Cutting the sorted history at a cursor.\<close>

lemma history_before_cursor:
  assumes "hkeys_ok h" and "history_before u before h = older @ page" and "page \<noteq> []"
  shows "history_before u (Some (fst (hd page))) h = older"
proof -
  let ?d = "fst (hd page)"
  have srt: "sorted_wrt (<) (map fst (older @ page))" using sorted_history [OF assms(1)] assms(2) by metis
  then have o: "\<And>r. r \<in> set older \<Longrightarrow> fst r < ?d"
    using assms(3) by (auto simp: sorted_wrt_append)
  have p: "\<And>r. r \<in> set page \<Longrightarrow> \<not> fst r < ?d"
    using srt assms(3) by (cases page) (auto simp: sorted_wrt_append)
  have d: "case before of None \<Rightarrow> True | Some b \<Rightarrow> ?d < b"
  proof -
    have "hd page \<in> set (history_before u before h)" using assms(2,3) by simp
    then show ?thesis by (auto simp: history_before_def split: option.splits)
  qed
  have "set (history_before u (Some ?d) h) = {r \<in> set (history_before u before h). fst r < ?d}"
    using d by (auto simp: history_before_def split: option.splits)
  also have "\<dots> = set older" using o p assms(2) by auto
  finally have "set (map fst (history_before u (Some ?d) h)) = set (map fst older)" by simp
  then have dates: "map fst (history_before u (Some ?d) h) = map fst older"
    using sorted_history [OF assms(1)] srt
    by (intro strict_sorted_equal) (auto simp: sorted_wrt_append)
  have same: "inj_on fst (set (history_of u h))"
    using history_of_dates [OF assms(1)] by (simp add: distinct_map)
  show ?thesis
  proof (rule map_inj_on [OF dates])
    have "set older \<subseteq> set (history_of u h)" "set (history_before u (Some ?d) h) \<subseteq> set (history_of u h)"
      using assms(2) by (metis (no_types, lifting) Un_upper1 filter_is_subset history_before_def order_trans set_append set_sort)
        (auto simp: history_before_def)
    then show "inj_on fst (set (history_before u (Some ?d) h) \<union> set older)"
      using same by (meson Un_least inj_on_subset)
  qed
qed

end
