(* ===== verification/Db_Migrations.thy ===== *)
theory Db_Migrations
  imports Db_Tables
begin

text \<open>
  Versions of the database schema (\<^verbatim>\<open>weather-core/db/src/migration.rs\<close>): the registry
  of migrations, the history recorded in the database, running what is missing, and the check of
  the tables that must exist. Every migration runs in a transaction of its own.
\<close>

section \<open>Registry and history\<close>

text \<open>\<open>fs_names\<close>: the user tables; \<open>fs_applied\<close>: the rows of \<open>schema_migrations\<close>.\<close>

record file_state =
  fs_names :: "ustring list"
  fs_applied :: "(int \<times> ustring) list"
  fs_tables :: tables

datatype schema_error =
    SchemaSql | SchemaRegistryGap int int | SchemaEmptyName int | SchemaNotEmpty | SchemaHistoryEmpty
  | SchemaNewer int int | SchemaGap int int | SchemaUnsupported int | SchemaNameMismatch int ustring ustring
  | SchemaMissingTable ustring

record db_migration =
  dm_version :: int
  dm_name :: ustring
  dm_apply :: "file_state \<Rightarrow> schema_error + file_state"

definition latest_db_version :: int where "latest_db_version = 1"
definition migrations_table :: ustring where "migrations_table = lit ''schema_migrations''"

definition required_tables :: "ustring list" where
  "required_tables = [lit ''catalog_cache_state'', lit ''engine_state'', lit ''provider_cities'',
     lit ''provider_provinces'', lit ''provider_station_mappings'', migrations_table,
     lit ''upstream_fetch_log'', lit ''weather_snapshots_history'']"

definition apply_initial_schema :: "file_state \<Rightarrow> schema_error + file_state" where
  "apply_initial_schema fs =
     (if list_ex (\<lambda>n. n \<in> set (fs_names fs)) required_tables then Inl SchemaSql
      else Inr (fs\<lparr>fs_names := fs_names fs @ required_tables, fs_applied := [], fs_tables := initial_schema\<rparr>))"

definition db_migrations :: "db_migration list" where
  "db_migrations = [\<lparr>dm_version = 1, dm_name = lit ''0001_initial_schema'', dm_apply = apply_initial_schema\<rparr>]"

fun available_gap :: "int \<Rightarrow> db_migration list \<Rightarrow> schema_error option" where
  "available_gap expected [] = None"
| "available_gap expected (m # ms) =
     (if dm_version m \<noteq> expected then Some (SchemaRegistryGap expected (dm_version m))
      else if trim (dm_name m) = [] then Some (SchemaEmptyName expected)
      else available_gap (expected + 1) ms)"

definition validate_available :: "db_migration list \<Rightarrow> schema_error option" where
  "validate_available available = available_gap 1 available"

fun applied_error :: "int \<Rightarrow> db_migration list \<Rightarrow> int \<Rightarrow> (int \<times> ustring) list \<Rightarrow> schema_error option" where
  "applied_error newest available expected [] = None"
| "applied_error newest available expected ((version, name) # rest) =
     (if newest < version then Some (SchemaNewer version newest)
      else if version \<noteq> expected then Some (SchemaGap expected version)
      else (case find (\<lambda>m. dm_version m = version) available of
              None \<Rightarrow> Some (SchemaUnsupported version)
            | Some m \<Rightarrow>
                if name \<noteq> dm_name m then Some (SchemaNameMismatch version name (dm_name m))
                else applied_error newest available (expected + 1) rest))"

definition validate_applied :: "(int \<times> ustring) list \<Rightarrow> db_migration list \<Rightarrow> schema_error option" where
  "validate_applied applied available =
     applied_error (if available = [] then 0 else dm_version (last available)) available 1 applied"

section \<open>Running migrations\<close>

text \<open>
  \<open>faults i\<close>: a statement of the \<open>i\<close>-th migration's transaction fails. Recording needs the table
  and respects its primary key and its unique name.
\<close>

definition run_one :: "bool \<Rightarrow> db_migration \<Rightarrow> file_state \<Rightarrow> schema_error option \<times> file_state" where
  "run_one fault m fs =
     (if fault then (Some SchemaSql, fs)
      else (case dm_apply m fs of
              Inl e \<Rightarrow> (Some e, fs)
            | Inr fs' \<Rightarrow>
                if migrations_table \<notin> set (fs_names fs') \<or> dm_version m \<in> fst ` set (fs_applied fs')
                   \<or> dm_name m \<in> snd ` set (fs_applied fs')
                then (Some SchemaSql, fs)
                else (None, fs'\<lparr>fs_applied := fs_applied fs' @ [(dm_version m, dm_name m)]\<rparr>)))"

fun run_missing ::
  "(nat \<Rightarrow> bool) \<Rightarrow> nat \<Rightarrow> db_migration list \<Rightarrow> file_state \<Rightarrow> schema_error option \<times> file_state" where
  "run_missing faults i [] fs = (None, fs)"
| "run_missing faults i (m # ms) fs =
     (case run_one (faults i) m fs of
        (Some e, fs') \<Rightarrow> (Some e, fs')
      | (None, fs') \<Rightarrow> run_missing faults (Suc i) ms fs')"

definition run_migrations ::
  "(nat \<Rightarrow> bool) \<Rightarrow> db_migration list \<Rightarrow> file_state \<Rightarrow> schema_error option \<times> file_state" where
  "run_migrations faults available fs =
     (case validate_available available of
        Some e \<Rightarrow> (Some e, fs)
      | None \<Rightarrow>
          let has_history = migrations_table \<in> set (fs_names fs);
              applied = (if has_history then sort_key fst (fs_applied fs) else [])
          in if \<not> has_history \<and> fs_names fs \<noteq> [] then (Some SchemaNotEmpty, fs)
             else if has_history \<and> applied = [] then (Some SchemaHistoryEmpty, fs)
             else (case validate_applied applied available of
                     Some e \<Rightarrow> (Some e, fs)
                   | None \<Rightarrow> run_missing faults 0 (drop (length applied) available) fs))"

definition validate_current_schema :: "file_state \<Rightarrow> schema_error option" where
  "validate_current_schema fs =
     map_option SchemaMissingTable (find (\<lambda>n. n \<notin> set (fs_names fs)) required_tables)"

definition migrate_schema :: "(nat \<Rightarrow> bool) \<Rightarrow> file_state \<Rightarrow> schema_error option \<times> file_state" where
  "migrate_schema faults fs =
     (case run_migrations faults db_migrations fs of
        (Some e, fs') \<Rightarrow> (Some e, fs')
      | (None, fs') \<Rightarrow> (validate_current_schema fs', fs'))"

definition new_file :: file_state where
  "new_file = \<lparr>fs_names = [], fs_applied = [], fs_tables = initial_schema\<rparr>"

section \<open>Lemmas\<close>

definition registry_rows :: "db_migration list \<Rightarrow> (int \<times> ustring) list" where
  "registry_rows ms = map (\<lambda>m. (dm_version m, dm_name m)) ms"

lemma available_versions:
  "available_gap k ms = None \<Longrightarrow> map dm_version ms = map (\<lambda>i. k + int i) [0..<length ms]"
proof (induction ms arbitrary: k)
  case (Cons m ms)
  then have m: "dm_version m = k" and "available_gap (k + 1) ms = None" by (auto split: if_splits)
  with Cons.IH have "map dm_version ms = map (\<lambda>i. (k + 1) + int i) [0..<length ms]" by blast
  also have "\<dots> = map (\<lambda>i. k + int i) (map Suc [0..<length ms])" by simp
  also have "map Suc [0..<length ms] = [1..<Suc (length ms)]" by (simp only: map_Suc_upt One_nat_def)
  finally show ?case using m by (simp add: upt_conv_Cons del: upt_Suc)
qed simp

lemma applied_prefix:
  assumes "applied_error newest available k rows = None"
    and "map dm_version available = map (\<lambda>i. 1 + int i) [0..<length available]"
    and "k = 1 + int n"
  shows "rows = take (length rows) (drop n (registry_rows available))"
  using assms(1,3)
proof (induction rows arbitrary: k n)
  case (Cons r rows)
  obtain v name where r: "r = (v, name)" by (cases r)
  with Cons.prems obtain m where v: "v = k" and m: "find (\<lambda>m. dm_version m = v) available = Some m"
    and name: "name = dm_name m" and rest: "applied_error newest available (k + 1) rows = None"
    by (auto split: if_splits option.splits)
  from m obtain i where i: "i < length available" "m = available ! i" "dm_version m = v"
    by (auto simp: find_Some_iff)
  then have "map dm_version available ! i = v" by simp
  with i(1) assms(2) v Cons.prems(2) have "i = n" by simp
  with i v r name have "drop n (registry_rows available) = r # drop (Suc n) (registry_rows available)"
    by (subst Cons_nth_drop_Suc [symmetric]) (simp_all add: registry_rows_def)
  moreover have "rows = take (length rows) (drop (Suc n) (registry_rows available))"
    by (rule Cons.IH [OF rest]) (simp add: Cons.prems(2))
  ultimately show ?case by simp
qed simp

lemma insort_key_snoc: "f a \<le> f x \<Longrightarrow> insort_key f a (ys @ [x]) = insort_key f a ys @ [x]"
  by (induction ys) auto

lemma sort_key_snoc: "(\<And>y. y \<in> set xs \<Longrightarrow> f y \<le> f x) \<Longrightarrow> sort_key f (xs @ [x]) = sort_key f xs @ [x]"
  by (induction xs) (auto simp: insort_key_snoc)

text \<open>A migration that leaves the history alone; the first one creates its table.\<close>

definition history_wf :: "file_state \<Rightarrow> bool" where
  "history_wf fs \<longleftrightarrow> fs_applied fs = [] \<or> migrations_table \<in> set (fs_names fs)"

definition keeps_schema_history :: "db_migration \<Rightarrow> bool" where
  "keeps_schema_history m \<longleftrightarrow>
     (\<forall>fs fs'. history_wf fs \<and> dm_apply m fs = Inr fs' \<longrightarrow> fs_applied fs' = fs_applied fs)"

lemma run_one_effect:
  assumes "run_one fault m fs = (r, fs')" and "history_wf fs" and "keeps_schema_history m"
  shows "(case r of
      Some e \<Rightarrow> fs' = fs
    | None \<Rightarrow> fs_applied fs' = fs_applied fs @ [(dm_version m, dm_name m)]) \<and> history_wf fs'"
proof (cases "dm_apply m fs")
  case (Inl e)
  with assms(1,2) show ?thesis by (auto simp: run_one_def split: if_splits)
next
  case (Inr fs1)
  with assms(2,3) have "fs_applied fs1 = fs_applied fs" by (simp add: keeps_schema_history_def)
  with assms(1,2) Inr show ?thesis by (auto simp: run_one_def history_wf_def split: if_splits)
qed

lemma registry_versions_sorted:
  assumes "map dm_version available = map (\<lambda>i. 1 + int i) [0..<length available]"
    and "n < length available" and "y \<in> set (take n (registry_rows available))"
  shows "fst y \<le> dm_version (available ! n)"
proof -
  have v: "dm_version (available ! j) = 1 + int j" if "j < length available" for j
    using arg_cong [OF assms(1), of "\<lambda>xs. xs ! j"] that by simp
  from assms(3) obtain j where "j < n" "y = registry_rows available ! j"
    by (auto simp: in_set_conv_nth)
  with assms(2) v [of j] v [of n] show ?thesis by (simp add: registry_rows_def)
qed

lemma run_missing_effect:
  assumes "run_missing faults i (drop n available) fs = (r, fs')"
    and "map dm_version available = map (\<lambda>i. 1 + int i) [0..<length available]"
    and "\<And>m. m \<in> set available \<Longrightarrow> keeps_schema_history m" and "history_wf fs"
    and "n \<le> length available" and "sort_key fst (fs_applied fs) = take n (registry_rows available)"
  shows "case r of
      None \<Rightarrow> sort_key fst (fs_applied fs') = registry_rows available
    | Some e \<Rightarrow> \<exists>k. n \<le> k \<and> k < length available
        \<and> sort_key fst (fs_applied fs') = take k (registry_rows available)"
  using assms(1,4-6)
proof (induction "length available - n" arbitrary: i n fs)
  case 0
  then show ?case by (auto simp: registry_rows_def)
next
  case (Suc d)
  then have n: "n < length available" by simp
  let ?m = "available ! n"
  have drop: "drop n available = ?m # drop (Suc n) available" by (rule Cons_nth_drop_Suc [symmetric, OF n])
  have keep: "keeps_schema_history ?m" using assms(3) n by simp
  obtain q fs1 where one: "run_one (faults i) ?m fs = (q, fs1)" by fastforce
  note eff = run_one_effect [OF one Suc.prems(2) keep]
  show ?case
  proof (cases q)
    case (Some e)
    with Suc.prems one eff drop n show ?thesis by (auto intro!: exI [of _ n])
  next
    case None
    have "fst y \<le> dm_version ?m" if "y \<in> set (fs_applied fs)" for y
    proof -
      from that have "y \<in> set (take n (registry_rows available))" by (metis Suc.prems(4) set_sort)
      then show ?thesis by (rule registry_versions_sorted [OF assms(2) n])
    qed
    then have "sort_key fst (fs_applied fs @ [(dm_version ?m, dm_name ?m)])
        = sort_key fst (fs_applied fs) @ [(dm_version ?m, dm_name ?m)]"
      by (intro sort_key_snoc) simp
    then have "sort_key fst (fs_applied fs1) = take (Suc n) (registry_rows available)"
      using eff None Suc.prems(4) n by (simp add: take_Suc_conv_app_nth registry_rows_def)
    moreover have "run_missing faults (Suc i) (drop (Suc n) available) fs1 = (r, fs')"
      using Suc.prems(1) one None drop by simp
    ultimately have "case r of
        None \<Rightarrow> sort_key fst (fs_applied fs') = registry_rows available
      | Some e \<Rightarrow> \<exists>k. Suc n \<le> k \<and> k < length available
          \<and> sort_key fst (fs_applied fs') = take k (registry_rows available)"
      using Suc.hyps(1) [of "Suc n" "Suc i" fs1] Suc.hyps(2) eff None n by simp
    then show ?thesis by (cases r) (auto intro: Suc_leD)
  qed
qed

section \<open>Properties\<close>

text \<open>
  Also: Migrations move the recorded history along the registry and nowhere else, for every
  registry: a run that returns without error leaves exactly the registry's versions and names
  recorded; a run that fails leaves a prefix of them, at least as long as before, or the file as
  it was.
\<close>

theorem schema_history_follows_registry:
  assumes "run_migrations faults available fs = (r, fs')" and "history_wf fs"
    and "\<And>m. m \<in> set available \<Longrightarrow> keeps_schema_history m"
  shows "case r of
      None \<Rightarrow> sort_key fst (fs_applied fs') = registry_rows available
    | Some e \<Rightarrow> fs' = fs \<or> (\<exists>k. length (fs_applied fs) \<le> k \<and> k < length available
        \<and> sort_key fst (fs_applied fs') = take k (registry_rows available))"
proof (cases "fs' = fs \<and> r \<noteq> None")
  case True
  then show ?thesis by auto
next
  case False
  let ?applied = "sort_key fst (fs_applied fs)"
  from False assms(1) have avail: "available_gap 1 available = None"
    and app: "migrations_table \<in> set (fs_names fs) \<longrightarrow> validate_applied ?applied available = None"
    and nohist: "migrations_table \<notin> set (fs_names fs) \<longrightarrow> fs_names fs = []"
    and run: "run_missing faults 0 (drop (length (if migrations_table \<in> set (fs_names fs) then ?applied else []))
      available) fs = (r, fs')"
    by (auto simp: run_migrations_def validate_available_def Let_def split: option.splits if_splits)
  note versions = available_versions [OF avail]
  have applied: "(if migrations_table \<in> set (fs_names fs) then ?applied else []) = ?applied"
    using assms(2) by (auto simp: history_wf_def)
  have pre: "?applied = take (length ?applied) (registry_rows available)"
  proof (cases "migrations_table \<in> set (fs_names fs)")
    case True
    with app have "applied_error (if available = [] then 0 else dm_version (last available)) available 1 ?applied = None"
      by (simp add: validate_applied_def)
    note pre = applied_prefix [OF this versions, of 0]
    show ?thesis by (rule pre [unfolded drop_0]) simp
  next
    case False
    with assms(2) show ?thesis by (simp add: history_wf_def)
  qed
  have "length ?applied \<le> length available"
    using arg_cong [OF pre, of length] by (simp add: registry_rows_def)
  from run_missing_effect [OF run [unfolded applied] versions assms(3,2) this pre] show ?thesis
    by (cases r) auto
qed

lemma initial_schema_keeps_history:
  "m \<in> set db_migrations \<Longrightarrow> keeps_schema_history m"
  by (auto simp: db_migrations_def keeps_schema_history_def history_wf_def apply_initial_schema_def
      required_tables_def split: if_splits)

lemma required_tables_distinct: "migrations_table \<in> set required_tables"
  by (simp add: required_tables_def)

lemma new_file_migrates:
  "migrate_schema (\<lambda>i. False) new_file =
     (None, \<lparr>fs_names = required_tables, fs_applied = [(1, lit ''0001_initial_schema'')],
             fs_tables = initial_schema\<rparr>)"
proof -
  have n: "trim (lit ''0001_initial_schema'') \<noteq> []" by (simp add: trim_def is_whitespace_def)
  have "run_migrations (\<lambda>i. False) db_migrations new_file =
     (None, \<lparr>fs_names = required_tables, fs_applied = [(1, lit ''0001_initial_schema'')],
             fs_tables = initial_schema\<rparr>)"
    using n required_tables_distinct
    by (simp add: run_migrations_def validate_available_def db_migrations_def new_file_def Let_def
        validate_applied_def run_one_def apply_initial_schema_def list_ex_iff del: list.map)
  moreover have "find (\<lambda>n. n \<notin> set required_tables) required_tables = None"
    by (simp add: find_None_iff)
  ultimately show ?thesis by (simp add: migrate_schema_def validate_current_schema_def del: list.map)
qed

lemma schema_history_follows_registry_witness:
  "sort_key fst (fs_applied (snd (run_migrations (\<lambda>i. False) db_migrations new_file)))
     = registry_rows db_migrations"
proof -
  obtain r fs' where r: "run_migrations (\<lambda>i. False) db_migrations new_file = (r, fs')" by fastforce
  with new_file_migrates have "r = None" by (auto simp: migrate_schema_def split: option.splits)
  with schema_history_follows_registry [OF r _ initial_schema_keeps_history] r show ?thesis
    by (simp add: history_wf_def new_file_def)
qed

end
