(* ===== verification/Db_Actor.thy ===== *)
theory Db_Actor
  imports Db_History_Spec
begin

text \<open>
  The database actor (\<^verbatim>\<open>weather-core/db/src/actor.rs\<close>): one worker thread owns the
  connection and serves a bounded queue of commands; handles admit commands one at a time behind
  a gate; a failure after the commit of a time-zone migration poisons the actor; closing the last
  handle or shutting down drains the queue and ends the worker. The steps of the handles, the
  worker and the reaper interleave freely: the actor is an inductive step relation. The worker is
  taken not to panic (the code has a command that panics for its tests only).
\<close>

section \<open>Commands\<close>

text \<open>
  \<open>'w\<close> is the world outside the database that the two callbacks of a time-zone migration
  change: the configuration file, the live configuration, the requested exit. The finalizer
  returns the message of its error, or of its panic, which the code catches.
\<close>

datatype ('snap, 'w) db_command =
    PutHistorySnapshot 'snap int
  | GetLatestSnapshot ustring
  | GetHistorySnapshotPage ustring "ustring option" nat
  | ReplaceProviderProvinces ustring "provider_province list"
  | GetProviderProvinces ustring
  | ReplaceProviderCities ustring ustring "provider_city list"
  | GetProviderCities ustring ustring
  | GetAllProviderCityScopes ustring
  | GetProviderStationByUuid ustring ustring
  | PutProviderStationMapping provider_station
  | GetProviderStationByName ustring ustring
  | GetDbTimezone
  | MigrateTimezoneBundle ustring ustring "'w \<Rightarrow> ustring option \<times> 'w" "ustring \<Rightarrow> 'w \<Rightarrow> 'w"
  | LogFetch "ustring option" ustring bool "ustring option"

datatype 'snap db_value =
    UnitValue
  | LatestValue "'snap stored_snapshot option"
  | PageValue "'snap stored_snapshot_page"
  | ProvincesValue "provider_province catalog_cache option"
  | CitiesValue "provider_city catalog_cache option"
  | ScopesValue "provider_city_scope_cache list"
  | StationValue "provider_station option"
  | TimezoneValue "ustring option"
  | RewrittenValue nat

datatype actor_error = StorageError db_error | ActorPoisoned ustring | ActorClosed

type_synonym 'snap db_reply = "actor_error + 'snap db_value"

definition reply_of :: "('a \<Rightarrow> 'snap db_value) \<Rightarrow> db_error + 'a \<Rightarrow> 'snap db_reply" where
  "reply_of f r = (case r of Inl e \<Rightarrow> Inl (StorageError e) | Inr x \<Rightarrow> Inr (f x))"

text \<open>What surrounds one command: failing statements, the clock, SQLite's schema check.\<close>

record db_env =
  de_faults :: sql_faults
  de_clear_faults :: sql_faults
  de_now :: int
  de_schema_ok :: bool

record ('snap, 'tz) db_lib =
  dl_codec :: "'snap snapshot_codec"
  dl_sha :: "byte list \<Rightarrow> byte list"
  dl_calendar :: "'tz calendar"
  dl_show :: "db_error \<Rightarrow> ustring"

definition poison_message :: "ustring \<Rightarrow> ustring" where
  "poison_message m = lit ''database actor poisoned after timezone post-commit failure: '' @ m"

definition clear_failed_message :: "ustring \<Rightarrow> ustring" where
  "clear_failed_message m = lit ''failed to clear timezone sync marker: '' @ m"

definition finalize_failed_message :: "ustring \<Rightarrow> ustring" where
  "finalize_failed_message m = lit ''failed to finalize timezone config: '' @ m"

definition on_tables ::
  "(tables \<Rightarrow> (db_error + unit) \<times> tables) \<Rightarrow> 'tz db_instance \<Rightarrow> 'snap db_reply \<times> 'tz db_instance" where
  "on_tables f db = (let (r, t) = f (di_tables db) in (reply_of (\<lambda>_. UnitValue) r, db\<lparr>di_tables := t\<rparr>))"

definition handle_migrate_bundle ::
  "('snap, 'tz) db_lib \<Rightarrow> db_env \<Rightarrow> ustring \<Rightarrow> ustring \<Rightarrow> ('w \<Rightarrow> ustring option \<times> 'w) \<Rightarrow> (ustring \<Rightarrow> 'w \<Rightarrow> 'w)
     \<Rightarrow> 'tz db_instance \<times> 'w \<Rightarrow> 'snap db_reply \<times> ustring option \<times> 'tz db_instance \<times> 'w" where
  "handle_migrate_bundle lib env old_tz new_tz finalize postcommit_failure s =
     (let cal = dl_calendar lib; (db, w) = s
      in case migrate_timezone cal (de_schema_ok env) (de_faults env) (de_now env) old_tz new_tz db of
           (Inl e, db1) \<Rightarrow> (Inl (StorageError e), None, db1, w)
         | (Inr rewritten, db1) \<Rightarrow>
             (let (failed, w1) = finalize w;
                  (postcommit_error, db2) =
                    (case failed of
                       Some m \<Rightarrow> (Some (finalize_failed_message m), db1)
                     | None \<Rightarrow>
                         (case clear_pending_timezone cal (de_clear_faults env) new_tz (di_tables db1) of
                            (Inl e, t) \<Rightarrow> (Some (clear_failed_message (dl_show lib e)), db1\<lparr>di_tables := t\<rparr>)
                          | (Inr u, t) \<Rightarrow> (None, db1\<lparr>di_tables := t\<rparr>)))
              in case postcommit_error of
                   Some m \<Rightarrow>
                     (Inl (ActorPoisoned (poison_message m)), Some (poison_message m), db2,
                      postcommit_failure (poison_message m) w1)
                 | None \<Rightarrow> (Inr (RewrittenValue rewritten), None, db2, w1)))"

text \<open>\<open>handle\<close>: the reply, the poison message if there is one, the new state.\<close>

definition handle_command ::
  "('snap, 'tz) db_lib \<Rightarrow> db_env \<Rightarrow> ('snap, 'w) db_command \<Rightarrow> 'tz db_instance \<times> 'w
     \<Rightarrow> 'snap db_reply \<times> ustring option \<times> 'tz db_instance \<times> 'w" where
  "handle_command lib env cmd s =
     (let (db, w) = s; t = di_tables db; faults = de_faults env; now = de_now env;
          read = (\<lambda>r. (r, None, db, w));
          write = (\<lambda>(r, db'). (r, None, db', w))
      in case cmd of
           PutHistorySnapshot snapshot fetched \<Rightarrow>
             (let (r, db') = put_history_snapshot (dl_codec lib) (dl_sha lib) (dl_calendar lib) faults
                               snapshot fetched db
              in (reply_of (\<lambda>_. UnitValue) r, None, db', w))
         | GetLatestSnapshot uuid \<Rightarrow> read (reply_of LatestValue (get_latest_snapshot (dl_codec lib) faults uuid t))
         | GetHistorySnapshotPage uuid before page_size \<Rightarrow>
             read (reply_of PageValue
               (get_history_snapshot_page (dl_codec lib) (dl_calendar lib) faults uuid before page_size t))
         | ReplaceProviderProvinces provider provinces \<Rightarrow>
             write (on_tables (replace_provider_provinces faults now provider provinces) db)
         | GetProviderProvinces provider \<Rightarrow>
             read (reply_of ProvincesValue (get_provider_provinces faults provider t))
         | ReplaceProviderCities provider code cities \<Rightarrow>
             write (on_tables (replace_provider_cities faults now provider code cities) db)
         | GetProviderCities provider code \<Rightarrow>
             read (reply_of CitiesValue (get_provider_cities faults provider code t))
         | GetAllProviderCityScopes provider \<Rightarrow>
             read (reply_of ScopesValue (get_all_provider_city_scopes faults provider t))
         | GetProviderStationByUuid provider uuid \<Rightarrow>
             read (reply_of StationValue (get_provider_station_by_uuid faults provider uuid t))
         | PutProviderStationMapping station \<Rightarrow>
             write (on_tables (put_provider_station_mapping (dl_sha lib) faults now station) db)
         | GetProviderStationByName provider name \<Rightarrow>
             read (reply_of StationValue (get_provider_station_by_name faults provider name t))
         | GetDbTimezone \<Rightarrow> read (reply_of TimezoneValue (get_db_timezone faults t))
         | MigrateTimezoneBundle old_tz new_tz finalize postcommit_failure \<Rightarrow>
             handle_migrate_bundle lib env old_tz new_tz finalize postcommit_failure s
         | LogFetch uuid endpoint ok message \<Rightarrow>
             write (on_tables (log_fetch faults now uuid endpoint ok message) db))"

section \<open>The actor\<close>

datatype actor_phase = PhaseOpen | PhasePoisoned | PhaseClosing | PhaseClosed

datatype actor_outcome = OutcomeSucceeded | OutcomeFailed ustring

text \<open>The worker's local poison; \<open>WorkerPoisoning\<close>: the reply is sent, \<open>state.poison\<close> not yet called.\<close>

datatype worker_state = WorkerRunning "ustring option" | WorkerPoisoning ustring | WorkerEnded actor_outcome

definition channel_capacity :: nat where "channel_capacity = 128"
definition poisoned_fallback :: ustring where "poisoned_fallback = lit ''database actor is poisoned''"

text \<open>
  \<open>da_sender\<close>: \<open>core.tx\<close> is present; \<open>da_gate\<close>: the admission that holds \<open>send_gate\<close> with its clone
  of the sender; \<open>da_queue\<close>: the channel. \<open>da_admitted\<close>, \<open>da_answered\<close> and \<open>da_refused\<close> record
  what happened: the calls let in, the replies the worker sent, the calls turned away.
\<close>

record ('snap, 'tz, 'w) db_actor =
  da_phase :: actor_phase
  da_poison :: "ustring option"
  da_sender :: bool
  da_handles :: nat
  da_gate :: "(nat \<times> ('snap, 'w) db_command) option"
  da_queue :: "(nat \<times> ('snap, 'w) db_command) list"
  da_worker :: worker_state
  da_store :: "'tz db_instance \<times> 'w"
  da_terminal :: "actor_outcome option"
  da_next :: nat
  da_admitted :: "nat list"
  da_answered :: "(nat \<times> 'snap db_reply) list"
  da_refused :: "(nat \<times> 'snap db_reply) list"

definition actor_start :: "'tz db_instance \<Rightarrow> 'w \<Rightarrow> ('snap, 'tz, 'w) db_actor" where
  "actor_start db w = \<lparr>da_phase = PhaseOpen, da_poison = None, da_sender = True, da_handles = 1,
     da_gate = None, da_queue = [], da_worker = WorkerRunning None, da_store = (db, w),
     da_terminal = None, da_next = 0, da_admitted = [], da_answered = [], da_refused = []\<rparr>"

definition mark_closing :: "actor_phase \<Rightarrow> actor_phase" where
  "mark_closing phase = (if phase = PhaseClosing \<or> phase = PhaseClosed then phase else PhaseClosing)"

definition close_sender :: "('snap, 'tz, 'w) db_actor \<Rightarrow> ('snap, 'tz, 'w) db_actor" where
  "close_sender a = a\<lparr>da_phase := mark_closing (da_phase a), da_sender := False\<rparr>"

definition actor_poison :: "ustring \<Rightarrow> ('snap, 'tz, 'w) db_actor \<Rightarrow> ustring \<times> ('snap, 'tz, 'w) db_actor" where
  "actor_poison m a =
     (let kept = (case da_poison a of None \<Rightarrow> m | Some s \<Rightarrow> s)
      in (kept, a\<lparr>da_poison := Some kept,
                    da_phase := (if da_phase a = PhaseOpen then PhasePoisoned else da_phase a)\<rparr>))"

definition poison_error :: "('snap, 'tz, 'w) db_actor \<Rightarrow> ustring" where
  "poison_error a = (case da_poison a of None \<Rightarrow> poisoned_fallback | Some m \<Rightarrow> m)"

text \<open>The part of \<open>admit\<close> up to the phase check: a refusal, or the gate is taken.\<close>

definition admit_call :: "('snap, 'w) db_command \<Rightarrow> ('snap, 'tz, 'w) db_actor \<Rightarrow> ('snap, 'tz, 'w) db_actor" where
  "admit_call cmd a =
     (let call = da_next a; a = a\<lparr>da_next := Suc call\<rparr>;
          refuse = (\<lambda>e. a\<lparr>da_refused := da_refused a @ [(call, Inl e)]\<rparr>)
      in case da_phase a of
           PhaseOpen \<Rightarrow>
             if \<not> da_sender a then refuse ActorClosed
             else a\<lparr>da_gate := Some (call, cmd), da_admitted := da_admitted a @ [call]\<rparr>
         | PhasePoisoned \<Rightarrow> refuse (ActorPoisoned (poison_error a))
         | PhaseClosing \<Rightarrow> refuse ActorClosed
         | PhaseClosed \<Rightarrow> refuse ActorClosed)"

definition answer :: "nat \<Rightarrow> 'snap db_reply \<Rightarrow> ('snap, 'tz, 'w) db_actor \<Rightarrow> ('snap, 'tz, 'w) db_actor" where
  "answer call r a = a\<lparr>da_answered := da_answered a @ [(call, r)]\<rparr>"

inductive actor_step ::
  "('snap, 'tz) db_lib \<Rightarrow> ('snap, 'tz, 'w) db_actor \<Rightarrow> ('snap, 'tz, 'w) db_actor \<Rightarrow> bool"
  for lib where
  call: "\<lbrakk>0 < da_handles a; da_gate a = None\<rbrakk> \<Longrightarrow> actor_step lib a (admit_call cmd a)"
| send: "\<lbrakk>da_gate a = Some entry; length (da_queue a) < channel_capacity;
          \<And>out. da_worker a \<noteq> WorkerEnded out\<rbrakk> \<Longrightarrow>
     actor_step lib a (a\<lparr>da_gate := None, da_queue := da_queue a @ [entry]\<rparr>)"
| send_failed: "\<lbrakk>da_gate a = Some entry; da_worker a = WorkerEnded out\<rbrakk> \<Longrightarrow>
     actor_step lib a (answer (fst entry) (Inl ActorClosed) (close_sender (a\<lparr>da_gate := None\<rparr>)))"
| serve: "\<lbrakk>da_worker a = WorkerRunning None; da_queue a = (i, cmd) # rest;
          handle_command lib env cmd (da_store a) = (r, None, store)\<rbrakk> \<Longrightarrow>
     actor_step lib a (answer i r (a\<lparr>da_queue := rest, da_store := store\<rparr>))"
| serve_poisoning: "\<lbrakk>da_worker a = WorkerRunning None; da_queue a = (i, cmd) # rest;
          handle_command lib env cmd (da_store a) = (r, Some m, store)\<rbrakk> \<Longrightarrow>
     actor_step lib a (answer i r (a\<lparr>da_queue := rest, da_store := store, da_worker := WorkerPoisoning m\<rparr>))"
| poison: "\<lbrakk>da_worker a = WorkerPoisoning m; actor_poison m a = (kept, a')\<rbrakk> \<Longrightarrow>
     actor_step lib a (a'\<lparr>da_worker := WorkerRunning (Some kept)\<rparr>)"
| reject: "\<lbrakk>da_worker a = WorkerRunning (Some m); da_queue a = (i, cmd) # rest\<rbrakk> \<Longrightarrow>
     actor_step lib a (answer i (Inl (ActorPoisoned m)) (a\<lparr>da_queue := rest\<rparr>))"
| worker_end: "\<lbrakk>da_worker a = WorkerRunning p; da_queue a = []; \<not> da_sender a; da_gate a = None\<rbrakk> \<Longrightarrow>
     actor_step lib a (a\<lparr>da_worker := WorkerEnded out\<rparr>)"
| reap: "\<lbrakk>da_worker a = WorkerEnded out; da_terminal a = None\<rbrakk> \<Longrightarrow>
     actor_step lib a (a\<lparr>da_phase := PhaseClosed, da_terminal := Some out\<rparr>)"
| clone: "0 < da_handles a \<Longrightarrow> actor_step lib a (a\<lparr>da_handles := Suc (da_handles a)\<rparr>)"
| drop_handle: "1 < da_handles a \<Longrightarrow> actor_step lib a (a\<lparr>da_handles := da_handles a - 1\<rparr>)"
| drop_last: "\<lbrakk>da_handles a = 1; da_gate a = None\<rbrakk> \<Longrightarrow>
     actor_step lib a (close_sender (a\<lparr>da_handles := 0\<rparr>))"
| shutdown: "\<lbrakk>0 < da_handles a; da_gate a = None\<rbrakk> \<Longrightarrow> actor_step lib a (close_sender a)"

text \<open>Runs of the actor.\<close>

inductive actor_run ::
  "('snap, 'tz) db_lib \<Rightarrow> ('snap, 'tz, 'w) db_actor \<Rightarrow> ('snap, 'tz, 'w) db_actor \<Rightarrow> bool"
  for lib where
  run_start: "actor_run lib a a"
| run_step: "\<lbrakk>actor_run lib a b; actor_step lib b c\<rbrakk> \<Longrightarrow> actor_run lib a c"

end
