(* ===== verification/Db_Actor_Spec.thy ===== *)
theory Db_Actor_Spec
  imports Db_Actor
begin

text \<open>
  What the database actor promises: every command is answered once and in order, a poisoned
  database is frozen, shutting down drains the queue, phases only move forward, and whatever is
  asked of it, its tables stay consistent and its internal checks never fire.
\<close>

section \<open>Which tables an operation touches\<close>

definition catalog_part where
  "catalog_part t = (tb_provinces t, tb_cities t, tb_catalog_state t, tb_mappings t)"

definition history_part :: "tables \<Rightarrow> (ustring \<times> ustring, history_row) hmap \<times> (ustring, ustring \<times> int) hmap" where
  "history_part t = (tb_history t, tb_engine_state t)"

lemma catalog_ok_part: "catalog_part t' = catalog_part t \<Longrightarrow> catalog_ok t' = catalog_ok t"
  by (simp add: catalog_part_def catalog_ok_def catalog_keys_ok_def provinces_counted_def
      cities_counted_def cities_in_known_scopes_def)

lemma instance_ok_part:
  "history_part (di_tables db') = history_part (di_tables db) \<Longrightarrow> di_timezone db' = di_timezone db \<Longrightarrow>
     instance_ok cal db' = instance_ok cal db"
  by (simp add: history_part_def instance_ok_iff recorded_timezone_def engine_value_def history_ok_def
      cong: option.case_cong)

definition keeps :: "(tables \<Rightarrow> 'a) \<Rightarrow> statement \<Rightarrow> bool" where
  "keeps f s \<longleftrightarrow> (\<forall>t t'. s t = Inr t' \<longrightarrow> f t' = f t)"

lemma exec_all_keeps:
  "exec_all faults i ss t = Inr t' \<Longrightarrow> (\<And>s. s \<in> set ss \<Longrightarrow> keeps f s) \<Longrightarrow> f t' = f t"
proof (induction ss arbitrary: i t)
  case (Cons s ss)
  from Cons.prems(1) obtain t1 where "s t = Inr t1" "exec_all faults (Suc i) ss t1 = Inr t'"
    unfolding exec_Cons_Inr by blast
  moreover from this(2) Cons.prems(2) have "f t' = f t1" by (intro Cons.IH) auto
  moreover have "keeps f s" using Cons.prems(2) by simp
  ultimately show ?case by (simp add: keeps_def)
qed simp

lemma transaction_keeps:
  assumes "transaction faults ss t = (r, t')" and "\<And>s. s \<in> set ss \<Longrightarrow> keeps f s"
  shows "f t' = f t"
proof (cases r)
  case (Inl e)
  with assms(1) show ?thesis by (auto dest: transaction_Inl)
next
  case (Inr u)
  obtain i where "exec_all faults i ss t = Inr t'"
    using transaction_Inr [OF assms(1) [unfolded Inr]] by blast
  then show ?thesis by (rule exec_all_keeps) (rule assms(2))
qed

lemma exec_all_error:
  "exec_all faults i ss t = Inl e \<Longrightarrow> e = SqlFailed \<or> (\<exists>s\<in>set ss. \<exists>t. s t = Inl e)"
proof (induction ss arbitrary: i t)
  case (Cons s ss)
  show ?case
  proof (cases "s t")
    case (Inl e')
    with Cons.prems show ?thesis by (auto split: if_splits)
  next
    case (Inr t1)
    with Cons show ?thesis by (fastforce split: if_splits)
  qed
qed simp

lemma transaction_error:
  "transaction faults ss t = (Inl e, t') \<Longrightarrow> e = SqlFailed \<or> (\<exists>s\<in>set ss. \<exists>t. s t = Inl e)"
proof -
  assume tx: "transaction faults ss t = (Inl e, t')"
  have "exec_all faults 0 (begin_tx # ss @ [commit_tx]) t = Inl e"
    using tx by (cases "exec_all faults 0 (begin_tx # ss @ [commit_tx]) t")
      (simp_all only: transaction_def sum.case prod.inject sum.inject sum.distinct simp_thms)
  from exec_all_error [OF this] show ?thesis by (auto simp: begin_tx_def commit_tx_def)
qed

lemma keeps_history [simp]:
  "keeps history_part (delete_provinces pv)" "keeps history_part (insert_province pv now p)"
  "keeps history_part (delete_orphan_cities pv)" "keeps history_part (delete_orphan_states pv)"
  "keeps history_part (delete_orphan_mappings pv)" "keeps history_part (delete_scope_mappings pv code)"
  "keeps history_part (delete_scope_cities pv code)" "keeps history_part (insert_city pv code now c)"
  "keeps history_part (upsert_catalog_state pv kind scope now n)"
  "keeps history_part (insert_fetch_log uuid endpoint ok m now)" "keeps history_part (delete_old_logs before)"
  "keeps history_part (delete_excess_logs rows)"
  by (auto simp: keeps_def history_part_def delete_provinces_def insert_province_def insert_city_def
      delete_orphan_cities_def delete_orphan_states_def delete_orphan_mappings_def Let_def
      delete_scope_mappings_def delete_scope_cities_def upsert_catalog_state_def insert_fetch_log_def
      delete_old_logs_def delete_excess_logs_def split: option.splits)

lemma keeps_catalog [simp]:
  "keeps catalog_part (insert_fetch_log uuid endpoint ok m now)" "keeps catalog_part (delete_old_logs before)"
  "keeps catalog_part (delete_excess_logs rows)" "keeps catalog_part check_not_pending"
  "keeps catalog_part (check_stored_timezone cal z tz)" "keeps catalog_part (check_history_schema b)"
  "keeps catalog_part (rebuild_history cal z)" "keeps catalog_part (upsert_engine_value k v now)"
  "keeps catalog_part (delete_expected_pending cal z)"
  by (auto simp: keeps_def catalog_part_def insert_fetch_log_def delete_old_logs_def Let_def
      delete_excess_logs_def check_not_pending_def check_stored_timezone_def check_history_schema_def
      rebuild_history_def upsert_engine_value_def delete_expected_pending_def
      split: option.splits sum.splits if_splits)

lemma replace_keeps_history:
  "replace_provider_provinces faults now pv ps t = (r, t') \<Longrightarrow> history_part t' = history_part t"
  "replace_provider_cities faults now pv code cs t = (r, t') \<Longrightarrow> history_part t' = history_part t"
  "log_fetch faults now uuid endpoint ok m t = (r, t') \<Longrightarrow> history_part t' = history_part t"
  "put_provider_station_mapping sha faults now st t = (r, t') \<Longrightarrow> history_part t' = history_part t"
proof -
  show "replace_provider_provinces faults now pv ps t = (r, t') \<Longrightarrow> history_part t' = history_part t"
    by (auto simp: replace_provider_provinces_def split: option.splits elim!: transaction_keeps)
  show "replace_provider_cities faults now pv code cs t = (r, t') \<Longrightarrow> history_part t' = history_part t"
    by (auto simp: replace_provider_cities_def split: option.splits elim!: transaction_keeps)
  show "log_fetch faults now uuid endpoint ok m t = (r, t') \<Longrightarrow> history_part t' = history_part t"
    by (auto simp: log_fetch_def prune_fetch_logs_def Let_def fetch_log_max_rows_def
        elim!: transaction_keeps)
  show "put_provider_station_mapping sha faults now st t = (r, t') \<Longrightarrow> history_part t' = history_part t"
    by (auto simp: put_provider_station_mapping_def history_part_def split: option.splits if_splits)
qed

lemma history_keeps_catalog:
  "put_history_snapshot codec sha cal faults s f db = (r, db') \<Longrightarrow>
     catalog_part (di_tables db') = catalog_part (di_tables db)"
  "migrate_timezone cal schema_ok faults now old new db = (q, db') \<Longrightarrow>
     catalog_part (di_tables db') = catalog_part (di_tables db)"
  "clear_pending_timezone cal faults tz t = (c, t') \<Longrightarrow> catalog_part t' = catalog_part t"
  "log_fetch faults now uuid endpoint ok m t = (l, t') \<Longrightarrow> catalog_part t' = catalog_part t"
proof -
  show "put_history_snapshot codec sha cal faults s f db = (r, db') \<Longrightarrow>
     catalog_part (di_tables db') = catalog_part (di_tables db)"
    by (auto simp: put_history_snapshot_def Let_def catalog_part_def split: option.splits if_splits)
  show "migrate_timezone cal schema_ok faults now old new db = (q, db') \<Longrightarrow>
     catalog_part (di_tables db') = catalog_part (di_tables db)"
    by (auto simp: migrate_timezone_def Let_def split: sum.splits prod.splits if_splits
        elim!: transaction_keeps)
  show "clear_pending_timezone cal faults tz t = (c, t') \<Longrightarrow> catalog_part t' = catalog_part t"
    by (auto simp: clear_pending_timezone_def split: sum.splits elim!: transaction_keeps)
  show "log_fetch faults now uuid endpoint ok m t = (l, t') \<Longrightarrow> catalog_part t' = catalog_part t"
    by (auto simp: log_fetch_def prune_fetch_logs_def Let_def fetch_log_max_rows_def
        elim!: transaction_keeps)
qed

lemma clear_pending_effect:
  assumes "clear_pending_timezone cal faults tz t = (r, t')"
  shows "case r of
      Inl e \<Rightarrow> t' = t
    | Inr u \<Rightarrow> tb_history t' = tb_history t \<and> engine_value timezone_sync_pending_key t' = None
        \<and> engine_value db_timezone_key t' = engine_value db_timezone_key t"
proof (cases r)
  case (Inl e)
  with assms show ?thesis
    by (auto simp: clear_pending_timezone_def split: sum.splits dest: transaction_Inl)
next
  case (Inr u)
  with assms obtain z where "transaction faults [delete_expected_pending cal z] t = (Inr u, t')"
    by (auto simp: clear_pending_timezone_def split: sum.splits)
  then obtain i where "exec_all faults i [delete_expected_pending cal z] t = Inr t'"
    using transaction_Inr by blast
  with Inr show ?thesis
    by (auto simp: delete_expected_pending_def engine_value_def split: if_splits option.splits sum.splits)
qed

lemma clear_pending_instance_ok:
  assumes "instance_ok cal db" and "clear_pending_timezone cal faults tz (di_tables db) = (r, t')"
  shows "instance_ok cal (db\<lparr>di_tables := t'\<rparr>)"
  using clear_pending_effect [OF assms(2)] assms(1)
  by (cases r) (simp_all add: instance_ok_iff recorded_timezone_def history_ok_def)

section \<open>The tables stay consistent\<close>

definition store_ok :: "('snap, 'tz) db_lib \<Rightarrow> 'tz db_instance \<Rightarrow> bool" where
  "store_ok lib db \<longleftrightarrow> instance_ok (dl_calendar lib) db \<and> catalog_ok (di_tables db)"

lemma mapping_catalog_ok:
  assumes "catalog_ok t"
  shows "catalog_ok (snd (put_provider_station_mapping sha faults now s t))"
proof -
  show ?thesis
    using assms
    by (auto simp: put_provider_station_mapping_def catalog_ok_def catalog_keys_ok_def
        provinces_counted_def cities_counted_def cities_in_known_scopes_def
        dest!: set_hputD split: option.split)
qed

lemma handle_bundle_ok:
  assumes "calendar_ok (dl_calendar lib)" and ok: "store_ok lib db"
    and "handle_migrate_bundle lib env old new finalize failure (db, w) = (r, m, db', w')"
  shows "store_ok lib db'"
proof -
  let ?cal = "dl_calendar lib"
  obtain q db1 where mig: "migrate_timezone ?cal (de_schema_ok env) (de_faults env) (de_now env) old new db
      = (q, db1)" by fastforce
  have i1: "instance_ok ?cal db1"
    using migrate_instance_ok [OF assms(1), of db "de_schema_ok env" "de_faults env" "de_now env" old new]
      ok mig by (simp add: store_ok_def)
  have c1: "catalog_ok (di_tables db1)"
    using catalog_ok_part [OF history_keeps_catalog(2) [OF mig]] ok by (simp add: store_ok_def)
  obtain c t where clr: "clear_pending_timezone ?cal (de_clear_faults env) new (di_tables db1) = (c, t)"
    by fastforce
  have i2: "instance_ok ?cal (db1\<lparr>di_tables := t\<rparr>)" by (rule clear_pending_instance_ok [OF i1 clr])
  have c2: "catalog_ok t" using catalog_ok_part [OF history_keeps_catalog(3) [OF clr]] c1 by simp
  have "db' = db1 \<or> db' = db1\<lparr>di_tables := t\<rparr>"
    using assms(3) by (auto simp: handle_migrate_bundle_def mig clr Let_def
        split: sum.splits option.splits prod.splits)
  with i1 c1 i2 c2 show ?thesis by (auto simp: store_ok_def)
qed

lemma on_tables_ok:
  assumes "store_ok lib db" and "on_tables f db = (r, db')"
    and "\<And>q t'. f (di_tables db) = (q, t') \<Longrightarrow> history_part t' = history_part (di_tables db)"
    and "catalog_ok (snd (f (di_tables db)))"
  shows "store_ok lib db'"
proof -
  obtain q t' where f: "f (di_tables db) = (q, t')" by fastforce
  with assms(2) have "db' = db\<lparr>di_tables := t'\<rparr>" by (auto simp: on_tables_def)
  with assms(1,3,4) f instance_ok_part [of db' db] show ?thesis by (simp add: store_ok_def)
qed

lemma log_fetch_catalog_ok: "catalog_ok t \<Longrightarrow> catalog_ok (snd (log_fetch faults now uuid endpoint ok m t))"
  using catalog_ok_part [OF history_keeps_catalog(4) [OF surjective_pairing]] by blast

lemma handle_command_ok:
  assumes "calendar_ok (dl_calendar lib)" and "store_ok lib db"
    and "handle_command lib env cmd (db, w) = (r, m, db', w')"
  shows "store_ok lib db'"
proof -
  have put: "store_ok lib db1" if p: "put_history_snapshot (dl_codec lib) (dl_sha lib) (dl_calendar lib)
      (de_faults env) s f db = (q, db1)" for s f q db1
    using put_instance_ok [of "dl_calendar lib" db "dl_codec lib" "dl_sha lib" "de_faults env" s f]
      catalog_ok_part [OF history_keeps_catalog(1) [OF p]] p assms(2)
    by (simp add: store_ok_def)
  have cat: "catalog_ok (di_tables db)" using assms(2) by (simp add: store_ok_def)
  show ?thesis
  proof (cases cmd)
    case (PutHistorySnapshot s f)
    with assms(3) put show ?thesis by (auto simp: handle_command_def split: prod.splits)
  next
    case (MigrateTimezoneBundle old new fin failure)
    with assms show ?thesis by (auto simp: handle_command_def intro: handle_bundle_ok)
  next
    case (ReplaceProviderProvinces pv ps)
    with assms(3) have "on_tables (replace_provider_provinces (de_faults env) (de_now env) pv ps) db = (r, db')"
      by (auto simp: handle_command_def split: prod.splits)
    then show ?thesis
      by (rule on_tables_ok [OF assms(2)]) (erule replace_keeps_history(1), rule replace_catalog_ok(1) [OF cat])
  next
    case (ReplaceProviderCities pv code cs)
    with assms(3) have "on_tables (replace_provider_cities (de_faults env) (de_now env) pv code cs) db = (r, db')"
      by (auto simp: handle_command_def split: prod.splits)
    then show ?thesis
      by (rule on_tables_ok [OF assms(2)]) (erule replace_keeps_history(2), rule replace_catalog_ok(2) [OF cat])
  next
    case (PutProviderStationMapping st)
    with assms(3) have "on_tables (put_provider_station_mapping (dl_sha lib) (de_faults env) (de_now env) st) db = (r, db')"
      by (auto simp: handle_command_def split: prod.splits)
    then show ?thesis
      by (rule on_tables_ok [OF assms(2)]) (erule replace_keeps_history(4), rule mapping_catalog_ok [OF cat])
  next
    case (LogFetch uuid endpoint ok message)
    with assms(3) have "on_tables (log_fetch (de_faults env) (de_now env) uuid endpoint ok message) db = (r, db')"
      by (auto simp: handle_command_def split: prod.splits)
    then show ?thesis
      by (rule on_tables_ok [OF assms(2)]) (erule replace_keeps_history(3), rule log_fetch_catalog_ok [OF cat])
  qed (use assms in \<open>auto simp: handle_command_def\<close>)
qed

section \<open>The internal checks never fire\<close>

definition internal_error :: "db_error \<Rightarrow> bool" where
  "internal_error e \<longleftrightarrow>
     (case e of
        CatalogCountMismatch provider kind scope expected actual \<Rightarrow> True
      | CityWithoutState provider scope code \<Rightarrow> True
      | StagedCountMismatch staged expected \<Rightarrow> True
      | _ \<Rightarrow> False)"

lemma not_internal [simp]:
  "\<not> internal_error SqlFailed"
  "\<not> internal_error ConstraintViolated"
  "\<not> internal_error ProviderEmpty"
  "\<not> internal_error ProvinceCodeEmpty"
  "\<not> internal_error (CodeEmpty a)"
  "\<not> internal_error (CodeDuplicate a b)"
  "\<not> internal_error (CityWrongScope a b c)"
  "\<not> internal_error RowCountOverflow"
  "\<not> internal_error StationNameBlank"
  "\<not> internal_error StationUuidBlank"
  "\<not> internal_error (StationUuidNotCanonical a b)"
  "\<not> internal_error (TimestampInvalid t)"
  "\<not> internal_error SnapshotStationMissing"
  "\<not> internal_error (SnapshotSchemaUnsupported a b c)"
  "\<not> internal_error (SnapshotUndecodable a b)"
  "\<not> internal_error (CursorInvalid a)"
  "\<not> internal_error PageSizeOverflow"
  "\<not> internal_error (DbTimezoneInvalid a b)"
  "\<not> internal_error TimezoneMetadataMissing"
  "\<not> internal_error (TimezonePendingMismatch a b c)"
  "\<not> internal_error (TimezoneDiffers a b)"
  "\<not> internal_error (TimezoneSyncPending a)"
  "\<not> internal_error (TimezoneNotOld a b)"
  "\<not> internal_error (TimezonePendingNotExpected a b)"
  "\<not> internal_error (TimezonePendingNotStored a b)"
  "\<not> internal_error HistorySchemaUnsupported"
  "\<not> internal_error MigrationRefused"
  by (simp_all add: internal_error_def)

definition harmless :: "db_error + 'a \<Rightarrow> bool" where
  "harmless r \<longleftrightarrow> (case r of Inl e \<Rightarrow> \<not> internal_error e | Inr x \<Rightarrow> True)"

lemma harmless_simps [simp]:
  "harmless (Inr x)" "harmless (Inl e) = (\<not> internal_error e)"
  by (simp_all add: harmless_def)

lemma transaction_harmless:
  "transaction faults ss t = (r, t') \<Longrightarrow> (\<And>s t. s \<in> set ss \<Longrightarrow> harmless (s t)) \<Longrightarrow> harmless r"
proof (cases r)
  case (Inl e)
  assume tx: "transaction faults ss t = (r, t')" and ok: "\<And>s t. s \<in> set ss \<Longrightarrow> harmless (s t)"
  from transaction_error [OF tx [unfolded Inl]] show ?thesis
  proof (elim disjE bexE exE)
    fix s t1 assume "s \<in> set ss" "s t1 = Inl e"
    with ok [of s t1] Inl show ?thesis by simp
  qed (simp add: Inl)
qed simp

lemma statements_harmless [simp]:
  "harmless (delete_provinces pv t)" "harmless (insert_province pv now p t)"
  "harmless (delete_orphan_cities pv t)" "harmless (delete_orphan_states pv t)"
  "harmless (delete_orphan_mappings pv t)" "harmless (delete_scope_mappings pv code t)"
  "harmless (delete_scope_cities pv code t)" "harmless (insert_city pv code now c t)"
  "harmless (upsert_catalog_state pv kind scope now n t)"
  "harmless (insert_fetch_log uuid endpoint ok m now t)" "harmless (delete_old_logs before t)"
  "harmless (delete_excess_logs rows t)"
  by (auto simp: delete_provinces_def insert_province_def insert_city_def
      delete_orphan_cities_def delete_orphan_states_def delete_orphan_mappings_def Let_def
      delete_scope_mappings_def delete_scope_cities_def upsert_catalog_state_def insert_fetch_log_def
      delete_old_logs_def delete_excess_logs_def split: option.splits)

lemma catalog_checks_harmless:
  "validate_provider pv = Some e \<Longrightarrow> \<not> internal_error e"
  "validate_unique_codes kind seen codes = Some e \<Longrightarrow> \<not> internal_error e"
  "first_wrong_scope code cs = Some e \<Longrightarrow> \<not> internal_error e"
proof -
  show "validate_provider pv = Some e \<Longrightarrow> \<not> internal_error e"
    by (auto simp: validate_provider_def split: if_splits)
  show "validate_unique_codes kind seen codes = Some e \<Longrightarrow> \<not> internal_error e"
    by (induction codes arbitrary: seen) (auto split: if_splits)
  show "first_wrong_scope code cs = Some e \<Longrightarrow> \<not> internal_error e"
    by (induction cs) (auto split: if_splits)
qed

lemma writes_harmless:
  "harmless (fst (replace_provider_provinces faults now pv ps t))"
  "harmless (fst (replace_provider_cities faults now pv code cs t))"
  "harmless (fst (put_provider_station_mapping sha faults now st t))"
  "harmless (fst (log_fetch faults now uuid endpoint ok m t))"
  "harmless (fst (put_history_snapshot codec sha cal faults s f db))"
proof -
  have tx: "harmless (fst (transaction faults ss t))" if "\<And>s t. s \<in> set ss \<Longrightarrow> harmless (s t)" for ss
  proof -
    obtain r t' where "transaction faults ss t = (r, t')" by fastforce
    with transaction_harmless that show ?thesis by (metis fst_conv)
  qed
  show "harmless (fst (replace_provider_provinces faults now pv ps t))"
    by (auto simp: replace_provider_provinces_def validate_provider_province_catalog_def
        intro!: tx dest: catalog_checks_harmless split: option.split)
  have cities: "validate_provider_city_catalog code cs = Some e \<Longrightarrow> \<not> internal_error e" for e
    by (auto simp: validate_provider_city_catalog_def
        dest: catalog_checks_harmless split: if_splits option.splits)
  show "harmless (fst (replace_provider_cities faults now pv code cs t))"
    by (auto simp: replace_provider_cities_def
        intro!: tx dest: catalog_checks_harmless cities split: option.split)
  show "harmless (fst (put_provider_station_mapping sha faults now st t))"
    by (auto simp: put_provider_station_mapping_def validate_provider_def split: option.split)
  show "harmless (fst (log_fetch faults now uuid endpoint ok m t))"
    by (auto simp: log_fetch_def prune_fetch_logs_def Let_def fetch_log_max_rows_def intro!: tx)
  show "harmless (fst (put_history_snapshot codec sha cal faults s f db))"
    by (auto simp: put_history_snapshot_def Let_def split: option.split)
qed

lemma reads_harmless:
  "catalog_ok t \<Longrightarrow> harmless (get_provider_provinces faults pv t)"
  "catalog_ok t \<Longrightarrow> harmless (get_provider_cities faults pv s t)"
  "catalog_ok t \<Longrightarrow> harmless (get_all_provider_city_scopes faults pv t)"
  "harmless (get_provider_station_by_uuid faults pv u t)"
  "harmless (get_provider_station_by_name faults pv u t)"
  "harmless (get_db_timezone faults t)"
proof -
  show "harmless (get_provider_provinces faults pv t)" if "catalog_ok t"
    using catalog_reads(1) [OF that, of faults pv] by (auto simp: harmless_def read_failure_def split: sum.splits)
  show "harmless (get_provider_cities faults pv s t)" if "catalog_ok t"
    using catalog_reads(2) [OF that, of faults pv s] by (auto simp: harmless_def read_failure_def split: sum.splits)
  show "harmless (get_all_provider_city_scopes faults pv t)" if "catalog_ok t"
    using catalog_reads(3) [OF that, of faults pv] by (auto simp: harmless_def read_failure_def split: sum.splits)
qed (simp_all add: get_provider_station_by_uuid_def get_provider_station_by_name_def get_db_timezone_def)

lemma decode_harmless: "harmless (decode_stored_snapshot codec u r)"
  by (auto simp: decode_stored_snapshot_def split: option.split)

lemma collect_harmless: "(\<And>x. harmless (f x)) \<Longrightarrow> harmless (collect_results f xs)"
proof (induction xs)
  case (Cons x xs)
  from Cons.prems [of x] Cons.IH [OF Cons.prems] show ?case
    by (cases "f x"; cases "collect_results f xs") simp_all
qed simp

lemma history_reads_harmless:
  "harmless (get_latest_snapshot codec faults u t)"
  "harmless (get_history_snapshot_page codec cal faults u before n t)"
proof -
  show "harmless (get_latest_snapshot codec faults u t)"
  proof (cases "latest_row u (tb_history t)")
    case (Some r)
    with decode_harmless [of codec u r] show ?thesis
      by (cases "decode_stored_snapshot codec u r") (simp_all add: get_latest_snapshot_def)
  qed (simp add: get_latest_snapshot_def)
  have "harmless (collect_results (decode_stored_snapshot codec u) rows)" for rows
    by (rule collect_harmless) (rule decode_harmless)
  then have "harmless (case collect_results (decode_stored_snapshot codec u) rows of
      Inl e \<Rightarrow> Inl e | Inr ss \<Rightarrow> Inr \<lparr>sp_snapshots = ss, sp_has_more = more\<rparr>)" for rows more
    by (cases "collect_results (decode_stored_snapshot codec u) rows") (simp_all, metis harmless_simps(2))
  then show "harmless (get_history_snapshot_page codec cal faults u before n t)"
    by (auto simp: get_history_snapshot_page_def Let_def split: option.split)
qed

lemma migrate_known_errors:
  assumes "migrate_timezone cal schema_ok faults now old new db = (Inl e, db')"
    and "\<nexists>a b. e = StagedCountMismatch a b"
  shows "\<not> internal_error e"
proof -
  have st: "\<not> internal_error x" if "s t = Inl x" "\<nexists>a b. x = StagedCountMismatch a b"
      "s \<in> {check_not_pending, check_stored_timezone cal z tz, check_history_schema b,
        rebuild_history cal z', upsert_engine_value k v n, upsert_engine_value k' v' n'}"
    for s t x z tz b z' k v n k' v' n'
    using that
    by (auto simp: check_not_pending_def check_stored_timezone_def check_history_schema_def
        rebuild_history_def upsert_engine_value_def parse_timezone_def Let_def
        split: option.splits sum.splits if_splits)
  from assms show ?thesis
    by (auto simp: migrate_timezone_def parse_timezone_def Let_def split: option.splits sum.splits prod.splits if_splits
        dest!: transaction_error dest: st)
qed

lemma migrate_harmless:
  "instance_ok cal db \<Longrightarrow> harmless (fst (migrate_timezone cal schema_ok faults now old new db))"
proof -
  assume ok: "instance_ok cal db"
  obtain r db' where m: "migrate_timezone cal schema_ok faults now old new db = (r, db')" by fastforce
  show ?thesis
  proof (cases r)
    case (Inl e)
    from migrate_cases [OF m ok] Inl have "\<nexists>a b. e = StagedCountMismatch a b" by auto
    with migrate_known_errors [OF m [unfolded Inl]] m Inl show ?thesis by simp
  qed (simp add: m)
qed

definition reply_harmless :: "'snap db_reply \<Rightarrow> bool" where
  "reply_harmless r \<longleftrightarrow> (case r of Inl (StorageError e) \<Rightarrow> \<not> internal_error e | _ \<Rightarrow> True)"

lemma reply_of_harmless: "harmless r \<Longrightarrow> reply_harmless (reply_of f r)"
  by (cases r) (simp_all add: reply_harmless_def reply_of_def)

lemma on_tables_harmless:
  "on_tables f db = (r, db') \<Longrightarrow> harmless (fst (f (di_tables db))) \<Longrightarrow> reply_harmless r"
  by (auto simp: on_tables_def reply_of_harmless split: prod.splits)

lemma bundle_harmless:
  assumes "instance_ok (dl_calendar lib) db"
    and "handle_migrate_bundle lib env old new finalize failure (db, w) = (r, rest)"
  shows "reply_harmless r"
  using assms migrate_harmless [of "dl_calendar lib" db "de_schema_ok env" "de_faults env" "de_now env" old new]
  by (auto simp: handle_migrate_bundle_def Let_def reply_harmless_def
      split: prod.splits sum.splits option.splits)

lemma handle_command_harmless:
  assumes "store_ok lib db" and "handle_command lib env cmd (db, w) = (r, rest)"
  shows "reply_harmless r"
proof -
  from assms(1) have cat: "catalog_ok (di_tables db)" and inst: "instance_ok (dl_calendar lib) db"
    by (simp_all add: store_ok_def)
  show ?thesis
  proof (cases cmd)
    case (MigrateTimezoneBundle old new fin failure)
    with assms(2) inst show ?thesis by (auto simp: handle_command_def intro: bundle_harmless)
  next
    case (PutHistorySnapshot s f)
    with assms(2) writes_harmless(5) [of "dl_codec lib" "dl_sha lib" "dl_calendar lib" "de_faults env" s f db]
    show ?thesis by (auto simp: handle_command_def reply_of_harmless split: prod.splits)
  qed (use assms(2) cat in \<open>auto simp: handle_command_def reply_of_harmless reads_harmless
        history_reads_harmless split: prod.splits intro: on_tables_harmless writes_harmless\<close>)
qed

section \<open>The invariant of the actor\<close>

definition gate_ids :: "('snap, 'tz, 'w) db_actor \<Rightarrow> nat list" where
  "gate_ids a = (case da_gate a of None \<Rightarrow> [] | Some entry \<Rightarrow> [fst entry])"

text \<open>What was admitted is answered, queued or at the gate, in this order; every call is either
  admitted or refused, once.\<close>

definition calls_ok :: "('snap, 'tz, 'w) db_actor \<Rightarrow> bool" where
  "calls_ok a \<longleftrightarrow>
     (let admitted = map fst (da_answered a) @ map fst (da_queue a) @ gate_ids a
      in da_admitted a = admitted
         \<and> distinct (admitted @ map fst (da_refused a))
         \<and> set (admitted @ map fst (da_refused a)) = {..<da_next a}
         \<and> length (da_queue a) \<le> channel_capacity)"

definition phases_ok :: "('snap, 'tz, 'w) db_actor \<Rightarrow> bool" where
  "phases_ok a \<longleftrightarrow>
     da_sender a = (da_phase a = PhaseOpen \<or> da_phase a = PhasePoisoned)
     \<and> (da_phase a = PhaseClosed) = (da_terminal a \<noteq> None)
     \<and> (case da_worker a of
          WorkerRunning None \<Rightarrow> da_poison a = None
        | WorkerRunning (Some m) \<Rightarrow> da_poison a = Some m \<and> da_phase a \<noteq> PhaseOpen
        | WorkerPoisoning m \<Rightarrow> da_poison a = None
        | WorkerEnded out \<Rightarrow> \<not> da_sender a \<and> da_queue a = [] \<and> da_gate a = None)
     \<and> (da_phase a = PhasePoisoned \<longrightarrow> da_poison a \<noteq> None)
     \<and> (\<forall>out. da_terminal a = Some out \<longrightarrow> da_worker a = WorkerEnded out)"

definition data_ok :: "('snap, 'tz) db_lib \<Rightarrow> ('snap, 'tz, 'w) db_actor \<Rightarrow> bool" where
  "data_ok lib a \<longleftrightarrow> store_ok lib (fst (da_store a))
     \<and> (\<forall>(i, r)\<in>set (da_answered a). reply_harmless r)"

lemmas actor_defs = admit_call_def close_sender_def mark_closing_def answer_def actor_poison_def

lemma admit_call_cases:
  assumes "da_gate a = None"
  shows "(\<exists>e. admit_call cmd a = a\<lparr>da_next := Suc (da_next a), da_refused := da_refused a @ [(da_next a, Inl e)]\<rparr>
      \<and> (da_phase a = PhaseOpen \<longrightarrow> \<not> da_sender a))
    \<or> admit_call cmd a = a\<lparr>da_next := Suc (da_next a), da_gate := Some (da_next a, cmd),
        da_admitted := da_admitted a @ [da_next a]\<rparr> \<and> da_phase a = PhaseOpen \<and> da_sender a"
  by (cases "da_phase a") (auto simp: admit_call_def Let_def)

lemma calls_ok_step:
  assumes "actor_step lib a b" and "calls_ok a" and "phases_ok a"
  shows "calls_ok b"
  using assms
proof (induction rule: actor_step.induct)
  case (call a cmd)
  let ?ids = "map fst (da_answered a) @ map fst (da_queue a) @ map fst (da_refused a)"
  from call have adm: "da_admitted a = map fst (da_answered a) @ map fst (da_queue a)"
    and d: "distinct ?ids" and c: "set ?ids = {..<da_next a}" and l: "length (da_queue a) \<le> channel_capacity"
    by (simp_all add: calls_ok_def gate_ids_def Let_def Int_Un_distrib Int_Un_distrib2 Un_assoc)
  have new: "da_next a \<notin> set ?ids" unfolding c by simp
  have all: "insert (da_next a) (set ?ids) = {..<Suc (da_next a)}" unfolding c by (simp add: lessThan_Suc)
  from admit_call_cases [OF call(2), of cmd] show ?case
  proof (elim disjE exE conjE)
    fix e
    assume "admit_call cmd a = a\<lparr>da_next := Suc (da_next a), da_refused := da_refused a @ [(da_next a, Inl e)]\<rparr>"
    then show ?case using adm d new all l call(2) 
      by (simp add: calls_ok_def gate_ids_def Int_Un_distrib Int_Un_distrib2 Un_assoc)
  next
    assume "admit_call cmd a = a\<lparr>da_next := Suc (da_next a), da_gate := Some (da_next a, cmd),
        da_admitted := da_admitted a @ [da_next a]\<rparr>"
    then show ?case using adm d new all l 
      by (simp add: calls_ok_def gate_ids_def Int_Un_distrib Int_Un_distrib2 Un_assoc Un_insert_right)
  qed
next
  case (send_failed a entry out)
  then show ?case by (simp add: phases_ok_def)
qed (auto simp: calls_ok_def gate_ids_def close_sender_def answer_def actor_poison_def Let_def)

lemma phases_ok_step:
  assumes "actor_step lib a b" and "phases_ok a"
  shows "phases_ok b"
  using assms
  by (induction rule: actor_step.induct)
     (auto simp: phases_ok_def actor_defs Let_def split: actor_phase.splits worker_state.splits option.splits)

lemma data_ok_step:
  assumes "actor_step lib a b" and "data_ok lib a" and "calendar_ok (dl_calendar lib)"
  shows "data_ok lib b"
  using assms
proof (induction rule: actor_step.induct)
  case (serve a i cmd rest env r store)
  obtain db w db' w' where s: "da_store a = (db, w)" "store = (db', w')" by fastforce
  with serve handle_command_ok [of lib db env cmd w r None db' w'] handle_command_harmless [of lib db env cmd w r]
  show ?case by (simp add: data_ok_def answer_def)
next
  case (serve_poisoning a i cmd rest env r m store)
  obtain db w db' w' where s: "da_store a = (db, w)" "store = (db', w')" by fastforce
  with serve_poisoning handle_command_ok [of lib db env cmd w r "Some m" db' w']
    handle_command_harmless [of lib db env cmd w r]
  show ?case by (simp add: data_ok_def answer_def)
qed (auto simp: data_ok_def actor_defs Let_def reply_harmless_def split: actor_phase.split)

lemma actor_run_invariant:
  assumes "actor_run lib a b" and "\<And>x y. actor_step lib x y \<Longrightarrow> P x \<Longrightarrow> P y" and "P a"
  shows "P b"
  using assms(1,3) by (induction) (auto intro: assms(2))

lemma start_ok: "calls_ok (actor_start db w)" "phases_ok (actor_start db w)"
  by (simp_all add: calls_ok_def phases_ok_def gate_ids_def actor_start_def)

lemma run_ok:
  assumes "actor_run lib (actor_start db w) a"
  shows "calls_ok a" "phases_ok a"
proof -
  have "calls_ok a \<and> phases_ok a"
    by (rule actor_run_invariant [where P = "\<lambda>a. calls_ok a \<and> phases_ok a", OF assms])
       (auto intro: calls_ok_step phases_ok_step start_ok)
  then show "calls_ok a" "phases_ok a" by simp_all
qed

lemma actor_run_trans: "actor_run lib b c \<Longrightarrow> actor_run lib a b \<Longrightarrow> actor_run lib a c"
  by (induction rule: actor_run.induct) (auto intro: actor_run.run_step)

section \<open>Properties\<close>


definition sample_lib :: "(station_ref, nat) db_lib" where
  "sample_lib = \<lparr>dl_codec = sample_codec, dl_sha = (\<lambda>b. b), dl_calendar = sample_calendar,
     dl_show = (\<lambda>e. [])\<rparr>"

definition sample_actor :: "(station_ref, nat, unit) db_actor" where
  "sample_actor = actor_start (fresh_instance sample_calendar 0 2) ()"


text \<open>
  Also: Whatever commands are sent, with whatever statements failing, the database stays
  consistent: rows dated in the recorded time zone, catalogs that agree with their cache state;
  and no reply ever reports a corrupt catalog or a miscounted migration, so the code's internal
  checks never fire.
\<close>

theorem actor_tables_stay_consistent:
  assumes "calendar_ok (dl_calendar lib)" and "store_ok lib db"
    and "actor_run lib (actor_start db w) a"
  shows "store_ok lib (fst (da_store a))
    \<and> (\<forall>(i, r)\<in>set (da_answered a). case r of Inl (StorageError e) \<Rightarrow> \<not> internal_error e | _ \<Rightarrow> True)"
proof -
  have "data_ok lib (actor_start db w)" using assms(2) by (simp add: data_ok_def actor_start_def)
  with assms(3) have "data_ok lib a"
    using data_ok_step [OF _ _ assms(1)] actor_run_invariant [where P = "data_ok lib"] by metis
  then show ?thesis by (simp add: data_ok_def reply_harmless_def)
qed

lemma sample_store_ok: "store_ok sample_lib (fresh_instance sample_calendar 0 2)"
proof -
  have "catalog_ok (initial_schema\<lparr>tb_engine_state := x\<rparr>)" for x
    using catalog_ok_part [OF _, of "initial_schema\<lparr>tb_engine_state := x\<rparr>" initial_schema] catalog_ok_initial
    by (simp add: catalog_part_def)
  then show ?thesis
    using fresh_instance_ok [OF sample_calendar_ok, of 0 2]
    by (simp add: store_ok_def sample_lib_def fresh_instance_value [OF sample_calendar_ok])
qed

lemma actor_tables_stay_consistent_witness:
  "store_ok sample_lib (fst (da_store sample_actor))"
  using actor_tables_stay_consistent [of sample_lib, OF _ sample_store_ok, where w = "()"
      and a = sample_actor] sample_calendar_ok actor_run.run_start [of sample_lib sample_actor]
  by (simp add: sample_actor_def sample_lib_def)

definition worker_poisoned :: "ustring \<Rightarrow> ('snap, 'tz, 'w) db_actor \<Rightarrow> bool" where
  "worker_poisoned m a \<longleftrightarrow>
     da_worker a = WorkerRunning (Some m) \<or> (da_worker a = WorkerPoisoning m \<and> da_poison a = None)"

lemma poisoned_step:
  assumes "actor_step lib a b" and "phases_ok a"
    and "worker_poisoned m a \<or> (\<exists>out. da_worker a = WorkerEnded out)"
  shows "da_store b = da_store a
    \<and> (worker_poisoned m b \<or> (\<exists>out. da_worker b = WorkerEnded out))
    \<and> (\<exists>rs. da_answered b = da_answered a @ rs \<and> (\<forall>(i, r)\<in>set rs. r = Inl (ActorPoisoned m)))"
  using assms
  by (induction rule: actor_step.induct)
     (auto simp: worker_poisoned_def phases_ok_def actor_defs Let_def
       split: actor_phase.splits option.splits worker_state.splits)

text \<open>
  Also: A poisoned database is frozen: once the post-commit failure of a time-zone migration has
  been reported, no step of anybody changes the tables, the open time zone or the outside world
  through the worker, and every further reply to an admitted command is the same poison error.
\<close>

theorem poisoned_database_is_frozen:
  assumes "actor_run lib (actor_start db w) a" and "worker_poisoned m a" and "actor_run lib a b"
  shows "da_store b = da_store a
    \<and> (\<exists>rs. da_answered b = da_answered a @ rs \<and> (\<forall>(i, r)\<in>set rs. r = Inl (ActorPoisoned m)))"
proof -
  have "da_store b = da_store a
    \<and> (worker_poisoned m b \<or> (\<exists>out. da_worker b = WorkerEnded out))
    \<and> (\<exists>rs. da_answered b = da_answered a @ rs \<and> (\<forall>(i, r)\<in>set rs. r = Inl (ActorPoisoned m)))"
    using assms(3,1,2)
  proof (induction rule: actor_run.induct)
    case (run_start a)
    then show ?case by simp
  next
    case (run_step a b c)
    have "phases_ok b" using run_ok(2) [OF actor_run_trans [OF run_step.hyps(1) run_step.prems(1)]] .
    with poisoned_step [OF run_step.hyps(2), of m] run_step.IH [OF run_step.prems]
    show ?case by fastforce
  qed
  then show ?thesis by blast
qed

text \<open>A run of the sample actor into the poisoned state: a migration whose finalizer fails.\<close>

definition failing_bundle :: "(station_ref, unit) db_command" where
  "failing_bundle = MigrateTimezoneBundle [65, 65] [65] (\<lambda>w. (Some [66], w)) (\<lambda>m w. w)"

lemma failing_bundle_poisons:
  "\<exists>r m store. handle_command sample_lib
       \<lparr>de_faults = \<lambda>i. False, de_clear_faults = \<lambda>i. False, de_now = 0, de_schema_ok = True\<rparr>
       failing_bundle (fresh_instance sample_calendar 0 2, ()) = (r, Some m, store)"
  using sample_migration
  by (auto simp: handle_command_def failing_bundle_def handle_migrate_bundle_def sample_lib_def Let_def)

lemma sample_poisoned:
  "\<exists>a m. actor_run sample_lib sample_actor a \<and> worker_poisoned m a \<and> da_sender a \<and> da_gate a = None
     \<and> 0 < da_handles a"
proof -
  obtain r m store where h: "handle_command sample_lib
       \<lparr>de_faults = \<lambda>i. False, de_clear_faults = \<lambda>i. False, de_now = 0, de_schema_ok = True\<rparr>
       failing_bundle (fresh_instance sample_calendar 0 2, ()) = (r, Some m, store)"
    using failing_bundle_poisons by blast
  let ?a1 = "admit_call failing_bundle sample_actor"
  let ?a2 = "?a1\<lparr>da_gate := None, da_queue := da_queue ?a1 @ [(0, failing_bundle)]\<rparr>"
  let ?a3 = "answer 0 r (?a2\<lparr>da_queue := [], da_store := store, da_worker := WorkerPoisoning m\<rparr>)"
  have "actor_step sample_lib sample_actor ?a1"
    by (rule actor_step.call) (simp_all add: sample_actor_def actor_start_def)
  moreover have "actor_step sample_lib ?a1 ?a2"
    by (rule actor_step.send)
       (simp_all add: admit_call_def sample_actor_def actor_start_def channel_capacity_def)
  moreover have "actor_step sample_lib ?a2 ?a3"
  proof (rule actor_step.serve_poisoning)
    show "da_worker ?a2 = WorkerRunning None" "da_queue ?a2 = [(0, failing_bundle)]"
      by (simp_all add: admit_call_def sample_actor_def actor_start_def)
    have "da_store ?a2 = (fresh_instance sample_calendar 0 2, ())"
      by (simp add: admit_call_def sample_actor_def actor_start_def)
    with h show "handle_command sample_lib
       \<lparr>de_faults = \<lambda>i. False, de_clear_faults = \<lambda>i. False, de_now = 0, de_schema_ok = True\<rparr>
       failing_bundle (da_store ?a2) = (r, Some m, store)"
      by (simp only:)
  qed
  ultimately have "actor_run sample_lib sample_actor ?a3"
    by (meson actor_run.run_start actor_run.run_step)
  moreover have "worker_poisoned m ?a3" "da_sender ?a3" "da_gate ?a3 = None" "0 < da_handles ?a3"
    by (simp_all add: worker_poisoned_def answer_def admit_call_def sample_actor_def actor_start_def)
  ultimately show ?thesis by blast
qed

lemma poisoned_database_is_frozen_witness:
  "\<exists>a m. actor_run sample_lib sample_actor a \<and> worker_poisoned m a
     \<and> da_store (admit_call GetDbTimezone a) = da_store a"
proof -
  obtain a m where a: "actor_run sample_lib sample_actor a" "worker_poisoned m a" "0 < da_handles a"
      "da_gate a = None"
    using sample_poisoned by blast
  have "actor_run sample_lib a (admit_call GetDbTimezone a)"
    by (rule actor_run.run_step [OF actor_run.run_start actor_step.call [OF a(3,4)]])
  from poisoned_database_is_frozen [OF a(1) [unfolded sample_actor_def] a(2) this] a show ?thesis by blast
qed

lemma drain:
  assumes "phases_ok a" and "\<not> da_sender a" and "da_gate a = None"
  shows "\<exists>b. actor_run lib a b \<and> da_terminal b \<noteq> None \<and> da_admitted b = da_admitted a"
  using assms
proof (induction "2 * length (da_queue a) + (case da_worker a of WorkerPoisoning m \<Rightarrow> 1 | _ \<Rightarrow> 0)"
    arbitrary: a rule: less_induct)
  case less
  have step: "\<exists>b. actor_run lib a b \<and> da_terminal b \<noteq> None \<and> da_admitted b = da_admitted a"
    if c: "actor_step lib a c" "\<not> da_sender c" "da_gate c = None" "da_admitted c = da_admitted a"
      "2 * length (da_queue c) + (case da_worker c of WorkerPoisoning m \<Rightarrow> 1 | _ \<Rightarrow> 0)
         < 2 * length (da_queue a) + (case da_worker a of WorkerPoisoning m \<Rightarrow> 1 | _ \<Rightarrow> 0)" for c
  proof -
    obtain b where "actor_run lib c b" "da_terminal b \<noteq> None" "da_admitted b = da_admitted c"
      using less.hyps [OF c(5) phases_ok_step [OF c(1) less.prems(1)] c(2,3)] by blast
    moreover have "actor_run lib a c" by (rule actor_run.run_step [OF actor_run.run_start c(1)])
    ultimately show ?thesis using actor_run_trans c(4) by metis
  qed
  have ended: "\<exists>b. actor_run lib x b \<and> da_terminal b \<noteq> None \<and> da_admitted b = da_admitted x"
    if "da_worker x = WorkerEnded out" for x out
  proof (cases "da_terminal x")
    case None
    have "actor_step lib x (x\<lparr>da_phase := PhaseClosed, da_terminal := Some out\<rparr>)"
      by (rule actor_step.reap [OF that None])
    then show ?thesis
      by (intro exI [of _ "x\<lparr>da_phase := PhaseClosed, da_terminal := Some out\<rparr>"])
         (auto intro: actor_run.run_step actor_run.run_start)
  next
    case (Some o')
    then show ?thesis by (intro exI [of _ x]) (simp add: actor_run.run_start)
  qed
  show ?case
  proof (cases "da_worker a")
    case (WorkerEnded out)
    then show ?thesis by (rule ended)
  next
    case (WorkerPoisoning m)
    obtain kept a' where p: "actor_poison m a = (kept, a')" by fastforce
    show ?thesis
      by (rule step [OF actor_step.poison [OF WorkerPoisoning p]])
         (use p less.prems WorkerPoisoning in \<open>auto simp: actor_poison_def Let_def\<close>)
  next
    case (WorkerRunning p)
    show ?thesis
    proof (cases "da_queue a")
      case Nil
      let ?c = "a\<lparr>da_worker := WorkerEnded OutcomeSucceeded\<rparr>"
      have "actor_step lib a ?c" by (rule actor_step.worker_end [OF WorkerRunning Nil less.prems(2,3)])
      then have c: "actor_run lib a ?c" by (rule actor_run.run_step [OF actor_run.run_start])
      obtain b where b: "actor_run lib ?c b" "da_terminal b \<noteq> None" "da_admitted b = da_admitted ?c"
        using ended [of ?c OutcomeSucceeded] by auto
      from b(2,3) actor_run_trans [OF b(1) c] show ?thesis by auto
    next
      case (Cons entry rest)
      obtain i cmd where e: "entry = (i, cmd)" by (cases entry)
      show ?thesis
      proof (cases p)
        case (Some m)
        show ?thesis
          by (rule step [OF actor_step.reject [OF WorkerRunning [unfolded Some] Cons [unfolded e]]])
             (use less.prems WorkerRunning Cons Some in \<open>auto simp: answer_def\<close>)
      next
        case None
        obtain r q store where h: "handle_command lib
            \<lparr>de_faults = \<lambda>i. False, de_clear_faults = \<lambda>i. False, de_now = 0, de_schema_ok = True\<rparr>
            cmd (da_store a) = (r, q, store)"
          by (metis prod_cases3)
        show ?thesis
        proof (cases q)
          case None
          with h have h: "handle_command lib
            \<lparr>de_faults = \<lambda>i. False, de_clear_faults = \<lambda>i. False, de_now = 0, de_schema_ok = True\<rparr>
            cmd (da_store a) = (r, None, store)" by simp
          show ?thesis
            by (rule step [OF actor_step.serve [OF WorkerRunning [unfolded \<open>p = None\<close>] Cons [unfolded e] h]])
               (use less.prems WorkerRunning \<open>p = None\<close> Cons in \<open>auto simp: answer_def\<close>)
        next
          case (Some m)
          with h have h: "handle_command lib
            \<lparr>de_faults = \<lambda>i. False, de_clear_faults = \<lambda>i. False, de_now = 0, de_schema_ok = True\<rparr>
            cmd (da_store a) = (r, Some m, store)" by simp
          show ?thesis
            by (rule step [OF actor_step.serve_poisoning [OF WorkerRunning [unfolded \<open>p = None\<close>]
                  Cons [unfolded e] h]])
               (use less.prems WorkerRunning \<open>p = None\<close> Cons in \<open>auto simp: answer_def\<close>)
        qed
      qed
    qed
  qed
qed

text \<open>
  Also: Shutting down completes: from every reachable state in which the sender is closed (after
  \<open>shutdown\<close> or the drop of the last handle), the worker and the reaper alone can always go on to
  a published outcome, and then every command admitted before has its answer.
\<close>

theorem shutdown_completes:
  assumes "actor_run lib (actor_start db w) a" and "\<not> da_sender a" and "da_gate a = None"
  shows "\<exists>b. actor_run lib a b \<and> da_terminal b \<noteq> None
    \<and> map fst (da_answered b) = da_admitted a \<and> da_phase b = PhaseClosed"
proof -
  obtain b where b: "actor_run lib a b" "da_terminal b \<noteq> None" "da_admitted b = da_admitted a"
    using drain [OF run_ok(2) [OF assms(1)] assms(2,3)] by blast
  note run = actor_run_trans [OF b(1) assms(1)]
  have p: "da_queue b = []" "gate_ids b = []" "da_phase b = PhaseClosed"
    using run_ok(2) [OF run] b(2) by (auto simp: phases_ok_def gate_ids_def)
  with run_ok(1) [OF run] b(3) have "map fst (da_answered b) = da_admitted a"
    by (simp add: calls_ok_def Let_def)
  with b p show ?thesis by blast
qed

lemma shutdown_completes_witness:
  "\<exists>b. actor_run sample_lib (close_sender sample_actor) b \<and> da_terminal b \<noteq> None \<and> da_answered b = []"
proof -
  have "actor_run sample_lib sample_actor (close_sender sample_actor)"
    by (rule actor_run.run_step [OF actor_run.run_start actor_step.shutdown])
       (simp_all add: sample_actor_def actor_start_def)
  from shutdown_completes [OF this [unfolded sample_actor_def]] show ?thesis
    by (auto simp: sample_actor_def close_sender_def actor_start_def)
qed

end
