(* ===== verification/Timezone_Migration.thy ===== *)
theory Timezone_Migration
  imports Config_Commit Router Db_Actor_Spec Db_Migrations
begin

text \<open>
  The handler \<open>MIGRATE_DB_TIMEZONE\<close>
  (\<^verbatim>\<open>weather-core/engine/src/handlers/migrate_tz.rs\<close>), which changes the time zone of the
  database, of the configuration file and of the live configuration together, opening the
  database (\<open>DbInstance::open\<close> of \<^verbatim>\<open>weather-core/db/src/storage.rs\<close>), and the
  recovery at startup (\<open>recover_pending_timezone\<close> and the start of the storage in
  \<^verbatim>\<open>weather-core/engine/src/runtime.rs\<close>). The property shows that a crash at any point
  of a migration leaves files from which the engine starts with both in the same zone.
\<close>

section \<open>The handler\<close>

record migration_world =
  mw_commit :: commit_world
  mw_exit :: engine_control

record timezone_migration =
  tm_old_timezone :: ustring
  tm_new_timezone :: ustring
  tm_rows_rewritten :: nat

datatype tz_error =
    TzConfigInvalid config_error
  | TzPrepareTaskFailed ustring
  | TzPrepareFailed load_error
  | TzDatabase actor_error

text \<open>The callback that runs when a step after the database commit failed.\<close>

definition postcommit_failure :: "ustring \<Rightarrow> migration_world \<Rightarrow> migration_world" where
  "postcommit_failure message w =
     w\<lparr>mw_exit := request_exit ExitRestart (mw_exit w),
       mw_commit := (mw_commit w)\<lparr>cw_state := record_error message (cw_state (mw_commit w))\<rparr>\<rparr>"

text \<open>The finalizer: the prepared file replaces the old one, then the live value changes.\<close>

definition timezone_finalize ::
  "(load_error \<Rightarrow> ustring) \<Rightarrow> disk_faults \<Rightarrow> ustring \<Rightarrow> app_config \<Rightarrow> migration_world
     \<Rightarrow> ustring option \<times> migration_world" where
  "timezone_finalize show_error faults prepared candidate w =
     (case persist_prepared faults prepared (cw_file (mw_commit w)) of
        (Some e, file) \<Rightarrow> (Some (show_error e), w\<lparr>mw_commit := (mw_commit w)\<lparr>cw_file := file\<rparr>\<rparr>)
      | (None, file) \<Rightarrow>
          (None, w\<lparr>mw_commit := \<lparr>cw_state = config_apply candidate (cw_state (mw_commit w)),
                                 cw_file = file\<rparr>\<rparr>))"

text \<open>\<open>refused\<close>: the actor does not admit the command; then neither callback runs.\<close>

definition migrate_timezone_bundle ::
  "('snap, 'tz) db_lib \<Rightarrow> db_env \<Rightarrow> actor_error option \<Rightarrow> ustring \<Rightarrow> ustring
     \<Rightarrow> ('w \<Rightarrow> ustring option \<times> 'w) \<Rightarrow> (ustring \<Rightarrow> 'w \<Rightarrow> 'w) \<Rightarrow> 'tz db_instance \<times> 'w
     \<Rightarrow> (actor_error + nat) \<times> 'tz db_instance \<times> 'w" where
  "migrate_timezone_bundle lib env refused old_tz new_tz finalize on_failure s =
     (case refused of
        Some e \<Rightarrow> (Inl e, s)
      | None \<Rightarrow>
          (case handle_migrate_bundle lib env old_tz new_tz finalize on_failure s of
             (Inl e, poison, s') \<Rightarrow> (Inl e, s')
           | (Inr (RewrittenValue n), poison, s') \<Rightarrow> (Inr n, s')
           | (Inr other, poison, s') \<Rightarrow> (Inl ActorClosed, s')))"

record migration_faults =
  mf_disk :: disk_faults
  mf_task_error :: "ustring option"
  mf_refused :: "actor_error option"
  mf_db :: db_env

definition set_timezone :: "ustring \<Rightarrow> app_config \<Rightarrow> app_config" where
  "set_timezone tz c = c\<lparr>ac_db := (ac_db c)\<lparr>db_timezone := tz\<rparr>\<rparr>"

definition tz_result ::
  "ustring \<Rightarrow> ustring \<Rightarrow> (actor_error + nat) \<times> 's \<Rightarrow> (tz_error + timezone_migration) \<times> 's" where
  "tz_result old_tz new_tz r =
     (case r of
        (Inl e, s) \<Rightarrow> (Inl (TzDatabase e), s)
      | (Inr n, s) \<Rightarrow> (Inr \<lparr>tm_old_timezone = old_tz, tm_new_timezone = new_tz, tm_rows_rewritten = n\<rparr>, s))"

definition migrate_db_timezone ::
  "config_env \<Rightarrow> config_serde \<Rightarrow> (load_error \<Rightarrow> ustring) \<Rightarrow> ('snap, 'tz) db_lib \<Rightarrow> migration_faults \<Rightarrow> ustring
     \<Rightarrow> 'tz db_instance \<times> migration_world
     \<Rightarrow> (tz_error + timezone_migration) \<times> 'tz db_instance \<times> migration_world" where
  "migrate_db_timezone env serde show_error lib faults new_tz s =
     (let current = live_config (cw_state (mw_commit (snd s)));
          old_tz = db_timezone (ac_db current);
          bundle = (\<lambda>finalize. tz_result old_tz new_tz
            (migrate_timezone_bundle lib (mf_db faults) (mf_refused faults) old_tz new_tz finalize
               postcommit_failure s))
      in if old_tz = new_tz then bundle (\<lambda>w. (None, w))
         else
           let candidate = set_timezone new_tz current
           in case validate env candidate of
                Some e \<Rightarrow> (Inl (TzConfigInvalid e), s)
              | None \<Rightarrow>
                  (case mf_task_error faults of
                     Some m \<Rightarrow> (Inl (TzPrepareTaskFailed m), s)
                   | None \<Rightarrow>
                       (case prepare_config_atomic serde (mf_disk faults) candidate of
                          Inl e \<Rightarrow> (Inl (TzPrepareFailed e), s)
                        | Inr prepared \<Rightarrow>
                            bundle (timezone_finalize show_error (mf_disk faults) prepared candidate))))"

definition handle_migrate_db_timezone ::
  "config_env \<Rightarrow> config_serde \<Rightarrow> (load_error \<Rightarrow> ustring) \<Rightarrow> (tz_error \<Rightarrow> ustring) \<Rightarrow> ('snap, 'tz) db_lib
     \<Rightarrow> migration_faults \<Rightarrow> ustring + ustring \<Rightarrow> 'tz db_instance \<times> migration_world
     \<Rightarrow> timezone_migration reply \<times> 'tz db_instance \<times> migration_world" where
  "handle_migrate_db_timezone env serde show_error show_tz_error lib faults decoded s =
     (case decoded of
        Inl e \<Rightarrow> (ReplyError BadRequest e, s)
      | Inr new_tz \<Rightarrow>
          if cal_parse (dl_calendar lib) new_tz = None
          then (ReplyError BadRequest (lit ''invalid timezone `'' @ new_tz @ lit ''`''), s)
          else (case migrate_db_timezone env serde show_error lib faults new_tz s of
                  (Inr m, s') \<Rightarrow> (ReplyOk m, s')
                | (Inl e, s') \<Rightarrow> (ReplyError Database (show_tz_error e), s')))"

section \<open>Opening the database\<close>

datatype open_error = OpenTimezone db_error | OpenSqlite | OpenSchema schema_error | OpenEnsure db_error

record open_faults =
  of_sqlite :: bool
  of_schema :: "nat \<Rightarrow> bool"
  of_ensure :: sql_faults
  of_now :: int

definition db_open ::
  "'tz calendar \<Rightarrow> open_faults \<Rightarrow> ustring \<Rightarrow> file_state \<Rightarrow> (open_error + 'tz db_instance) \<times> file_state" where
  "db_open cal faults config_tz file =
     (case parse_timezone cal config_tz (lit ''configured database timezone'') of
        Inl e \<Rightarrow> (Inl (OpenTimezone e), file)
      | Inr timezone \<Rightarrow>
          if of_sqlite faults then (Inl OpenSqlite, file)
          else (case migrate_schema (of_schema faults) file of
                  (Some e, file') \<Rightarrow> (Inl (OpenSchema e), file')
                | (None, file') \<Rightarrow>
                    (case ensure_timezone cal (of_ensure faults) (of_now faults) config_tz
                            \<lparr>di_tables = fs_tables file', di_timezone = timezone\<rparr> of
                       (Inl e, db) \<Rightarrow> (Inl (OpenEnsure e), file'\<lparr>fs_tables := di_tables db\<rparr>)
                     | (Inr u, db) \<Rightarrow> (Inr db, file'\<lparr>fs_tables := di_tables db\<rparr>))))"

section \<open>Startup\<close>

datatype start_error =
    StartConfig load_error | StartEnvironment | StartInspect db_error | StartRecoverInvalid config_error
  | StartOpen open_error

text \<open>A database without \<open>engine_state\<close> (a new file) has nothing pending.\<close>

definition inspectable_tables :: "file_state option \<Rightarrow> tables option" where
  "inspectable_tables file =
     (case file of
        None \<Rightarrow> None
      | Some fs \<Rightarrow> if lit ''engine_state'' \<in> set (fs_names fs) then Some (fs_tables fs) else None)"

definition recover_pending_timezone ::
  "config_env \<Rightarrow> config_serde \<Rightarrow> 'tz calendar \<Rightarrow> sql_faults \<Rightarrow> disk_faults \<Rightarrow> file_state option
     \<Rightarrow> app_config \<Rightarrow> ustring option \<Rightarrow> (start_error + bool \<times> app_config) \<times> ustring option" where
  "recover_pending_timezone env serde cal sql disk dbfile config file =
     (case inspect_pending_timezone cal sql (inspectable_tables dbfile) of
        Inl e \<Rightarrow> (Inl (StartInspect e), file)
      | Inr None \<Rightarrow> (Inr (False, config), file)
      | Inr (Some target) \<Rightarrow>
          if db_timezone (ac_db config) = target then (Inr (False, config), file)
          else
            let recovered = set_timezone target config
            in case validate env recovered of
                 Some e \<Rightarrow> (Inl (StartRecoverInvalid e), file)
               | None \<Rightarrow>
                   (case write_config_atomic serde disk recovered file of
                      (Some e, file') \<Rightarrow> (Inl (StartConfig e), file')
                    | (None, file') \<Rightarrow> (Inr (True, recovered), file')))"

record startup_faults =
  su_disk :: disk_faults
  su_lock :: bool
  su_setup :: bool
  su_inspect :: sql_faults
  su_open :: open_faults

text \<open>
  The part of \<open>start_with_provider_factory\<close> that concerns the two files. \<open>su_lock\<close> stands for
  a failure between the preliminary load and the lock (paths, launch metadata, the lock itself),
  \<open>su_setup\<close> for one between loading the configuration and the database lock (manifest, provider,
  directory). Creating the database file is part of opening it.
\<close>

definition start_storage ::
  "config_env \<Rightarrow> config_serde \<Rightarrow> 'tz calendar \<Rightarrow> startup_faults \<Rightarrow> ustring option \<times> file_state option
     \<Rightarrow> (start_error + app_config \<times> 'tz db_instance) \<times> ustring option \<times> file_state option" where
  "start_storage env serde cal faults files =
     (let disk = su_disk faults; (file, dbfile) = files
      in case load_or_default env serde disk file of
           Inl e \<Rightarrow> (Inl (StartConfig e), files)
         | Inr preliminary \<Rightarrow>
       if su_lock faults then (Inl StartEnvironment, files)
       else
        (case ensure_config_file env serde disk file of
           (Some e, file1) \<Rightarrow> (Inl (StartConfig e), file1, dbfile)
         | (None, file1) \<Rightarrow>
        (case load_for_engine_startup env serde disk file1 of
           (Inl e, file2) \<Rightarrow> (Inl (StartConfig e), file2, dbfile)
         | (Inr config, file2) \<Rightarrow>
       if su_setup faults then (Inl StartEnvironment, file2, dbfile)
       else
        (case recover_pending_timezone env serde cal (su_inspect faults) disk dbfile config file2 of
           (Inl e, file3) \<Rightarrow> (Inl e, file3, dbfile)
         | (Inr (changed, config1), file3) \<Rightarrow>
        (case db_open cal (su_open faults) (db_timezone (ac_db config1))
                (case dbfile of None \<Rightarrow> new_file | Some fs \<Rightarrow> fs) of
           (Inl e, fs) \<Rightarrow> (Inl (StartOpen e), file3, Some fs)
         | (Inr db, fs) \<Rightarrow> (Inr (config1, db), file3, Some fs))))))"

end
