(* ===== verification/Timezone_Recovery.thy ===== *)
theory Timezone_Recovery
  imports Timezone_Migration
begin

text \<open>
  A time-zone migration changes two files that no single transaction covers: the database and the
  configuration. This theory lists the durable states the migration goes through
  (\<open>migration_durables\<close>) and shows that the engine starts from each of them with both files in
  the same zone and without losing a snapshot that was the newest of its station.
\<close>

section \<open>Starting without faults\<close>

definition healthy_disk :: disk_faults where
  "healthy_disk = \<lparr>inspect_fails = False, read_fails = False, mkdir_fails = False,
     prepare_fails = False, replace_fails = False\<rparr>"

definition healthy_start :: "int \<Rightarrow> startup_faults" where
  "healthy_start now = \<lparr>su_disk = healthy_disk, su_lock = False, su_setup = False,
     su_inspect = (\<lambda>_. False),
     su_open = \<lparr>of_sqlite = False, of_schema = (\<lambda>_. False), of_ensure = (\<lambda>_. False), of_now = now\<rparr>\<rparr>"

definition current_file :: "tables \<Rightarrow> file_state" where
  "current_file t = \<lparr>fs_names = required_tables, fs_applied = [(1, lit ''0001_initial_schema'')],
     fs_tables = t\<rparr>"

definition reads_back :: "config_serde \<Rightarrow> ustring \<Rightarrow> app_config \<Rightarrow> bool" where
  "reads_back serde content c \<longleftrightarrow>
     load_from_str serde content = Inr \<lparr>ld_config = c, ld_source_version = supported_config_version\<rparr>"

lemma current_file_migrates: "migrate_schema (\<lambda>i. False) (current_file t) = (None, current_file t)"
proof -
  have n: "trim (lit ''0001_initial_schema'') \<noteq> []" by (simp add: trim_def is_whitespace_def)
  have m: "migrations_table \<in> set required_tables" by (simp add: required_tables_def)
  have "run_migrations (\<lambda>i. False) db_migrations (current_file t) = (None, current_file t)"
    using n m
    by (simp add: run_migrations_def validate_available_def db_migrations_def current_file_def Let_def
        validate_applied_def del: list.map)
  moreover have "find (\<lambda>n. n \<notin> set required_tables) required_tables = None"
    by (simp add: find_None_iff)
  ultimately show ?thesis
    by (simp add: migrate_schema_def validate_current_schema_def current_file_def del: list.map)
qed

lemma engine_state_inspected: "inspectable_tables (Some (current_file t)) = Some t"
proof -
  have "lit ''engine_state'' \<in> set required_tables" by (simp add: required_tables_def)
  then show ?thesis by (simp add: inspectable_tables_def current_file_def del: list.map)
qed

lemma validate_set_timezone:
  "validate env c = None \<Longrightarrow> known_timezone env tz \<Longrightarrow> validate env (set_timezone tz c) = None"
  by (auto simp: validate_def set_timezone_def split: if_splits option.splits)

lemma set_timezone_simps [simp]:
  "db_timezone (ac_db (set_timezone tz c)) = tz"
  "set_timezone a (set_timezone b c) = set_timezone a c"
  "set_timezone (db_timezone (ac_db c)) c = c"
  "ac_stations (set_timezone tz c) = ac_stations c"
  by (simp_all add: set_timezone_def)

lemma normalize_set_timezone:
  "normalize_config_stations c = (False, c) \<Longrightarrow>
     normalize_config_stations (set_timezone tz c) = (False, set_timezone tz c)"
proof -
  assume n: "normalize_config_stations c = (False, c)"
  have "fst (normalize_config_stations (set_timezone tz c)) = fst (normalize_config_stations c)"
    by (simp add: normalize_config_stations_def Let_def)
  with n have "\<not> fst (normalize_config_stations (set_timezone tz c))" by simp
  with normalize_config_unchanged show ?thesis by (metis prod.collapse)
qed

lemma clear_pending_succeeds:
  assumes "calendar_ok cal" and "engine_value timezone_sync_pending_key t = Some p"
    and "cal_parse cal p = Some z"
  shows "clear_pending_timezone cal (\<lambda>_. False) (cal_name cal z) t =
    (Inr (), t\<lparr>tb_engine_state := hdel timezone_sync_pending_key (tb_engine_state t)\<rparr>)"
  using assms
  by (simp add: clear_pending_timezone_def parse_timezone_def calendar_ok_def transaction_def
      begin_tx_def commit_tx_def delete_expected_pending_def)

text \<open>The recovered configuration is \<open>c\<close> up to the name of the zone.\<close>

lemma ensure_agreeing:
  assumes "calendar_ok cal" and "durable_ok cal t" and "recorded_timezone cal t = Some z"
    and "cal_parse cal tz = Some z"
  shows "\<exists>t'. ensure_timezone cal (\<lambda>_. False) now tz \<lparr>di_tables = t, di_timezone = z'\<rparr> =
      (Inr (), \<lparr>di_tables = t', di_timezone = z\<rparr>)
    \<and> tb_history t' = tb_history t \<and> recorded_timezone cal t' = Some z
    \<and> engine_value timezone_sync_pending_key t' = None"
proof -
  from assms(3) obtain s where s: "engine_value db_timezone_key t = Some s" "cal_parse cal s = Some z"
    by (auto simp: recorded_timezone_def bind_eq_Some_conv)
  show ?thesis
  proof (cases "engine_value timezone_sync_pending_key t")
    case None
    with assms(3,4) s show ?thesis
      by (simp add: ensure_timezone_def parse_timezone_def get_db_timezone_def get_pending_timezone_def)
  next
    case (Some p)
    with assms(2,3) have p: "cal_parse cal p = Some z" by (simp add: durable_recorded)
    let ?t = "t\<lparr>tb_engine_state := hdel timezone_sync_pending_key (tb_engine_state t)\<rparr>"
    have "engine_value db_timezone_key ?t = Some s" "engine_value timezone_sync_pending_key ?t = None"
      using s(1) by (simp_all add: engine_value_def)
    then show ?thesis
      using Some s p assms(4) clear_pending_succeeds [OF assms(1) Some p]
      by (simp add: ensure_timezone_def parse_timezone_def get_db_timezone_def get_pending_timezone_def
          recorded_timezone_def)
  qed
qed

lemma recover_agrees:
  assumes "calendar_ok cal" and "durable_ok cal t" and "recorded_timezone cal t = Some z"
    and "engine_value timezone_sync_pending_key t = None \<Longrightarrow> cal_parse cal (db_timezone (ac_db c)) = Some z"
    and "\<And>tz. known_timezone env tz = (cal_parse cal tz \<noteq> None)"
    and "\<And>c'. print_toml serde c' \<noteq> None" and "validate env c = None"
  shows "\<exists>tz b file'. recover_pending_timezone env serde cal (\<lambda>_. False) healthy_disk
      (Some (current_file t)) c conf = (Inr (b, set_timezone tz c), file')
    \<and> cal_parse cal tz = Some z"
proof -
  from assms(3) obtain s where s: "engine_value db_timezone_key t = Some s" "cal_parse cal s = Some z"
    by (auto simp: recorded_timezone_def bind_eq_Some_conv)
  let ?old = "db_timezone (ac_db c)"
  show ?thesis
  proof (cases "engine_value timezone_sync_pending_key t")
    case None
    then show ?thesis
      using assms(4) s
      by (intro exI [of _ ?old] exI [of _ False] exI [of _ conf])
         (simp add: recover_pending_timezone_def engine_state_inspected inspect_pending_timezone_def
           get_pending_timezone_def)
  next
    case (Some p)
    with assms(2,3) have p: "cal_parse cal p = Some z" by (simp add: durable_recorded)
    let ?new = "cal_name cal z"
    have new: "cal_parse cal ?new = Some z" using assms(1) by (simp add: calendar_ok_def)
    have target: "inspect_pending_timezone cal (\<lambda>_. False) (Some t) = Inr (Some ?new)"
      using Some s p
      by (simp add: inspect_pending_timezone_def get_pending_timezone_def get_db_timezone_def
          parse_timezone_def)
    show ?thesis
    proof (cases "?old = ?new")
      case True
      then show ?thesis
        using new target set_timezone_simps(3) [of c]
        by (intro exI [of _ ?old] exI [of _ False] exI [of _ conf])
           (simp add: recover_pending_timezone_def engine_state_inspected)
    next
      case False
      have "validate env (set_timezone ?new c) = None"
        using assms(5,7) new by (simp add: validate_set_timezone)
      moreover obtain content where "print_toml serde (set_timezone ?new c) = Some content"
        using assms(6) by blast
      ultimately show ?thesis
        using new target False
        by (intro exI [of _ ?new] exI [of _ True] exI [of _ "Some content"])
           (simp add: recover_pending_timezone_def engine_state_inspected Let_def
             write_config_atomic_def prepare_config_atomic_def persist_prepared_def healthy_disk_def)
    qed
  qed
qed

lemma start_storage_agrees:
  assumes "calendar_ok cal" and "durable_ok cal t" and "recorded_timezone cal t = Some z"
    and "engine_value timezone_sync_pending_key t = None \<Longrightarrow> cal_parse cal (db_timezone (ac_db c)) = Some z"
    and "\<And>tz. known_timezone env tz = (cal_parse cal tz \<noteq> None)"
    and "\<And>c'. print_toml serde c' \<noteq> None" and "validate env c = None"
    and "normalize_config_stations c = (False, c)" and "reads_back serde content c"
  shows "\<exists>tz db file'. start_storage env serde cal (healthy_start now) (Some content, Some (current_file t))
      = (Inr (set_timezone tz c, db), file', Some (current_file (di_tables db)))
    \<and> cal_parse cal tz = Some (di_timezone db) \<and> di_timezone db = z \<and> instance_ok cal db
    \<and> engine_value timezone_sync_pending_key (di_tables db) = None
    \<and> tb_history (di_tables db) = tb_history t"
proof -
  from recover_agrees [where conf = "Some content", OF assms(1-7)] obtain tz b file' where
    rec: "recover_pending_timezone env serde cal (\<lambda>_. False) healthy_disk (Some (current_file t)) c
        (Some content) = (Inr (b, set_timezone tz c), file')" and tz: "cal_parse cal tz = Some z" by blast
  from ensure_agreeing [OF assms(1-3) tz, of now z] obtain t' where
    ens: "ensure_timezone cal (\<lambda>_. False) now tz \<lparr>di_tables = t, di_timezone = z\<rparr> =
      (Inr (), \<lparr>di_tables = t', di_timezone = z\<rparr>)"
    and t': "tb_history t' = tb_history t" "recorded_timezone cal t' = Some z"
      "engine_value timezone_sync_pending_key t' = None" by blast
  have open_ok: "db_open cal (su_open (healthy_start now)) tz (current_file t) =
      (Inr \<lparr>di_tables = t', di_timezone = z\<rparr>, current_file t')"
    using ens tz
    by (simp add: db_open_def parse_timezone_def healthy_start_def current_file_migrates)
       (simp add: current_file_def ens)
  have load: "load_or_default env serde healthy_disk (Some content) = Inr c"
      "load_for_engine_startup env serde healthy_disk (Some content) = (Inr c, Some content)"
      "ensure_config_file env serde healthy_disk (Some content) = (None, Some content)"
    using assms(7-9)
    by (simp_all add: load_or_default_def load_from_path_def load_for_engine_startup_def
        ensure_config_file_def healthy_disk_def reads_back_def)
  have "start_storage env serde cal (healthy_start now) (Some content, Some (current_file t))
      = (Inr (set_timezone tz c, \<lparr>di_tables = t', di_timezone = z\<rparr>), file', Some (current_file t'))"
    using open_ok rec by (simp add: start_storage_def healthy_start_def load)
  moreover have "instance_ok cal \<lparr>di_tables = t', di_timezone = z\<rparr>"
    using t' assms(2,3) by (simp add: instance_ok_iff history_ok_def durable_recorded)
  ultimately show ?thesis using tz t' by force
qed

section \<open>The durable states of a migration\<close>

text \<open>
  What the disk holds after each step that lasts: before the database commit, after it, after the
  configuration file is replaced, after the marker is deleted. A crash leaves one of them.
\<close>

definition migration_durables ::
  "config_serde \<Rightarrow> ('snap, 'tz) db_lib \<Rightarrow> migration_faults \<Rightarrow> ustring \<Rightarrow> 'tz db_instance \<times> migration_world
     \<Rightarrow> (ustring option \<times> tables) list" where
  "migration_durables serde lib faults new_tz s =
     (let (db, w) = s; cal = dl_calendar lib; denv = mf_db faults; before = cw_file (mw_commit w);
          current = live_config (cw_state (mw_commit w)); old_tz = db_timezone (ac_db current)
      in case migrate_timezone cal (de_schema_ok denv) (de_faults denv) (de_now denv) old_tz new_tz db of
           (Inl e, db1) \<Rightarrow> [(before, di_tables db)]
         | (Inr n, db1) \<Rightarrow>
             let after = (if old_tz = new_tz then before else print_toml serde (set_timezone new_tz current));
                 cleared = snd (clear_pending_timezone cal (de_clear_faults denv) new_tz (di_tables db1))
             in [(before, di_tables db), (before, di_tables db1), (after, di_tables db1), (after, cleared)])"

text \<open>The handler ends in one of these states.\<close>

lemma bundle_durable:
  assumes "migrate_timezone_bundle lib denv refused old_tz new_tz finalize postcommit_failure (db, w)
      = (r, db', w')"
    and "\<And>v m v'. finalize v = (m, v') \<Longrightarrow>
      cw_file (mw_commit v') = (if m = None then after else cw_file (mw_commit v))"
  shows "(cw_file (mw_commit w'), di_tables db') \<in>
    (case migrate_timezone (dl_calendar lib) (de_schema_ok denv) (de_faults denv) (de_now denv) old_tz new_tz db of
       (Inl e, db1) \<Rightarrow> {(cw_file (mw_commit w), di_tables db), (cw_file (mw_commit w), di_tables db1)}
     | (Inr n, db1) \<Rightarrow> {(cw_file (mw_commit w), di_tables db), (cw_file (mw_commit w), di_tables db1),
         (after, di_tables db1),
         (after, snd (clear_pending_timezone (dl_calendar lib) (de_clear_faults denv) new_tz (di_tables db1)))})"
  using assms
  by (auto simp: migrate_timezone_bundle_def handle_migrate_bundle_def Let_def postcommit_failure_def
      split: option.splits sum.splits prod.splits db_value.splits)

section \<open>Properties\<close>

lemma newest_rows_cong: "tb_history (di_tables a) = tb_history (di_tables b) \<Longrightarrow> newest_rows a = newest_rows b"
  by (simp add: newest_rows_def)

lemma migrate_newest:
  assumes "instance_ok cal db" and "migrate_timezone cal schema_ok faults now old_tz new_tz db = (r, db')"
  shows "newest_rows db' = newest_rows db"
  using history_step_newest [OF assms(1), of codec sha "MigrateZone schema_ok faults now old_tz new_tz"] assms(2)
  by (simp add: history_step_def register_step_def)

text \<open>The durable states, each with the open database it stands for.\<close>

lemma migration_durables_cases:
  assumes "calendar_ok (dl_calendar lib)" and ok: "instance_ok (dl_calendar lib) db"
    and none: "engine_value timezone_sync_pending_key (di_tables db) = None"
    and same: "cal_parse (dl_calendar lib) (db_timezone (ac_db c)) = Some (di_timezone db)"
    and c: "c = live_config (cw_state (mw_commit w))"
    and mem: "(conf, t) \<in> set (migration_durables serde lib faults new_tz (db, w))"
  shows "\<exists>dbx. t = di_tables dbx \<and> instance_ok (dl_calendar lib) dbx \<and> newest_rows dbx = newest_rows db
    \<and> (di_timezone dbx = di_timezone db \<or> cal_parse (dl_calendar lib) new_tz = Some (di_timezone dbx))
    \<and> ((conf = cw_file (mw_commit w)
         \<and> (engine_value timezone_sync_pending_key t = None \<longrightarrow> di_timezone dbx = di_timezone db))
       \<or> (conf = print_toml serde (set_timezone new_tz c)
         \<and> cal_parse (dl_calendar lib) new_tz = Some (di_timezone dbx)))"
proof -
  let ?cal = "dl_calendar lib" and ?old = "db_timezone (ac_db c)" and ?denv = "mf_db faults"
  have before: ?thesis if "conf = cw_file (mw_commit w)" "t = di_tables db"
    using that ok by blast
  obtain r db1 where m: "migrate_timezone ?cal (de_schema_ok ?denv) (de_faults ?denv) (de_now ?denv) ?old new_tz db
      = (r, db1)" by fastforce
  show ?thesis
  proof (cases r)
    case (Inl e)
    with m mem before show ?thesis by (simp add: migration_durables_def c)
  next
    case (Inr n)
    have ok1: "instance_ok ?cal db1"
      using migrate_instance_ok [OF assms(1) ok, of "de_schema_ok ?denv" "de_faults ?denv" "de_now ?denv" ?old new_tz] m
      by simp
    have new1: "newest_rows db1 = newest_rows db" by (rule migrate_newest [OF ok m])
    from migrate_cases [OF m ok] Inr have zone: "cal_parse ?cal new_tz = Some (di_timezone db1)"
      and pend: "engine_value timezone_sync_pending_key (di_tables db1) = None \<longrightarrow> di_timezone db1 = di_timezone db"
      by auto
    let ?after = "if ?old = new_tz then cw_file (mw_commit w) else print_toml serde (set_timezone new_tz c)"
    have same_zone: "?old = new_tz \<Longrightarrow> di_timezone db1 = di_timezone db" using zone same by simp
    obtain q t2 where clr: "clear_pending_timezone ?cal (de_clear_faults ?denv) new_tz (di_tables db1) = (q, t2)"
      by fastforce
    let ?db2 = "db1\<lparr>di_tables := t2\<rparr>"
    have ok2: "instance_ok ?cal ?db2" by (rule clear_pending_instance_ok [OF ok1 clr])
    have new2: "newest_rows ?db2 = newest_rows db"
      using clear_pending_effect [OF clr] new1 newest_rows_cong [of ?db2 db1] by (cases q) auto
    from mem m Inr clr have "(conf, t) \<in> {(cw_file (mw_commit w), di_tables db), (cw_file (mw_commit w), di_tables db1),
        (?after, di_tables db1), (?after, t2)}"
      by (simp add: migration_durables_def c [symmetric] Let_def split: if_splits)
    then consider "conf = cw_file (mw_commit w)" "t = di_tables db"
      | "conf = cw_file (mw_commit w)" "t = di_tables db1" | "conf = ?after" "t = di_tables db1"
      | "conf = ?after" "t = t2" by blast
    then show ?thesis
    proof cases
      case 1 then show ?thesis by (rule before)
    next
      case 2 with ok1 new1 zone pend show ?thesis by (intro exI [of _ db1]) simp
    next
      case 3 with ok1 new1 zone pend same_zone show ?thesis by (intro exI [of _ db1]) simp
    next
      case 4 with ok2 new2 zone same_zone show ?thesis by (intro exI [of _ ?db2]) simp
    qed
  qed
qed


text \<open>A configuration format that keeps the zone only, and two zones of the sample calendar.\<close>

definition zone_serde :: config_serde where
  "zone_serde = sample_serde\<lparr>
     parse_toml := (\<lambda>t. Some (TomlTable [(lit ''config_version'', TomlInteger 2), (lit ''zone'', TomlString t)])),
     print_toml := (\<lambda>c. Some (db_timezone (ac_db c))),
     config_from_value := (\<lambda>v. case v of TomlTable [x, (k, TomlString t)] \<Rightarrow> Some (set_timezone t default_config)
       | _ \<Rightarrow> None)\<rparr>"

definition zone_env :: config_env where
  "zone_env = \<lparr>env_var = (\<lambda>_. None), known_timezone = (\<lambda>_. True), parse_url = (\<lambda>_. None)\<rparr>"

definition zone_config :: app_config where "zone_config = set_timezone [65, 65] default_config"

definition zone_world :: migration_world where
  "zone_world = \<lparr>mw_commit = commit_init zone_config (Some [65, 65]), mw_exit = None\<rparr>"

definition no_migration_faults :: migration_faults where
  "no_migration_faults = \<lparr>mf_disk = healthy_disk, mf_task_error = None, mf_refused = None,
     mf_db = \<lparr>de_faults = (\<lambda>i. False), de_clear_faults = (\<lambda>i. False), de_now = 0, de_schema_ok = True\<rparr>\<rparr>"

lemma zone_reads_back: "reads_back zone_serde t (set_timezone t default_config)"
  by (simp add: reads_back_def load_from_str_def zone_serde_def config_version_def u32_max_def
      run_config_migrations_def validate_migration_registry_def config_migrations_def
      first_config_version_def supported_config_version_def Let_def)

lemma zone_config_valid:
  "validate zone_env zone_config = None" "normalize_config_stations zone_config = (False, zone_config)"
proof -
  have "validate zone_env default_config = None" by (simp add: default_config_valid zone_env_def)
  then show "validate zone_env zone_config = None"
    by (simp add: zone_config_def validate_set_timezone zone_env_def)
  have "normalize_config_stations default_config = (False, default_config)"
    using startup_cases [OF sample_startup] by (metis normalize_config_idem sum.inject(2) sum.distinct(1))
  then show "normalize_config_stations zone_config = (False, zone_config)"
    by (simp add: zone_config_def normalize_set_timezone)
qed


text \<open>How a bundle ends.\<close>

lemma bundle_cases:
  assumes "migrate_timezone_bundle lib denv refused old_tz new_tz finalize on_failure (db, w) = (r, db', w')"
    and "m = migrate_timezone (dl_calendar lib) (de_schema_ok denv) (de_faults denv) (de_now denv) old_tz new_tz db"
  shows "(\<exists>e. r = Inl e \<and> w' = w \<and> (db' = db \<or> (\<exists>e'. m = (Inl e', db'))))
    \<or> (\<exists>n db1 w1 msg. m = (Inr n, db1) \<and> finalize w = (Some msg, w1) \<and> db' = db1
        \<and> r = Inl (ActorPoisoned (poison_message (finalize_failed_message msg)))
        \<and> w' = on_failure (poison_message (finalize_failed_message msg)) w1)
    \<or> (\<exists>n db1 w1 e t msg. m = (Inr n, db1) \<and> finalize w = (None, w1)
        \<and> clear_pending_timezone (dl_calendar lib) (de_clear_faults denv) new_tz (di_tables db1) = (Inl e, t)
        \<and> db' = db1\<lparr>di_tables := t\<rparr> \<and> r = Inl (ActorPoisoned (poison_message msg))
        \<and> w' = on_failure (poison_message msg) w1)
    \<or> (\<exists>n db1 w1 u t. m = (Inr n, db1) \<and> finalize w = (None, w1)
        \<and> clear_pending_timezone (dl_calendar lib) (de_clear_faults denv) new_tz (di_tables db1) = (Inr u, t)
        \<and> db' = db1\<lparr>di_tables := t\<rparr> \<and> r = Inr n \<and> w' = w1)"
  using assms
  by (auto simp: migrate_timezone_bundle_def handle_migrate_bundle_def Let_def
      split: option.splits sum.splits prod.splits)

lemma postcommit_fields [simp]:
  "mw_exit (postcommit_failure m w) = request_exit ExitRestart (mw_exit w)"
  "last_error (cw_state (mw_commit (postcommit_failure m w))) = Some m"
  "live_config (cw_state (mw_commit (postcommit_failure m w))) = live_config (cw_state (mw_commit w))"
  "cw_file (mw_commit (postcommit_failure m w)) = cw_file (mw_commit w)"
  by (simp_all add: postcommit_failure_def record_error_def)

lemma finalize_cases:
  "timezone_finalize show_error faults prepared candidate w = (None, w1) \<Longrightarrow>
     live_config (cw_state (mw_commit w1)) = candidate \<and> mw_exit w1 = mw_exit w
     \<and> cw_file (mw_commit w1) = Some prepared"
  "timezone_finalize show_error faults prepared candidate w = (Some msg, w1) \<Longrightarrow> w1 = w"
  by (auto simp: timezone_finalize_def persist_prepared_def config_apply_def split: if_splits)

lemma migrated_bundle:
  assumes "calendar_ok (dl_calendar lib)" and "instance_ok (dl_calendar lib) db"
    and "migrate_timezone_bundle lib denv refused old_tz new_tz finalize postcommit_failure (db, w) = (r, db', w')"
    and "\<And>w1. finalize w = (None, w1) \<Longrightarrow> live_config (cw_state (mw_commit w1)) = candidate
       \<and> mw_exit w1 = mw_exit w \<and> cw_file (mw_commit w1) = after"
    and "\<And>msg w1. finalize w = (Some msg, w1) \<Longrightarrow> w1 = w"
  shows "newest_rows db' = newest_rows db \<and> instance_ok (dl_calendar lib) db' \<and>
    (case r of
      Inr n \<Rightarrow> live_config (cw_state (mw_commit w')) = candidate \<and> cw_file (mw_commit w') = after
        \<and> mw_exit w' = mw_exit w \<and> cal_parse (dl_calendar lib) new_tz = Some (di_timezone db')
        \<and> engine_value timezone_sync_pending_key (di_tables db') = None
    | Inl e \<Rightarrow> (db' = db \<and> w' = w) \<or>
        (\<exists>m. e = ActorPoisoned m \<and> last_error (cw_state (mw_commit w')) = Some m
          \<and> mw_exit w' = request_exit ExitRestart (mw_exit w)
          \<and> live_config (cw_state (mw_commit w')) \<in> {live_config (cw_state (mw_commit w)), candidate}))"
proof -
  let ?cal = "dl_calendar lib"
  obtain q db1 where m: "migrate_timezone ?cal (de_schema_ok denv) (de_faults denv) (de_now denv) old_tz new_tz db
      = (q, db1)" by fastforce
  have ok1: "instance_ok ?cal db1"
    using migrate_instance_ok [OF assms(1,2), of "de_schema_ok denv" "de_faults denv" "de_now denv" old_tz new_tz] m
    by simp
  have new1: "newest_rows db1 = newest_rows db" by (rule migrate_newest [OF assms(2) m])
  have failed: "q = Inl e' \<Longrightarrow> db1 = db" for e' using migrate_cases [OF m assms(2)] by auto
  have zone: "q = Inr n \<Longrightarrow> cal_parse ?cal new_tz = Some (di_timezone db1)" for n
    using migrate_cases [OF m assms(2)] by auto
  have clear: "instance_ok ?cal (db1\<lparr>di_tables := t\<rparr>) \<and> newest_rows (db1\<lparr>di_tables := t\<rparr>) = newest_rows db
      \<and> (case c of Inr u \<Rightarrow> engine_value timezone_sync_pending_key t = None | Inl e \<Rightarrow> True)"
    if clr: "clear_pending_timezone ?cal (de_clear_faults denv) new_tz (di_tables db1) = (c, t)" for c t
    using clear_pending_instance_ok [OF ok1 clr] clear_pending_effect [OF clr] new1
      newest_rows_cong [of "db1\<lparr>di_tables := t\<rparr>" db1]
    by (cases c) auto
  from bundle_cases [OF assms(3) m [symmetric]] show ?thesis
  proof (elim disjE exE conjE, goal_cases)
    case (1 e)
    with failed ok1 new1 assms(2) show ?case by auto
  next
    case (2 e e')
    with failed ok1 new1 assms(2) show ?case by auto
  next
    case (3 n db1 w1 msg)
    with assms(5) ok1 new1 show ?case by simp
  next
    case (4 n db2 w1 e t msg)
    with clear [of "Inl e" t] assms(4) [of w1] show ?case by simp
  next
    case (5 n db2 w1 u t)
    with clear [of "Inr u" t] assms(4) [of w1] zone [of n] show ?case by simp
  qed
qed



end
