(* ===== verification/Weather_Data.thy ===== *)
theory Weather_Data
  imports Station_Names
begin

text \<open>
  The weather messages of \<^verbatim>\<open>weather-schema/weather/schema/v1/weather.proto\<close> and the
  parsing of dates and temperatures that the handlers share
  (\<^verbatim>\<open>weather-core/engine/src/handlers/temperature_history.rs\<close>). Floating-point numbers
  are the type parameter \<open>'f\<close> with the operations of \<open>float_lib\<close>; dates are chrono's
  \<open>NaiveDate\<close>, the type parameter \<open>'d\<close> with the operations of \<open>date_lib\<close>.
\<close>

section \<open>Messages\<close>

record weather_alert =
  wa_alert :: "ustring option"
  wa_province :: "ustring option"
  wa_city :: "ustring option"
  wa_url :: "ustring option"
  wa_issue_content :: "ustring option"
  wa_prevention :: "ustring option"
  wa_signal_type :: "ustring option"
  wa_signal_level :: "ustring option"
  wa_icon_url :: "ustring option"
  wa_icon_name :: "ustring option"
  wa_icon_resource_id :: "ustring option"
  wa_inherited :: bool

record 'f observed_weather =
  ow_publish_time :: "ustring option"
  ow_info :: "ustring option"
  ow_temperature :: "'f option"
  ow_feel_temperature :: "'f option"
  ow_humidity :: "'f option"
  ow_rain :: "'f option"
  ow_wind_direct :: "ustring option"
  ow_wind_power :: "ustring option"
  ow_wind_speed :: "'f option"
  ow_sunrise :: "ustring option"
  ow_sunset :: "ustring option"
  ow_alerts :: "weather_alert list"
  ow_temperature_diff :: "'f option"
  ow_air_pressure :: "'f option"
  ow_comfort_index :: "ustring option"
  ow_comfort_label :: "ustring option"
  ow_weather_icon :: "ustring option"
  ow_wind_degree :: "'f option"

definition observed_default :: "'f observed_weather" where
  "observed_default = \<lparr>ow_publish_time = None, ow_info = None, ow_temperature = None,
     ow_feel_temperature = None, ow_humidity = None, ow_rain = None, ow_wind_direct = None,
     ow_wind_power = None, ow_wind_speed = None, ow_sunrise = None, ow_sunset = None, ow_alerts = [],
     ow_temperature_diff = None, ow_air_pressure = None, ow_comfort_index = None,
     ow_comfort_label = None, ow_weather_icon = None, ow_wind_degree = None\<rparr>"

record 'f forecast_day =
  fd_date :: ustring
  fd_day_info :: "ustring option"
  fd_night_info :: "ustring option"
  fd_day_temperature :: "ustring option"
  fd_night_temperature :: "ustring option"
  fd_wind_direct :: "ustring option"
  fd_wind_power :: "ustring option"
  fd_precipitation :: "'f option"
  fd_publish_time :: "ustring option"
  fd_day_weather_icon :: "ustring option"
  fd_night_weather_icon :: "ustring option"
  fd_day_wind_direct :: "ustring option"
  fd_day_wind_power :: "ustring option"
  fd_night_wind_direct :: "ustring option"
  fd_night_wind_power :: "ustring option"

record 'f forecast_report =
  fr_publish_time :: "ustring option"
  fr_days :: "'f forecast_day list"

record 'f air_quality =
  aq_publish_time :: "ustring option"
  aq_aqi :: "'f option"
  aq_level :: "ustring option"
  aq_category :: "ustring option"
  aq_primary_pollutant :: "ustring option"
  aq_pm2_5 :: "'f option"
  aq_pm10 :: "'f option"
  aq_no2 :: "'f option"
  aq_so2 :: "'f option"
  aq_co :: "'f option"
  aq_o3 :: "'f option"

record 'f temperature_chart =
  tc_date :: "ustring option"
  tc_max_temperature :: "'f option"
  tc_min_temperature :: "'f option"
  tc_day_info :: "ustring option"
  tc_day_icon :: "ustring option"
  tc_night_info :: "ustring option"
  tc_night_icon :: "ustring option"

record 'f passed_weather_chart =
  pw_time :: "ustring option"
  pw_rain_1h :: "'f option"
  pw_rain_6h :: "'f option"
  pw_rain_12h :: "'f option"
  pw_rain_24h :: "'f option"
  pw_temperature :: "'f option"
  pw_temperature_diff :: "'f option"
  pw_humidity :: "'f option"
  pw_pressure :: "'f option"
  pw_wind_direction_degree :: "'f option"
  pw_wind_speed :: "'f option"

record 'f climate_month =
  cm_month :: "nat option"
  cm_average_max_temperature :: "'f option"
  cm_average_min_temperature :: "'f option"
  cm_precipitation :: "'f option"

record 'f climate_summary =
  cs_period :: "ustring option"
  cs_month :: "'f climate_month list"

record radar_info =
  ri_title :: "ustring option"
  ri_image_url :: "ustring option"
  ri_page_url :: "ustring option"
  ri_image_resource_id :: "ustring option"

record debug_payload =
  dp_provider :: ustring
  dp_operation :: ustring
  dp_endpoint :: ustring
  dp_raw_json :: ustring
  dp_warnings :: "ustring list"

record 'f weather_snapshot =
  ws_station :: "station_ref option"
  ws_real :: "'f observed_weather option"
  ws_predict :: "'f forecast_report option"
  ws_air :: "'f air_quality option"
  ws_tempchart :: "'f temperature_chart list"
  ws_passedchart :: "'f passed_weather_chart list"
  ws_climate :: "'f climate_summary option"
  ws_radar :: "radar_info option"
  ws_stale :: bool
  ws_debug :: "debug_payload option"

section \<open>Library parameters\<close>

record 'f float_lib =
  fl_parse :: "ustring \<Rightarrow> 'f option"
  fl_max :: "'f \<Rightarrow> 'f \<Rightarrow> 'f"
  fl_min :: "'f \<Rightarrow> 'f \<Rightarrow> 'f"
  fl_finite :: "'f \<Rightarrow> bool"
  fl_integral :: "'f \<Rightarrow> bool"
  fl_fixed :: "'f \<Rightarrow> ustring"
  fl_show :: "'f \<Rightarrow> ustring"

text \<open>\<open>dl_parse\<close> is \<open>NaiveDate::parse_from_str\<close> with the format first; \<open>dl_day_number\<close> counts days.\<close>

record 'd date_lib =
  dl_parse :: "ustring \<Rightarrow> ustring \<Rightarrow> 'd option"
  dl_format :: "'d \<Rightarrow> ustring"
  dl_year :: "'d \<Rightarrow> int"
  dl_month_day :: "'d \<Rightarrow> nat \<times> nat"
  dl_ymd :: "int \<Rightarrow> nat \<times> nat \<Rightarrow> 'd option"
  dl_day_number :: "'d \<Rightarrow> int"

section \<open>Parsing\<close>

text \<open>\<open>split_whitespace().next()\<close>.\<close>

definition first_word :: "ustring \<Rightarrow> ustring option" where
  "first_word s = (let w = takeWhile (\<lambda>c. \<not> is_whitespace c) (dropWhile is_whitespace s)
     in if w = [] then None else Some w)"

definition trim_degrees :: "ustring \<Rightarrow> ustring" where
  "trim_degrees s = rev (dropWhile (\<lambda>c. c = 0xB0 \<or> c = 0x2103) (rev s))"

definition parse_temperature :: "'f float_lib \<Rightarrow> ustring option \<Rightarrow> 'f option" where
  "parse_temperature fl v =
     (case v of None \<Rightarrow> None | Some s \<Rightarrow> fl_parse fl (trim (trim_degrees (trim s))))"

text \<open>\<open>find_map\<close>: the first format that parses.\<close>

fun find_map :: "('a \<Rightarrow> 'b option) \<Rightarrow> 'a list \<Rightarrow> 'b option" where
  "find_map f [] = None"
| "find_map f (x # xs) = (case f x of Some y \<Rightarrow> Some y | None \<Rightarrow> find_map f xs)"

definition parse_full_date :: "'d date_lib \<Rightarrow> ustring \<Rightarrow> 'd option" where
  "parse_full_date dl v =
     (case first_word v of
        None \<Rightarrow> None
      | Some date \<Rightarrow>
          find_map (\<lambda>format. dl_parse dl format date)
            [lit ''%Y-%m-%d'', lit ''%Y/%m/%d'', lit ''%Y.%m.%d''])"

definition parse_month_day :: "'d date_lib \<Rightarrow> ustring \<Rightarrow> (nat \<times> nat) option" where
  "parse_month_day dl v =
     (case first_word v of
        None \<Rightarrow> None
      | Some date \<Rightarrow>
          map_option (dl_month_day dl)
            (find_map (\<lambda>format. dl_parse dl (lit ''%Y-'' @ format) (lit ''2000-'' @ date))
               [lit ''%m-%d'', lit ''%m/%d'', lit ''%m.%d'']))"

definition parse_relative_date :: "'d date_lib \<Rightarrow> ustring \<Rightarrow> 'd \<Rightarrow> 'd option" where
  "parse_relative_date dl v base =
     (case parse_full_date dl v of
        Some date \<Rightarrow> Some date
      | None \<Rightarrow>
          (case parse_month_day dl v of
             None \<Rightarrow> None
           | Some month_day \<Rightarrow>
               min_by_key (\<lambda>d. \<bar>dl_day_number dl d - dl_day_number dl base\<bar>)
                 (List.map_filter (\<lambda>year. dl_ymd dl year month_day)
                   [dl_year dl base - 1, dl_year dl base, dl_year dl base + 1])))"

text \<open>A month and day resolve to the candidate year nearest to the base date.\<close>

lemma parse_relative_nearest:
  assumes "parse_full_date dl v = None" and "parse_month_day dl v = Some md"
    and "parse_relative_date dl v base = Some d"
    and "\<bar>y - dl_year dl base\<bar> \<le> 1" and "dl_ymd dl y md = Some d'"
  shows "\<bar>dl_day_number dl d - dl_day_number dl base\<bar> \<le> \<bar>dl_day_number dl d' - dl_day_number dl base\<bar>"
proof -
  let ?c = "List.map_filter (\<lambda>year. dl_ymd dl year md) [dl_year dl base - 1, dl_year dl base, dl_year dl base + 1]"
  from assms(4) have "y = dl_year dl base - 1 \<or> y = dl_year dl base \<or> y = dl_year dl base + 1" by linarith
  with assms(5) have "d' \<in> set ?c" by (auto simp: map_filter_def)
  moreover from assms(1-3) have "min_by_key (\<lambda>d. \<bar>dl_day_number dl d - dl_day_number dl base\<bar>) ?c = Some d"
    by (simp add: parse_relative_date_def)
  ultimately show ?thesis
    using min_by_key_le [of "\<lambda>d. \<bar>dl_day_number dl d - dl_day_number dl base\<bar>" ?c d d'] by simp
qed

end
