(* ===== verification/Temperature_History.thy ===== *)
theory Temperature_History
  imports Weather_Data Rpc_Reply Db_Actor_Spec
begin

text \<open>
  The handler \<open>GET_TEMPERATURE_HISTORY\<close>
  (\<^verbatim>\<open>weather-core/engine/src/handlers/temperature_history.rs\<close>): the page of stored
  snapshots, its cursor, and the daily maximum and minimum built from charts, observations and
  forecasts. The locale \<open>paged_history\<close> is what a client that follows the cursor relies on; it
  is interpreted on the engine's storage.
\<close>

section \<open>Daily points\<close>

definition default_history_page_size :: nat where "default_history_page_size = 7"
definition max_history_page_size :: nat where "max_history_page_size = 31"

record 'f temperature_range =
  tr_max :: "'f option"
  tr_min :: "'f option"

definition range_default :: "'f temperature_range" where
  "range_default = \<lparr>tr_max = None, tr_min = None\<rparr>"

definition range_usable :: "'f temperature_range \<Rightarrow> bool" where
  "range_usable r \<longleftrightarrow> tr_max r \<noteq> None \<or> tr_min r \<noteq> None"

definition fill_missing :: "'f temperature_range \<Rightarrow> 'f temperature_range \<Rightarrow> 'f temperature_range" where
  "fill_missing r other =
     (let r = (if tr_max r = None then r\<lparr>tr_max := tr_max other\<rparr> else r)
      in if tr_min r = None then r\<lparr>tr_min := tr_min other\<rparr> else r)"

record 'f daily_temperature_point =
  pt_date :: ustring
  pt_max_temperature :: "'f option"
  pt_min_temperature :: "'f option"
  pt_forecast :: bool

definition daily_point :: "'d date_lib \<Rightarrow> 'd \<Rightarrow> 'f temperature_range \<Rightarrow> bool \<Rightarrow> 'f daily_temperature_point" where
  "daily_point dl date rng forecast =
     \<lparr>pt_date = dl_format dl date, pt_max_temperature = tr_max rng, pt_min_temperature = tr_min rng,
      pt_forecast = forecast\<rparr>"

definition blank :: "ustring option \<Rightarrow> bool" where
  "blank v = (case v of None \<Rightarrow> True | Some s \<Rightarrow> trim s = [])"

text \<open>A single chart without a date stands for the day of its snapshot.\<close>

definition matching_chart ::
  "'d date_lib \<Rightarrow> 'f temperature_chart list \<Rightarrow> 'd \<Rightarrow> 'f temperature_chart option" where
  "matching_chart dl charts date =
     (case find (\<lambda>c. Option.bind (tc_date c) (\<lambda>v. parse_relative_date dl v date) = Some date) charts of
        Some c \<Rightarrow> Some c
      | None \<Rightarrow> (case charts of [c] \<Rightarrow> if blank (tc_date c) then Some c else None | _ \<Rightarrow> None))"

definition chart_range :: "'f temperature_chart \<Rightarrow> 'f temperature_range" where
  "chart_range c = \<lparr>tr_max = tc_max_temperature c, tr_min = tc_min_temperature c\<rparr>"

definition forecast_range :: "'f float_lib \<Rightarrow> 'f forecast_day \<Rightarrow> 'f temperature_range" where
  "forecast_range fl day =
     \<lparr>tr_max = parse_temperature fl (fd_day_temperature day),
      tr_min = parse_temperature fl (fd_night_temperature day)\<rparr>"

text \<open>\<open>reduce\<close>: from the left, without an initial value.\<close>

fun reduce :: "('a \<Rightarrow> 'a \<Rightarrow> 'a) \<Rightarrow> 'a list \<Rightarrow> 'a option" where
  "reduce f [] = None"
| "reduce f (x # xs) = Some (foldl f x xs)"

definition observed_temperatures ::
  "'d date_lib \<Rightarrow> 'f passed_weather_chart list \<Rightarrow> 'd \<Rightarrow> 'f list" where
  "observed_temperatures dl rows date =
     List.map_filter pw_temperature
       (filter (\<lambda>row. case pw_time row of
            None \<Rightarrow> True
          | Some v \<Rightarrow> (case parse_relative_date dl v date of None \<Rightarrow> True | Some d \<Rightarrow> d = date)) rows)"

definition historical_range ::
  "'f float_lib \<Rightarrow> 'd date_lib \<Rightarrow> 'f weather_snapshot \<Rightarrow> 'd \<Rightarrow> 'f temperature_range" where
  "historical_range fl dl snapshot date =
     (let rng = (case matching_chart dl (ws_tempchart snapshot) date of
                     None \<Rightarrow> range_default | Some c \<Rightarrow> chart_range c);
          observed = observed_temperatures dl (ws_passedchart snapshot) date;
          rng = (if observed \<noteq> []
                   then fill_missing rng \<lparr>tr_max = reduce (fl_max fl) observed,
                                            tr_min = reduce (fl_min fl) observed\<rparr>
                   else rng)
      in case Option.bind (ws_predict snapshot)
                (\<lambda>f. find (\<lambda>day. parse_relative_date dl (fd_date day) date = Some date) (fr_days f)) of
           Some day \<Rightarrow> fill_missing rng (forecast_range fl day)
         | None \<Rightarrow> rng)"

text \<open>The \<open>BTreeMap\<close> of points, kept as a map on dates and sorted when it is read.\<close>

type_synonym ('d, 'f) points = "('d, 'f daily_temperature_point) hmap"

definition add_history ::
  "'f float_lib \<Rightarrow> 'd date_lib \<Rightarrow> 'f weather_snapshot stored_snapshot \<Rightarrow> ('d, 'f) points \<Rightarrow> ('d, 'f) points" where
  "add_history fl dl stored points =
     (case parse_full_date dl (st_date stored) of
        None \<Rightarrow> points
      | Some date \<Rightarrow>
          let rng = historical_range fl dl (st_snapshot stored) date
          in if range_usable rng then hput date (daily_point dl date rng False) points else points)"

definition add_forecast ::
  "'d date_lib \<Rightarrow> 'd \<Rightarrow> 'f temperature_range \<Rightarrow> ('d, 'f) points \<Rightarrow> ('d, 'f) points" where
  "add_forecast dl date rng points =
     (if \<not> range_usable rng then points
      else (case hget points date of
              Some p \<Rightarrow>
                hput date (p\<lparr>pt_max_temperature := (if tr_max rng \<noteq> None then tr_max rng else pt_max_temperature p),
                             pt_min_temperature := (if tr_min rng \<noteq> None then tr_min rng else pt_min_temperature p),
                             pt_forecast := True\<rparr>) points
            | None \<Rightarrow> hput date (daily_point dl date rng True) points))"

definition forecast_day_step ::
  "'f float_lib \<Rightarrow> 'd::linorder date_lib \<Rightarrow> 'd \<Rightarrow> 'f forecast_day \<Rightarrow> ('d, 'f) points \<Rightarrow> ('d, 'f) points" where
  "forecast_day_step fl dl base day points =
     (case parse_relative_date dl (fd_date day) base of
        None \<Rightarrow> points
      | Some date \<Rightarrow> if date \<ge> base then add_forecast dl date (forecast_range fl day) points else points)"

definition chart_step ::
  "'d::linorder date_lib \<Rightarrow> 'd \<Rightarrow> 'f temperature_chart \<Rightarrow> ('d, 'f) points \<Rightarrow> ('d, 'f) points" where
  "chart_step dl base chart points =
     (case Option.bind (tc_date chart) (\<lambda>v. parse_relative_date dl v base) of
        None \<Rightarrow> points
      | Some date \<Rightarrow> if date \<ge> base then add_forecast dl date (chart_range chart) points else points)"

definition forecast_points ::
  "'f float_lib \<Rightarrow> 'd::linorder date_lib \<Rightarrow> 'f weather_snapshot stored_snapshot \<Rightarrow> ('d, 'f) points \<Rightarrow> ('d, 'f) points" where
  "forecast_points fl dl newest points =
     (case parse_full_date dl (st_date newest) of
        None \<Rightarrow> points
      | Some base \<Rightarrow>
          let days = (case ws_predict (st_snapshot newest) of None \<Rightarrow> [] | Some f \<Rightarrow> fr_days f)
          in fold (chart_step dl base) (ws_tempchart (st_snapshot newest))
               (fold (forecast_day_step fl dl base) days points))"

definition build_points ::
  "'f float_lib \<Rightarrow> 'd::linorder date_lib \<Rightarrow> 'f weather_snapshot stored_snapshot list \<Rightarrow> bool \<Rightarrow> ('d, 'f) points" where
  "build_points fl dl history include_forecast =
     (let points = fold (add_history fl dl) history []
      in if include_forecast \<and> history \<noteq> [] then forecast_points fl dl (last history) points else points)"

definition build_temperature_history ::
  "'f float_lib \<Rightarrow> 'd::linorder date_lib \<Rightarrow> 'f weather_snapshot stored_snapshot list \<Rightarrow> bool \<Rightarrow> 'f daily_temperature_point list" where
  "build_temperature_history fl dl history include_forecast =
     map snd (sort_key fst (build_points fl dl history include_forecast))"

section \<open>The handler\<close>

record history_request =
  hq_unified_uuid :: ustring
  hq_before_date :: "ustring option"
  hq_page_size :: nat

record 'f history_response =
  hp_points :: "'f daily_temperature_point list"
  hp_next_before_date :: "ustring option"
  hp_has_more_history :: bool

definition iso_format :: ustring where "iso_format = lit ''%Y-%m-%d''"

text \<open>\<open>query\<close> is the call of the database actor with its error formatted.\<close>

definition handle_get_temperature_history ::
  "'f float_lib \<Rightarrow> 'd::linorder date_lib
     \<Rightarrow> (ustring \<Rightarrow> ustring option \<Rightarrow> nat \<Rightarrow> ustring + 'f weather_snapshot stored_snapshot_page)
     \<Rightarrow> ustring + history_request \<Rightarrow> 'f history_response reply" where
  "handle_get_temperature_history fl dl query decoded =
     (case decoded of
        Inl e \<Rightarrow> ReplyError BadRequest e
      | Inr req \<Rightarrow>
          let uuid = trim (hq_unified_uuid req);
              page_size = (if hq_page_size req = 0 then default_history_page_size else hq_page_size req);
              before = (case hq_before_date req of
                          None \<Rightarrow> None | Some v \<Rightarrow> if trim v = [] then None else Some v)
          in if uuid = [] then ReplyError BadRequest (lit ''unified_uuid must not be empty'')
             else if max_history_page_size < page_size
               then ReplyError BadRequest (lit ''page_size '' @ show_nat page_size
                      @ lit '' exceeds maximum '' @ show_nat max_history_page_size)
             else if (case before of
                        None \<Rightarrow> False
                      | Some v \<Rightarrow> str_len v \<noteq> 10 \<or> dl_parse dl iso_format v = None)
               then ReplyError BadRequest (lit ''before_date `'' @ the before @ lit ''` must use YYYY-MM-DD'')
             else (case query uuid before page_size of
                     Inl e \<Rightarrow> ReplyError Database (lit ''failed to load temperature history: '' @ e)
                   | Inr page \<Rightarrow>
                       ReplyOk \<lparr>hp_points = build_temperature_history fl dl (sp_snapshots page) (before = None),
                         hp_next_before_date =
                           (if sp_has_more page
                            then (case sp_snapshots page of [] \<Rightarrow> None | s # _ \<Rightarrow> Some (st_date s)) else None),
                         hp_has_more_history = sp_has_more page\<rparr>))"

definition storage_query ::
  "'snap snapshot_codec \<Rightarrow> 'tz calendar \<Rightarrow> (db_error \<Rightarrow> ustring) \<Rightarrow> sql_faults \<Rightarrow> tables
     \<Rightarrow> ustring \<Rightarrow> ustring option \<Rightarrow> nat \<Rightarrow> ustring + 'snap stored_snapshot_page" where
  "storage_query codec cal show_error faults t uuid before page_size =
     (case get_history_snapshot_page codec cal faults uuid before page_size t of
        Inl e \<Rightarrow> Inl (show_error e) | Inr page \<Rightarrow> Inr page)"

section \<open>The shape of the points\<close>

definition point_ok :: "'d date_lib \<Rightarrow> 'd \<times> 'f daily_temperature_point \<Rightarrow> bool" where
  "point_ok dl = (\<lambda>(d, p). pt_date p = dl_format dl d
     \<and> (pt_max_temperature p \<noteq> None \<or> pt_min_temperature p \<noteq> None))"

definition points_ok :: "'d date_lib \<Rightarrow> ('d, 'f) points \<Rightarrow> bool" where
  "points_ok dl ps \<longleftrightarrow> hkeys_ok ps \<and> list_all (point_ok dl) ps"

lemma daily_point_ok: "range_usable rng \<Longrightarrow> point_ok dl (d, daily_point dl d rng b)"
  by (simp add: point_ok_def daily_point_def range_usable_def)

lemma points_ok_put:
  "points_ok dl ps \<Longrightarrow> point_ok dl (d, p) \<Longrightarrow> points_ok dl (hput d p ps)"
  by (auto simp: points_ok_def list_all_iff dest: set_hputD)

lemma points_ok_history: "points_ok dl ps \<Longrightarrow> points_ok dl (add_history fl dl stored ps)"
  by (simp add: add_history_def Let_def points_ok_put daily_point_ok split: option.split)

lemma points_ok_forecast: "points_ok dl ps \<Longrightarrow> points_ok dl (add_forecast dl d rng ps)"
proof -
  assume ok: "points_ok dl ps"
  have "hget ps d = Some p \<Longrightarrow> point_ok dl (d, p)" for p
    using ok by (auto simp: points_ok_def list_all_iff dest: hget_mem)
  with ok show ?thesis
    by (auto simp: add_forecast_def daily_point_def point_ok_def range_usable_def intro!: points_ok_put
        split: option.split)
qed

lemma points_ok_fold:
  "(\<And>x ps. points_ok dl ps \<Longrightarrow> points_ok dl (f x ps)) \<Longrightarrow> points_ok dl ps \<Longrightarrow> points_ok dl (fold f xs ps)"
  by (induction xs arbitrary: ps) simp_all

lemma points_ok_steps:
  "points_ok dl ps \<Longrightarrow> points_ok dl (forecast_day_step fl dl base day ps)"
  "points_ok dl ps \<Longrightarrow> points_ok dl (chart_step dl base chart ps)"
  by (simp_all add: forecast_day_step_def chart_step_def points_ok_forecast split: option.split)

lemma build_points_ok: "points_ok dl (build_points fl dl history include_forecast)"
proof -
  have "points_ok dl (fold (add_history fl dl) history [])"
    by (rule points_ok_fold) (simp_all add: points_ok_history, simp add: points_ok_def hkeys_ok_def)
  moreover have "points_ok dl ps \<Longrightarrow> points_ok dl (forecast_points fl dl s ps)" for s and ps
    by (auto simp: forecast_points_def Let_def intro!: points_ok_fold points_ok_steps split: option.split)
  ultimately show ?thesis by (simp add: build_points_def Let_def)
qed

section \<open>Following the cursor\<close>

text \<open>A client that asks for the next page as long as the reply says there is one.\<close>

fun follow_cursor :: "nat \<Rightarrow> ('c option \<Rightarrow> 'p \<times> 'c option \<times> bool) \<Rightarrow> 'c option \<Rightarrow> 'p list" where
  "follow_cursor 0 f c = []"
| "follow_cursor (Suc k) f c =
     (case f c of (p, nxt, again) \<Rightarrow> p # (if again \<and> nxt \<noteq> None then follow_cursor k f nxt else []))"

text \<open>
  \<open>rows c\<close> are the rows before the cursor in ascending order; a page is the end of them, and the
  key of its first row is the cursor of the rest.
\<close>

locale paged_history =
  fixes page :: "'c option \<Rightarrow> nat \<Rightarrow> 'r list \<times> bool" and key :: "'r \<Rightarrow> 'c" and rows :: "'c option \<Rightarrow> 'r list"
  assumes page_rows: "0 < n \<Longrightarrow> page c n = (drop (length (rows c) - n) (rows c), n < length (rows c))"
    and cut_at_cursor: "rows c = older @ p \<Longrightarrow> p \<noteq> [] \<Longrightarrow> rows (Some (key (hd p))) = older"
begin

lemma pages_complete:
  assumes "0 < n" and "length (rows c) < fuel"
  shows "\<exists>ps. follow_cursor fuel (\<lambda>c. case page c n of (p, again) \<Rightarrow>
        (p, if again then Some (key (hd p)) else None, again)) c = ps
      \<and> concat (rev ps) = rows c \<and> ps \<noteq> [] \<and> list_all (\<lambda>p. length p \<le> n) ps \<and> list_all (\<lambda>p. p \<noteq> []) (tl ps)"
  using assms(2)
proof (induction fuel arbitrary: c)
  case (Suc fuel)
  let ?older = "take (length (rows c) - n) (rows c)" and ?p = "drop (length (rows c) - n) (rows c)"
  show ?case
  proof (cases "n < length (rows c)")
    case False
    then show ?thesis by (simp add: page_rows [OF assms(1)])
  next
    case True
    then have p: "?p \<noteq> []" "rows c = ?older @ ?p" "length ?p = n" using assms(1) by simp_all
    have rest: "rows (Some (key (hd ?p))) = ?older" by (rule cut_at_cursor [OF p(2,1)])
    with Suc.prems True assms(1) have "length (rows (Some (key (hd ?p)))) < fuel" by simp
    from Suc.IH [OF this] obtain ps where ps:
      "follow_cursor fuel (\<lambda>c. case page c n of (p, again) \<Rightarrow>
          (p, if again then Some (key (hd p)) else None, again)) (Some (key (hd ?p))) = ps"
      "concat (rev ps) = ?older" "ps \<noteq> []" "list_all (\<lambda>p. length p \<le> n) ps" "list_all (\<lambda>p. p \<noteq> []) (tl ps)"
      unfolding rest by blast
    have "?older \<noteq> []" using True assms(1) by (cases "rows c") simp_all
    with ps(2,3,5) have "list_all (\<lambda>p. p \<noteq> []) ps"
    proof (cases ps)
      case (Cons q qs)
      from ps(1) Suc.prems have "q = fst (page (Some (key (hd ?p))) n)"
        unfolding Cons by (cases fuel) (simp_all split: prod.splits)
      then have "q = drop (length ?older - n) ?older"
        unfolding page_rows [OF assms(1)] rest by simp
      moreover have "length ?older - n < length ?older"
        using assms(1) \<open>?older \<noteq> []\<close> by (intro diff_less) (simp_all only: length_greater_0_conv not_False_eq_True)
      ultimately have "q \<noteq> []" by (simp only: drop_eq_Nil not_le not_False_eq_True)
      with ps(5) Cons show ?thesis by simp
    qed simp
    with ps p True show ?thesis
      by (auto simp: page_rows [OF assms(1)])
  qed
qed simp

end

interpretation history_pages: paged_history
  "\<lambda>c n. if hkeys_ok h then (rev (take n (rev (history_before u c h))), n < length (history_before u c h))
         else ([], False)"
  "fst" "\<lambda>c. if hkeys_ok h then history_before u c h else []"
  for u :: ustring and h :: "(ustring \<times> ustring, history_row) hmap"
proof (unfold_locales, goal_cases)
  case (1 n c)
  then show ?case by (simp add: rev_take)
next
  case (2 c older p)
  then show ?case using history_before_cursor [of h u c older p] by (auto split: if_splits)
qed

text \<open>Two servers whose pages correspond.\<close>

lemma follow_related:
  assumes "\<And>c. P c \<Longrightarrow> case f c of (p, nxt, again) \<Rightarrow> g c = (R (c = None) p, nxt, again)
      \<and> (again \<and> nxt \<noteq> None \<longrightarrow> P nxt)"
  shows "P c \<Longrightarrow> follow_cursor k g c =
    (case follow_cursor k f c of [] \<Rightarrow> [] | p # ps \<Rightarrow> R (c = None) p # map (R False) ps)"
proof (induction k arbitrary: c)
  case (Suc k)
  obtain p nxt again where f: "f c = (p, nxt, again)" by (metis prod_cases3)
  with assms [OF Suc.prems] have g: "g c = (R (c = None) p, nxt, again)"
      and nxt: "again \<and> nxt \<noteq> None \<longrightarrow> P nxt" by simp_all
  show ?case
  proof (cases "again \<and> nxt \<noteq> None")
    case True
    then obtain d where d: "nxt = Some d" by blast
    with True nxt have "P (Some d)" by simp
    from Suc.IH [OF this] have "follow_cursor k g nxt =
      (case follow_cursor k f nxt of [] \<Rightarrow> [] | p # ps \<Rightarrow> R False p # map (R False) ps)"
      by (simp only: d option.distinct simp_thms)
    then have "follow_cursor k g nxt = map (R False) (follow_cursor k f nxt)"
      by (cases "follow_cursor k f nxt") simp_all
    with True f g show ?thesis by simp
  next
    case False
    with f g show ?thesis by auto
  qed
qed simp

lemma collect_results_map:
  "(\<And>x. x \<in> set xs \<Longrightarrow> f x = Inr (D x)) \<Longrightarrow> collect_results f xs = Inr (map D xs)"
  by (induction xs) simp_all

lemma collect_results_Inr:
  "collect_results f xs = Inr ys \<Longrightarrow> x \<in> set xs \<Longrightarrow> \<exists>y. f x = Inr y"
  by (induction xs arbitrary: ys) (auto split: sum.splits)

definition decoded_row :: "'snap snapshot_codec \<Rightarrow> ustring \<Rightarrow> ustring \<times> history_row \<Rightarrow> 'snap stored_snapshot" where
  "decoded_row codec uuid r = (case decode_stored_snapshot codec uuid r of Inr s \<Rightarrow> s)"

lemma decoded_row_date:
  "decode_stored_snapshot codec uuid r = Inr s \<Longrightarrow> st_date s = fst r \<and> decoded_row codec uuid r = s"
  by (auto simp: decode_stored_snapshot_def decoded_row_def split: if_splits option.splits)

lemma history_page_rows:
  assumes "0 < n" and "n \<le> max_history_page_size" and "case c of None \<Rightarrow> True | Some d \<Rightarrow> cal_date_ok cal d"
    and "\<And>r. r \<in> set (history_before uuid c (tb_history t)) \<Longrightarrow>
      decode_stored_snapshot codec uuid r = Inr (decoded_row codec uuid r)"
  shows "get_history_snapshot_page codec cal (\<lambda>_. False) uuid c n t =
    Inr \<lparr>sp_snapshots = map (decoded_row codec uuid) (rev (take n (rev (history_before uuid c (tb_history t))))),
         sp_has_more = n < length (history_before uuid c (tb_history t))\<rparr>"
proof -
  let ?H = "history_before uuid c (tb_history t)"
  have lim: "checked_i64 (int (sat_add n (Suc 0))) = Some (int (Suc n))"
    using assms(2)
    by (simp add: max_history_page_size_def checked_i64_def sat_add_def u64_max_def i64_min_def i64_max_def)
  have "n < length (take (Suc n) (rev ?H)) \<longleftrightarrow> n < length ?H" by auto
  moreover have "take n (take (Suc n) (rev ?H)) = take n (rev ?H)" by simp
  moreover have "collect_results (decode_stored_snapshot codec uuid) (rev (take n (rev ?H)))
      = Inr (map (decoded_row codec uuid) (rev (take n (rev ?H))))"
    using assms(4) by (intro collect_results_map) (auto dest!: in_set_takeD)
  moreover have "\<not> (case c of None \<Rightarrow> False | Some d \<Rightarrow> \<not> cal_date_ok cal d)"
    using assms(3) by (cases c) simp_all
  moreover have "nat (1 + int n) = Suc n" by simp
  ultimately show ?thesis
    using assms(1)
    by (simp add: get_history_snapshot_page_def lim Let_def del: take_rev)
qed

definition history_reply ::
  "'f history_response reply \<Rightarrow> 'f daily_temperature_point list \<times> ustring option \<times> bool" where
  "history_reply r =
     (case r of ReplyOk m \<Rightarrow> (hp_points m, hp_next_before_date m, hp_has_more_history m)
      | _ \<Rightarrow> ([], None, False))"

section \<open>Properties\<close>

text \<open>
  C19: Temperature history can be read completely: a client that starts without a cursor and
  follows \<open>next_before_date\<close> as long as the reply announces more gets, newest page first, the
  points of consecutive stretches of at most the page size that together are the whole stored
  history of the station, each day once; only the first page contains forecasts; and it ends
  after at most one request per stored day plus one.
\<close>

theorem temperature_history_pages_are_complete:
  assumes "hkeys_ok (tb_history t)"
    and "collect_results (decode_stored_snapshot codec uuid) (history_before uuid None (tb_history t)) = Inr stored"
    and "list_all (\<lambda>s. str_len (st_date s) = 10 \<and> trim (st_date s) \<noteq> []
      \<and> dl_parse dl iso_format (st_date s) \<noteq> None \<and> cal_date_ok cal (st_date s)) stored"
    and "trim uuid = uuid" and "uuid \<noteq> []" and "0 < n" and "n \<le> max_history_page_size"
    and "length stored < fuel"
  shows "\<exists>first rest. concat (rev (first # rest)) = stored
    \<and> list_all (\<lambda>p. length p \<le> n) (first # rest) \<and> list_all (\<lambda>p. p \<noteq> []) rest
    \<and> follow_cursor fuel (\<lambda>c. history_reply (handle_get_temperature_history fl dl
          (storage_query codec cal show_error (\<lambda>_. False) t)
          (Inr \<lparr>hq_unified_uuid = uuid, hq_before_date = c, hq_page_size = n\<rparr>))) None
      = build_temperature_history fl dl first True
        # map (\<lambda>p. build_temperature_history fl dl p False) rest"
proof -
  let ?h = "tb_history t" and ?D = "decoded_row codec uuid"
  let ?page = "\<lambda>c. (rev (take n (rev (history_before uuid c ?h))), n < length (history_before uuid c ?h))"
  let ?f = "\<lambda>c. case ?page c of (p, again) \<Rightarrow> (p, if again then Some (fst (hd p)) else None, again)"
  let ?g = "\<lambda>c. history_reply (handle_get_temperature_history fl dl
          (storage_query codec cal show_error (\<lambda>_. False) t)
          (Inr \<lparr>hq_unified_uuid = uuid, hq_before_date = c, hq_page_size = n\<rparr>))"
  let ?R = "\<lambda>b p. build_temperature_history fl dl (map ?D p) b"
  let ?P = "\<lambda>c. case c of None \<Rightarrow> True | Some d \<Rightarrow> d \<in> fst ` set (history_before uuid None ?h)"
  have dec: "decode_stored_snapshot codec uuid r = Inr (?D r)" "st_date (?D r) = fst r"
    if "r \<in> set (history_before uuid None ?h)" for r
    using collect_results_Inr [OF assms(2) that] decoded_row_date [of codec uuid r] by auto
  have stored: "stored = map ?D (history_before uuid None ?h)"
    using collect_results_map [of "history_before uuid None ?h" "decode_stored_snapshot codec uuid" ?D] dec assms(2)
    by simp
  have good: "str_len d = 10 \<and> trim d \<noteq> [] \<and> dl_parse dl iso_format d \<noteq> None \<and> cal_date_ok cal d"
    if "d \<in> fst ` set (history_before uuid None ?h)" for d
    using assms(3) that dec(2) unfolding stored list_all_iff by fastforce
  have sub: "set (history_before uuid c ?h) \<subseteq> set (history_before uuid None ?h)" for c
    by (auto simp: history_before_def)
  have related: "case ?f c of (p, nxt, again) \<Rightarrow> ?g c = (?R (c = None) p, nxt, again)
      \<and> (again \<and> nxt \<noteq> None \<longrightarrow> ?P nxt)" if c: "?P c" for c
  proof -
    let ?p = "rev (take n (rev (history_before uuid c ?h)))"
    have cal: "case c of None \<Rightarrow> True | Some d \<Rightarrow> cal_date_ok cal d"
      using c good by (cases c) auto
    have q: "storage_query codec cal show_error (\<lambda>_. False) t uuid c n =
        Inr \<lparr>sp_snapshots = map ?D ?p, sp_has_more = n < length (history_before uuid c ?h)\<rparr>"
      using history_page_rows [OF assms(6,7) cal, of uuid t codec] dec(1) sub [of c]
      by (simp add: storage_query_def subset_eq)
    have before: "(case c of None \<Rightarrow> None | Some v \<Rightarrow> if trim v = [] then None else Some v) = c"
      using c good by (cases c) auto
    have valid: "\<not> (case c of None \<Rightarrow> False | Some v \<Rightarrow> str_len v \<noteq> 10 \<or> dl_parse dl iso_format v = None)"
      using c good by (cases c) auto
    have psub: "set ?p \<subseteq> set (history_before uuid None ?h)"
      using sub [of c] by (auto dest!: in_set_takeD)
    have nonempty: "?p \<noteq> []" if "n < length (history_before uuid c ?h)"
      using that assms(6) by auto
    have hd: "st_date (?D (hd ?p)) = fst (hd ?p)" if "?p \<noteq> []"
      using psub hd_in_set [OF that] dec(2) by blast
    have nxt: "(case map ?D ?p of [] \<Rightarrow> None | s # _ \<Rightarrow> Some (st_date s)) = Some (fst (hd ?p))" if "?p \<noteq> []"
      using hd that by (cases ?p) simp_all
    have "?g c = (?R (c = None) ?p,
        if n < length (history_before uuid c ?h) then Some (fst (hd ?p)) else None,
        n < length (history_before uuid c ?h))"
      using assms(4-7) nonempty nxt
      by (simp add: handle_get_temperature_history_def Let_def before valid q history_reply_def)
    moreover have "?P (Some (fst (hd ?p)))" if "n < length (history_before uuid c ?h)"
      using psub hd_in_set [OF nonempty [OF that]] by auto
    ultimately show ?thesis by simp
  qed
  have "length (history_before uuid None ?h) < fuel" using assms(8) stored by simp
  with history_pages.pages_complete [of n ?h uuid None fuel, OF assms(6)] assms(1) obtain ps where
    ps: "follow_cursor fuel ?f None = ps" "concat (rev ps) = history_before uuid None ?h" "ps \<noteq> []"
      "list_all (\<lambda>p. length p \<le> n) ps" "list_all (\<lambda>p. p \<noteq> []) (tl ps)"
    by auto
  then obtain q qs where qs: "ps = q # qs" by (cases ps) simp_all
  have "follow_cursor fuel ?g None = ?R True q # map (?R False) qs"
    using follow_related [where P = ?P and f = ?f and g = ?g and R = ?R and c = None and k = fuel, OF related]
      ps(1) qs by simp
  moreover have "concat (rev (map ?D q # map (map ?D) qs)) = stored"
    using ps(2) unfolding stored qs by (simp add: map_concat rev_map flip: ps(2)[unfolded qs])
  ultimately show ?thesis
    using ps(4,5) qs
    by (intro exI [of _ "map ?D q"] exI [of _ "map (map ?D) qs"]) (simp add: list_all_iff)
qed

definition sample_snapshot :: "nat weather_snapshot" where
  "sample_snapshot = \<lparr>ws_station = None, ws_real = None, ws_predict = None, ws_air = None,
     ws_tempchart = [], ws_passedchart = [], ws_climate = None, ws_radar = None, ws_stale = False,
     ws_debug = None\<rparr>"

definition sample_snapshot_codec :: "nat weather_snapshot snapshot_codec" where
  "sample_snapshot_codec = \<lparr>sn_station = ws_station, sn_encode = (\<lambda>s. []), sn_decode = (\<lambda>b. Some sample_snapshot)\<rparr>"

definition sample_history :: tables where
  "sample_history = initial_schema\<lparr>tb_history :=
     [(([117], lit ''2026-07-16''), \<lparr>hr_schema = schema_version, hr_proto = [], hr_fetched = 9\<rparr>),
      (([117], lit ''2026-07-15''), \<lparr>hr_schema = schema_version, hr_proto = [], hr_fetched = 5\<rparr>)]\<rparr>"

definition sample_dates :: "nat date_lib" where
  "sample_dates = \<lparr>dl_parse = (\<lambda>_ _. Some 0), dl_format = (\<lambda>d. []), dl_year = int, dl_month_day = (\<lambda>d. (1, 1)),
     dl_ymd = (\<lambda>_ _. None), dl_day_number = int\<rparr>"

definition sample_floats :: "nat float_lib" where
  "sample_floats = \<lparr>fl_parse = (\<lambda>_. None), fl_max = max, fl_min = min, fl_finite = (\<lambda>_. True),
     fl_integral = (\<lambda>_. True), fl_fixed = show_nat, fl_show = show_nat\<rparr>"

lemma temperature_history_pages_are_complete_witness:
  "\<exists>first rest.
     map st_date (concat (rev (first # rest))) = [lit ''2026-07-15'', lit ''2026-07-16'']
     \<and> follow_cursor 5 (\<lambda>c. history_reply (handle_get_temperature_history sample_floats sample_dates
          (storage_query sample_snapshot_codec sample_calendar (\<lambda>_. []) (\<lambda>_. False) sample_history)
          (Inr \<lparr>hq_unified_uuid = [117], hq_before_date = c, hq_page_size = 1\<rparr>))) None
      = build_temperature_history sample_floats sample_dates first True
        # map (\<lambda>p. build_temperature_history sample_floats sample_dates p False) rest"
proof -
  let ?stored = "[\<lparr>st_date = lit ''2026-07-15'', st_snapshot = sample_snapshot, st_fetched = 5\<rparr>,
      \<lparr>st_date = lit ''2026-07-16'', st_snapshot = sample_snapshot, st_fetched = 9\<rparr>]"
  have rows: "history_before [117] None (tb_history sample_history) =
      [(lit ''2026-07-15'', \<lparr>hr_schema = schema_version, hr_proto = [], hr_fetched = 5\<rparr>),
       (lit ''2026-07-16'', \<lparr>hr_schema = schema_version, hr_proto = [], hr_fetched = 9\<rparr>)]"
    by (simp add: history_before_def history_of_def sample_history_def)
  have keys: "hkeys_ok (tb_history sample_history)"
    by (simp add: hkeys_ok_def sample_history_def)
  have decoded: "collect_results (decode_stored_snapshot sample_snapshot_codec [117])
      (history_before [117] None (tb_history sample_history)) = Inr ?stored"
    unfolding rows by (simp add: decode_stored_snapshot_def sample_snapshot_codec_def)
  have dates: "list_all (\<lambda>s. str_len (st_date s) = 10 \<and> trim (st_date s) \<noteq> []
      \<and> dl_parse sample_dates iso_format (st_date s) \<noteq> None \<and> cal_date_ok sample_calendar (st_date s)) ?stored"
    by (simp add: sample_dates_def sample_calendar_def str_len_def utf8_char_def trim_def is_whitespace_def)
  have uuid: "trim [117::nat] = [117]" by (simp add: trim_def is_whitespace_def)
  from temperature_history_pages_are_complete [where n = 1 and fuel = 5 and fl = sample_floats
      and show_error = "\<lambda>_. []", OF keys decoded dates uuid] obtain first rest where
    fr: "concat (rev (first # rest)) = ?stored"
     "follow_cursor 5 (\<lambda>c. history_reply (handle_get_temperature_history sample_floats sample_dates
          (storage_query sample_snapshot_codec sample_calendar (\<lambda>_. []) (\<lambda>_. False) sample_history)
          (Inr \<lparr>hq_unified_uuid = [117], hq_before_date = c, hq_page_size = 1\<rparr>))) None
      = build_temperature_history sample_floats sample_dates first True
        # map (\<lambda>p. build_temperature_history sample_floats sample_dates p False) rest"
    by (auto simp: max_history_page_size_def simp del: list.map)
  from fr(1) have "map st_date (concat (rev (first # rest))) = [lit ''2026-07-15'', lit ''2026-07-16'']"
    by (simp del: concat.simps rev.simps)
  with fr(2) show ?thesis by (intro exI conjI)
qed

text \<open>
  Also: Every reply of the temperature history is well formed, whatever the stored snapshots
  contain: the points lie on strictly increasing dates, each has a maximum or a minimum, a page
  read with a cursor has no forecasts, the next cursor is given only if there is more history,
  and errors are either a bad request or a database error.
\<close>

theorem temperature_reply_well_formed:
  "case handle_get_temperature_history fl dl query decoded of
     ReplyOk m \<Rightarrow>
       (\<exists>ds. sorted_wrt (<) ds \<and> map pt_date (hp_points m) = map (dl_format dl) ds)
       \<and> list_all (\<lambda>p. \<not> (pt_max_temperature p = None \<and> pt_min_temperature p = None)) (hp_points m)
       \<and> (case decoded of
            Inr req \<Rightarrow> if blank (hq_before_date req) then True
                        else list_all (\<lambda>p. \<not> pt_forecast p) (hp_points m)
          | Inl e \<Rightarrow> False)
       \<and> (if hp_has_more_history m then True else hp_next_before_date m = None)
   | ReplyError code message \<Rightarrow> code = BadRequest \<or> code = Database
   | ReplyAccepted m \<Rightarrow> False"
proof -
  have shape: "(\<exists>ds. sorted_wrt (<) ds \<and> map pt_date (build_temperature_history fl dl history b) = map (dl_format dl) ds)
    \<and> list_all (\<lambda>p. \<not> (pt_max_temperature p = None \<and> pt_min_temperature p = None)) (build_temperature_history fl dl history b)"
    for history b
  proof -
    let ?ps = "sort_key fst (build_points fl dl history b)"
    have ok: "hkeys_ok (build_points fl dl history b)" "list_all (point_ok dl) ?ps"
      using build_points_ok [of dl fl history b] by (simp_all add: points_ok_def list_all_iff)
    have "distinct (map fst ?ps)" using ok(1) by (simp add: hkeys_ok_def distinct_sort_key)
    then have "sorted_wrt (<) (map fst ?ps)" by (simp add: strict_sorted_iff)
    moreover have "map pt_date (map snd ?ps) = map (dl_format dl) (map fst ?ps)"
      using ok(2) by (auto simp: list_all_iff point_ok_def)
    ultimately show ?thesis
      using ok(2) unfolding build_temperature_history_def
      by (auto simp: list_all_iff point_ok_def intro!: exI [of _ "map fst ?ps"])
  qed
  have plain: "list_all (\<lambda>p. \<not> pt_forecast p) (build_temperature_history fl dl history False)" for history
  proof -
    have "list_all (\<lambda>r. \<not> pt_forecast (snd r)) (fold (add_history fl dl) history ps)"
      if "list_all (\<lambda>r. \<not> pt_forecast (snd r)) ps" for ps
      using that
    proof (induction history arbitrary: ps)
      case (Cons s ss)
      have "list_all (\<lambda>r. \<not> pt_forecast (snd r)) (add_history fl dl s ps)"
        using Cons.prems
        by (auto simp: add_history_def Let_def daily_point_def list_all_iff dest!: set_hputD split: option.split)
      then show ?case by (simp add: Cons.IH)
    qed simp
    from this [of "[]"] show ?thesis
      by (simp add: build_temperature_history_def build_points_def list_all_iff)
  qed
  show ?thesis
    using shape plain
    by (auto simp: handle_get_temperature_history_def Let_def blank_def split: sum.splits option.splits)
qed

end
