(* ===== verification/Engine_World.thy ===== *)
theory Engine_World
  imports Rpc_Reply Db_Actor Resource_Cache Events
begin

text \<open>
  What the request handlers of the engine share: the database behind its actor, which may
  refuse a call or fail a statement, the resource manager and the events published so far.
  \<open>call_env\<close> is what happens to one call of the database actor; a refused call carries the
  text of the refusal.
\<close>

datatype weather_event =
    RefreshStarted "ustring option"
  | RefreshCompleted "ustring option" refresh_terminal
  | FetchLogged "ustring option" ustring bool "ustring option"
  | SnapshotPublished

record 'tz weather_world =
  ww_db :: "'tz db_instance"
  ww_resources :: resource_state
  ww_events :: "weather_event list"

record call_env =
  ce_refused :: "error_chain option"
  ce_faults :: sql_faults

definition publish :: "weather_event \<Rightarrow> 'tz weather_world \<Rightarrow> 'tz weather_world" where
  "publish e w = w\<lparr>ww_events := ww_events w @ [e]\<rparr>"

definition db_read ::
  "(db_error \<Rightarrow> error_chain) \<Rightarrow> call_env \<Rightarrow> (sql_faults \<Rightarrow> tables \<Rightarrow> db_error + 'r) \<Rightarrow> 'tz weather_world
     \<Rightarrow> error_chain + 'r" where
  "db_read show_error ce query w =
     (case ce_refused ce of
        Some e \<Rightarrow> Inl e
      | None \<Rightarrow> (case query (ce_faults ce) (di_tables (ww_db w)) of
                  Inl e \<Rightarrow> Inl (show_error e) | Inr r \<Rightarrow> Inr r))"

definition db_write ::
  "(db_error \<Rightarrow> error_chain) \<Rightarrow> call_env \<Rightarrow> (sql_faults \<Rightarrow> tables \<Rightarrow> (db_error + 'r) \<times> tables)
     \<Rightarrow> 'tz weather_world \<Rightarrow> (error_chain + 'r) \<times> 'tz weather_world" where
  "db_write show_error ce update w =
     (case ce_refused ce of
        Some e \<Rightarrow> (Inl e, w)
      | None \<Rightarrow> (case update (ce_faults ce) (di_tables (ww_db w)) of
                  (r, t) \<Rightarrow> (case r of Inl e \<Rightarrow> Inl (show_error e) | Inr x \<Rightarrow> Inr x,
                             w\<lparr>ww_db := (ww_db w)\<lparr>di_tables := t\<rparr>\<rparr>)))"

text \<open>
  A single-flight call: it leads the flight and does the work, or it joins the flight of another
  call. An error reaches every participant as text.
\<close>

definition flight_result :: "error_chain + 'a \<Rightarrow> error_chain + 'a" where
  "flight_result r = (case r of Inl e \<Rightarrow> Inl [show_chain e] | Inr s \<Rightarrow> Inr s)"

definition fly ::
  "(error_chain + 'a) option \<Rightarrow> ('w \<Rightarrow> (error_chain + 'a) \<times> 'w) \<Rightarrow> 'w \<Rightarrow> (error_chain + 'a) \<times> 'w" where
  "fly shared work w =
     (case shared of
        Some r \<Rightarrow> (flight_result r, w)
      | None \<Rightarrow> (case work w of (r, w') \<Rightarrow> (flight_result r, w')))"

lemma publish_simps [simp]:
  "ww_db (publish e w) = ww_db w" "ww_resources (publish e w) = ww_resources w"
  "ww_events (publish e w) = ww_events w @ [e]"
  by (simp_all add: publish_def)

lemma db_write_fields [simp]:
  "ww_events (snd (db_write sh ce f w)) = ww_events w"
  "ww_resources (snd (db_write sh ce f w)) = ww_resources w"
  by (simp_all add: db_write_def split: option.split prod.split)

end
