(* ===== verification/Catalog.thy ===== *)
theory Catalog
  imports Engine_World Fuzzy Db_Catalog
begin

text \<open>
  The catalog handlers (\<^verbatim>\<open>weather-core/engine/src/handlers/catalog.rs\<close>, with
  \<^verbatim>\<open>catalog.rs\<close> of the engine): cached provinces and city scopes with their time to live, the
  refresh of one scope with its fallback to a stale copy, and the population of a whole catalog
  by a bounded set of tasks. The upstream provider is a parameter whose records are already those
  of the database (the two conversions copy every field). One request reads the clock once and
  sees one configuration.
\<close>

section \<open>Freshness and the environment\<close>

definition max_concurrent_catalog_fetches :: nat where "max_concurrent_catalog_fetches = 8"

definition catalog_cache_is_fresh :: "int \<Rightarrow> int \<Rightarrow> nat \<Rightarrow> bool" where
  "catalog_cache_is_fresh fetched now ttl_seconds =
     (if ttl_seconds = 0 then False
      else let age_ms = max 0 (sat_i64 (now - fetched)); ttl_ms = int ttl_seconds * 1000
           in age_ms < ttl_ms)"

text \<open>The calls of the database, in the places of the code; a city scope is named by its code.\<close>

datatype catalog_site =
    ProvincesRead | ProvincesRecheck | ProvincesReplace | ProvincesReread | ProvincesLog
  | CitiesRead ustring | CitiesRecheck ustring | CitiesReplace ustring | CitiesReread ustring
  | CitiesLog ustring | ScopesRead | MappingWrite

text \<open>
  \<open>ka_join_*\<close>: the result of a flight that another request leads, if there is one.
  \<open>ka_permit\<close>: the limiter of upstream fetches is closed. \<open>ka_pick\<close>: which running task ends at a
  step of the population; \<open>ka_task_failure\<close>: a task panics; \<open>ka_late\<close>: a task that is aborted had
  already done its work.
\<close>

record catalog_env =
  ka_provider :: ustring
  ka_sha :: "byte list \<Rightarrow> byte list"
  ka_ttl :: nat
  ka_now :: int
  ka_write_now :: int
  ka_provinces :: "error_chain + provider_province list"
  ka_cities :: "ustring \<Rightarrow> error_chain + provider_city list"
  ka_permit :: "error_chain option"
  ka_calls :: "catalog_site \<Rightarrow> call_env"
  ka_db_error :: "db_error \<Rightarrow> error_chain"
  ka_join_provinces :: "(error_chain + provider_province list) option"
  ka_join_cities :: "ustring \<Rightarrow> (error_chain + provider_city list) option"
  ka_join_catalog :: "(error_chain + provider_catalog) option"
  ka_pick :: "nat \<Rightarrow> nat"
  ka_task_failure :: "ustring \<Rightarrow> ustring option"
  ka_late :: "ustring \<Rightarrow> bool"

definition fresh_catalog :: "catalog_env \<Rightarrow> 'a catalog_cache \<Rightarrow> bool" where
  "fresh_catalog env stored = catalog_cache_is_fresh (cc_fetched_at stored) (ka_now env) (ka_ttl env)"

section \<open>The refresh of one scope\<close>

definition append_warning :: "ustring option \<Rightarrow> ustring \<Rightarrow> ustring option" where
  "append_warning message warning =
     (case message of Some m \<Rightarrow> Some (m @ lit ''; '' @ warning) | None \<Rightarrow> Some warning)"

definition record_catalog_fetch ::
  "catalog_env \<Rightarrow> call_env \<Rightarrow> ustring \<Rightarrow> bool \<Rightarrow> ustring option \<Rightarrow> bool \<Rightarrow> ustring option
     \<Rightarrow> 'tz weather_world \<Rightarrow> 'tz weather_world" where
  "record_catalog_fetch env ce endpoint persisted_ok persisted_message event_ok event_message w =
     (case db_write (ka_db_error env) ce
             (\<lambda>faults. log_fetch faults (ka_write_now env) None endpoint persisted_ok persisted_message) w of
        (r, w') \<Rightarrow>
          publish (FetchLogged None endpoint event_ok
                    (case r of
                       Inl e \<Rightarrow> append_warning event_message (lit ''fetch log write failed: '' @ show_chain e)
                     | Inr u \<Rightarrow> event_message)) w')"

definition validated_upstream ::
  "error_chain option \<Rightarrow> error_chain + 'a list \<Rightarrow> ('a list \<Rightarrow> error_chain option) \<Rightarrow> error_chain + 'a list" where
  "validated_upstream permit result check =
     (case permit of
        Some e \<Rightarrow> Inl e
      | None \<Rightarrow> (case result of
                   Inl e \<Rightarrow> Inl e
                 | Inr items \<Rightarrow> (case check items of Some e \<Rightarrow> Inl e | None \<Rightarrow> Inr items)))"

text \<open>The end of a refresh: store what was fetched, or fall back to the stale copy.\<close>

definition settle_catalog_fetch ::
  "catalog_env \<Rightarrow> call_env \<Rightarrow> ustring \<Rightarrow> 'a list option
     \<Rightarrow> ('a list \<Rightarrow> 'tz weather_world \<Rightarrow> ('a list \<times> ustring option) \<times> 'tz weather_world)
     \<Rightarrow> error_chain + 'a list \<Rightarrow> 'tz weather_world \<Rightarrow> (error_chain + 'a list) \<times> 'tz weather_world" where
  "settle_catalog_fetch env ce endpoint stale persist fetched w =
     (case fetched of
        Inr upstream \<Rightarrow>
          (case persist upstream w of
             ((result, warning), w') \<Rightarrow>
               (Inr result, record_catalog_fetch env ce endpoint True warning True warning w'))
      | Inl err \<Rightarrow>
          (let message = show_chain err
           in case stale of
                Some items \<Rightarrow>
                  (Inr items, record_catalog_fetch env ce endpoint False (Some message) False
                     (Some (lit ''using stale catalog after '' @ message)) w)
              | None \<Rightarrow>
                  (Inl err, record_catalog_fetch env ce endpoint False (Some message) False (Some message) w)))"

definition persist_provider_provinces ::
  "catalog_env \<Rightarrow> provider_province list \<Rightarrow> 'tz weather_world
     \<Rightarrow> (provider_province list \<times> ustring option) \<times> 'tz weather_world" where
  "persist_provider_provinces env upstream w =
     (case db_write (ka_db_error env) (ka_calls env ProvincesReplace)
             (\<lambda>faults. replace_provider_provinces faults (ka_write_now env) (ka_provider env) upstream) w of
        (Inl e, w') \<Rightarrow> ((upstream, Some (lit ''catalog cache write failed: '' @ show_chain e)), w')
      | (Inr u, w') \<Rightarrow>
          (case db_read (ka_db_error env) (ka_calls env ProvincesReread)
                  (\<lambda>faults. get_provider_provinces faults (ka_provider env)) w' of
             Inr (Some stored) \<Rightarrow> ((cc_items stored, None), w')
           | Inr None \<Rightarrow>
               ((upstream, Some (lit ''catalog cache re-read returned no value after replacement'')), w')
           | Inl e \<Rightarrow> ((upstream, Some (lit ''catalog cache re-read failed: '' @ show_chain e)), w')))"

definition persist_provider_cities ::
  "catalog_env \<Rightarrow> ustring \<Rightarrow> provider_city list \<Rightarrow> 'tz weather_world
     \<Rightarrow> (provider_city list \<times> ustring option) \<times> 'tz weather_world" where
  "persist_provider_cities env code upstream w =
     (case db_write (ka_db_error env) (ka_calls env (CitiesReplace code))
             (\<lambda>faults. replace_provider_cities faults (ka_write_now env) (ka_provider env) code upstream) w of
        (Inl e, w') \<Rightarrow> ((upstream, Some (lit ''catalog cache write failed: '' @ show_chain e)), w')
      | (Inr u, w') \<Rightarrow>
          (case db_read (ka_db_error env) (ka_calls env (CitiesReread code))
                  (\<lambda>faults. get_provider_cities faults (ka_provider env) code) w' of
             Inr (Some stored) \<Rightarrow> ((cc_items stored, None), w')
           | Inr None \<Rightarrow>
               ((upstream, Some (lit ''catalog cache re-read returned no value after replacement'')), w')
           | Inl e \<Rightarrow> ((upstream, Some (lit ''catalog cache re-read failed: '' @ show_chain e)), w')))"

definition sort_provider_provinces :: "provider_province list \<Rightarrow> provider_province list" where
  "sort_provider_provinces ps = sort_key pp_provider_code ps"

definition sort_provider_cities :: "provider_city list \<Rightarrow> provider_city list" where
  "sort_provider_cities cs = sort_key (\<lambda>c. (pc_city c, pc_provider_code c)) cs"

definition refresh_provider_provinces ::
  "catalog_env \<Rightarrow> 'tz weather_world \<Rightarrow> (error_chain + provider_province list) \<times> 'tz weather_world" where
  "refresh_provider_provinces env w =
     (case db_read (ka_db_error env) (ka_calls env ProvincesRecheck)
             (\<lambda>faults. get_provider_provinces faults (ka_provider env)) w of
        Inl e \<Rightarrow> (Inl e, w)
      | Inr cached \<Rightarrow>
          (case cached of
             Some stored \<Rightarrow> if fresh_catalog env stored then (Inr (cc_items stored), w)
               else settle_catalog_fetch env (ka_calls env ProvincesLog) (lit ''rest/province/all'')
                 (Some (cc_items stored)) (persist_provider_provinces env)
                 (map_sum id sort_provider_provinces (validated_upstream (ka_permit env) (ka_provinces env)
                    (\<lambda>ps. map_option (ka_db_error env) (validate_provider_province_catalog ps)))) w
           | None \<Rightarrow>
               settle_catalog_fetch env (ka_calls env ProvincesLog) (lit ''rest/province/all'')
                 None (persist_provider_provinces env)
                 (map_sum id sort_provider_provinces (validated_upstream (ka_permit env) (ka_provinces env)
                    (\<lambda>ps. map_option (ka_db_error env) (validate_provider_province_catalog ps)))) w))"

definition refresh_provider_cities ::
  "catalog_env \<Rightarrow> ustring \<Rightarrow> 'tz weather_world \<Rightarrow> (error_chain + provider_city list) \<times> 'tz weather_world" where
  "refresh_provider_cities env code w =
     (case db_read (ka_db_error env) (ka_calls env (CitiesRecheck code))
             (\<lambda>faults. get_provider_cities faults (ka_provider env) code) w of
        Inl e \<Rightarrow> (Inl e, w)
      | Inr cached \<Rightarrow>
          (case cached of
             Some stored \<Rightarrow> if fresh_catalog env stored then (Inr (cc_items stored), w)
               else settle_catalog_fetch env (ka_calls env (CitiesLog code)) (lit ''rest/province/'' @ code)
                 (Some (cc_items stored)) (persist_provider_cities env code)
                 (map_sum id sort_provider_cities (validated_upstream (ka_permit env) (ka_cities env code)
                    (\<lambda>cs. map_option (ka_db_error env) (validate_provider_city_catalog code cs)))) w
           | None \<Rightarrow>
               settle_catalog_fetch env (ka_calls env (CitiesLog code)) (lit ''rest/province/'' @ code)
                 None (persist_provider_cities env code)
                 (map_sum id sort_provider_cities (validated_upstream (ka_permit env) (ka_cities env code)
                    (\<lambda>cs. map_option (ka_db_error env) (validate_provider_city_catalog code cs)))) w))"

section \<open>Reading a catalog\<close>

definition provider_provinces ::
  "catalog_env \<Rightarrow> 'tz weather_world \<Rightarrow> (error_chain + provider_province list) \<times> 'tz weather_world" where
  "provider_provinces env w =
     (case db_read (ka_db_error env) (ka_calls env ProvincesRead)
             (\<lambda>faults. get_provider_provinces faults (ka_provider env)) w of
        Inl e \<Rightarrow> (Inl e, w)
      | Inr cached \<Rightarrow>
          (case cached of
             Some stored \<Rightarrow> if fresh_catalog env stored then (Inr (cc_items stored), w)
               else fly (ka_join_provinces env) (refresh_provider_provinces env) w
           | None \<Rightarrow> fly (ka_join_provinces env) (refresh_provider_provinces env) w))"

definition provider_cities_by_code ::
  "catalog_env \<Rightarrow> ustring \<Rightarrow> 'tz weather_world \<Rightarrow> (error_chain + provider_city list) \<times> 'tz weather_world" where
  "provider_cities_by_code env code w =
     (case db_read (ka_db_error env) (ka_calls env (CitiesRead code))
             (\<lambda>faults. get_provider_cities faults (ka_provider env) code) w of
        Inl e \<Rightarrow> (Inl e, w)
      | Inr cached \<Rightarrow>
          (case cached of
             Some stored \<Rightarrow> if fresh_catalog env stored then (Inr (cc_items stored), w)
               else fly (ka_join_cities env code) (refresh_provider_cities env code) w
           | None \<Rightarrow> fly (ka_join_cities env code) (refresh_provider_cities env code) w))"

definition resolve_provider_province ::
  "provider_province list \<Rightarrow> ustring \<Rightarrow> ustring \<Rightarrow> error_chain + provider_province" where
  "resolve_provider_province provinces provider province =
     (case filter (\<lambda>p. pp_name p = province) provinces of
        [p] \<Rightarrow> Inr p
      | [] \<Rightarrow> Inl [lit ''provider province `'' @ province @ lit ''` not found for `'' @ provider @ lit ''`'']
      | matches \<Rightarrow> Inl [lit ''provider province `'' @ province @ lit ''` is ambiguous for `'' @ provider
                          @ lit ''`: '' @ join (lit '', '') (map pp_provider_code matches)])"

definition resolve_provider_province_code ::
  "catalog_env \<Rightarrow> ustring \<Rightarrow> 'tz weather_world \<Rightarrow> (error_chain + ustring) \<times> 'tz weather_world" where
  "resolve_provider_province_code env province w =
     (case provider_provinces env w of
        (Inl e, w') \<Rightarrow> (Inl e, w')
      | (Inr provinces, w') \<Rightarrow>
          (map_sum id pp_provider_code (resolve_provider_province provinces (ka_provider env) province), w'))"

definition provider_cities_by_province_name ::
  "catalog_env \<Rightarrow> ustring \<Rightarrow> 'tz weather_world \<Rightarrow> (error_chain + provider_city list) \<times> 'tz weather_world" where
  "provider_cities_by_province_name env province w =
     (case resolve_provider_province_code env province w of
        (Inl e, w') \<Rightarrow> (Inl e, w')
      | (Inr code, w') \<Rightarrow> provider_cities_by_code env code w')"

definition list_provinces ::
  "catalog_env \<Rightarrow> 'tz weather_world \<Rightarrow> (error_chain + ustring list) \<times> 'tz weather_world" where
  "list_provinces env w =
     (case provider_provinces env w of (r, w') \<Rightarrow> (map_sum id (map province_public_ref) r, w'))"

definition list_cities ::
  "catalog_env \<Rightarrow> ustring \<Rightarrow> 'tz weather_world \<Rightarrow> (error_chain + (ustring \<times> ustring) list) \<times> 'tz weather_world" where
  "list_cities env province w =
     (case provider_cities_by_province_name env province w of
        (r, w') \<Rightarrow> (map_sum id (map city_public_ref) r, w'))"

text \<open>A request is its page and, for cities, the province; a response is a page.\<close>

record region_request =
  rr_province :: ustring
  rr_page_offset :: nat
  rr_page_size :: nat

definition handle_list_provinces ::
  "catalog_env \<Rightarrow> (page_error \<Rightarrow> ustring) \<Rightarrow> ustring + region_request \<Rightarrow> 'tz weather_world
     \<Rightarrow> (ustring list \<times> bool \<times> nat) reply \<times> 'tz weather_world" where
  "handle_list_provinces env show_page_error decoded w =
     (case decoded of
        Inl e \<Rightarrow> (ReplyError BadRequest e, w)
      | Inr req \<Rightarrow>
          (case normalize_pagination (rr_page_offset req) (rr_page_size req) default_page_size of
             Inl e \<Rightarrow> (ReplyError BadRequest (show_page_error e), w)
           | Inr (offset, page_size) \<Rightarrow>
               (case list_provinces env w of
                  (Inr provinces, w') \<Rightarrow> (ReplyOk (paginate provinces offset page_size), w')
                | (Inl e, w') \<Rightarrow> (ReplyError Updater (hd e), w'))))"

definition handle_list_cities ::
  "catalog_env \<Rightarrow> (page_error \<Rightarrow> ustring) \<Rightarrow> ustring + region_request \<Rightarrow> 'tz weather_world
     \<Rightarrow> ((ustring \<times> ustring) list \<times> bool \<times> nat) reply \<times> 'tz weather_world" where
  "handle_list_cities env show_page_error decoded w =
     (case decoded of
        Inl e \<Rightarrow> (ReplyError BadRequest e, w)
      | Inr req \<Rightarrow>
          (case normalize_pagination (rr_page_offset req) (rr_page_size req) default_page_size of
             Inl e \<Rightarrow> (ReplyError BadRequest (show_page_error e), w)
           | Inr (offset, page_size) \<Rightarrow>
               (case list_cities env (rr_province req) w of
                  (Inr cities, w') \<Rightarrow> (ReplyOk (paginate cities offset page_size), w')
                | (Inl e, w') \<Rightarrow> (ReplyError Updater (hd e), w'))))"

end
