(* ===== verification/Catalog_Population.thy ===== *)
theory Catalog_Population
  imports Catalog
begin

text \<open>
  A whole catalog (\<^verbatim>\<open>weather-core/engine/src/handlers/catalog.rs\<close>): the cities of
  every province, from the cache or from at most eight tasks at a time that end in any order; the
  lookups that use it (\<^verbatim>\<open>handlers/fuzzy.rs\<close>); and the older requests of
  \<^verbatim>\<open>handlers/compatibility.rs\<close> that are built on the same operations.
\<close>

section \<open>Tasks\<close>

text \<open>
  The \<open>JoinSet\<close>: the codes of the running tasks. A task acts on the shared state \<open>'s\<close> when it
  ends; it returns its cities or an error, or it panics (the outer \<open>Inl\<close>). A task that is aborted
  may have done its work before (\<open>late\<close>).
\<close>

type_synonym 's scope_task = "ustring \<Rightarrow> 's \<Rightarrow> (ustring + error_chain + provider_city list) \<times> 's"

record 's population =
  po_tasks :: "ustring list"
  po_pending :: "ustring list"
  po_loaded :: "(ustring, provider_city list) hmap"
  po_outcome :: "(error_chain + (ustring, provider_city list) hmap) option"
  po_world :: 's

fun spawn_initial :: "ustring list \<Rightarrow> ustring list \<Rightarrow> ustring list \<times> ustring list" where
  "spawn_initial tasks [] = (tasks, [])"
| "spawn_initial tasks (code # codes) =
     (if length tasks < max_concurrent_catalog_fetches then spawn_initial (tasks @ [code]) codes
      else (tasks, code # codes))"

definition population_start :: "ustring list \<Rightarrow> 's \<Rightarrow> 's population" where
  "population_start codes s =
     (case spawn_initial [] codes of
        (tasks, pending) \<Rightarrow>
          \<lparr>po_tasks = tasks, po_pending = pending, po_loaded = [], po_outcome = None, po_world = s\<rparr>)"

definition abort_all :: "(ustring \<Rightarrow> bool) \<Rightarrow> 's scope_task \<Rightarrow> ustring list \<Rightarrow> 's \<Rightarrow> 's" where
  "abort_all late work tasks s = fold (\<lambda>code s. if late code then snd (work code s) else s) tasks s"

text \<open>One turn of the loop; \<open>i\<close> says which of the running tasks has ended.\<close>

definition population_step ::
  "(ustring \<Rightarrow> bool) \<Rightarrow> 's scope_task \<Rightarrow> nat \<Rightarrow> 's population \<Rightarrow> 's population" where
  "population_step late work i p =
     (if po_outcome p \<noteq> None then p
      else if po_tasks p = [] then p\<lparr>po_outcome := Some (Inr (po_loaded p))\<rparr>
      else
        let n = i mod length (po_tasks p); code = po_tasks p ! n;
            rest = take n (po_tasks p) @ drop (Suc n) (po_tasks p)
        in case work code (po_world p) of
             (Inl panic, s) \<Rightarrow>
               p\<lparr>po_tasks := [], po_world := abort_all late work rest s,
                 po_outcome := Some (Inl [lit ''provider city population task failed: '' @ panic])\<rparr>
           | (Inr (Inl e), s) \<Rightarrow>
               p\<lparr>po_tasks := [], po_world := abort_all late work rest s,
                 po_outcome := Some (Inl ((lit ''failed to populate provider city scope `'' @ code @ lit ''`'') # e))\<rparr>
           | (Inr (Inr cities), s) \<Rightarrow>
               p\<lparr>po_loaded := hput code (sort_provider_cities cities) (po_loaded p), po_world := s,
                 po_tasks := (case po_pending p of [] \<Rightarrow> rest | c # cs \<Rightarrow> rest @ [c]),
                 po_pending := (case po_pending p of [] \<Rightarrow> [] | c # cs \<Rightarrow> cs)\<rparr>)"

text \<open>Every turn but the last takes one code, so one turn more than there are codes is enough.\<close>

primrec population_run ::
  "(ustring \<Rightarrow> bool) \<Rightarrow> 's scope_task \<Rightarrow> (nat \<Rightarrow> nat) \<Rightarrow> nat \<Rightarrow> 's population \<Rightarrow> 's population" where
  "population_run late work pick 0 p = p"
| "population_run late work pick (Suc n) p = population_run late work pick n (population_step late work (pick n) p)"

definition scope_task :: "catalog_env \<Rightarrow> 'tz weather_world scope_task" where
  "scope_task env code w =
     (case ka_task_failure env code of
        Some panic \<Rightarrow> (Inl panic, w)
      | None \<Rightarrow> (case provider_cities_by_code env code w of (r, w') \<Rightarrow> (Inr r, w')))"

definition load_provider_city_scopes ::
  "catalog_env \<Rightarrow> ustring list \<Rightarrow> 'tz weather_world
     \<Rightarrow> (error_chain + (ustring, provider_city list) hmap) \<times> 'tz weather_world" where
  "load_provider_city_scopes env codes w =
     (let p = population_run (ka_late env) (scope_task env) (ka_pick env) (Suc (length codes))
                (population_start codes w)
      in case po_outcome p of
           Some r \<Rightarrow> (r, po_world p)
         | None \<Rightarrow> (Inl [lit ''the population has not ended''], po_world p))"

section \<open>The catalog\<close>

fun flatten_city_scopes ::
  "ustring list \<Rightarrow> (ustring, provider_city list) hmap \<Rightarrow> error_chain + provider_city list" where
  "flatten_city_scopes [] scopes = Inr []"
| "flatten_city_scopes (code # codes) scopes =
     (case hget scopes code of
        None \<Rightarrow> Inl [lit ''provider city scope `'' @ code @ lit ''` was not populated'']
      | Some scope \<Rightarrow>
          (case flatten_city_scopes codes (hdel code scopes) of
             Inl e \<Rightarrow> Inl e
           | Inr cities \<Rightarrow> Inr (scope @ cities)))"

fun duplicate_city_code ::
  "(ustring, ustring) hmap \<Rightarrow> provider_city list \<Rightarrow> error_chain option" where
  "duplicate_city_code owners [] = None"
| "duplicate_city_code owners (c # cs) =
     (case hget owners (pc_provider_code c) of
        Some previous \<Rightarrow>
          Some [lit ''duplicate provider city code `'' @ pc_provider_code c
                @ lit ''` across province scopes `'' @ previous @ lit ''` and `''
                @ pc_provider_province_code c @ lit ''`'']
      | None \<Rightarrow> duplicate_city_code (hput (pc_provider_code c) (pc_provider_province_code c) owners) cs)"

definition validate_population_city_codes :: "provider_city list \<Rightarrow> error_chain option" where
  "validate_population_city_codes cities = duplicate_city_code [] cities"

definition assemble_catalog ::
  "provider_province list \<Rightarrow> (ustring, provider_city list) hmap \<Rightarrow> error_chain + provider_catalog" where
  "assemble_catalog provinces scopes =
     (case flatten_city_scopes (map pp_provider_code provinces) scopes of
        Inl e \<Rightarrow> Inl e
      | Inr cities \<Rightarrow>
          (case validate_population_city_codes cities of
             Some e \<Rightarrow> Inl e
           | None \<Rightarrow> Inr \<lparr>cat_provinces = provinces, cat_cities = cities\<rparr>))"

text \<open>The fresh scopes of the cache, and the codes that have to be loaded.\<close>

fun partition_scopes ::
  "catalog_env \<Rightarrow> (ustring, provider_city_scope_cache) hmap \<Rightarrow> ustring list
     \<Rightarrow> (ustring, provider_city list) hmap \<Rightarrow> ustring list
     \<Rightarrow> (ustring, provider_city list) hmap \<times> ustring list" where
  "partition_scopes env cached [] fresh pending = (fresh, pending)"
| "partition_scopes env cached (code # codes) fresh pending =
     (case hget cached code of
        Some scope \<Rightarrow>
          if catalog_cache_is_fresh (cs_fetched_at scope) (ka_now env) (ka_ttl env)
          then partition_scopes env (hdel code cached) codes (hput code (cs_items scope) fresh) pending
          else partition_scopes env (hdel code cached) codes fresh (pending @ [code])
      | None \<Rightarrow> partition_scopes env (hdel code cached) codes fresh (pending @ [code]))"

definition extend_scopes ::
  "(ustring, 'v) hmap \<Rightarrow> (ustring, 'v) hmap \<Rightarrow> (ustring, 'v) hmap" where
  "extend_scopes m rows = fold (\<lambda>(k, v). hput k v) rows m"

definition populate_provider_catalog ::
  "catalog_env \<Rightarrow> provider_province list \<Rightarrow> 'tz weather_world
     \<Rightarrow> (error_chain + provider_catalog) \<times> 'tz weather_world" where
  "populate_provider_catalog env provinces w =
     (case db_read (ka_db_error env) (ka_calls env ScopesRead)
             (\<lambda>faults. get_all_provider_city_scopes faults (ka_provider env)) w of
        Inl e \<Rightarrow> (Inl e, w)
      | Inr rows \<Rightarrow>
          (case partition_scopes env (extend_scopes [] (map (\<lambda>s. (cs_province_code s, s)) rows))
                  (map pp_provider_code provinces) [] [] of
             (fresh, pending) \<Rightarrow>
               (case load_provider_city_scopes env pending w of
                  (Inl e, w') \<Rightarrow> (Inl e, w')
                | (Inr loaded, w') \<Rightarrow> (assemble_catalog provinces (extend_scopes fresh loaded), w'))))"

definition load_provider_catalog ::
  "catalog_env \<Rightarrow> 'tz weather_world \<Rightarrow> (error_chain + provider_catalog) \<times> 'tz weather_world" where
  "load_provider_catalog env w =
     fly (ka_join_catalog env)
       (\<lambda>w. case provider_provinces env w of
              (Inl e, w') \<Rightarrow> (Inl e, w')
            | (Inr provinces, w') \<Rightarrow> populate_provider_catalog env provinces w') w"

definition provider_catalog_from_provinces ::
  "catalog_env \<Rightarrow> provider_province list \<Rightarrow> 'tz weather_world
     \<Rightarrow> (error_chain + provider_catalog) \<times> 'tz weather_world" where
  "provider_catalog_from_provinces env provinces w =
     fly (ka_join_catalog env) (populate_provider_catalog env provinces) w"

definition provider_catalog_for_provinces ::
  "catalog_env \<Rightarrow> provider_province list \<Rightarrow> 'tz weather_world
     \<Rightarrow> (error_chain + provider_catalog) \<times> 'tz weather_world" where
  "provider_catalog_for_provinces env provinces w =
     (case load_provider_city_scopes env (map pp_provider_code provinces) w of
        (Inl e, w') \<Rightarrow> (Inl e, w')
      | (Inr scopes, w') \<Rightarrow> (assemble_catalog provinces scopes, w'))"

definition provider_catalog_for_province ::
  "catalog_env \<Rightarrow> ustring \<Rightarrow> 'tz weather_world \<Rightarrow> (error_chain + provider_catalog) \<times> 'tz weather_world" where
  "provider_catalog_for_province env province w =
     (case provider_provinces env w of
        (Inl e, w') \<Rightarrow> (Inl e, w')
      | (Inr provinces, w') \<Rightarrow>
          (case resolve_provider_province provinces (ka_provider env) province of
             Inl e \<Rightarrow> (Inl e, w')
           | Inr p \<Rightarrow> provider_catalog_for_provinces env [p] w'))"

section \<open>Its users\<close>

definition put_mapping_call :: "catalog_env \<Rightarrow> 'tz weather_world put_mapping" where
  "put_mapping_call env station w =
     db_write (ka_db_error env) (ka_calls env MappingWrite)
       (\<lambda>faults. put_provider_station_mapping (ka_sha env) faults (ka_write_now env) station) w"

text \<open>\<open>resolve_station_name\<close> of \<open>Fuzzy\<close> is the part after the cities are there.\<close>

definition resolve_station_name_from_targeted_index ::
  "catalog_env \<Rightarrow> ustring \<Rightarrow> 'tz weather_world \<Rightarrow> (error_chain + provider_station) \<times> 'tz weather_world" where
  "resolve_station_name_from_targeted_index env name w =
     (case provider_provinces env w of
        (Inl e, w') \<Rightarrow> (Inl e, w')
      | (Inr provinces, w') \<Rightarrow>
          (let matched = filter (\<lambda>p. province_matches_hint p (hd (split_on dash name)) name) provinces
           in case (if matched = [] then provider_catalog_from_provinces env provinces w'
                    else provider_catalog_for_provinces env matched w') of
                (r, w'') \<Rightarrow>
                  resolve_station_name (ka_sha env) (ka_provider env) (put_mapping_call env) (Inr provinces)
                    (\<lambda>_. map_sum id cat_cities r) (\<lambda>_. map_sum id cat_cities r) name w''))"

definition fuzzy_catalog ::
  "catalog_env \<Rightarrow> ustring option \<Rightarrow> 'tz weather_world \<Rightarrow> (error_chain + provider_catalog) \<times> 'tz weather_world" where
  "fuzzy_catalog env province w =
     (case province of
        Some p \<Rightarrow> provider_catalog_for_province env p w
      | None \<Rightarrow> load_provider_catalog env w)"

definition handle_fuzzy_match_stations ::
  "catalog_env \<Rightarrow> char_tables \<Rightarrow> (page_error \<Rightarrow> ustring) \<Rightarrow> ustring + fuzzy_request \<Rightarrow> 'tz weather_world
     \<Rightarrow> fuzzy_response reply \<times> 'tz weather_world" where
  "handle_fuzzy_match_stations env ct show_page_error decoded w =
     (let (r, w') =
        (case decoded of
           Inl e \<Rightarrow> (Inl [], w)
         | Inr req \<Rightarrow>
             (case normalize_pagination (fz_page_offset req) (fz_page_size req) default_fuzzy_page_size of
                Inl e \<Rightarrow> (Inl [], w)
              | Inr page \<Rightarrow> fuzzy_catalog env (fz_province req) w))
      in handle_fuzzy (ka_sha env) ct (ka_provider env) (put_mapping_call env) (\<lambda>_. r) show_page_error decoded w')"

section \<open>The older requests\<close>

record batch_region_page =
  bp_province :: ustring
  bp_cities :: "(ustring \<times> ustring) list"
  bp_has_more :: bool
  bp_next_offset :: nat
  bp_error :: "ustring option"

definition fetch_legacy_region_page ::
  "catalog_env \<Rightarrow> ustring \<times> nat \<times> nat \<Rightarrow> 'tz weather_world \<Rightarrow> batch_region_page \<times> 'tz weather_world" where
  "fetch_legacy_region_page env query w =
     (case query of (province, offset, page_size) \<Rightarrow>
        (case list_cities env province w of
           (Inr cities, w') \<Rightarrow>
             (case paginate cities offset page_size of
                (page, has_more, next_offset) \<Rightarrow>
                  (\<lparr>bp_province = province, bp_cities = page, bp_has_more = has_more,
                    bp_next_offset = next_offset, bp_error = None\<rparr>, w'))
         | (Inl e, w') \<Rightarrow>
             (\<lparr>bp_province = province, bp_cities = [], bp_has_more = False, bp_next_offset = offset,
               bp_error = Some (hd e)\<rparr>, w')))"

text \<open>All queries are checked before the first is answered.\<close>

fun normalize_queries :: "region_request list \<Rightarrow> page_error + (ustring \<times> nat \<times> nat) list" where
  "normalize_queries [] = Inr []"
| "normalize_queries (q # qs) =
     (case normalize_pagination (rr_page_offset q) (rr_page_size q) default_page_size of
        Inl e \<Rightarrow> Inl e
      | Inr page \<Rightarrow>
          (case normalize_queries qs of Inl e \<Rightarrow> Inl e | Inr rest \<Rightarrow> Inr ((rr_province q, page) # rest)))"

fun fetch_region_pages ::
  "catalog_env \<Rightarrow> (ustring \<times> nat \<times> nat) list \<Rightarrow> 'tz weather_world \<Rightarrow> batch_region_page list \<times> 'tz weather_world" where
  "fetch_region_pages env [] w = ([], w)"
| "fetch_region_pages env (q # qs) w =
     (let (page, w1) = fetch_legacy_region_page env q w; (pages, w2) = fetch_region_pages env qs w1
      in (page # pages, w2))"

definition handle_batch_list_regions ::
  "catalog_env \<Rightarrow> (page_error \<Rightarrow> ustring) \<Rightarrow> ustring + region_request list \<Rightarrow> 'tz weather_world
     \<Rightarrow> batch_region_page list reply \<times> 'tz weather_world" where
  "handle_batch_list_regions env show_page_error decoded w =
     (case decoded of
        Inl e \<Rightarrow> (ReplyError BadRequest e, w)
      | Inr queries \<Rightarrow>
          (case validate_batch_size (length queries) of
             Inl e \<Rightarrow> (ReplyError BadRequest (show_page_error e), w)
           | Inr u \<Rightarrow>
               (case normalize_queries queries of
                  Inl e \<Rightarrow> (ReplyError BadRequest (show_page_error e), w)
                | Inr pages \<Rightarrow>
                    (case fetch_region_pages env pages w of (ps, w') \<Rightarrow> (ReplyOk ps, w')))))"

text \<open>The response of \<open>RESOLVE_STATION_UUID\<close>: the name and its identifier.\<close>

definition handle_resolve_station_uuid ::
  "(byte list \<Rightarrow> byte list) \<Rightarrow> ustring + ustring \<Rightarrow> (ustring \<times> ustring) reply" where
  "handle_resolve_station_uuid sha decoded =
     (case decoded of
        Inl e \<Rightarrow> ReplyError BadRequest e
      | Inr name \<Rightarrow> ReplyOk (name, unified_station_uuid sha name))"

end
