(* ===== verification/Catalog_Spec.thy ===== *)
theory Catalog_Spec
  imports Catalog_Population "HOL-Library.Multiset"
begin

text \<open>
  What a catalog operation leaves alone, and the population of a catalog: bounded, ending, and
  loading every scope once.
\<close>

section \<open>What a catalog operation leaves alone\<close>

definition is_catalog_event :: "weather_event \<Rightarrow> bool" where
  "is_catalog_event e = (case e of FetchLogged u endpoint ok m \<Rightarrow> u = None | _ \<Rightarrow> False)"

text \<open>A catalog operation only adds its fetch events and keeps the resources.\<close>

definition logs_only :: "'tz weather_world \<Rightarrow> 'tz weather_world \<Rightarrow> bool" where
  "logs_only w w' \<longleftrightarrow> ww_resources w' = ww_resources w
     \<and> (\<exists>es. ww_events w' = ww_events w @ es \<and> list_all is_catalog_event es)"

lemma logs_only_refl [simp, intro]: "logs_only w w"
  by (simp add: logs_only_def)

lemma logs_only_trans: "logs_only a b \<Longrightarrow> logs_only b c \<Longrightarrow> logs_only a c"
  unfolding logs_only_def by (metis append.assoc list_all_append)

lemma logs_only_write: "logs_only w (snd (db_write sh ce f w))"
  by (simp add: logs_only_def)

lemma logs_only_publish: "logs_only w v \<Longrightarrow> logs_only w (publish (FetchLogged None endpoint ok m) v)"
  by (auto simp: logs_only_def is_catalog_event_def)

text \<open>A relation between states that every task keeps is kept by a whole population.\<close>

locale scope_loader =
  fixes late :: "ustring \<Rightarrow> bool" and work :: "'s scope_task" and rel :: "'s \<Rightarrow> 's \<Rightarrow> bool"
  assumes rel_refl: "rel s s"
    and rel_trans: "rel a b \<Longrightarrow> rel b c \<Longrightarrow> rel a c"
    and work_rel: "rel s (snd (work code s))"
begin

lemma abort_rel: "rel s (abort_all late work tasks s)"
proof (induction tasks arbitrary: s)
  case (Cons code tasks)
  then show ?case
    using work_rel [of s code] by (auto simp: abort_all_def intro: rel_trans)
qed (simp add: abort_all_def rel_refl)

lemma step_rel: "rel (po_world p) (po_world (population_step late work i p))"
proof -
  have "work code s = (r, s') \<Longrightarrow> rel s s'" for code s r s'
    using work_rel [of s code] by simp
  then show ?thesis
    by (auto simp: population_step_def Let_def rel_refl intro: rel_trans [OF _ abort_rel] split: prod.split sum.split)
qed

lemma run_rel: "rel (po_world p) (po_world (population_run late work pick n p))"
  by (induction n arbitrary: p) (auto simp: rel_refl intro: rel_trans [OF step_rel])

end

lemma start_world [simp]: "po_world (population_start codes s) = s"
  by (simp add: population_start_def split: prod.split)

lemma record_logs: "logs_only w (record_catalog_fetch env ce endpoint a m b n w)"
proof -
  obtain r v where v: "db_write (ka_db_error env) ce
      (\<lambda>faults. log_fetch faults (ka_write_now env) None endpoint a m) w = (r, v)" by fastforce
  then have "logs_only w v" using logs_only_write [of w "ka_db_error env" ce] by (metis snd_conv)
  then show ?thesis by (simp add: record_catalog_fetch_def v logs_only_publish)
qed

lemma settle_logs:
  assumes "\<And>xs. logs_only w (snd (persist xs w))"
  shows "logs_only w (snd (settle_catalog_fetch env ce endpoint stale persist fetched w))"
proof -
  have "persist xs w = (r, v) \<Longrightarrow> logs_only w v" for xs r v using assms [of xs] by simp
  then show ?thesis
    by (auto simp: settle_catalog_fetch_def Let_def record_logs
        intro: logs_only_trans [OF _ record_logs] split: sum.split prod.split option.split)
qed

lemma persist_logs:
  "logs_only w (snd (persist_provider_provinces env ps w))"
  "logs_only w (snd (persist_provider_cities env code cs w))"
proof -
  have wr: "db_write sh ce f w = (r, v) \<Longrightarrow> logs_only w v" for sh ce f r v
    using logs_only_write [of w sh ce f] by simp
  show "logs_only w (snd (persist_provider_provinces env ps w))"
    by (auto simp: persist_provider_provinces_def dest: wr split: sum.split prod.split option.split)
  show "logs_only w (snd (persist_provider_cities env code cs w))"
    by (auto simp: persist_provider_cities_def dest: wr split: sum.split prod.split option.split)
qed

lemma refresh_logs:
  "logs_only w (snd (refresh_provider_provinces env w))"
  "logs_only w (snd (refresh_provider_cities env code w))"
  by (auto simp: refresh_provider_provinces_def refresh_provider_cities_def intro!: settle_logs persist_logs
      split: sum.split option.split)

lemma fly_rel: "rel w w \<Longrightarrow> rel w (snd (work w)) \<Longrightarrow> rel w (snd (fly shared work w))"
  by (cases "work w") (simp add: fly_def split: option.split)

lemma catalog_reads_log:
  "logs_only w (snd (provider_provinces env w))" "logs_only w (snd (provider_cities_by_code env code w))"
  "logs_only w (snd (scope_task env code w))"
proof -
  show "logs_only w (snd (provider_provinces env w))"
    by (auto simp: provider_provinces_def intro!: fly_rel [of logs_only] refresh_logs split: sum.split option.split)
  show cities: "logs_only w (snd (provider_cities_by_code env code w))"
    by (auto simp: provider_cities_by_code_def intro!: fly_rel [of logs_only] refresh_logs split: sum.split option.split)
  then show "logs_only w (snd (scope_task env code w))"
    by (cases "provider_cities_by_code env code w") (simp add: scope_task_def split: option.split)
qed

interpretation logging: scope_loader "ka_late env" "scope_task env" logs_only for env :: catalog_env
  by unfold_locales (auto intro: logs_only_trans catalog_reads_log)

lemma load_logs: "logs_only w (snd (load_provider_city_scopes env codes w))"
  using logging.run_rel [of "population_start codes w" env "ka_pick env" "Suc (length codes)"]
  by (simp add: load_provider_city_scopes_def Let_def del: population_run.simps split: option.split)

lemma logs_case:
  "f w = (r, v) \<Longrightarrow> logs_only w (snd (f w)) \<Longrightarrow> logs_only v u \<Longrightarrow> logs_only w u"
  by (auto intro: logs_only_trans)

lemma populate_logs: "logs_only w (snd (populate_provider_catalog env ps w))"
proof -
  have load: "load_provider_city_scopes env codes w = (r, v) \<Longrightarrow> logs_only w v" for codes r v
    using load_logs [of w env codes] by simp
  show ?thesis
    by (auto simp: populate_provider_catalog_def dest: load split: sum.split prod.split)
qed

lemma catalog_logs:
  "logs_only w (snd (load_provider_catalog env w))"
  "logs_only w (snd (provider_catalog_from_provinces env ps w))"
  "logs_only w (snd (provider_catalog_for_provinces env ps w))"
proof -
  have prov: "provider_provinces env w = (r, v) \<Longrightarrow> logs_only w v" for r v
    using catalog_reads_log(1) [of w env] by simp
  have pop: "logs_only w v \<Longrightarrow> logs_only w (snd (populate_provider_catalog env ps v))" for v ps
    by (rule logs_only_trans [OF _ populate_logs])
  show "logs_only w (snd (load_provider_catalog env w))"
    unfolding load_provider_catalog_def
    by (rule fly_rel) (auto dest: prov intro: pop split: sum.split prod.split)
  show "logs_only w (snd (provider_catalog_from_provinces env ps w))"
    unfolding provider_catalog_from_provinces_def by (rule fly_rel) (auto intro: populate_logs)
  have load: "load_provider_city_scopes env codes w = (r, v) \<Longrightarrow> logs_only w v" for codes r v
    using load_logs [of w env codes] by simp
  show "logs_only w (snd (provider_catalog_for_provinces env ps w))"
    by (auto simp: provider_catalog_for_provinces_def dest: load split: sum.split prod.split)
qed

lemma put_names_logs: "logs_only w (snd (put_names (put_mapping_call env) station names w))"
proof (induction names arbitrary: w)
  case (Cons name names)
  obtain r v where v: "put_mapping_call env (station\<lparr>ps_display_name := name\<rparr>) w = (r, v)" by fastforce
  then have "logs_only w v" using logs_only_write [of w "ka_db_error env"] unfolding put_mapping_call_def by (metis snd_conv)
  with Cons.IH [of v] v show ?case by (cases r) (auto intro: logs_only_trans)
qed simp

lemma lookup_logs: "logs_only w (snd (resolve_station_name_from_targeted_index env name w))"
proof -
  have prov: "provider_provinces env w = (r, v) \<Longrightarrow> logs_only w v" for r v
    using catalog_reads_log(1) [of w env] by simp
  have cat: "provider_catalog_from_provinces env ps v = (r, u) \<Longrightarrow> logs_only w v \<Longrightarrow> logs_only w u"
    "provider_catalog_for_provinces env ps v = (r, u) \<Longrightarrow> logs_only w v \<Longrightarrow> logs_only w u" for ps v r u
    using catalog_logs(2) [of v env ps] catalog_logs(3) [of v env ps] by (auto intro: logs_only_trans)
  have res: "logs_only v (snd (resolve_station_name sha pn (put_mapping_call env) f g h name v))" for v f g h sha pn
  proof -
    have "put_names (put_mapping_call env) st names v = (r, u) \<Longrightarrow> logs_only v u" for st names r u
      using put_names_logs [of v env st names] by simp
    then show ?thesis
      by (auto simp: resolve_station_name_def Let_def cache_station_mapping_def split: sum.split list.split prod.split)
  qed
  show ?thesis
    by (auto simp: resolve_station_name_from_targeted_index_def Let_def split: sum.split prod.split
        dest!: prov dest: cat intro: logs_only_trans [OF _ res])
qed

section \<open>The population\<close>

text \<open>A task that also writes down that it ran.\<close>

definition logged :: "'s scope_task \<Rightarrow> ('s \<times> ustring list) scope_task" where
  "logged work code s = (case work code (fst s) of (r, s') \<Rightarrow> (r, (s', snd s @ [code])))"

lemma spawn_initial_split: "fst (spawn_initial ts cs) @ snd (spawn_initial ts cs) = ts @ cs"
  by (induction ts cs rule: spawn_initial.induct) auto

lemma spawn_initial_full:
  "length ts \<le> max_concurrent_catalog_fetches \<Longrightarrow>
     length (fst (spawn_initial ts cs)) \<le> max_concurrent_catalog_fetches
     \<and> (snd (spawn_initial ts cs) = [] \<or> length (fst (spawn_initial ts cs)) = max_concurrent_catalog_fetches)"
  by (induction ts cs rule: spawn_initial.induct) auto

text \<open>The invariant: \<open>m\<close> turns are enough to finish.\<close>

definition population_inv :: "ustring list \<Rightarrow> nat \<Rightarrow> ('s \<times> ustring list) population \<Rightarrow> bool" where
  "population_inv codes m p \<longleftrightarrow>
     length (po_tasks p) \<le> max_concurrent_catalog_fetches
     \<and> (case po_outcome p of
          None \<Rightarrow> mset (snd (po_world p)) + mset (po_tasks p) + mset (po_pending p) = mset codes
            \<and> hkeys (po_loaded p) = set (snd (po_world p))
            \<and> (po_pending p = [] \<or> length (po_tasks p) = max_concurrent_catalog_fetches)
            \<and> length (po_tasks p) + length (po_pending p) < m
        | Some (Inr loaded) \<Rightarrow> po_tasks p = [] \<and> mset (snd (po_world p)) = mset codes \<and> hkeys loaded = set codes
        | Some (Inl e) \<Rightarrow> po_tasks p = [])"

lemma population_inv_start:
  "population_inv codes (Suc (length codes)) (population_start codes (s, []))"
proof -
  obtain ts ps where sp: "spawn_initial [] codes = (ts, ps)" by fastforce
  have "ts @ ps = codes" using spawn_initial_split [of "[]" codes] sp by simp
  then have "mset ts + mset ps = mset codes" "length ts + length ps = length codes" by auto
  with spawn_initial_full [of "[]" codes] sp show ?thesis
    by (simp add: population_inv_def population_start_def)
qed

lemma mset_take_drop:
  "n < length xs \<Longrightarrow> mset xs = add_mset (xs ! n) (mset (take n xs @ drop (Suc n) xs))"
  using id_take_nth_drop [of n xs] by (metis mset.simps(2) mset_append union_mset_add_mset_right)

lemma population_inv_step:
  assumes "population_inv codes (Suc m) p"
  shows "population_inv codes m (population_step late (logged work) i p)"
proof (cases "po_outcome p = None \<and> po_tasks p \<noteq> []")
  case False
  with assms show ?thesis
    by (auto simp: population_inv_def population_step_def max_concurrent_catalog_fetches_def
        dest!: mset_eq_setD split: option.splits sum.splits)
next
  case True
  define n where "n = i mod length (po_tasks p)"
  define rest where "rest = take n (po_tasks p) @ drop (Suc n) (po_tasks p)"
  define code where "code = po_tasks p ! n"
  from True have n: "n < length (po_tasks p)" by (simp add: n_def)
  have tasks: "mset (po_tasks p) = add_mset code (mset rest)"
    unfolding code_def rest_def by (rule mset_take_drop [OF n])
  then have len: "length (po_tasks p) = Suc (length rest)" by (metis size_add_mset size_mset)
  obtain r s' where "work code (fst (po_world p)) = (r, s')" by fastforce
  then have run: "logged work code (po_world p) = (r, (s', snd (po_world p) @ [code]))"
    by (simp add: logged_def)
  have old: "mset (snd (po_world p)) + mset (po_tasks p) + mset (po_pending p) = mset codes"
    "hkeys (po_loaded p) = set (snd (po_world p))" "length (po_tasks p) \<le> max_concurrent_catalog_fetches"
    "po_pending p = [] \<or> length (po_tasks p) = max_concurrent_catalog_fetches"
    "length (po_tasks p) + length (po_pending p) < Suc m"
    using assms True by (simp_all add: population_inv_def)
  show ?thesis
  proof (cases r)
    case (Inl panic)
    with True run show ?thesis
      by (simp add: population_inv_def population_step_def Let_def n_def [symmetric] code_def [symmetric])
  next
    case (Inr q)
    show ?thesis
    proof (cases q)
      case (Inl e)
      with True run \<open>r = Inr q\<close> show ?thesis
        by (simp add: population_inv_def population_step_def Let_def n_def [symmetric] code_def [symmetric])
    next
      case (Inr cities)
      with True run \<open>r = Inr q\<close> have step: "population_step late (logged work) i p =
         p\<lparr>po_loaded := hput code (sort_provider_cities cities) (po_loaded p),
           po_world := (s', snd (po_world p) @ [code]),
           po_tasks := (case po_pending p of [] \<Rightarrow> rest | c # cs \<Rightarrow> rest @ [c]),
           po_pending := (case po_pending p of [] \<Rightarrow> [] | c # cs \<Rightarrow> cs)\<rparr>"
        by (simp add: population_step_def Let_def n_def [symmetric] code_def [symmetric] rest_def split: list.split)
      show ?thesis
        using True old len tasks by (cases "po_pending p") (simp_all add: step population_inv_def hkeys_put)
    qed
  qed
qed

lemma population_inv_run:
  "population_inv codes (m + n) p \<Longrightarrow> population_inv codes m (population_run late (logged work) pick n p)"
  by (induction n arbitrary: p) (simp_all add: population_inv_step)

text \<open>
  C34: Loading the city scopes is bounded, ends and loses nothing, in whatever order the tasks end
  and whatever they return: at most eight of them run at a time, and all eight while codes wait;
  after one turn more than there are codes the outcome is known; a successful outcome has exactly
  the requested codes, each fetched exactly once, and after a failure no task is left running.
\<close>

theorem population_bounded_and_complete:
  "let p = population_run late (logged work) pick n (population_start codes (s, []))
   in length (po_tasks p) \<le> max_concurrent_catalog_fetches
    \<and> (if length codes < n then po_outcome p \<noteq> None else True)
    \<and> (case po_outcome p of
         None \<Rightarrow> mset (snd (po_world p)) + mset (po_tasks p) + mset (po_pending p) = mset codes
           \<and> (if po_pending p = [] then True else length (po_tasks p) = max_concurrent_catalog_fetches)
       | Some (Inr loaded) \<Rightarrow>
           po_tasks p = [] \<and> mset (snd (po_world p)) = mset codes \<and> hkeys loaded = set codes
       | Some (Inl e) \<Rightarrow> po_tasks p = [])"
proof -
  let ?p = "population_run late (logged work) pick n (population_start codes (s, []))"
  have inv: "population_inv codes (Suc (length codes) - n) ?p"
  proof (cases "n \<le> Suc (length codes)")
    case True
    then show ?thesis using population_inv_start [of codes s] by (intro population_inv_run) simp
  next
    case False
    have mono: "population_inv codes m p \<Longrightarrow> population_inv codes (m + k) p" for m k p
      by (auto simp: population_inv_def split: option.splits)
    from False have "Suc (length codes) + (n - Suc (length codes)) = n" by simp
    with mono [OF population_inv_start [of codes s], of "n - Suc (length codes)"]
    have "population_inv codes (0 + n) (population_start codes (s, []))" by simp
    then have "population_inv codes 0 ?p" by (rule population_inv_run)
    with False show ?thesis by simp
  qed
  show ?thesis
  proof (cases "po_outcome ?p")
    case None
    with inv show ?thesis by (auto simp: population_inv_def)
  next
    case (Some r)
    with inv show ?thesis by (cases r) (simp_all add: population_inv_def)
  qed
qed

end
