(* ===== verification/Catalog_Refresh.thy ===== *)
theory Catalog_Refresh
  imports Catalog_Spec
begin

text \<open>
  The refresh of a city scope: what is served is what upstream sent, sorted, or the stored copy;
  what is listed under a province belongs to it; a station that was resolved is remembered.
\<close>

section \<open>Sample inputs\<close>

definition sample_province :: provider_province where
  "sample_province = \<lparr>pp_provider_code = [49], pp_name = [65], pp_url = []\<rparr>"

definition sample_city :: provider_city where
  "sample_city = \<lparr>pc_provider_code = [54], pc_provider_province_code = [49], pc_province = [65],
     pc_city = [67], pc_url = []\<rparr>"

definition sample_catalog_env :: catalog_env where
  "sample_catalog_env = \<lparr>ka_provider = [120], ka_sha = (\<lambda>b. [0]), ka_ttl = 60, ka_now = 5, ka_write_now = 5,
     ka_provinces = Inr [sample_province], ka_cities = (\<lambda>code. Inr [sample_city]),
     ka_permit = None, ka_calls = (\<lambda>site. \<lparr>ce_refused = None, ce_faults = (\<lambda>_. False)\<rparr>),
     ka_db_error = (\<lambda>e. []), ka_join_provinces = None, ka_join_cities = (\<lambda>code. None),
     ka_join_catalog = None, ka_pick = (\<lambda>n. n), ka_task_failure = (\<lambda>code. None), ka_late = (\<lambda>code. False)\<rparr>"

definition world_of :: "tables \<Rightarrow> unit weather_world" where
  "world_of t = \<lparr>ww_db = \<lparr>di_tables = t, di_timezone = ()\<rparr>, ww_resources = resource_state_default,
     ww_events = []\<rparr>"

definition cached_tables :: tables where
  "cached_tables = initial_schema
     \<lparr>tb_provinces := [(([120], [49]), (sample_province, 5))], tb_cities := [(([120], [54]), (sample_city, 5))],
      tb_catalog_state := [(([120], CatalogProvinces, province_scope), (5, 1)), (([120], CatalogCities, [49]), (5, 1))]\<rparr>"

lemmas catalog_evaluation =
  sample_catalog_env_def world_of_def sample_province_def sample_city_def db_read_def
  get_provider_provinces_def validate_provider_def initial_schema_def trim_def is_whitespace_def
  fly_def refresh_provider_provinces_def settle_catalog_fetch_def validated_upstream_def
  validate_provider_province_catalog_def persist_provider_provinces_def Let_def db_write_def
  replace_provider_provinces_def sort_provider_provinces_def checked_i64_def i64_min_def i64_max_def
  transaction_def begin_tx_def commit_tx_def delete_provinces_def insert_province_def insert_row_def
  delete_orphan_cities_def delete_orphan_states_def delete_orphan_mappings_def
  upsert_catalog_state_def province_scope_def select_provinces_def validate_catalog_count_def
  record_catalog_fetch_def flight_result_def provider_cities_by_code_def get_provider_cities_def
  refresh_provider_cities_def persist_provider_cities_def validate_provider_city_catalog_def
  replace_provider_cities_def delete_scope_mappings_def delete_scope_cities_def insert_city_def
  select_cities_def in_scope_def sort_provider_cities_def log_fetch_def prune_fetch_logs_def
  insert_fetch_log_def delete_old_logs_def delete_excess_logs_def fetch_log_max_rows_def publish_def

lemma sample_uuid: "unified_station_uuid (\<lambda>b. [0]) name = [48, 48]"
  by (simp add: unified_station_uuid_def uuid_bytes_def format_uuid_def Let_def hex_byte_def hex_digit_def)

lemma sample_region: "short_region_name [65] = [65]"
  by (simp add: short_region_name_def strip_suffix_def suffix_city_def suffix_province_def
      suffix_autonomous_def suffix_special_def suffix_def Cons_eq_append_conv)

lemma sample_population:
  "fst (populate_provider_catalog sample_catalog_env [sample_province] (world_of initial_schema))
     = Inr \<lparr>cat_provinces = [sample_province], cat_cities = [sample_city]\<rparr>"
  by (simp add: populate_provider_catalog_def get_all_provider_city_scopes_def orphan_cities_def city_states_def
      extend_scopes_def load_provider_city_scopes_def population_start_def population_step_def scope_task_def
      max_concurrent_catalog_fetches_def assemble_catalog_def validate_population_city_codes_def catalog_evaluation)

lemma sample_lookup:
  "map_sum id (\<lambda>s. ()) (fst (resolve_station_name_from_targeted_index sample_catalog_env [65, 45, 65, 45, 67]
     (world_of cached_tables))) = Inr ()"
  by (simp add: resolve_station_name_from_targeted_index_def provider_provinces_def
      provider_catalog_for_provinces_def province_matches_hint_def sample_region
      load_provider_city_scopes_def population_start_def population_step_def scope_task_def
      max_concurrent_catalog_fetches_def assemble_catalog_def validate_population_city_codes_def
      resolve_station_name_def cache_station_mapping_def station_names_def city_to_provider_station_def
      canonical_station_name_def put_mapping_call_def put_provider_station_mapping_def cached_tables_def
      sample_uuid catalog_cache_is_fresh_def fresh_catalog_def sat_i64_def catalog_evaluation)

section \<open>One refresh\<close>

text \<open>The part of the tables a fetch-log entry does not touch.\<close>

definition same_catalog :: "tables \<Rightarrow> tables \<Rightarrow> bool" where
  "same_catalog t t' \<longleftrightarrow>
     t'\<lparr>tb_fetch_log := [], tb_next_log_id := 0\<rparr> = t\<lparr>tb_fetch_log := [], tb_next_log_id := 0\<rparr>"

lemma same_catalog_refl [simp, intro]: "same_catalog t t"
  by (simp add: same_catalog_def)

lemma same_catalog_trans: "same_catalog a b \<Longrightarrow> same_catalog b c \<Longrightarrow> same_catalog a c"
  by (simp add: same_catalog_def)

lemma same_catalog_update: "same_catalog t t' \<Longrightarrow> \<exists>l n. t' = t\<lparr>tb_fetch_log := l, tb_next_log_id := n\<rparr>"
  by (cases t, cases t') (simp add: same_catalog_def)

lemma same_catalog_reads:
  assumes "same_catalog t t'"
  shows "get_provider_provinces f pv t' = get_provider_provinces f pv t"
    "get_provider_cities f pv code t' = get_provider_cities f pv code t"
    "catalog_ok t' = catalog_ok t" "tb_mappings t' = tb_mappings t"
proof -
  from same_catalog_update [OF assms] obtain l n where t': "t' = t\<lparr>tb_fetch_log := l, tb_next_log_id := n\<rparr>"
    by blast
  show "get_provider_provinces f pv t' = get_provider_provinces f pv t"
    "get_provider_cities f pv code t' = get_provider_cities f pv code t"
    by (simp_all add: t' get_provider_provinces_def get_provider_cities_def select_provinces_def select_cities_def
        Let_def split: option.split prod.split)
  show "catalog_ok t' = catalog_ok t" "tb_mappings t' = tb_mappings t"
    by (simp_all add: t' catalog_ok_def catalog_keys_ok_def provinces_counted_def cities_counted_def
        cities_in_known_scopes_def)
qed

lemma log_fetch_same: "same_catalog t (snd (log_fetch faults now u endpoint b m t))"
proof -
  have step: "insert_fetch_log a b c d e t = Inr t' \<Longrightarrow> same_catalog t t'"
    "delete_old_logs x t = Inr t' \<Longrightarrow> same_catalog t t'" "delete_excess_logs k t = Inr t' \<Longrightarrow> same_catalog t t'"
    for a b c d e x k and t t' :: tables
    by (auto simp: insert_fetch_log_def delete_old_logs_def delete_excess_logs_def same_catalog_def Let_def)
  obtain r t' where l: "log_fetch faults now u endpoint b m t = (r, t')" by fastforce
  show ?thesis
  proof (cases r)
    case (Inl e)
    with l transaction_Inl have "t' = t" unfolding log_fetch_def by blast
    then show ?thesis using l by simp
  next
    case (Inr x)
    then obtain i where "exec_all faults i (insert_fetch_log u endpoint b m now
        # prune_fetch_logs now fetch_log_retention_ms fetch_log_max_rows) t = Inr t'"
      using l transaction_Inr unfolding log_fetch_def by blast
    then show ?thesis
      unfolding l by (auto simp: prune_fetch_logs_def fetch_log_max_rows_def exec_Cons_Inr simp del: exec_all.simps(2) dest!: step
          intro: same_catalog_trans split: option.splits)
  qed
qed

lemma record_same:
  "same_catalog (di_tables (ww_db w)) (di_tables (ww_db (record_catalog_fetch env ce endpoint a m b n w)))"
  using log_fetch_same
  by (auto simp: record_catalog_fetch_def db_write_def split: option.split prod.split) (metis snd_conv)

lemma record_events:
  "\<exists>m'. ww_events (record_catalog_fetch env ce endpoint a m b n w) = ww_events w @ [FetchLogged None endpoint b m']
     \<and> (n = None \<or> m' \<noteq> None)"
proof -
  obtain r v where v: "db_write (ka_db_error env) ce
      (\<lambda>faults. log_fetch faults (ka_write_now env) None endpoint a m) w = (r, v)" by fastforce
  then have "ww_events v = ww_events w" using db_write_fields(1) [of "ka_db_error env" ce] by (metis snd_conv)
  then show ?thesis by (cases n) (simp_all add: record_catalog_fetch_def v append_warning_def split: sum.split)
qed

lemma cities_read_healthy:
  "get_provider_cities faults pv code t = Inr x \<Longrightarrow> get_provider_cities (\<lambda>_. False) pv code t = Inr x"
  by (auto simp: get_provider_cities_def Let_def split: option.splits if_splits)

text \<open>What the database has stored for a scope.\<close>

definition stored_cities :: "catalog_env \<Rightarrow> ustring \<Rightarrow> 'tz weather_world \<Rightarrow> provider_city catalog_cache option" where
  "stored_cities env code w =
     (case get_provider_cities (\<lambda>_. False) (ka_provider env) code (di_tables (ww_db w)) of
        Inr c \<Rightarrow> c | Inl e \<Rightarrow> None)"

definition just_stored :: "catalog_env \<Rightarrow> provider_city list \<Rightarrow> provider_city catalog_cache" where
  "just_stored env cs = \<lparr>cc_items = sort_provider_cities cs, cc_fetched_at = ka_write_now env\<rparr>"

lemma sort_cities_idem [simp]: "sort_provider_cities (sort_provider_cities cs) = sort_provider_cities cs"
  by (simp add: sort_provider_cities_def sort_key_id_if_sorted)

lemma replaced_cities_read:
  assumes "catalog_ok t" and "replace_provider_cities faults now pv code cs t = (Inr u, t')"
  shows "get_provider_cities (\<lambda>_. False) pv code t' =
    Inr (Some \<lparr>cc_items = sort_provider_cities cs, cc_fetched_at = now\<rparr>)"
proof -
  have keys: "hkeys_ok (tb_cities t)" using assms(1) by (simp add: catalog_ok_def catalog_keys_ok_def)
  note eff = replace_cities_effect [OF assms(2) keys]
  have ok: "catalog_ok t'"
    using replace_catalog_ok(2) [OF assms(1), of faults now pv code cs] assms(2) by simp
  have "map (fst \<circ> snd) (city_rows pv code now cs) = cs"
    using eff(4) by (simp add: city_rows_def o_def map_idI)
  then have "select_cities pv code t' = sort_provider_cities cs"
    by (simp add: select_cities_def eff(1) cities_of_after_cities sort_provider_cities_def)
  moreover have "hget (tb_catalog_state t') (pv, CatalogCities, code) = Some (now, int (length cs))"
    by (simp only: eff(1) state_after_cities simp_thms if_True)
  ultimately show ?thesis
    using get_cities_consistent [OF ok eff(3), of "\<lambda>_. False" code] by simp
qed

lemma persist_cities_cases:
  assumes "catalog_ok (di_tables (ww_db w))"
    and "persist_provider_cities env code (sort_provider_cities cs) w = ((result, warning), w')"
  shows "result = sort_provider_cities cs" "ww_events w' = ww_events w" "catalog_ok (di_tables (ww_db w'))"
    "stored_cities env code w' = Some (just_stored env cs)
     \<or> warning \<noteq> None \<and> same_catalog (di_tables (ww_db w)) (di_tables (ww_db w'))"
proof -
  let ?t = "di_tables (ww_db w)"
  obtain q v where wr: "db_write (ka_db_error env) (ka_calls env (CitiesReplace code))
      (\<lambda>faults. replace_provider_cities faults (ka_write_now env) (ka_provider env) code (sort_provider_cities cs)) w
      = (q, v)" by fastforce
  have ev: "ww_events v = ww_events w"
    using db_write_fields(1) wr by (metis snd_conv)
  have w': "w' = v" using assms(2) wr
    by (auto simp: persist_provider_cities_def split: sum.splits option.splits)
  show "ww_events w' = ww_events w" using ev w' by simp
  show "catalog_ok (di_tables (ww_db w'))"
    using wr w' assms(1) replace_catalog_ok(2) [OF assms(1)]
    by (auto simp: db_write_def split: option.splits prod.splits) (metis snd_conv)
  have stored: "stored_cities env code v = Some (just_stored env cs)
      \<and> (\<forall>f x. get_provider_cities f (ka_provider env) code (di_tables (ww_db v)) = Inr x
           \<longrightarrow> x = Some (just_stored env cs))" if "q = Inr u" for u
  proof -
    from that wr obtain f t' where "replace_provider_cities f (ka_write_now env) (ka_provider env) code
        (sort_provider_cities cs) ?t = (Inr (), t')" "di_tables (ww_db v) = t'"
      by (auto simp: db_write_def split: option.splits prod.splits sum.splits)
    with replaced_cities_read [OF assms(1)] have
      "get_provider_cities (\<lambda>_. False) (ka_provider env) code (di_tables (ww_db v)) = Inr (Some (just_stored env cs))"
      by (simp add: just_stored_def)
    then show ?thesis using cities_read_healthy by (fastforce simp: stored_cities_def)
  qed
  have reread: "x = Some (just_stored env cs)"
    if "q = Inr u" "get_provider_cities f (ka_provider env) code (di_tables (ww_db w')) = Inr x" for u f x
    using stored [OF that(1)] that(2) unfolding w' by blast
  have unchanged: "v = w \<or> di_tables (ww_db v) = ?t" if "q = Inl e" for e
    using that wr replace_Inl_unchanged(2)
    by (auto simp: db_write_def split: option.splits prod.splits sum.splits)
  show "result = sort_provider_cities cs"
    using assms(2) wr
    by (auto simp: persist_provider_cities_def db_read_def just_stored_def split: sum.splits option.splits
        dest!: reread [rotated])
  show "stored_cities env code w' = Some (just_stored env cs)
     \<or> warning \<noteq> None \<and> same_catalog ?t (di_tables (ww_db w'))"
  proof (cases q)
    case (Inl e)
    with unchanged assms(2) wr w' show ?thesis by (auto simp: persist_provider_cities_def)
  next
    case (Inr u)
    with stored w' show ?thesis by simp
  qed
qed

text \<open>
  C20: Refreshing a city scope serves nothing but what upstream sent or what is stored. A fresh
  copy is served as it is, without any effect; a valid upstream answer is served sorted, and it is
  what the database holds from then on, or else the log event carries a warning and the catalog is
  untouched; if upstream fails or sends an invalid catalog, the stale copy is served if there is
  one, the error otherwise, and the catalog is untouched. Each fetch is reported in exactly one
  event that says whether it succeeded, and the catalog tables stay consistent.
\<close>

theorem catalog_refresh_is_exact:
  assumes "catalog_ok (di_tables (ww_db w))" and "refresh_provider_cities env code w = (r, w')"
  shows "catalog_ok (di_tables (ww_db w')) \<and>
    (case db_read (ka_db_error env) (ka_calls env (CitiesRecheck code))
            (\<lambda>faults. get_provider_cities faults (ka_provider env) code) w of
       Inl e \<Rightarrow> r = Inl e \<and> w' = w
     | Inr cached \<Rightarrow>
         if (case cached of None \<Rightarrow> False | Some c \<Rightarrow> fresh_catalog env c)
         then r = Inr (cc_items (the cached)) \<and> w' = w
         else
           (case validated_upstream (ka_permit env) (ka_cities env code)
                   (\<lambda>cs. map_option (ka_db_error env) (validate_provider_city_catalog code cs)) of
              Inr cs \<Rightarrow> r = Inr (sort_provider_cities cs)
                \<and> (\<exists>m. ww_events w' = ww_events w @ [FetchLogged None (lit ''rest/province/'' @ code) True m]
                   \<and> (stored_cities env code w' = Some (just_stored env cs)
                      \<or> (\<exists>text. m = Some text) \<and> same_catalog (di_tables (ww_db w)) (di_tables (ww_db w'))))
            | Inl e \<Rightarrow> r = (case cached of None \<Rightarrow> Inl e | Some c \<Rightarrow> Inr (cc_items c))
                \<and> (\<exists>m. ww_events w' = ww_events w @ [FetchLogged None (lit ''rest/province/'' @ code) False m])
                \<and> same_catalog (di_tables (ww_db w)) (di_tables (ww_db w'))))"
proof -
  let ?fetched = "validated_upstream (ka_permit env) (ka_cities env code)
    (\<lambda>cs. map_option (ka_db_error env) (validate_provider_city_catalog code cs))"
  let ?settle = "\<lambda>stale. settle_catalog_fetch env (ka_calls env (CitiesLog code)) (lit ''rest/province/'' @ code)
    stale (persist_provider_cities env code) (map_sum id sort_provider_cities ?fetched) w"
  have ok: "catalog_ok (di_tables (ww_db v)) \<Longrightarrow>
      catalog_ok (di_tables (ww_db (record_catalog_fetch env ce ep a m b n v)))" for ce ep a m b n and v :: "'a weather_world"
    using same_catalog_reads(3) [OF record_same] by blast
  have settled: "catalog_ok (di_tables (ww_db w')) \<and>
      (case ?fetched of
              Inr cs \<Rightarrow> r = Inr (sort_provider_cities cs)
                \<and> (\<exists>m. ww_events w' = ww_events w @ [FetchLogged None (lit ''rest/province/'' @ code) True m]
                   \<and> (stored_cities env code w' = Some (just_stored env cs)
                      \<or> (\<exists>text. m = Some text) \<and> same_catalog (di_tables (ww_db w)) (di_tables (ww_db w'))))
            | Inl e \<Rightarrow> r = (case stale of None \<Rightarrow> Inl e | Some items \<Rightarrow> Inr items)
                \<and> (\<exists>m. ww_events w' = ww_events w @ [FetchLogged None (lit ''rest/province/'' @ code) False m])
                \<and> same_catalog (di_tables (ww_db w)) (di_tables (ww_db w')))"
    if s: "?settle stale = (r, w')" for stale
  proof (cases ?fetched)
    case (Inl e)
    with s show ?thesis
      using record_events [of env "ka_calls env (CitiesLog code)" "lit ''rest/province/'' @ code" False _ False _ w]
      by (fastforce simp: settle_catalog_fetch_def Let_def record_same ok assms(1) split: option.splits)
  next
    case (Inr cs)
    obtain result warning v where p: "persist_provider_cities env code (sort_provider_cities cs) w = ((result, warning), v)"
      by (metis surj_pair)
    note c = persist_cities_cases [OF assms(1) p]
    from s Inr p have r: "r = Inr result" and
      w': "w' = record_catalog_fetch env (ka_calls env (CitiesLog code)) (lit ''rest/province/'' @ code) True warning True warning v"
      by (simp_all add: settle_catalog_fetch_def)
    have rec: "same_catalog (di_tables (ww_db v)) (di_tables (ww_db w'))" unfolding w' by (rule record_same)
    have "stored_cities env code w' = stored_cities env code v"
      by (simp add: stored_cities_def same_catalog_reads(2) [OF rec])
    with c rec show ?thesis
      unfolding Inr using record_events [of env "ka_calls env (CitiesLog code)" "lit ''rest/province/'' @ code" True warning True warning v]
      by (auto simp: r w' ok intro: same_catalog_trans)
  qed
  show ?thesis
  proof (cases "db_read (ka_db_error env) (ka_calls env (CitiesRecheck code))
            (\<lambda>faults. get_provider_cities faults (ka_provider env) code) w")
    case (Inl e)
    with assms show ?thesis by (simp add: refresh_provider_cities_def)
  next
    case (Inr cached)
    show ?thesis
    proof (cases "case cached of None \<Rightarrow> False | Some c \<Rightarrow> fresh_catalog env c")
      case True
      with Inr assms show ?thesis by (auto simp: refresh_provider_cities_def split: option.splits)
    next
      case False
      with Inr assms(2) have "?settle (map_option cc_items cached) = (r, w')"
        by (auto simp: refresh_provider_cities_def split: option.splits)
      from settled [OF this] False show ?thesis
        unfolding Inr by (simp add: option.case_eq_if map_option_case split: sum.splits option.splits)
    qed
  qed
qed

lemma catalog_refresh_is_exact_witness:
  "catalog_ok (di_tables (ww_db (snd (refresh_provider_cities sample_catalog_env [49] (world_of Db_Catalog.sample_catalog)))))"
  using catalog_refresh_is_exact [of "world_of Db_Catalog.sample_catalog" sample_catalog_env "[49]"] sample_catalog_ok
  by (metis (no_types, lifting) db_instance.select_convs(1) prod.collapse weather_world.select_convs(1) world_of_def)

section \<open>What a catalog contains\<close>

text \<open>The cities of one scope: sorted, and all of this scope.\<close>

definition city_list_ok :: "ustring \<Rightarrow> provider_city list \<Rightarrow> bool" where
  "city_list_ok code cs \<longleftrightarrow> sorted (map (\<lambda>c. (pc_city c, pc_provider_code c)) cs)
     \<and> list_all (\<lambda>c. pc_provider_province_code c = code) cs"

text \<open>What another request's flight hands over was fetched in the same way.\<close>

definition joined_ok :: "catalog_env \<Rightarrow> ustring \<Rightarrow> bool" where
  "joined_ok env code = (case ka_join_cities env code of Some (Inr cs) \<Rightarrow> city_list_ok code cs | _ \<Rightarrow> True)"

lemma select_cities_ok: "city_list_ok code (select_cities pv code t)"
  by (auto simp: city_list_ok_def select_cities_def list_all_iff in_scope_def)

lemma sort_cities_ok: "list_all (\<lambda>c. pc_provider_province_code c = code) cs \<Longrightarrow> city_list_ok code (sort_provider_cities cs)"
  by (simp add: city_list_ok_def sort_provider_cities_def list_all_iff)

lemma sort_ok_cities [simp]: "city_list_ok code cs \<Longrightarrow> sort_provider_cities cs = cs"
  by (simp add: city_list_ok_def sort_provider_cities_def sort_key_id_if_sorted)

lemma read_cities_ok: "db_read sh ce (\<lambda>faults. get_provider_cities faults pv code) w = Inr (Some c) \<Longrightarrow> city_list_ok code (cc_items c)"
  by (auto simp: db_read_def get_provider_cities_def Let_def select_cities_ok split: option.splits sum.splits if_splits)

lemma validated_ok:
  "map_sum id sort_provider_cities
     (validated_upstream permit r (\<lambda>cs. map_option g (validate_provider_city_catalog code cs))) = Inr xs
     \<Longrightarrow> city_list_ok code xs"
  by (auto simp: validated_upstream_def validate_provider_city_catalog_def first_wrong_scope_iff list_all_iff
      intro!: sort_cities_ok split: option.splits sum.splits if_splits)

lemma persist_cities_ok:
  "city_list_ok code upstream \<Longrightarrow> persist_provider_cities env code upstream w = ((result, warning), w') \<Longrightarrow> city_list_ok code result"
  by (auto simp: persist_provider_cities_def split: prod.splits sum.splits option.splits dest: read_cities_ok)

lemma settle_cities_ok:
  assumes "settle_catalog_fetch env ce endpoint stale (persist_provider_cities env code)
      (map_sum id sort_provider_cities (validated_upstream permit r
         (\<lambda>cs. map_option g (validate_provider_city_catalog code cs)))) w = (Inr cs, w')"
    and "\<And>xs. stale = Some xs \<Longrightarrow> city_list_ok code xs"
  shows "city_list_ok code cs"
proof (cases "map_sum id sort_provider_cities (validated_upstream permit r
         (\<lambda>cs. map_option g (validate_provider_city_catalog code cs)))")
  case (Inl e)
  with assms show ?thesis by (auto simp: settle_catalog_fetch_def Let_def split: option.splits)
next
  case (Inr xs)
  with assms(1) show ?thesis
    by (auto simp: settle_catalog_fetch_def split: prod.splits dest: persist_cities_ok [OF validated_ok [OF Inr]])
qed

lemma refresh_cities_ok:
  assumes "refresh_provider_cities env code w = (Inr cs, w')"
  shows "city_list_ok code cs"
proof (cases "db_read (ka_db_error env) (ka_calls env (CitiesRecheck code))
    (\<lambda>faults. get_provider_cities faults (ka_provider env) code) w")
  case (Inl e)
  with assms show ?thesis by (simp add: refresh_provider_cities_def)
next
  case (Inr cached)
  show ?thesis
  proof (cases cached)
    case None
    with Inr assms show ?thesis
      unfolding refresh_provider_cities_def by (auto dest: settle_cities_ok)
  next
    case (Some c)
    have "city_list_ok code (cc_items c)" using read_cities_ok Inr Some by blast
    with Inr Some assms show ?thesis
      unfolding refresh_provider_cities_def by (auto split: if_splits dest: settle_cities_ok)
  qed
qed

lemma cities_by_code_ok:
  "joined_ok env code \<Longrightarrow> provider_cities_by_code env code w = (Inr cs, w') \<Longrightarrow> city_list_ok code cs"
  by (auto simp: provider_cities_by_code_def fly_def flight_result_def joined_ok_def
      split: sum.splits option.splits if_splits prod.splits dest: refresh_cities_ok read_cities_ok)

text \<open>Every loaded scope satisfies what its task guarantees.\<close>

locale checked_loader = scope_loader +
  fixes good :: "ustring \<Rightarrow> provider_city list \<Rightarrow> bool"
  assumes work_good: "work code s = (Inr (Inr cs), s') \<Longrightarrow> good code (sort_provider_cities cs)"
begin

definition good_scopes :: "(ustring, provider_city list) hmap \<Rightarrow> bool" where
  "good_scopes m \<longleftrightarrow> (\<forall>code cs. hget m code = Some cs \<longrightarrow> good code cs)"

definition good_population :: "'s population \<Rightarrow> bool" where
  "good_population p \<longleftrightarrow> good_scopes (po_loaded p)
     \<and> (case po_outcome p of Some (Inr loaded) \<Rightarrow> good_scopes loaded | _ \<Rightarrow> True)"

lemma good_step: "good_population p \<Longrightarrow> good_population (population_step late work i p)"
  using work_good
  by (auto simp: good_population_def population_step_def good_scopes_def Let_def split: prod.split sum.split option.split)

lemma good_run: "good_population p \<Longrightarrow> good_population (population_run late work pick n p)"
  by (induction n arbitrary: p) (simp_all add: good_step)

lemma good_start: "good_population (population_start codes s)"
  by (simp add: good_population_def good_scopes_def population_start_def split: prod.split)

end

interpretation checked: checked_loader "ka_late env" "scope_task env" "\<lambda>_ _. True"
    "\<lambda>code cs. joined_ok env code \<longrightarrow> city_list_ok code cs" for env :: catalog_env
proof unfold_locales
  fix code s cs and s' :: "'b weather_world"
  assume "scope_task env code s = (Inr (Inr cs), s')"
  then have "provider_cities_by_code env code s = (Inr cs, s')"
    by (auto simp: scope_task_def split: option.splits prod.splits)
  then show "joined_ok env code \<longrightarrow> city_list_ok code (sort_provider_cities cs)"
    using cities_by_code_ok [of env code s cs s'] by auto
qed simp_all

definition scopes_ok :: "(ustring, provider_city list) hmap \<Rightarrow> bool" where
  "scopes_ok m \<longleftrightarrow> (\<forall>code cs. hget m code = Some cs \<longrightarrow> city_list_ok code cs)"

lemma loaded_ok:
  assumes "\<And>code. joined_ok env code" and "load_provider_city_scopes env codes w = (Inr loaded, w')"
  shows "scopes_ok loaded"
proof -
  let ?p = "population_run (ka_late env) (scope_task env) (ka_pick env) (Suc (length codes)) (population_start codes w)"
  have "checked.good_population env ?p" by (intro checked.good_run checked.good_start)
  then have "case po_outcome ?p of Some (Inr l) \<Rightarrow> checked.good_scopes env l | _ \<Rightarrow> True"
    by (simp only: checked.good_population_def)
  moreover have "po_outcome ?p = Some (Inr loaded)"
    using assms(2) by (simp add: load_provider_city_scopes_def Let_def del: population_run.simps split: option.splits)
  ultimately have "checked.good_scopes env loaded" by (simp only: option.case sum.case)
  then show ?thesis
    unfolding checked.good_scopes_def scopes_ok_def using assms(1) by blast
qed

lemma extend_ok: "scopes_ok m \<Longrightarrow> scopes_ok rows \<Longrightarrow> hkeys_ok rows \<Longrightarrow> scopes_ok (extend_scopes m rows)"
proof (induction rows arbitrary: m)
  case (Cons r rows)
  obtain k v where r: "r = (k, v)" by fastforce
  have "city_list_ok k v" using Cons.prems(2) r by (simp add: scopes_ok_def)
  then have "scopes_ok (hput k v m)" using Cons.prems(1) by (simp add: scopes_ok_def)
  moreover have "scopes_ok rows"
    using Cons.prems(2,3) r by (auto simp: scopes_ok_def hkeys_ok_def dest: map_of_SomeD split: if_splits)
  ultimately show ?case using Cons r by (simp add: extend_scopes_def hkeys_ok_def)
qed (simp add: extend_scopes_def)

lemma loaded_keys:
  assumes "load_provider_city_scopes env codes w = (Inr loaded, w')"
  shows "hkeys_ok loaded"
proof -
  have step: "hkeys_ok (po_loaded p) \<and> (case po_outcome p of Some (Inr l) \<Rightarrow> hkeys_ok l | _ \<Rightarrow> True)
      \<Longrightarrow> hkeys_ok (po_loaded (population_step late work i p))
        \<and> (case po_outcome (population_step late work i p) of Some (Inr l) \<Rightarrow> hkeys_ok l | _ \<Rightarrow> True)"
    for late i and work :: "'a weather_world scope_task" and p
    by (auto simp: population_step_def Let_def split: prod.split sum.split option.split)
  have "hkeys_ok (po_loaded p) \<and> (case po_outcome p of Some (Inr l) \<Rightarrow> hkeys_ok l | _ \<Rightarrow> True)
      \<Longrightarrow> case po_outcome (population_run late work pick n p) of Some (Inr l) \<Rightarrow> hkeys_ok l | _ \<Rightarrow> True"
    for late pick n and work :: "'a weather_world scope_task" and p
    by (induction n arbitrary: p) (simp_all add: step)
  from this [of "population_start codes w" "ka_late env" "scope_task env" "ka_pick env" "Suc (length codes)"] assms
  show ?thesis
    by (auto simp: load_provider_city_scopes_def Let_def population_start_def simp del: population_run.simps
        split: option.splits prod.splits)
qed

lemma flatten_scopes:
  "flatten_city_scopes codes m = Inr cs \<Longrightarrow>
     cs = concat (map (\<lambda>code. the (hget m code)) codes) \<and> distinct codes \<and> set codes \<subseteq> hkeys m"
proof (induction codes arbitrary: m cs)
  case (Cons code codes)
  then obtain scope rest where r: "hget m code = Some scope" "flatten_city_scopes codes (hdel code m) = Inr rest"
    "cs = scope @ rest" by (auto split: option.splits sum.splits)
  note ih = Cons.IH [OF r(2)]
  then have "code \<notin> set codes" by (auto simp: hkeys_del)
  moreover from this have "concat (map (\<lambda>c. the (hget (hdel code m) c)) codes) = concat (map (\<lambda>c. the (hget m c)) codes)"
    by (intro arg_cong [of _ _ concat]) (auto simp: map_eq_conv)
  moreover from r(1) have "code \<in> hkeys m" by (simp add: hkeys_hget)
  ultimately show ?case using ih r by (simp add: hkeys_del del: hget_del) blast
qed simp

lemma duplicate_none:
  "duplicate_city_code owners cs = None \<Longrightarrow>
     distinct (map pc_provider_code cs) \<and> (\<forall>c\<in>set cs. hget owners (pc_provider_code c) = None)"
  by (induction owners cs rule: duplicate_city_code.induct) (auto split: option.splits if_splits)

lemma assemble_cases:
  assumes "assemble_catalog provinces scopes = Inr catalog" and "scopes_ok scopes"
  shows "cat_provinces catalog = provinces \<and> distinct (map pc_provider_code (cat_cities catalog))
    \<and> distinct (map pp_provider_code provinces)
    \<and> (\<exists>scope. cat_cities catalog = concat (map (\<lambda>p. scope (pp_provider_code p)) provinces)
         \<and> list_all (\<lambda>p. city_list_ok (pp_provider_code p) (scope (pp_provider_code p))) provinces)"
proof -
  from assms(1) obtain cs where cs: "flatten_city_scopes (map pp_provider_code provinces) scopes = Inr cs"
    "duplicate_city_code [] cs = None" "catalog = \<lparr>cat_provinces = provinces, cat_cities = cs\<rparr>"
    by (auto simp: assemble_catalog_def validate_population_city_codes_def split: sum.splits option.splits)
  note fl = flatten_scopes [OF cs(1)]
  have "city_list_ok code (the (hget scopes code))" if "code \<in> hkeys scopes" for code
    using that assms(2) by (auto simp: scopes_ok_def hkeys_hget)
  with fl have "list_all (\<lambda>p. city_list_ok (pp_provider_code p) (the (hget scopes (pp_provider_code p)))) provinces"
    by (simp add: list_all_iff) blast
  with fl duplicate_none [OF cs(2)] show ?thesis
    by (auto simp: cs(3) o_def intro!: exI [of _ "\<lambda>code. the (hget scopes code)"])
qed

lemma scope_rows_ok:
  "get_all_provider_city_scopes faults pv t = Inr rows \<Longrightarrow>
     list_all (\<lambda>s. city_list_ok (cs_province_code s) (cs_items s)) rows"
proof -
  have "city_scopes faults i pv t states = Inr rows \<Longrightarrow> list_all (\<lambda>s. city_list_ok (cs_province_code s) (cs_items s)) rows"
    for i states rows
    by (induction faults i pv t states arbitrary: rows rule: city_scopes.induct)
       (auto simp: Let_def select_cities_ok split: if_splits option.splits sum.splits)
  then show "get_all_provider_city_scopes faults pv t = Inr rows \<Longrightarrow>
     list_all (\<lambda>s. city_list_ok (cs_province_code s) (cs_items s)) rows"
    by (auto simp: get_all_provider_city_scopes_def split: option.splits list.splits if_splits)
qed

lemma partition_ok:
  "partition_scopes env cached codes fresh pending = (fresh', pending') \<Longrightarrow> scopes_ok fresh \<Longrightarrow>
     (\<And>code s. hget cached code = Some s \<Longrightarrow> city_list_ok code (cs_items s)) \<Longrightarrow> scopes_ok fresh'"
proof (induction env cached codes fresh pending rule: partition_scopes.induct)
  case (2 env cached code codes fresh pending)
  have keep: "hget (hdel code cached) c = Some s \<Longrightarrow> city_list_ok c (cs_items s)" for c s
    using 2(6) [of c s] by (simp split: if_splits)
  show ?case
  proof (cases "hget cached code")
    case None
    with 2 keep show ?thesis by simp
  next
    case (Some scope)
    have "scopes_ok (hput code (cs_items scope) fresh)"
      using 2(5) 2(6) [OF Some] by (simp add: scopes_ok_def)
    with 2 keep Some show ?thesis by (simp split: if_splits)
  qed
qed simp

lemma hget_rows:
  "hget (extend_scopes m (map (\<lambda>s. (cs_province_code s, s)) rows)) code = Some s \<Longrightarrow>
     hget m code = Some s \<or> (s \<in> set rows \<and> cs_province_code s = code)"
  by (induction rows arbitrary: m) (fastforce simp: extend_scopes_def split: if_splits)+

text \<open>
  Also: A populated catalog is complete and consistent: it has the given provinces in their order,
  and its cities are those of one city list per province, in the same order, each sorted and with
  no city of another province; no province and no city code occurs twice. This holds whatever is
  cached, fetched or handed over by other requests, and in whatever order the tasks end.
\<close>

theorem catalog_lists_every_scope:
  assumes "\<And>code. joined_ok env code"
    and "populate_provider_catalog env provinces w = (Inr catalog, w')"
  shows "cat_provinces catalog = provinces \<and> distinct (map pc_provider_code (cat_cities catalog))
    \<and> distinct (map pp_provider_code provinces)
    \<and> (\<exists>scope. cat_cities catalog = concat (map (\<lambda>p. scope (pp_provider_code p)) provinces)
         \<and> list_all (\<lambda>p. city_list_ok (pp_provider_code p) (scope (pp_provider_code p))) provinces)"
proof -
  obtain rows fresh pending loaded where rows: "get_all_provider_city_scopes (ce_faults (ka_calls env ScopesRead))
        (ka_provider env) (di_tables (ww_db w)) = Inr rows"
    and part: "partition_scopes env (extend_scopes [] (map (\<lambda>s. (cs_province_code s, s)) rows))
        (map pp_provider_code provinces) [] [] = (fresh, pending)"
    and load: "load_provider_city_scopes env pending w = (Inr loaded, w')"
    and asm: "assemble_catalog provinces (extend_scopes fresh loaded) = Inr catalog"
    using assms(2)
    by (auto simp: populate_provider_catalog_def db_read_def split: sum.splits option.splits prod.splits)
  have cached: "city_list_ok code (cs_items s)"
    if "hget (extend_scopes [] (map (\<lambda>s. (cs_province_code s, s)) rows)) code = Some s" for code s
  proof -
    from hget_rows [OF that] have "s \<in> set rows" "cs_province_code s = code" by simp_all
    with scope_rows_ok [OF rows] show ?thesis by (auto simp: list_all_iff)
  qed
  have "scopes_ok fresh"
    by (rule partition_ok [OF part _ cached]) (simp_all add: scopes_ok_def)
  then have "scopes_ok (extend_scopes fresh loaded)"
    by (rule extend_ok) (rule loaded_ok [OF assms(1) load], rule loaded_keys [OF load])
  with assemble_cases [OF asm] show ?thesis by blast
qed

lemma catalog_lists_every_scope_witness:
  "\<exists>w'. populate_provider_catalog sample_catalog_env [sample_province] (world_of initial_schema)
          = (Inr \<lparr>cat_provinces = [sample_province], cat_cities = [sample_city]\<rparr>, w')
        \<and> distinct (map pc_provider_code [sample_city])"
proof -
  obtain w' where p: "populate_provider_catalog sample_catalog_env [sample_province] (world_of initial_schema)
      = (Inr \<lparr>cat_provinces = [sample_province], cat_cities = [sample_city]\<rparr>, w')"
    using sample_population by (metis prod.collapse)
  have "joined_ok sample_catalog_env code" for code by (simp add: joined_ok_def sample_catalog_env_def)
  from catalog_lists_every_scope [OF this p] p show ?thesis by simp
qed

text \<open>
  Also: A station name that was resolved through the catalog is remembered: the station has exactly
  the requested canonical name, its row is in the mapping table under that name, and looking the
  name up in the database finds it, so the next request needs no catalog.
\<close>

theorem resolved_station_is_remembered:
  assumes "resolve_station_name_from_targeted_index env name w = (Inr s, w')"
  shows "canonical_station_name (ps_province s) (ps_city s) = name
    \<and> ps_unified_uuid s = unified_station_uuid (ka_sha env) name
    \<and> get_provider_station_by_name (\<lambda>_. False) (ka_provider env) name (di_tables (ww_db w'))
        = Inr (Some (s\<lparr>ps_display_name := name\<rparr>))"
proof -
  obtain prov f v where "resolve_station_name (ka_sha env) (ka_provider env) (put_mapping_call env) (Inr prov) f f name v
      = (Inr s, w')"
    using assms by (auto simp: resolve_station_name_from_targeted_index_def Let_def split: sum.splits prod.splits)
  then obtain stations rest where st: "sort_key station_stable_key stations = s # rest"
    and names: "list_all (\<lambda>s. list_ex (\<lambda>c. c = name) (station_names s)
      \<and> (\<exists>c. s = city_to_provider_station (ka_sha env) (ka_provider env) (pc_provider_province_code c) c)) stations"
    and put: "cache_station_mapping (put_mapping_call env) s v = (Inr (), w')"
    by (fastforce simp: resolve_station_name_def Let_def list_all_iff split: sum.splits list.splits prod.splits)
  have "s \<in> set stations" using st by (metis list.set_intros(1) set_sort)
  with names obtain c where name: "canonical_station_name (ps_province s) (ps_city s) = name"
    and s: "s = city_to_provider_station (ka_sha env) (ka_provider env) (pc_provider_province_code c) c"
    by (auto simp: list_all_iff station_names_single)
  from put name have "put_mapping_call env (s\<lparr>ps_display_name := name\<rparr>) v = (Inr (), w')"
    by (auto simp: cache_station_mapping_def station_names_single split: sum.splits prod.splits)
  then have "hget (tb_mappings (di_tables (ww_db w'))) (ps_provider_name s, name)
      = Some (s\<lparr>ps_display_name := name\<rparr>, ka_write_now env)"
    by (auto simp: put_mapping_call_def db_write_def put_provider_station_mapping_def
        split: option.splits prod.splits sum.splits if_splits)
  with name s show ?thesis
    by (simp add: get_provider_station_by_name_def city_to_provider_station_def Let_def)
qed

lemma resolved_station_is_remembered_witness:
  "\<exists>s w'. resolve_station_name_from_targeted_index sample_catalog_env [65, 45, 65, 45, 67] (world_of cached_tables) = (Inr s, w')
        \<and> canonical_station_name (ps_province s) (ps_city s) = [65, 45, 65, 45, 67]"
proof -
  obtain s w' where r: "resolve_station_name_from_targeted_index sample_catalog_env [65, 45, 65, 45, 67]
      (world_of cached_tables) = (Inr s, w')"
    using sample_lookup
    by (cases "resolve_station_name_from_targeted_index sample_catalog_env [65, 45, 65, 45, 67] (world_of cached_tables)";
        cases "fst (resolve_station_name_from_targeted_index sample_catalog_env [65, 45, 65, 45, 67] (world_of cached_tables))") auto
  with resolved_station_is_remembered [OF r] show ?thesis by blast
qed

end
