(* ===== verification/Weather.thy ===== *)
theory Weather
  imports Temperature_History Local_Date Catalog_Population
begin

text \<open>
  The weather handlers (\<^verbatim>\<open>weather-core/engine/src/handlers/weather.rs\<close>): the cache and its
  freshness, the fetch with its fallbacks, alerts and air quality inherited from a parent
  station, the daily high kept from an earlier snapshot, resource identifiers instead of upstream
  URLs, and the refresh events. The upstream provider is a parameter; an unknown station is
  looked up through the catalog. The database is the model of \<open>Db_History\<close> behind its actor,
  which may refuse any call.
\<close>

section \<open>Pure helpers\<close>

definition warning_summary :: "ustring list \<Rightarrow> ustring option" where
  "warning_summary warnings = (if warnings \<noteq> [] then Some (join (lit ''; '') warnings) else None)"

text \<open>\<open>position\<close>.\<close>

fun position :: "('a \<Rightarrow> bool) \<Rightarrow> 'a list \<Rightarrow> nat option" where
  "position P [] = None"
| "position P (x # xs) = (if P x then Some 0 else map_option Suc (position P xs))"

definition current_forecast_index :: "'d date_lib \<Rightarrow> 'f weather_snapshot \<Rightarrow> 'd \<Rightarrow> nat option" where
  "current_forecast_index dl snapshot today =
     Option.bind (ws_predict snapshot)
       (\<lambda>f. position (\<lambda>day. parse_relative_date dl (fd_date day) today = Some today) (fr_days f))"

definition current_temperature_chart_index :: "'d date_lib \<Rightarrow> 'f weather_snapshot \<Rightarrow> 'd \<Rightarrow> nat option" where
  "current_temperature_chart_index dl snapshot today =
     (case position (\<lambda>c. Option.bind (tc_date c) (\<lambda>v. parse_relative_date dl v today) = Some today)
             (ws_tempchart snapshot) of
        Some i \<Rightarrow> Some i
      | None \<Rightarrow> (case ws_tempchart snapshot of [c] \<Rightarrow> if blank (tc_date c) then Some 0 else None | _ \<Rightarrow> None))"

definition finite_only :: "'f float_lib \<Rightarrow> 'f option \<Rightarrow> 'f option" where
  "finite_only fl v = (case v of None \<Rightarrow> None | Some x \<Rightarrow> if fl_finite fl x then Some x else None)"

definition snapshot_daily_high :: "'f float_lib \<Rightarrow> 'd date_lib \<Rightarrow> 'f weather_snapshot \<Rightarrow> 'd \<Rightarrow> 'f option" where
  "snapshot_daily_high fl dl snapshot today =
     (case Option.bind (current_forecast_index dl snapshot today)
             (\<lambda>i. Option.bind (ws_predict snapshot)
                (\<lambda>f. finite_only fl (parse_temperature fl (fd_day_temperature (fr_days f ! i))))) of
        Some high \<Rightarrow> Some high
      | None \<Rightarrow>
          Option.bind (current_temperature_chart_index dl snapshot today)
            (\<lambda>i. finite_only fl (tc_max_temperature (ws_tempchart snapshot ! i))))"

definition temperature_text :: "'f float_lib \<Rightarrow> 'f \<Rightarrow> ustring" where
  "temperature_text fl v = (if fl_integral fl v then fl_fixed fl v else fl_show fl v)"

text \<open>The two places of today's maximum are filled where they are missing.\<close>

definition fill_forecast_high ::
  "'f float_lib \<Rightarrow> 'd date_lib \<Rightarrow> 'd \<Rightarrow> 'f \<Rightarrow> 'f weather_snapshot \<Rightarrow> bool \<times> 'f weather_snapshot" where
  "fill_forecast_high fl dl today high snapshot =
     (case (current_forecast_index dl snapshot today, ws_predict snapshot) of
        (Some i, Some f) \<Rightarrow>
          let day = fr_days f ! i
          in if finite_only fl (parse_temperature fl (fd_day_temperature day)) = None
             then (True, snapshot\<lparr>ws_predict := Some (f\<lparr>fr_days := (fr_days f)[i :=
                     day\<lparr>fd_day_temperature := Some (temperature_text fl high)\<rparr>]\<rparr>)\<rparr>)
             else (False, snapshot)
      | _ \<Rightarrow> (False, snapshot))"

definition fill_chart_high ::
  "'f float_lib \<Rightarrow> 'd date_lib \<Rightarrow> 'd \<Rightarrow> 'f \<Rightarrow> 'f weather_snapshot \<Rightarrow> bool \<times> 'f weather_snapshot" where
  "fill_chart_high fl dl today high snapshot =
     (case current_temperature_chart_index dl snapshot today of
        None \<Rightarrow> (False, snapshot)
      | Some i \<Rightarrow>
          let chart = ws_tempchart snapshot ! i
          in if finite_only fl (tc_max_temperature chart) = None
             then (True, snapshot\<lparr>ws_tempchart := (ws_tempchart snapshot)[i :=
                     chart\<lparr>tc_max_temperature := Some high\<rparr>]\<rparr>)
             else (False, snapshot))"

definition merge_cached_daily_high ::
  "'f float_lib \<Rightarrow> 'd date_lib \<Rightarrow> 'f weather_snapshot stored_snapshot \<Rightarrow> ustring \<Rightarrow> 'f weather_snapshot
     \<Rightarrow> bool \<times> 'f weather_snapshot" where
  "merge_cached_daily_high fl dl stored today snapshot =
     (if st_date stored \<noteq> today then (False, snapshot)
      else (case parse_full_date dl today of
              None \<Rightarrow> (False, snapshot)
            | Some date \<Rightarrow>
                (case (case snapshot_daily_high fl dl snapshot date of
                         Some h \<Rightarrow> Some h | None \<Rightarrow> snapshot_daily_high fl dl (st_snapshot stored) date) of
                   None \<Rightarrow> (False, snapshot)
                 | Some high \<Rightarrow>
                     (let (a, s1) = fill_forecast_high fl dl date high snapshot;
                          (b, s2) = fill_chart_high fl dl date high s1
                      in (a \<or> b, s2)))))"

definition first_enabled_station_name :: "app_config \<Rightarrow> ustring option" where
  "first_enabled_station_name config = map_option sc_name (find sc_enabled (ac_stations config))"

definition municipality_suffix :: nat where "municipality_suffix = 0x5E02"

definition municipality_air_parent_name :: "ustring \<Rightarrow> ustring \<Rightarrow> ustring option" where
  "municipality_air_parent_name province city =
     (if province = [] \<or> last province \<noteq> municipality_suffix then None
      else let municipality = short_region_name province
           in if municipality = [] \<or> city = municipality \<or> city = province then None
              else Some (canonical_station_name province municipality))"

definition same_alert :: "weather_alert \<Rightarrow> weather_alert \<Rightarrow> bool" where
  "same_alert l r \<longleftrightarrow> wa_alert l = wa_alert r \<and> wa_province l = wa_province r \<and> wa_city l = wa_city r
     \<and> wa_issue_content l = wa_issue_content r \<and> wa_signal_type l = wa_signal_type r
     \<and> wa_signal_level l = wa_signal_level r"

fun push_alerts :: "weather_alert list \<Rightarrow> weather_alert list \<Rightarrow> weather_alert list" where
  "push_alerts alerts [] = alerts"
| "push_alerts alerts (p # ps) =
     (let parent = p\<lparr>wa_inherited := True\<rparr>
      in push_alerts (if list_ex (\<lambda>c. same_alert c parent) alerts then alerts else alerts @ [parent]) ps)"

definition merge_parent_alerts ::
  "weather_alert list \<Rightarrow> 'f weather_snapshot \<Rightarrow> bool \<times> 'f weather_snapshot" where
  "merge_parent_alerts parents snapshot =
     (if parents = [] then (False, snapshot)
      else let real = (case ws_real snapshot of None \<Rightarrow> observed_default | Some r \<Rightarrow> r);
               alerts = push_alerts (ow_alerts real) parents
           in (length alerts \<noteq> length (ow_alerts real),
               snapshot\<lparr>ws_real := Some (real\<lparr>ow_alerts := alerts\<rparr>)\<rparr>))"

text \<open>The dates of chrono for the calendar of the database.\<close>

definition calendar_zones :: "'tz calendar \<Rightarrow> ustring \<Rightarrow> zone option" where
  "calendar_zones cal name =
     map_option (\<lambda>z t. if cal_instant_ok cal t then Some (cal_day cal z t) else None) (cal_parse cal name)"

definition cached_snapshot_is_fresh ::
  "(ustring \<Rightarrow> zone option) \<Rightarrow> int \<Rightarrow> int \<Rightarrow> nat \<Rightarrow> ustring \<Rightarrow> date_error + bool" where
  "cached_snapshot_is_fresh zones fetched now ttl_seconds timezone =
     (let ttl_ms = min (int (min (ttl_seconds * 1000) u64_max)) i64_max;
          age_ms = max 0 (sat_i64 (now - fetched))
      in if ttl_ms \<le> age_ms then Inr False
         else (case date_for_tz zones fetched timezone of
                 Inl e \<Rightarrow> Inl e
               | Inr a \<Rightarrow> (case date_for_tz zones now timezone of
                            Inl e \<Rightarrow> Inl e
                          | Inr b \<Rightarrow> Inr (a = b))))"

section \<open>The engine as the handlers see it\<close>

text \<open>Every call of the database actor has a place in the code at which it can fail.\<close>

datatype call_site =
    CallStationUuid | CallStationName | CallLatest | CallDailyHigh | CallPersist | CallAirParent
  | CallAlertParent | CallLog | CallStale

record ('f, 'd, 'tz) weather_env =
  we_floats :: "'f float_lib"
  we_dates :: "'d date_lib"
  we_codec :: "'f weather_snapshot snapshot_codec"
  we_sha :: "byte list \<Rightarrow> byte list"
  we_calendar :: "'tz calendar"
  we_limits :: resource_limits
  we_config :: app_config
  we_now :: int
  we_provider_name :: ustring
  we_provider :: "ustring \<Rightarrow> bool \<Rightarrow> error_chain + 'f weather_snapshot \<times> ustring list"
  we_catalog :: catalog_env
  we_calls :: "call_site \<Rightarrow> call_env"
  we_db_error :: "db_error \<Rightarrow> error_chain"
  we_date_error :: "date_error \<Rightarrow> ustring"

definition call_db ::
  "('f, 'd, 'tz) weather_env \<Rightarrow> call_site \<Rightarrow> (sql_faults \<Rightarrow> tables \<Rightarrow> db_error + 'r) \<Rightarrow> 'tz weather_world
     \<Rightarrow> error_chain + 'r" where
  "call_db env site query w = db_read (we_db_error env) (we_calls env site) query w"

definition latest_snapshot ::
  "('f, 'd, 'tz) weather_env \<Rightarrow> call_site \<Rightarrow> ustring \<Rightarrow> 'tz weather_world
     \<Rightarrow> error_chain + 'f weather_snapshot stored_snapshot option" where
  "latest_snapshot env site uuid w =
     call_db env site (\<lambda>faults t. get_latest_snapshot (we_codec env) faults uuid t) w"

definition log_fetch_call ::
  "('f, 'd, 'tz) weather_env \<Rightarrow> ustring \<Rightarrow> bool \<Rightarrow> ustring option \<Rightarrow> 'tz weather_world
     \<Rightarrow> error_chain option \<times> 'tz weather_world" where
  "log_fetch_call env uuid ok message w =
     (case db_write (we_db_error env) (we_calls env CallLog)
             (\<lambda>faults. log_fetch faults (we_now env) (Some uuid) (lit ''rest/weather'') ok message) w of
        (Inl e, w') \<Rightarrow> (Some e, w')
      | (Inr u, w') \<Rightarrow> (None, w'))"

definition persist_snapshot ::
  "('f, 'd, 'tz) weather_env \<Rightarrow> 'f weather_snapshot \<Rightarrow> 'tz weather_world
     \<Rightarrow> error_chain option \<times> 'tz weather_world" where
  "persist_snapshot env snapshot w =
     (case ce_refused (we_calls env CallPersist) of
        Some e \<Rightarrow> (Some e, w)
      | None \<Rightarrow>
          (case put_history_snapshot (we_codec env) (we_sha env) (we_calendar env)
                  (ce_faults (we_calls env CallPersist)) snapshot (we_now env) (ww_db w) of
             (r, db) \<Rightarrow> (case r of Inl e \<Rightarrow> Some (we_db_error env e) | Inr u \<Rightarrow> None, w\<lparr>ww_db := db\<rparr>)))"

definition fresh_in :: "('f, 'd, 'tz) weather_env \<Rightarrow> int \<Rightarrow> error_chain + bool" where
  "fresh_in env fetched =
     (case cached_snapshot_is_fresh (calendar_zones (we_calendar env)) fetched (we_now env)
             (weather_ttl_seconds (ac_updater (we_config env))) (db_timezone (ac_db (we_config env))) of
        Inl e \<Rightarrow> Inl [we_date_error env e] | Inr b \<Rightarrow> Inr b)"

end
