(* ===== verification/Weather_Handler.thy ===== *)
theory Weather_Handler
  imports Weather
begin

text \<open>
  \<open>GET_WEATHER\<close> and \<open>TRIGGER_REFRESH\<close>
  (\<^verbatim>\<open>weather-core/engine/src/handlers/weather.rs\<close>): resolving the station, answering
  from the cache, fetching with the fallback to a stale snapshot, and the guard that completes
  every announced refresh, also when the request is cancelled. The configuration and the clock do
  not change during one request.
\<close>

section \<open>Resolving a station\<close>

definition rename_station :: "(byte list \<Rightarrow> byte list) \<Rightarrow> ustring \<Rightarrow> provider_station \<Rightarrow> provider_station" where
  "rename_station sha name s = s\<lparr>ps_name := name, ps_unified_uuid := unified_station_uuid sha name\<rparr>"

definition station_by_name ::
  "('f, 'd, 'tz) weather_env \<Rightarrow> ustring \<Rightarrow> 'tz weather_world
     \<Rightarrow> (error_chain + provider_station) \<times> 'tz weather_world" where
  "station_by_name env name w =
     (case call_db env CallStationName
             (\<lambda>faults. get_provider_station_by_name faults (we_provider_name env) name) w of
        Inl e \<Rightarrow> (Inl e, w)
      | Inr (Some s) \<Rightarrow> (Inr (rename_station (we_sha env) name s), w)
      | Inr None \<Rightarrow>
          (case resolve_station_name_from_targeted_index (we_catalog env) name w of
             (Inl e, w') \<Rightarrow> (Inl e, w')
           | (Inr s, w') \<Rightarrow> (Inr (rename_station (we_sha env) name s), w')))"

definition no_enabled_station :: ustring where
  "no_enabled_station = lit ''no enabled station is configured for the default weather request''"

definition station_not_found :: ustring where
  "station_not_found =
     lit ''station not found for unified_uuid; call FUZZY_MATCH_STATIONS first to populate DB''"

definition resolve_station ::
  "('f, 'd, 'tz) weather_env \<Rightarrow> ustring \<Rightarrow> 'tz weather_world
     \<Rightarrow> (error_chain + provider_station) \<times> 'tz weather_world" where
  "resolve_station env uuid w =
     (if trim uuid = [] then
        (case first_enabled_station_name (we_config env) of
           None \<Rightarrow> (Inl [no_enabled_station], w)
         | Some name \<Rightarrow> station_by_name env name w)
      else
        (case call_db env CallStationUuid
                (\<lambda>faults. get_provider_station_by_uuid faults (we_provider_name env) uuid) w of
           Inl e \<Rightarrow> (Inl e, w)
         | Inr (Some s) \<Rightarrow> (Inr s, w)
         | Inr None \<Rightarrow>
             (case find (\<lambda>s. unified_station_uuid (we_sha env) (sc_name s) = uuid) (ac_stations (we_config env)) of
                None \<Rightarrow> (Inl [station_not_found], w)
              | Some s \<Rightarrow> station_by_name env (sc_name s) w)))"

section \<open>Fallbacks from other snapshots\<close>

definition apply_parent_alerts ::
  "('f, 'd, 'tz) weather_env \<Rightarrow> provider_station \<Rightarrow> 'tz weather_world \<Rightarrow> 'f weather_snapshot
     \<Rightarrow> (error_chain + bool) \<times> 'f weather_snapshot" where
  "apply_parent_alerts env station w snapshot =
     (case parent_station_name (ps_name station) of
        None \<Rightarrow> (Inr False, snapshot)
      | Some parent \<Rightarrow>
          (case latest_snapshot env CallAlertParent (unified_station_uuid (we_sha env) parent) w of
             Inl e \<Rightarrow> (Inl e, snapshot)
           | Inr None \<Rightarrow> (Inr False, snapshot)
           | Inr (Some stored) \<Rightarrow>
               (case fresh_in env (st_fetched stored) of
                  Inl e \<Rightarrow> (Inl e, snapshot)
                | Inr False \<Rightarrow> (Inr False, snapshot)
                | Inr True \<Rightarrow>
                    (case merge_parent_alerts
                            (case ws_real (st_snapshot stored) of None \<Rightarrow> [] | Some r \<Rightarrow> ow_alerts r) snapshot of
                       (b, s) \<Rightarrow> (Inr b, s)))))"

definition apply_cached_municipality_air ::
  "('f, 'd, 'tz) weather_env \<Rightarrow> provider_station \<Rightarrow> 'tz weather_world \<Rightarrow> 'f weather_snapshot
     \<Rightarrow> (error_chain + bool) \<times> 'f weather_snapshot" where
  "apply_cached_municipality_air env station w snapshot =
     (if ws_air snapshot \<noteq> None then (Inr False, snapshot)
      else (case municipality_air_parent_name (ps_province station) (ps_city station) of
              None \<Rightarrow> (Inr False, snapshot)
            | Some parent \<Rightarrow>
                (case latest_snapshot env CallAirParent (unified_station_uuid (we_sha env) parent) w of
                   Inl e \<Rightarrow> (Inl e, snapshot)
                 | Inr None \<Rightarrow> (Inr False, snapshot)
                 | Inr (Some stored) \<Rightarrow>
                     (case fresh_in env (st_fetched stored) of
                        Inl e \<Rightarrow> (Inl e, snapshot)
                      | Inr False \<Rightarrow> (Inr False, snapshot)
                      | Inr True \<Rightarrow>
                          (case ws_air (st_snapshot stored) of
                             None \<Rightarrow> (Inr False, snapshot)
                           | Some air \<Rightarrow> (Inr True, snapshot\<lparr>ws_air := Some air\<rparr>))))))"

definition apply_cached_daily_high ::
  "('f, 'd, 'tz) weather_env \<Rightarrow> provider_station \<Rightarrow> 'tz weather_world \<Rightarrow> 'f weather_snapshot
     \<Rightarrow> (error_chain + bool) \<times> 'f weather_snapshot" where
  "apply_cached_daily_high env station w snapshot =
     (case date_for_tz (calendar_zones (we_calendar env)) (we_now env) (db_timezone (ac_db (we_config env))) of
        Inl e \<Rightarrow> (Inl [we_date_error env e], snapshot)
      | Inr today \<Rightarrow>
          (case latest_snapshot env CallDailyHigh (ps_unified_uuid station) w of
             Inl e \<Rightarrow> (Inl e, snapshot)
           | Inr None \<Rightarrow> (Inr False, snapshot)
           | Inr (Some stored) \<Rightarrow>
               (case merge_cached_daily_high (we_floats env) (we_dates env) stored today snapshot of
                  (b, s) \<Rightarrow> (Inr b, s))))"

section \<open>The fetch\<close>

definition warn_on :: "ustring \<Rightarrow> (error_chain + 'a) \<Rightarrow> ustring list \<Rightarrow> ustring list" where
  "warn_on text r warnings = (case r of Inl e \<Rightarrow> warnings @ [text @ show_chain e] | Inr x \<Rightarrow> warnings)"

definition with_station :: "('f, 'd, 'tz) weather_env \<Rightarrow> provider_station \<Rightarrow> 'f weather_snapshot \<Rightarrow> 'f weather_snapshot" where
  "with_station env station s = s\<lparr>ws_station := Some (merge_station (we_sha env) (ws_station s) station)\<rparr>"

definition store_fetched ::
  "('f, 'd, 'tz) weather_env \<Rightarrow> provider_station \<Rightarrow> 'f weather_snapshot \<Rightarrow> ustring list \<Rightarrow> 'tz weather_world
     \<Rightarrow> 'f weather_snapshot \<times> 'tz weather_world" where
  "store_fetched env station fetched warnings w =
     (let uuid = ps_unified_uuid station; s = with_station env station fetched;
          (high, s) = apply_cached_daily_high env station w s;
          warnings = warn_on (lit ''daily high fallback failed: '') high warnings;
          (failed, w) = persist_snapshot env (s\<lparr>ws_debug := None\<rparr>) w;
          warnings = warn_on (lit ''cache write failed: '') (case failed of None \<Rightarrow> Inr () | Some e \<Rightarrow> Inl e) warnings;
          (air, s) = apply_cached_municipality_air env station w s;
          warnings = warn_on (lit ''municipality air fallback failed: '') air warnings;
          (alerts, s) = apply_parent_alerts env station w s;
          (failed, w) = log_fetch_call env uuid True (warning_summary warnings) w;
          warnings = warn_on (lit ''fetch log write failed: '') (case failed of None \<Rightarrow> Inr () | Some e \<Rightarrow> Inl e) warnings;
          s = s\<lparr>ws_debug := map_option (\<lambda>d. d\<lparr>dp_warnings := warnings\<rparr>) (ws_debug s)\<rparr>
      in (s, publish (FetchLogged (Some uuid) (lit ''rest/weather'') True (warning_summary warnings)) w))"

definition stale_fallback ::
  "('f, 'd, 'tz) weather_env \<Rightarrow> provider_station \<Rightarrow> error_chain \<Rightarrow> 'tz weather_world
     \<Rightarrow> (error_chain + 'f weather_snapshot) \<times> 'tz weather_world" where
  "stale_fallback env station err w =
     (let uuid = ps_unified_uuid station; text = show_chain err;
          (failed, w) = log_fetch_call env uuid False (Some text) w;
          message = (case failed of None \<Rightarrow> text
                     | Some e \<Rightarrow> text @ lit ''; fetch log write failed: '' @ show_chain e);
          w = publish (FetchLogged (Some uuid) (lit ''rest/weather'') False (Some message)) w
      in case latest_snapshot env CallStale uuid w of
           Inl e \<Rightarrow> (Inl ((lit ''stale cache lookup failed: '' @ show_chain e) # err), w)
         | Inr None \<Rightarrow> (Inl err, w)
         | Inr (Some stored) \<Rightarrow>
             (let s = (with_station env station (st_snapshot stored))\<lparr>ws_stale := True\<rparr>;
                  s = snd (apply_cached_municipality_air env station w s);
                  s = snd (apply_parent_alerts env station w s)
              in (Inr s, w)))"

definition fetch_weather_uncached ::
  "('f, 'd, 'tz) weather_env \<Rightarrow> provider_station \<Rightarrow> bool \<Rightarrow> 'tz weather_world
     \<Rightarrow> (error_chain + 'f weather_snapshot) \<times> 'tz weather_world" where
  "fetch_weather_uncached env station include_debug w =
     (case we_provider env (ps_provider_station_id station) include_debug of
        Inr (fetched, warnings) \<Rightarrow>
          (case store_fetched env station fetched warnings w of (s, w') \<Rightarrow> (Inr s, w'))
      | Inl err \<Rightarrow> stale_fallback env station err w)"

section \<open>Resources instead of URLs\<close>

definition prepare_radar ::
  "(byte list \<Rightarrow> byte list) \<Rightarrow> resource_limits \<Rightarrow> radar_info \<Rightarrow> resource_state \<Rightarrow> radar_info \<times> resource_state" where
  "prepare_radar sha lim radar rs =
     (case ri_image_url radar of
        None \<Rightarrow> (radar\<lparr>ri_page_url := None\<rparr>, rs)
      | Some url \<Rightarrow>
          (case register_resource sha lim url rs of
             (i, rs') \<Rightarrow> (radar\<lparr>ri_image_url := None, ri_image_resource_id := i, ri_page_url := None\<rparr>, rs')))"

definition prepare_alert ::
  "(byte list \<Rightarrow> byte list) \<Rightarrow> resource_limits \<Rightarrow> weather_alert \<Rightarrow> resource_state \<Rightarrow> weather_alert \<times> resource_state" where
  "prepare_alert sha lim a rs =
     (case wa_icon_url a of
        None \<Rightarrow> (a\<lparr>wa_url := None\<rparr>, rs)
      | Some url \<Rightarrow>
          (case register_resource sha lim url rs of
             (i, rs') \<Rightarrow> (a\<lparr>wa_icon_url := None, wa_icon_resource_id := i, wa_url := None\<rparr>, rs')))"

fun prepare_alerts ::
  "(byte list \<Rightarrow> byte list) \<Rightarrow> resource_limits \<Rightarrow> weather_alert list \<Rightarrow> resource_state
     \<Rightarrow> weather_alert list \<times> resource_state" where
  "prepare_alerts sha lim [] rs = ([], rs)"
| "prepare_alerts sha lim (a # as) rs =
     (let (a', rs1) = prepare_alert sha lim a rs; (as', rs2) = prepare_alerts sha lim as rs1
      in (a' # as', rs2))"

definition prepare_snapshot_resources ::
  "('f, 'd, 'tz) weather_env \<Rightarrow> 'f weather_snapshot \<Rightarrow> 'tz weather_world \<Rightarrow> 'f weather_snapshot \<times> 'tz weather_world" where
  "prepare_snapshot_resources env s w =
     (let sha = we_sha env; lim = we_limits env;
          (s, rs) = (case ws_radar s of
                       None \<Rightarrow> (s, ww_resources w)
                     | Some r \<Rightarrow> (case prepare_radar sha lim r (ww_resources w) of
                                    (r', rs) \<Rightarrow> (s\<lparr>ws_radar := Some r'\<rparr>, rs)));
          (s, rs) = (case ws_real s of
                       None \<Rightarrow> (s, rs)
                     | Some r \<Rightarrow> (case prepare_alerts sha lim (ow_alerts r) rs of
                                    (as, rs') \<Rightarrow> (s\<lparr>ws_real := Some (r\<lparr>ow_alerts := as\<rparr>)\<rparr>, rs')))
      in (s, w\<lparr>ww_resources := rs\<rparr>))"

section \<open>The guard of a refresh\<close>

text \<open>\<open>None\<close>: the request is no refresh. The guard is armed until it is completed.\<close>

record completion_guard =
  gd_uuid :: "ustring option"
  gd_armed :: bool

definition guard_start :: "ustring \<Rightarrow> 'tz weather_world \<Rightarrow> completion_guard \<times> 'tz weather_world" where
  "guard_start requested w =
     (let uuid = (if trim requested \<noteq> [] then Some requested else None)
      in (\<lparr>gd_uuid = uuid, gd_armed = True\<rparr>, publish (RefreshStarted uuid) w))"

definition guard_set_uuid :: "ustring \<Rightarrow> completion_guard \<Rightarrow> completion_guard" where
  "guard_set_uuid uuid g = g\<lparr>gd_uuid := Some uuid\<rparr>"

definition guard_complete :: "refresh_terminal \<Rightarrow> completion_guard \<Rightarrow> 'tz weather_world \<Rightarrow> completion_guard \<times> 'tz weather_world" where
  "guard_complete outcome g w =
     (let g = g\<lparr>gd_armed := False\<rparr> in (g, publish (RefreshCompleted (gd_uuid g) outcome) w))"

definition cancelled_message :: ustring where
  "cancelled_message = lit ''refresh cancelled before completion''"

definition guard_drop :: "completion_guard \<Rightarrow> 'tz weather_world \<Rightarrow> 'tz weather_world" where
  "guard_drop g w =
     (if gd_armed g then publish (RefreshCompleted (gd_uuid g) (TerminalFailure cancelled_message)) w else w)"

text \<open>Completing consumes the guard, so it is dropped at once.\<close>

definition finish_guard :: "refresh_terminal \<Rightarrow> completion_guard option \<Rightarrow> 'tz weather_world \<Rightarrow> 'tz weather_world" where
  "finish_guard outcome g w =
     (case g of None \<Rightarrow> w | Some g \<Rightarrow> (case guard_complete outcome g w of (g', w') \<Rightarrow> guard_drop g' w'))"

definition abandon_guard :: "completion_guard option \<Rightarrow> 'tz weather_world \<Rightarrow> 'tz weather_world" where
  "abandon_guard g w = (case g of None \<Rightarrow> w | Some g \<Rightarrow> guard_drop g w)"

section \<open>GET\_WEATHER\<close>

record weather_request =
  wr_unified_uuid :: ustring
  wr_refresh :: bool
  wr_include_debug :: bool

definition cached_answer ::
  "('f, 'd, 'tz) weather_env \<Rightarrow> provider_station \<Rightarrow> 'tz weather_world
     \<Rightarrow> error_chain + 'f weather_snapshot option" where
  "cached_answer env station w =
     (case latest_snapshot env CallLatest (ps_unified_uuid station) w of
        Inl e \<Rightarrow> Inl e
      | Inr None \<Rightarrow> Inr None
      | Inr (Some stored) \<Rightarrow>
          (case fresh_in env (st_fetched stored) of
             Inl e \<Rightarrow> Inl e
           | Inr False \<Rightarrow> Inr None
           | Inr True \<Rightarrow>
               (let s = with_station env station (st_snapshot stored);
                    s = snd (apply_cached_municipality_air env station w s);
                    s = snd (apply_parent_alerts env station w s)
                in Inr (Some s))))"

text \<open>
  Where the request is cancelled, if it is: the future is dropped at an await (what a cancelled
  fetch had already stored stays; only its refresh event is modelled). \<open>shared\<close> is the
  result of the flight this call joins, if another call leads it; the work of the leader is the
  fetch, whose error is shared as text.
\<close>

datatype cancel_point = CancelResolving | CancelCache | CancelFetching

definition fetch_shared ::
  "('f, 'd, 'tz) weather_env \<Rightarrow> (error_chain + 'f weather_snapshot) option \<Rightarrow> provider_station \<Rightarrow> bool
     \<Rightarrow> 'tz weather_world \<Rightarrow> (error_chain + 'f weather_snapshot) \<times> 'tz weather_world" where
  "fetch_shared env shared station include_debug w =
     fly shared (fetch_weather_uncached env station include_debug) w"

definition refresh_outcome_of :: "error_chain + 'f weather_snapshot \<Rightarrow> refresh_terminal" where
  "refresh_outcome_of r =
     (case r of
        Inr s \<Rightarrow> if ws_stale s then TerminalStale else TerminalSuccess
      | Inl e \<Rightarrow> TerminalFailure (show_chain e))"

definition get_weather_internal ::
  "('f, 'd, 'tz) weather_env \<Rightarrow> cancel_point option \<Rightarrow> (error_chain + 'f weather_snapshot) option
     \<Rightarrow> weather_request \<Rightarrow> 'tz weather_world
     \<Rightarrow> (error_chain + 'f weather_snapshot) option \<times> 'tz weather_world" where
  "get_weather_internal env cancel shared req w =
     (let (g, w) = (if wr_refresh req
                    then (case guard_start (wr_unified_uuid req) w of (g, w') \<Rightarrow> (Some g, w')) else (None, w))
      in if cancel = Some CancelResolving then (None, abandon_guard g w)
         else (case resolve_station env (wr_unified_uuid req) w of
           (Inl e, w) \<Rightarrow> (Some (Inl e), finish_guard (TerminalFailure (show_chain e)) g w)
         | (Inr station, w) \<Rightarrow>
             (let g = map_option (guard_set_uuid (ps_unified_uuid station)) g;
                  cached = (if \<not> wr_refresh req \<and> \<not> wr_include_debug req
                            then cached_answer env station w else Inr None)
              in if cancel = Some CancelCache then (None, abandon_guard g w)
                 else (case cached of
                   Inl e \<Rightarrow> (Some (Inl e), w)
                 | Inr (Some s) \<Rightarrow> (case prepare_snapshot_resources env s w of (s', w') \<Rightarrow> (Some (Inr s'), w'))
                 | Inr None \<Rightarrow>
                     if cancel = Some CancelFetching then (None, abandon_guard g w)
                     else (case fetch_shared env shared station (wr_include_debug req) w of
                       (r, w) \<Rightarrow>
                         (let w = finish_guard (refresh_outcome_of r) g w
                          in case r of
                               Inl e \<Rightarrow> (Some (Inl e), w)
                             | Inr s \<Rightarrow> (case prepare_snapshot_resources env s w of
                                           (s', w') \<Rightarrow> (Some (Inr s'), w'))))))))"

definition handle_weather_request ::
  "('f, 'd, 'tz) weather_env \<Rightarrow> cancel_point option \<Rightarrow> (error_chain + 'f weather_snapshot) option \<Rightarrow> bool
     \<Rightarrow> ustring + weather_request \<Rightarrow> 'tz weather_world \<Rightarrow> 'f weather_snapshot reply option \<times> 'tz weather_world" where
  "handle_weather_request env cancel shared force_refresh decoded w =
     (case decoded of
        Inl e \<Rightarrow> (Some (ReplyError BadRequest e), w)
      | Inr req \<Rightarrow>
          (let req = (if force_refresh then req\<lparr>wr_refresh := True\<rparr> else req)
           in case get_weather_internal env cancel shared req w of
                (None, w') \<Rightarrow> (None, w')
              | (Some (Inr s), w') \<Rightarrow> (Some (ReplyOk s), publish SnapshotPublished w')
              | (Some (Inl e), w') \<Rightarrow> (Some (ReplyError WeatherCode (hd e)), w')))"

definition handle_get_weather ::
  "('f, 'd, 'tz) weather_env \<Rightarrow> cancel_point option \<Rightarrow> (error_chain + 'f weather_snapshot) option
     \<Rightarrow> ustring + weather_request \<Rightarrow> 'tz weather_world \<Rightarrow> 'f weather_snapshot reply option \<times> 'tz weather_world" where
  "handle_get_weather env cancel shared = handle_weather_request env cancel shared False"

text \<open>\<open>TRIGGER_REFRESH\<close> of \<^verbatim>\<open>handlers/compatibility.rs\<close>.\<close>

definition handle_trigger_refresh ::
  "('f, 'd, 'tz) weather_env \<Rightarrow> cancel_point option \<Rightarrow> (error_chain + 'f weather_snapshot) option
     \<Rightarrow> ustring + weather_request \<Rightarrow> 'tz weather_world \<Rightarrow> 'f weather_snapshot reply option \<times> 'tz weather_world" where
  "handle_trigger_refresh env cancel shared = handle_weather_request env cancel shared True"

end
