(* ===== verification/Weather_Spec.thy ===== *)
theory Weather_Spec
  imports Weather_Handler Catalog_Spec
begin

text \<open>
  Properties of \<open>GET_WEATHER\<close>: every announced refresh is completed exactly once with the
  outcome of the request, and merging the alerts of a parent station is idempotent and keeps the
  own alerts.
\<close>

section \<open>Events\<close>

definition is_refresh_event :: "weather_event \<Rightarrow> bool" where
  "is_refresh_event e = (case e of RefreshStarted u \<Rightarrow> True | RefreshCompleted u t \<Rightarrow> True | _ \<Rightarrow> False)"

definition refresh_events :: "'tz weather_world \<Rightarrow> weather_event list" where
  "refresh_events w = filter is_refresh_event (ww_events w)"

lemma refresh_events_simps [simp]:
  "refresh_events (w\<lparr>ww_db := db\<rparr>) = refresh_events w"
  "refresh_events (w\<lparr>ww_resources := rs\<rparr>) = refresh_events w"
  "refresh_events (publish e w) = refresh_events w @ (if is_refresh_event e then [e] else [])"
  by (simp_all add: refresh_events_def publish_def)

lemma is_refresh_event_simps [simp]:
  "is_refresh_event (RefreshStarted u)" "is_refresh_event (RefreshCompleted u t)"
  "\<not> is_refresh_event (FetchLogged v e b m)" "\<not> is_refresh_event SnapshotPublished"
  by (simp_all add: is_refresh_event_def)

lemma logs_only_events: "logs_only w w' \<Longrightarrow> refresh_events w' = refresh_events w"
  by (auto simp: logs_only_def refresh_events_def is_catalog_event_def is_refresh_event_def filter_empty_conv
      list_all_iff split: weather_event.splits)

lemma station_by_name_logs: "logs_only w (snd (station_by_name env name w))"
proof -
  have "resolve_station_name_from_targeted_index cat name w = (r, v) \<Longrightarrow> logs_only w v" for cat r v
    using lookup_logs [of w cat name] by simp
  then show ?thesis by (auto simp: station_by_name_def split: sum.split option.split prod.split)
qed

lemma station_by_name_events [simp]: "refresh_events (snd (station_by_name env name w)) = refresh_events w"
  by (rule logs_only_events [OF station_by_name_logs])

lemma resolve_station_events [simp]: "refresh_events (snd (resolve_station env uuid w)) = refresh_events w"
  by (simp add: resolve_station_def split: sum.split option.split)

lemma prepare_resources_events [simp]:
  "refresh_events (snd (prepare_snapshot_resources env s w)) = refresh_events w"
  by (simp add: prepare_snapshot_resources_def Let_def split: option.split prod.split)

lemma log_fetch_events [simp]: "refresh_events (snd (log_fetch_call env uuid ok m w)) = refresh_events w"
proof -
  have "db_write sh ce f w = (r, v) \<Longrightarrow> refresh_events v = refresh_events w" for sh ce f r v
    using logs_only_events [OF logs_only_write] by (metis snd_conv)
  then show ?thesis by (auto simp: log_fetch_call_def split: prod.split sum.split)
qed

lemma persist_events [simp]: "refresh_events (snd (persist_snapshot env s w)) = refresh_events w"
  by (simp add: persist_snapshot_def split: option.split prod.split)

lemma fetch_events [simp]:
  "refresh_events (snd (fetch_weather_uncached env station dbg w)) = refresh_events w"
proof -
  have log: "log_fetch_call env u b m v = (f, v') \<Longrightarrow> refresh_events v' = refresh_events v" for u b m v f v'
    using log_fetch_events [of env u b m v] by simp
  have per: "persist_snapshot env s v = (f, v') \<Longrightarrow> refresh_events v' = refresh_events v" for s v f v'
    using persist_events [of env s v] by simp
  show ?thesis
    by (auto simp: fetch_weather_uncached_def store_fetched_def stale_fallback_def Let_def
        split: sum.split option.split prod.split dest!: log per)
qed

lemma fetch_shared_events [simp]:
  "refresh_events (snd (fetch_shared env shared station dbg w)) = refresh_events w"
  unfolding fetch_shared_def
  by (rule fly_rel [of "\<lambda>a b. refresh_events b = refresh_events a"]) simp_all

lemma guard_events:
  "refresh_events (finish_guard outcome (Some \<lparr>gd_uuid = u, gd_armed = True\<rparr>) w)
     = refresh_events w @ [RefreshCompleted u outcome]"
  "refresh_events (abandon_guard (Some \<lparr>gd_uuid = u, gd_armed = True\<rparr>) w)
     = refresh_events w @ [RefreshCompleted u (TerminalFailure cancelled_message)]"
  "finish_guard outcome None w = w" "abandon_guard None w = w"
  by (simp_all add: finish_guard_def abandon_guard_def guard_complete_def guard_drop_def)

lemma prepare_keeps_stale [simp]: "ws_stale (fst (prepare_snapshot_resources env s w)) = ws_stale s"
  by (auto simp: prepare_snapshot_resources_def Let_def split: option.split prod.split)

section \<open>Properties\<close>

text \<open>
  C6: Every announced refresh ends exactly once: a refresh request publishes one start event
  and, after it, one completion event, whose outcome is success or stale exactly as the reply
  is, failure if the request fails, and the cancellation failure if the request is dropped at
  any await; a request that is no refresh publishes neither.
\<close>

theorem refresh_completed_exactly_once:
  "case get_weather_internal env cancel shared req w of (r, w') \<Rightarrow>
     if wr_refresh req
     then \<exists>u v outcome. refresh_events w' = refresh_events w @ [RefreshStarted u, RefreshCompleted v outcome]
        \<and> (case r of
             None \<Rightarrow> outcome = TerminalFailure cancelled_message
           | Some (Inl e) \<Rightarrow> (\<exists>m. outcome = TerminalFailure m)
           | Some (Inr s) \<Rightarrow> outcome = (if ws_stale s then TerminalStale else TerminalSuccess))
     else refresh_events w' = refresh_events w"
proof -
  have res: "resolve_station env u v = (x, v') \<Longrightarrow> refresh_events v' = refresh_events v" for u v x v'
    using resolve_station_events [of env u v] by simp
  have fet: "fetch_shared env shared st b v = (x, v') \<Longrightarrow> refresh_events v' = refresh_events v" for st b v x v'
    using fetch_shared_events [of env shared st b v] by simp
  have prep: "prepare_snapshot_resources env s v = (s', v') \<Longrightarrow>
      refresh_events v' = refresh_events v \<and> ws_stale s' = ws_stale s" for s v s' v'
    using prepare_resources_events [of env s v] prepare_keeps_stale [of env s v] by simp
  show ?thesis
  proof (cases "wr_refresh req")
    case refresh: True
    let ?u = "if trim (wr_unified_uuid req) \<noteq> [] then Some (wr_unified_uuid req) else None"
    let ?w0 = "publish (RefreshStarted ?u) w"
    obtain x w1 where r: "resolve_station env (wr_unified_uuid req) ?w0 = (x, w1)" by fastforce
    have e1: "refresh_events w1 = refresh_events w @ [RefreshStarted ?u]" using res [OF r] by simp
    show ?thesis
    proof (cases x)
      case (Inl e)
      with refresh r e1 show ?thesis
        by (auto simp: get_weather_internal_def Let_def guard_start_def guard_events)
    next
      case (Inr st)
      obtain y w2 where f: "fetch_shared env shared st (wr_include_debug req) w1 = (y, w2)" by fastforce
      have e2: "refresh_events w2 = refresh_events w @ [RefreshStarted ?u]" using fet [OF f] e1 by simp
      show ?thesis
      proof (cases y)
        case (Inl e)
        with refresh r e1 e2 f Inr show ?thesis
          by (auto simp: get_weather_internal_def Let_def guard_start_def guard_set_uuid_def guard_events refresh_outcome_of_def)
      next
        case y: (Inr s)
        let ?w3 = "finish_guard (refresh_outcome_of y) (Some \<lparr>gd_uuid = Some (ps_unified_uuid st), gd_armed = True\<rparr>) w2"
        obtain s' w4 where p: "prepare_snapshot_resources env s ?w3 = (s', w4)" by fastforce
        from prep [OF p] e2 have "refresh_events w4 = refresh_events w
            @ [RefreshStarted ?u, RefreshCompleted (Some (ps_unified_uuid st)) (refresh_outcome_of y)]"
          "ws_stale s' = ws_stale s" by (simp_all add: guard_events)
        with refresh r e1 f Inr y p show ?thesis
          by (auto simp: get_weather_internal_def Let_def guard_start_def guard_set_uuid_def guard_events refresh_outcome_of_def)
      qed
    qed
  next
    case False
    obtain x w1 where r: "resolve_station env (wr_unified_uuid req) w = (x, w1)" by fastforce
    have e1: "refresh_events w1 = refresh_events w" using res [OF r] by simp
    show ?thesis
    proof (cases x)
      case (Inl e)
      with False r e1 show ?thesis by (auto simp: get_weather_internal_def Let_def guard_events)
    next
      case (Inr st)
      obtain y w2 where f: "fetch_shared env shared st (wr_include_debug req) w1 = (y, w2)" by fastforce
      have e2: "refresh_events w2 = refresh_events w" using fet [OF f] e1 by simp
      let ?cached = "if wr_include_debug req then Inr None else cached_answer env st w1"
      have later: "prepare_snapshot_resources env s v = (s', v') \<Longrightarrow> refresh_events v = refresh_events w \<Longrightarrow>
          refresh_events v' = refresh_events w" for s v s' v' using prep by metis
      from False r e1 e2 f Inr show ?thesis
        by (auto simp: get_weather_internal_def guard_events Let_def split: sum.split option.split prod.split dest!: later)
    qed
  qed
qed

section \<open>What the fallbacks change\<close>

definition snapshot_alerts :: "'f weather_snapshot \<Rightarrow> weather_alert list" where
  "snapshot_alerts s = (case ws_real s of None \<Rightarrow> [] | Some r \<Rightarrow> ow_alerts r)"

definition only_supplemented :: "'f weather_snapshot \<Rightarrow> 'f weather_snapshot \<Rightarrow> bool" where
  "only_supplemented s s' \<longleftrightarrow>
     ws_passedchart s' = ws_passedchart s \<and> ws_climate s' = ws_climate s \<and> ws_radar s' = ws_radar s
     \<and> (ws_air s' = ws_air s \<or> ws_air s = None)
     \<and> (\<exists>inherited. snapshot_alerts s' = snapshot_alerts s @ inherited \<and> list_all wa_inherited inherited)"

lemma only_supplemented_refl: "only_supplemented s s"
  by (simp add: only_supplemented_def)

lemma only_supplemented_trans:
  "only_supplemented a b \<Longrightarrow> only_supplemented b c \<Longrightarrow> only_supplemented a c"
  by (auto simp: only_supplemented_def)

lemma only_supplemented_fields:
  "only_supplemented s (s\<lparr>ws_station := x\<rparr>)" "only_supplemented s (s\<lparr>ws_stale := b\<rparr>)"
  "only_supplemented s (s\<lparr>ws_debug := d\<rparr>)" "only_supplemented s (s\<lparr>ws_predict := p\<rparr>)"
  "only_supplemented s (s\<lparr>ws_tempchart := c\<rparr>)"
  by (simp_all add: only_supplemented_def snapshot_alerts_def)

lemma push_alerts_appends:
  "\<exists>inherited. push_alerts as ps = as @ inherited \<and> list_all wa_inherited inherited"
proof (induction ps arbitrary: as)
  case (Cons p ps)
  let ?q = "p\<lparr>wa_inherited := True\<rparr>"
  show ?case
  proof (cases "list_ex (\<lambda>c. same_alert c ?q) as")
    case True
    with Cons.IH [of as] show ?thesis by simp
  next
    case False
    from Cons.IH [of "as @ [?q]"] obtain i where "push_alerts (as @ [?q]) ps = (as @ [?q]) @ i" "list_all wa_inherited i"
      by blast
    with False show ?thesis by (intro exI [of _ "?q # i"]) simp
  qed
qed simp

lemma merge_parent_supplements: "only_supplemented s (snd (merge_parent_alerts ps s))"
  using push_alerts_appends [of "snapshot_alerts s" ps]
  by (cases "ws_real s")
     (auto simp: only_supplemented_def merge_parent_alerts_def Let_def snapshot_alerts_def observed_default_def)

lemma fill_keeps:
  "fill_forecast_high fl dl today h s = (b, s') \<Longrightarrow> only_supplemented s s' \<and> ws_station s' = ws_station s \<and> ws_stale s' = ws_stale s"
  "fill_chart_high fl dl today h s = (b, s') \<Longrightarrow> only_supplemented s s' \<and> ws_station s' = ws_station s \<and> ws_stale s' = ws_stale s"
  by (auto simp: fill_forecast_high_def fill_chart_high_def Let_def only_supplemented_refl
      intro: only_supplemented_fields split: option.splits if_splits)

lemma merge_high_keeps:
  "only_supplemented s (snd (merge_cached_daily_high fl dl stored today s))
   \<and> ws_station (snd (merge_cached_daily_high fl dl stored today s)) = ws_station s
   \<and> ws_stale (snd (merge_cached_daily_high fl dl stored today s)) = ws_stale s"
  by (auto simp: merge_cached_daily_high_def only_supplemented_refl split: option.split prod.split
      dest!: fill_keeps intro: only_supplemented_trans)

lemma merge_parent_fields:
  "ws_station (snd (merge_parent_alerts ps s)) = ws_station s \<and> ws_stale (snd (merge_parent_alerts ps s)) = ws_stale s"
  by (simp add: merge_parent_alerts_def Let_def)

lemma merge_parent_keeps:
  "merge_parent_alerts ps s = (b, s') \<Longrightarrow> only_supplemented s s' \<and> ws_station s' = ws_station s \<and> ws_stale s' = ws_stale s"
  using merge_parent_supplements [of s ps] merge_parent_fields [of ps s] by simp

lemma merge_high_keeps':
  "merge_cached_daily_high fl dl stored today s = (b, s')
   \<Longrightarrow> only_supplemented s s' \<and> ws_station s' = ws_station s \<and> ws_stale s' = ws_stale s"
  using merge_high_keeps [of s fl dl stored today] by simp

lemma fallbacks_keep:
  "apply_parent_alerts env st w s = (r, s') \<Longrightarrow> only_supplemented s s' \<and> ws_station s' = ws_station s \<and> ws_stale s' = ws_stale s"
  "apply_cached_municipality_air env st w s = (r, s') \<Longrightarrow> only_supplemented s s' \<and> ws_station s' = ws_station s \<and> ws_stale s' = ws_stale s"
  "apply_cached_daily_high env st w s = (r, s') \<Longrightarrow> only_supplemented s s' \<and> ws_station s' = ws_station s \<and> ws_stale s' = ws_stale s"
proof -
  show "apply_parent_alerts env st w s = (r, s') \<Longrightarrow> only_supplemented s s' \<and> ws_station s' = ws_station s \<and> ws_stale s' = ws_stale s"
    by (auto simp: apply_parent_alerts_def only_supplemented_refl split: option.splits sum.splits bool.splits prod.splits
        dest: merge_parent_keeps)
  show "apply_cached_municipality_air env st w s = (r, s') \<Longrightarrow> only_supplemented s s' \<and> ws_station s' = ws_station s \<and> ws_stale s' = ws_stale s"
    by (auto simp: apply_cached_municipality_air_def only_supplemented_def snapshot_alerts_def
        split: option.splits sum.splits bool.splits if_splits)
  show "apply_cached_daily_high env st w s = (r, s') \<Longrightarrow> only_supplemented s s' \<and> ws_station s' = ws_station s \<and> ws_stale s' = ws_stale s"
    by (auto simp: apply_cached_daily_high_def only_supplemented_refl split: option.splits sum.splits prod.splits
        dest: merge_high_keeps')
qed

text \<open>
  Also: Merging the alerts of a parent station is safe: the own alerts stay, unchanged and first;
  every added alert is marked as inherited; afterwards every alert of the parent is represented;
  and merging the same alerts again adds nothing.
\<close>

theorem parent_alerts_merge_once:
  "case merge_parent_alerts parents s of (changed, s') \<Rightarrow>
     (\<exists>inherited. snapshot_alerts s' = snapshot_alerts s @ inherited \<and> list_all wa_inherited inherited
        \<and> (changed \<longleftrightarrow> inherited \<noteq> []))
     \<and> list_all (\<lambda>p. list_ex (\<lambda>a. same_alert a p) (snapshot_alerts s')) parents
     \<and> fst (merge_parent_alerts parents s') = False
     \<and> snapshot_alerts (snd (merge_parent_alerts parents s')) = snapshot_alerts s'"
proof -
  have same: "same_alert a (p\<lparr>wa_inherited := True\<rparr>) = same_alert a p" for a p
    by (simp add: same_alert_def)
  have covered: "list_all (\<lambda>p. list_ex (\<lambda>a. same_alert a p) (push_alerts as ps)) ps" for as ps
  proof (induction ps arbitrary: as)
    case (Cons p ps)
    let ?as = "if list_ex (\<lambda>c. same_alert c p) as then as else as @ [p\<lparr>wa_inherited := True\<rparr>]"
    have "list_ex (\<lambda>a. same_alert a p) ?as" by (auto simp: list_ex_iff same_alert_def)
    moreover obtain i where "push_alerts ?as ps = ?as @ i" using push_alerts_appends [of ?as ps] by blast
    ultimately have "list_ex (\<lambda>a. same_alert a p) (push_alerts ?as ps)" by (simp only: list_ex_append simp_thms)
    with Cons.IH [of ?as] show ?case by (simp add: same)
  qed simp
  have again: "list_all (\<lambda>p. list_ex (\<lambda>a. same_alert a p) as) ps \<Longrightarrow> push_alerts as ps = as" for as ps
    by (induction ps) (simp_all add: same)
  have alerts: "snapshot_alerts (snd (merge_parent_alerts parents t)) = push_alerts (snapshot_alerts t) parents"
    "fst (merge_parent_alerts parents t) = (push_alerts (snapshot_alerts t) parents \<noteq> snapshot_alerts t)" for t :: "'a weather_snapshot"
    using push_alerts_appends [of "snapshot_alerts t" parents]
    by (cases parents; cases "ws_real t"; auto simp: merge_parent_alerts_def Let_def snapshot_alerts_def observed_default_def)+
  obtain b t where m: "merge_parent_alerts parents s = (b, t)" by fastforce
  have t: "snapshot_alerts t = push_alerts (snapshot_alerts s) parents"
    "b = (push_alerts (snapshot_alerts s) parents \<noteq> snapshot_alerts s)"
    using alerts [of s] m by simp_all
  have cov: "list_all (\<lambda>p. list_ex (\<lambda>a. same_alert a p) (snapshot_alerts t)) parents"
    unfolding t by (rule covered)
  have "push_alerts (snapshot_alerts t) parents = snapshot_alerts t" by (rule again [OF cov])
  with alerts [of t] cov push_alerts_appends [of "snapshot_alerts s" parents] show ?thesis
    unfolding m by (auto simp: t)
qed

end
