(* ===== verification/Weather_Replies.thy ===== *)
theory Weather_Replies
  imports Weather_Spec Catalog_Refresh
begin

text \<open>
  What a weather reply contains: no upstream URL, the requested station, and after a failed fetch
  nothing but a supplemented copy of the newest stored snapshot.
\<close>

section \<open>The station of a snapshot\<close>

definition of_station :: "(byte list \<Rightarrow> byte list) \<Rightarrow> provider_station \<Rightarrow> 'f weather_snapshot \<Rightarrow> bool" where
  "of_station sha station s = (\<exists>upstream. ws_station s = Some (merge_station sha upstream station))"

lemma of_station_with [simp]: "of_station (we_sha env) st (with_station env st s)"
  by (auto simp: of_station_def with_station_def)

lemma of_station_fields [simp]:
  "of_station sha st (s\<lparr>ws_stale := b\<rparr>) = of_station sha st s"
  "of_station sha st (s\<lparr>ws_debug := d\<rparr>) = of_station sha st s"
  by (simp_all add: of_station_def)

lemma of_station_fallbacks:
  "apply_parent_alerts env st' w s = (r, s') \<Longrightarrow> of_station sha st s \<Longrightarrow> of_station sha st s'"
  "apply_cached_municipality_air env st' w s = (r, s') \<Longrightarrow> of_station sha st s \<Longrightarrow> of_station sha st s'"
  "apply_cached_daily_high env st' w s = (r, s') \<Longrightarrow> of_station sha st s \<Longrightarrow> of_station sha st s'"
  by (auto simp: of_station_def dest!: fallbacks_keep)

lemma of_station_supplemented [intro!]:
  "of_station sha st s \<Longrightarrow> of_station sha st (snd (apply_parent_alerts env st' w s))"
  "of_station sha st s \<Longrightarrow> of_station sha st (snd (apply_cached_municipality_air env st' w s))"
  by (metis of_station_fallbacks(1) prod.collapse, metis of_station_fallbacks(2) prod.collapse)

lemma cached_answer_station:
  "cached_answer env st w = Inr (Some s) \<Longrightarrow> of_station (we_sha env) st s"
  by (auto simp: cached_answer_def Let_def split: sum.splits option.splits bool.splits)

lemma store_fetched_station:
  "store_fetched env st fetched warnings w = (s, w') \<Longrightarrow> of_station (we_sha env) st s"
  by (auto simp: store_fetched_def Let_def split: prod.splits dest!: of_station_fallbacks)

lemma fetch_station:
  "fetch_weather_uncached env st dbg w = (Inr s, w') \<Longrightarrow> of_station (we_sha env) st s"
  by (auto simp: fetch_weather_uncached_def stale_fallback_def Let_def split: prod.splits sum.splits option.splits
      dest: store_fetched_station)

lemma resolved_uuid:
  "resolve_station env uuid w = (Inr st, w') \<Longrightarrow> trim uuid \<noteq> [] \<Longrightarrow> ps_unified_uuid st = uuid"
proof -
  assume r: "resolve_station env uuid w = (Inr st, w')" and u: "trim uuid \<noteq> []"
  have named: "station_by_name env name w = (Inr st, w') \<Longrightarrow> ps_unified_uuid st = unified_station_uuid (we_sha env) name" for name w
    by (auto simp: station_by_name_def rename_station_def split: sum.splits option.splits prod.splits)
  have stored: "call_db env CallStationUuid (\<lambda>faults. get_provider_station_by_uuid faults (we_provider_name env) uuid) v
      = Inr (Some s) \<Longrightarrow> ps_unified_uuid s = uuid" for s v
    by (auto simp: call_db_def db_read_def get_provider_station_by_uuid_def dest!: min_by_key_mem
        split: option.splits if_splits sum.splits)
  show ?thesis
    using r u
    by (auto simp: resolve_station_def split: sum.splits option.splits dest: named stored simp: find_Some_iff)
qed

lemma merged_uuid: "ps_unified_uuid st \<noteq> [] \<Longrightarrow> of_station sha st s \<Longrightarrow>
    map_option sr_unified_uuid (ws_station s) = Some (ps_unified_uuid st)"
  by (auto simp: of_station_def merge_station_def Let_def)

section \<open>No upstream URL\<close>

definition publishable :: "'f weather_snapshot \<Rightarrow> bool" where
  "publishable s \<longleftrightarrow>
     (case ws_radar s of None \<Rightarrow> True | Some r \<Rightarrow> ri_image_url r = None \<and> ri_page_url r = None)
     \<and> list_all (\<lambda>a. wa_url a = None \<and> wa_icon_url a = None) (snapshot_alerts s)"

lemma prepare_alerts_publishable:
  "list_all (\<lambda>a. wa_url a = None \<and> wa_icon_url a = None) (fst (prepare_alerts sha lim as rs))"
proof (induction as arbitrary: rs)
  case (Cons a as)
  obtain a' rs1 where a: "prepare_alert sha lim a rs = (a', rs1)" by fastforce
  then have "wa_url a' = None \<and> wa_icon_url a' = None"
    by (auto simp: prepare_alert_def split: option.splits prod.splits)
  with Cons.IH [of rs1] a show ?case
    by (cases "prepare_alerts sha lim as rs1") (simp add: a)
qed simp

lemma prepare_alerts_publishable':
  "prepare_alerts sha lim as rs = (as', rs') \<Longrightarrow> list_all (\<lambda>a. wa_url a = None \<and> wa_icon_url a = None) as'"
  using prepare_alerts_publishable [of sha lim as rs] by simp

lemma prepare_radar_publishable:
  "prepare_radar sha lim r rs = (r', rs') \<Longrightarrow> ri_image_url r' = None \<and> ri_page_url r' = None"
  by (auto simp: prepare_radar_def split: option.splits prod.splits)

lemma prepared:
  "prepare_snapshot_resources env s w = (s', w') \<Longrightarrow> publishable s' \<and> ws_station s' = ws_station s"
  by (auto simp: prepare_snapshot_resources_def publishable_def snapshot_alerts_def Let_def
      split: option.splits prod.splits dest!: prepare_alerts_publishable' prepare_radar_publishable)


section \<open>When the fetch fails\<close>

lemma supplemented_fallbacks:
  "only_supplemented t s \<Longrightarrow> only_supplemented t (snd (apply_parent_alerts env st w s))"
  "only_supplemented t s \<Longrightarrow> only_supplemented t (snd (apply_cached_municipality_air env st w s))"
  by (metis fallbacks_keep(1) only_supplemented_trans prod.collapse,
      metis fallbacks_keep(2) only_supplemented_trans prod.collapse)

lemma stale_fallbacks [simp]:
  "ws_stale (snd (apply_parent_alerts env st w s)) = ws_stale s"
  "ws_stale (snd (apply_cached_municipality_air env st w s)) = ws_stale s"
  by (metis fallbacks_keep(1) prod.collapse, metis fallbacks_keep(2) prod.collapse)

lemma supplemented_with: "only_supplemented t s \<Longrightarrow> only_supplemented t (with_station env st s)"
  unfolding with_station_def by (rule only_supplemented_trans [OF _ only_supplemented_fields(1)])

lemma supplemented_stale: "only_supplemented t s \<Longrightarrow> only_supplemented t (s\<lparr>ws_stale := b\<rparr>)"
  by (rule only_supplemented_trans [OF _ only_supplemented_fields(2)])

lemma log_call_same:
  "log_fetch_call env uuid ok m w = (failed, w') \<Longrightarrow>
     same_catalog (di_tables (ww_db w)) (di_tables (ww_db w')) \<and> di_timezone (ww_db w') = di_timezone (ww_db w)
     \<and> ww_resources w' = ww_resources w"
  using log_fetch_same
  by (auto simp: log_fetch_call_def db_write_def split: prod.splits option.splits sum.splits) (metis snd_conv)+

lemma latest_publish [simp]: "latest_snapshot env site uuid (publish e w) = latest_snapshot env site uuid w"
  by (simp add: latest_snapshot_def call_db_def db_read_def split: option.split)


definition sample_weather_env :: "(nat, nat, nat) weather_env" where
  "sample_weather_env = \<lparr>we_floats = sample_floats, we_dates = sample_dates, we_codec = sample_snapshot_codec,
     we_sha = (\<lambda>b. [0]), we_calendar = sample_calendar, we_limits = default_resource_limits,
     we_config = default_config, we_now = 5, we_provider_name = [120],
     we_provider = (\<lambda>i b. Inl [[33]]), we_catalog = sample_catalog_env,
     we_calls = (\<lambda>site. \<lparr>ce_refused = None, ce_faults = (\<lambda>_. False)\<rparr>), we_db_error = (\<lambda>e. []),
     we_date_error = (\<lambda>e. [])\<rparr>"

definition sample_station :: provider_station where
  "sample_station = city_to_provider_station (\<lambda>b. [0]) [120] [49] sample_city"

definition weather_start :: "nat weather_world" where
  "weather_start = \<lparr>ww_db = \<lparr>di_tables = initial_schema, di_timezone = 0\<rparr>, ww_resources = resource_state_default,
     ww_events = []\<rparr>"


end
