(* ===== verification/Client_Pending.thy ===== *)
theory Client_Pending
  imports Rpc_Reply
begin

text \<open>
  The renderer client's table of pending requests
  (\<^verbatim>\<open>weather-renderer/common/src/client/pending.rs\<close>) and its failures
  (\<^verbatim>\<open>client/failure.rs\<close>). A registration is identified by the number of its marker's
  allocation (\<open>Arc::ptr_eq\<close>), which also names its one-shot channel. A locked section is one
  step; the replies it hands to channels are sent after the lock is released, each in a step
  of its own, so they interleave with everything else.
\<close>

section \<open>Failures\<close>

datatype client_failure =
    ClientClosed | FailedRpcSend ustring | FailedRpcReceive ustring | FailedEventReceive ustring
  | FailedTask ustring

fun show_client_failure :: "client_failure \<Rightarrow> ustring" where
  "show_client_failure ClientClosed = lit ''RPC client closed''"
| "show_client_failure (FailedRpcSend e) = lit ''RPC sender stopped: '' @ e"
| "show_client_failure (FailedRpcReceive e) = lit ''RPC receiver stopped: '' @ e"
| "show_client_failure (FailedEventReceive e) = lit ''event receiver stopped: '' @ e"
| "show_client_failure (FailedTask e) = lit ''RPC client background task stopped: '' @ e"

record remote_rpc_error =
  re_wire_code :: "ustring option"
  re_known_code :: "rpc_error_code option"
  re_message :: ustring

definition from_engine_error :: "engine_error \<Rightarrow> remote_rpc_error" where
  "from_engine_error e =
     \<lparr>re_wire_code = Some (ee_code e), re_known_code = error_code_from_wire (ee_code e),
      re_message = ee_message e\<rparr>"

definition missing_engine_error :: remote_rpc_error where
  "missing_engine_error =
     \<lparr>re_wire_code = None, re_known_code = None,
      re_message = lit ''error response is missing EngineError''\<rparr>"

definition show_remote_error :: "remote_rpc_error \<Rightarrow> ustring" where
  "show_remote_error e =
     (case (case re_known_code e of Some c \<Rightarrow> Some (error_code_as_str c) | None \<Rightarrow> re_wire_code e) of
        Some code \<Rightarrow> code @ lit '': '' @ re_message e
      | None \<Rightarrow> re_message e)"

section \<open>The registry\<close>

type_synonym pending_reply = "client_failure + rpc_response"

text \<open>
  \<open>pr_leases\<close> are the leases that have not been dropped, \<open>pr_sending\<close> the replies taken out of
  the table whose \<open>send\<close> has not run yet, and \<open>pr_channels\<close> the values sent.
\<close>

record pending_registry =
  pr_entries :: "(ustring, nat) hmap"
  pr_terminal :: "client_failure option"
  pr_next :: nat
  pr_leases :: "(nat, ustring) hmap"
  pr_sending :: "(nat, pending_reply) hmap"
  pr_channels :: "(nat, pending_reply) hmap"

datatype register_error = Collision | RegistryTerminated client_failure

definition pending_new :: pending_registry where
  "pending_new = \<lparr>pr_entries = [], pr_terminal = None, pr_next = 0, pr_leases = [],
     pr_sending = [], pr_channels = []\<rparr>"

definition register_pending ::
  "ustring \<Rightarrow> pending_registry \<Rightarrow> (register_error + nat) \<times> pending_registry" where
  "register_pending request_id p =
     (case pr_terminal p of
        Some failure \<Rightarrow> (Inl (RegistryTerminated failure), p)
      | None \<Rightarrow>
          (case hget (pr_entries p) request_id of
             Some m \<Rightarrow> (Inl Collision, p\<lparr>pr_next := pr_next p + 1\<rparr>)
           | None \<Rightarrow>
               (Inr (pr_next p),
                p\<lparr>pr_entries := hput request_id (pr_next p) (pr_entries p),
                  pr_leases := hput (pr_next p) request_id (pr_leases p),
                  pr_next := pr_next p + 1\<rparr>)))"

definition complete_pending :: "rpc_response \<Rightarrow> pending_registry \<Rightarrow> pending_registry" where
  "complete_pending response p =
     (case hget (pr_entries p) (rs_request_id response) of
        None \<Rightarrow> p
      | Some m \<Rightarrow>
          p\<lparr>pr_entries := hdel (rs_request_id response) (pr_entries p),
            pr_sending := hput m (Inr response) (pr_sending p)\<rparr>)"

definition fail_all :: "client_failure \<Rightarrow> pending_registry \<Rightarrow> bool \<times> pending_registry" where
  "fail_all failure p =
     (case pr_terminal p of
        Some f \<Rightarrow> (False, p)
      | None \<Rightarrow>
          (True,
           p\<lparr>pr_terminal := Some failure, pr_entries := [],
             pr_sending := map (\<lambda>(i, m). (m, Inl failure)) (pr_entries p) @ pr_sending p\<rparr>))"

text \<open>\<open>oneshot::Sender::send\<close>: refused, and the value lost, when the lease is gone.\<close>

definition send_pending :: "nat \<Rightarrow> pending_registry \<Rightarrow> pending_registry" where
  "send_pending m p =
     (case hget (pr_sending p) m of
        None \<Rightarrow> p
      | Some reply \<Rightarrow>
          (let p = p\<lparr>pr_sending := hdel m (pr_sending p)\<rparr>
           in if m \<in> hkeys (pr_leases p) then p\<lparr>pr_channels := hput m reply (pr_channels p)\<rparr> else p))"

definition remove_if_matches :: "ustring \<Rightarrow> nat \<Rightarrow> pending_registry \<Rightarrow> pending_registry" where
  "remove_if_matches request_id m p =
     (if hget (pr_entries p) request_id = Some m
      then p\<lparr>pr_entries := hdel request_id (pr_entries p)\<rparr> else p)"

text \<open>\<open>Drop for PendingLease\<close>: its registration goes, then its end of the channel.\<close>

definition drop_lease :: "nat \<Rightarrow> pending_registry \<Rightarrow> pending_registry" where
  "drop_lease m p =
     (case hget (pr_leases p) m of
        None \<Rightarrow> p
      | Some request_id \<Rightarrow>
          (let p = remove_if_matches request_id m p
           in p\<lparr>pr_leases := hdel m (pr_leases p), pr_channels := hdel m (pr_channels p)\<rparr>))"

text \<open>
  \<open>PendingLease::receive\<close>: waiting while the sender lives (in the table or about to send);
  a sender dropped without a value is reported as the terminal failure, if there is one.
\<close>

definition sender_alive :: "nat \<Rightarrow> pending_registry \<Rightarrow> bool" where
  "sender_alive m p \<longleftrightarrow> m \<in> snd ` set (pr_entries p) \<or> m \<in> hkeys (pr_sending p)"

definition receive_lease :: "nat \<Rightarrow> pending_registry \<Rightarrow> pending_reply option" where
  "receive_lease m p =
     (case hget (pr_channels p) m of
        Some reply \<Rightarrow> Some reply
      | None \<Rightarrow>
          if sender_alive m p then None
          else Some (Inl (case pr_terminal p of
                 Some f \<Rightarrow> f
               | None \<Rightarrow> FailedTask (lit ''pending response sender was dropped''))))"

section \<open>Interleaved use\<close>

datatype pending_event =
    Register ustring
  | Complete rpc_response
  | FailAll client_failure
  | SendReply nat
  | DropLease nat

fun pending_step :: "pending_event \<Rightarrow> pending_registry \<Rightarrow> pending_registry" where
  "pending_step (Register request_id) p = snd (register_pending request_id p)"
| "pending_step (Complete response) p = complete_pending response p"
| "pending_step (FailAll failure) p = snd (fail_all failure p)"
| "pending_step (SendReply m) p = send_pending m p"
| "pending_step (DropLease m) p = drop_lease m p"

text \<open>
  The invariant: markers are fresh; an entry belongs to a live lease on the same id; a live
  lease has its entry, a reply about to be sent or a reply sent, and only one of them; every
  reply is a response to the lease's own request or the terminal failure; a terminated
  registry is empty.
\<close>

definition reply_fits :: "pending_registry \<Rightarrow> ustring \<Rightarrow> pending_reply \<Rightarrow> bool" where
  "reply_fits p request_id reply =
     (case reply of
        Inr response \<Rightarrow> rs_request_id response = request_id
      | Inl f \<Rightarrow> pr_terminal p = Some f)"

definition lease_state :: "pending_registry \<Rightarrow> nat \<Rightarrow> ustring \<Rightarrow> bool \<times> pending_reply option \<times> pending_reply option" where
  "lease_state p m request_id =
     (hget (pr_entries p) request_id = Some m, hget (pr_sending p) m, hget (pr_channels p) m)"

definition lease_ok :: "pending_registry \<Rightarrow> nat \<Rightarrow> ustring \<Rightarrow> bool" where
  "lease_ok p m request_id =
     (case lease_state p m request_id of
        (True, None, None) \<Rightarrow> True
      | (False, Some reply, None) \<Rightarrow> reply_fits p request_id reply
      | (False, None, Some reply) \<Rightarrow> reply_fits p request_id reply
      | _ \<Rightarrow> False)"

definition pending_inv :: "pending_registry \<Rightarrow> bool" where
  "pending_inv p \<longleftrightarrow>
     hkeys_ok (pr_entries p)
     \<and> (\<forall>i m. hget (pr_entries p) i = Some m \<longrightarrow> hget (pr_leases p) m = Some i)
     \<and> (\<forall>m i. hget (pr_leases p) m = Some i \<longrightarrow> lease_ok p m i)
     \<and> (\<forall>m \<ge> pr_next p. hget (pr_leases p) m = None \<and> hget (pr_sending p) m = None
           \<and> hget (pr_channels p) m = None)
     \<and> (pr_terminal p \<noteq> None \<longrightarrow> pr_entries p = [])"

section \<open>Preservation\<close>

lemma lease_ok_iff:
  "lease_ok p m i \<longleftrightarrow>
     (hget (pr_entries p) i = Some m \<and> hget (pr_sending p) m = None \<and> hget (pr_channels p) m = None)
     \<or> (hget (pr_entries p) i \<noteq> Some m \<and> hget (pr_channels p) m = None
        \<and> (\<exists>r. hget (pr_sending p) m = Some r \<and> reply_fits p i r))
     \<or> (hget (pr_entries p) i \<noteq> Some m \<and> hget (pr_sending p) m = None
        \<and> (\<exists>r. hget (pr_channels p) m = Some r \<and> reply_fits p i r))"
  by (auto simp: lease_ok_def lease_state_def split: option.splits bool.splits)

lemma pending_fresh:
  assumes "pending_inv p"
  shows "hget (pr_leases p) (pr_next p) = None" "hget (pr_sending p) (pr_next p) = None"
    "hget (pr_channels p) (pr_next p) = None"
  using assms by (simp_all add: pending_inv_def)

lemma pending_marker_known:
  assumes "pending_inv p" and "hget (pr_leases p) m = Some i"
  shows "m < pr_next p" "lease_ok p m i"
proof -
  show "m < pr_next p" using assms by (cases "m < pr_next p") (simp_all add: pending_inv_def)
  show "lease_ok p m i" using assms by (simp add: pending_inv_def)
qed

lemma pending_entry:
  assumes "pending_inv p" and "hget (pr_entries p) i = Some m"
  shows "hget (pr_leases p) m = Some i" "hget (pr_sending p) m = None" "hget (pr_channels p) m = None"
    "pr_terminal p = None"
proof -
  show l: "hget (pr_leases p) m = Some i" using assms by (simp add: pending_inv_def)
  show "hget (pr_sending p) m = None" "hget (pr_channels p) m = None"
    using pending_marker_known(2) [OF assms(1) l] assms(2) by (auto simp: lease_ok_iff)
  show "pr_terminal p = None" using assms by (auto simp: pending_inv_def)
qed

lemma fits_cong: "pr_terminal p = pr_terminal q \<Longrightarrow> reply_fits p = reply_fits q"
  by (intro ext) (simp add: reply_fits_def split: sum.split)

lemma pending_inv_new: "pending_inv pending_new"
  by (simp add: pending_inv_def pending_new_def)

lemma pending_inv_register:
  assumes inv: "pending_inv p"
  shows "pending_inv (snd (register_pending i p))"
proof (cases "pr_terminal p")
  case None
  show ?thesis
  proof (cases "hget (pr_entries p) i")
    case (Some m)
    let ?q = "snd (register_pending i p)"
    have "lease_ok ?q = lease_ok p"
      using None Some fits_cong [of ?q p] by (intro ext) (simp add: register_pending_def lease_ok_iff)
    with None Some inv show ?thesis
      by (simp add: register_pending_def pending_inv_def)
  next
    case free: None
    let ?q = "snd (register_pending i p)"
    have q: "pr_entries ?q = hput i (pr_next p) (pr_entries p)" "pr_terminal ?q = None"
      "pr_leases ?q = hput (pr_next p) i (pr_leases p)" "pr_next ?q = pr_next p + 1"
      "pr_sending ?q = pr_sending p" "pr_channels ?q = pr_channels p"
      using None free by (simp_all add: register_pending_def)
    have ok: "lease_ok ?q m j" if l: "hget (pr_leases ?q) m = Some j" for m j
    proof (cases "m = pr_next p")
      case True
      with l have j: "j = i" by (simp add: q)
      show ?thesis unfolding j using True pending_fresh [OF inv] by (simp add: lease_ok_iff q)
    next
      case False
      with l have "hget (pr_leases p) m = Some j" by (simp add: q)
      with pending_marker_known [OF inv this] free False fits_cong [of ?q p] show ?thesis
        by (auto simp: lease_ok_iff q None)
    qed
    have ent: "hget (pr_leases ?q) m = Some j" if "hget (pr_entries ?q) j = Some m" for j m
      using that pending_entry [OF inv, of j m] pending_marker_known(1) [OF inv, of m j]
      by (auto simp: q split: if_splits)
    from inv ok ent show ?thesis
      by (simp add: pending_inv_def q)
  qed
qed (use inv in \<open>simp add: register_pending_def\<close>)

lemma pending_inv_complete:
  assumes inv: "pending_inv p"
  shows "pending_inv (complete_pending r p)"
proof (cases "hget (pr_entries p) (rs_request_id r)")
  case (Some m)
  let ?q = "complete_pending r p"
  have q: "pr_entries ?q = hdel (rs_request_id r) (pr_entries p)" "pr_terminal ?q = pr_terminal p"
    "pr_leases ?q = pr_leases p" "pr_next ?q = pr_next p"
    "pr_sending ?q = hput m (Inr r) (pr_sending p)" "pr_channels ?q = pr_channels p"
    using Some by (simp_all add: complete_pending_def)
  note e = pending_entry [OF inv Some]
  have ok: "lease_ok ?q m' j" if l: "hget (pr_leases p) m' = Some j" for m' j
  proof (cases "m' = m")
    case True
    with l e show ?thesis by (simp add: lease_ok_iff q reply_fits_def)
  next
    case False
    with pending_marker_known(2) [OF inv l] Some fits_cong [of ?q p] show ?thesis
      by (auto simp: lease_ok_iff q)
  qed
  from inv ok pending_marker_known(1) [OF inv e(1)] show ?thesis
    by (auto simp: pending_inv_def q split: if_splits)
qed (use inv in \<open>simp add: complete_pending_def\<close>)

lemma failed_sends:
  assumes inv: "pending_inv p"
  shows "hget (map (\<lambda>(i, m). (m, Inl f)) (pr_entries p) @ pr_sending p) m =
    (if m \<in> snd ` set (pr_entries p) then Some (Inl f) else hget (pr_sending p) m)"
proof -
  have "map_of (map (\<lambda>(i, m). (m, Inl f :: pending_reply)) es) m = (if m \<in> snd ` set es then Some (Inl f) else None)"
    for es :: "(ustring, nat) hmap"
    by (induction es) auto
  then show ?thesis by (simp add: map_add_def split: option.split)
qed

lemma entries_markers:
  assumes "pending_inv p"
  shows "m \<in> snd ` set (pr_entries p) \<longleftrightarrow> (\<exists>i. hget (pr_entries p) i = Some m)"
proof
  assume "m \<in> snd ` set (pr_entries p)"
  with assms show "\<exists>i. hget (pr_entries p) i = Some m" by (auto simp: pending_inv_def mem_hget_iff)
next
  assume "\<exists>i. hget (pr_entries p) i = Some m"
  then show "m \<in> snd ` set (pr_entries p)" by (force dest: hget_mem)
qed

lemma pending_inv_fail_all:
  assumes inv: "pending_inv p"
  shows "pending_inv (snd (fail_all f p))"
proof (cases "pr_terminal p")
  case None
  let ?q = "snd (fail_all f p)"
  have q: "pr_entries ?q = []" "pr_terminal ?q = Some f" "pr_leases ?q = pr_leases p"
    "pr_next ?q = pr_next p" "pr_channels ?q = pr_channels p"
    "pr_sending ?q = map (\<lambda>(i, m). (m, Inl f)) (pr_entries p) @ pr_sending p"
    using None by (simp_all add: fail_all_def)
  note sends = failed_sends [OF inv, of f]
  have ok: "lease_ok ?q m j" if l: "hget (pr_leases p) m = Some j" for m j
  proof (cases "m \<in> snd ` set (pr_entries p)")
    case True
    then obtain i where i: "hget (pr_entries p) i = Some m" using entries_markers [OF inv] by blast
    with True pending_entry [OF inv i] show ?thesis
      by (simp add: lease_ok_iff q sends reply_fits_def del: map_of_append)
  next
    case False
    then have "hget (pr_entries p) j \<noteq> Some m" using entries_markers [OF inv] by blast
    moreover have "reply_fits ?q j r" if "reply_fits p j r" for r
      using that None by (cases r) (simp_all add: reply_fits_def)
    ultimately show ?thesis
      using False pending_marker_known(2) [OF inv l]
      by (auto simp: lease_ok_iff q sends simp del: map_of_append)
  qed
  have "m < pr_next p" if "(i, m) \<in> set (pr_entries p)" for i m
    using that inv pending_entry(1) [OF inv] pending_marker_known(1) [OF inv]
    by (simp add: pending_inv_def mem_hget_iff)
  with inv ok show ?thesis
    by (force simp: pending_inv_def q sends simp del: map_of_append)
qed (use inv in \<open>simp add: fail_all_def\<close>)

lemma pending_inv_send:
  assumes inv: "pending_inv p"
  shows "pending_inv (send_pending m p)"
proof (cases "hget (pr_sending p) m")
  case (Some reply)
  let ?q = "send_pending m p"
  have q: "pr_entries ?q = pr_entries p" "pr_terminal ?q = pr_terminal p" "pr_leases ?q = pr_leases p"
    "pr_next ?q = pr_next p" "pr_sending ?q = hdel m (pr_sending p)"
    "pr_channels ?q = (if m \<in> hkeys (pr_leases p) then hput m reply (pr_channels p) else pr_channels p)"
    using Some by (simp_all add: send_pending_def Let_def)
  have known: "m < pr_next p" using inv Some by (cases "m < pr_next p") (simp_all add: pending_inv_def)
  have ok: "lease_ok ?q m' j" if l: "hget (pr_leases p) m' = Some j" for m' j
  proof (cases "m' = m")
    case True
    with hget_mem [OF l] have "m \<in> hkeys (pr_leases p)" by force
    with True pending_marker_known(2) [OF inv l] Some fits_cong [of ?q p] show ?thesis
      by (auto simp: lease_ok_iff q)
  next
    case False
    with pending_marker_known(2) [OF inv l] fits_cong [of ?q p] show ?thesis
      by (auto simp: lease_ok_iff q)
  qed
  from inv ok known show ?thesis
    by (auto simp: pending_inv_def q)
qed (use inv in \<open>simp add: send_pending_def\<close>)

lemma pending_inv_drop:
  assumes inv: "pending_inv p"
  shows "pending_inv (drop_lease m p)"
proof (cases "hget (pr_leases p) m")
  case (Some i)
  let ?q = "drop_lease m p"
  have q: "pr_entries ?q = (if hget (pr_entries p) i = Some m then hdel i (pr_entries p) else pr_entries p)"
    "pr_terminal ?q = pr_terminal p" "pr_leases ?q = hdel m (pr_leases p)"
    "pr_next ?q = pr_next p" "pr_sending ?q = pr_sending p" "pr_channels ?q = hdel m (pr_channels p)"
    using Some by (simp_all add: drop_lease_def remove_if_matches_def Let_def)
  have ok: "lease_ok ?q m' j" if l: "hget (pr_leases p) m' = Some j" and "m' \<noteq> m" for m' j
    using pending_marker_known(2) [OF inv l] that fits_cong [of ?q p] by (auto simp: lease_ok_iff q)
  have ent: "hget (pr_leases ?q) m' = Some j" if "hget (pr_entries ?q) j = Some m'" for j m'
    using that pending_entry(1) [OF inv, of j m'] Some by (auto simp: q split: if_splits)
  have keys: "hkeys_ok (pr_entries ?q)" "pr_terminal ?q \<noteq> None \<longrightarrow> pr_entries ?q = []"
    using inv by (auto simp: pending_inv_def q)
  have bound: "\<forall>m \<ge> pr_next ?q. hget (pr_leases ?q) m = None \<and> hget (pr_sending ?q) m = None
      \<and> hget (pr_channels ?q) m = None"
    using inv by (simp add: pending_inv_def q)
  have oks: "\<forall>m j. hget (pr_leases ?q) m = Some j \<longrightarrow> lease_ok ?q m j"
    using ok by (auto simp: q split: if_splits)
  from ent keys bound oks show ?thesis unfolding pending_inv_def by blast
qed (use inv in \<open>simp add: drop_lease_def\<close>)

lemmas pending_steps = pending_inv_register pending_inv_complete pending_inv_fail_all
  pending_inv_send pending_inv_drop

lemma pending_inv_step: "pending_inv p \<Longrightarrow> pending_inv (pending_step e p)"
  by (cases e) (simp_all add: pending_steps)

interpretation pending_system: invariant_system pending_new pending_step pending_inv
  by unfold_locales (rule pending_inv_new, rule pending_inv_step)

end
