(* ===== verification/Client_Session.thy ===== *)
theory Client_Session
  imports Client_Pending Router Config_Wire
begin

text \<open>
  The renderer's engine client (\<^verbatim>\<open>weather-renderer/common/src/client.rs\<close>) and the session
  that keeps its three socket tasks (\<^verbatim>\<open>client/session.rs\<close>): requests that register, queue
  and wait, the sender, the response and the event receivers, the supervisor that turns the
  first task to end (or a close) into the failure of every waiter, and the decoding of the
  reply. The sockets and the message codecs are other crates' code: what a socket yields is
  an event, a codec is a parameter.
\<close>

section \<open>Requests\<close>

definition engine_request_timeout_s :: nat where "engine_request_timeout_s = 5 * 60"
definition rpc_send_queue :: nat where "rpc_send_queue = 64"

datatype client_error =
    RequestTimedOut | ClientFailed client_failure | RemoteFailed remote_rpc_error
  | UndecodablePayload ustring | MissingConfig ustring

fun show_client_error :: "client_error \<Rightarrow> ustring" where
  "show_client_error RequestTimedOut =
     lit ''RPC request timed out after '' @ show_nat engine_request_timeout_s @ lit ''s''"
| "show_client_error (ClientFailed f) = show_client_failure f"
| "show_client_error (RemoteFailed e) = show_remote_error e"
| "show_client_error (UndecodablePayload e) = e"
| "show_client_error (MissingConfig operation) =
     lit ''engine '' @ operation @ lit '' response is missing config''"

definition require_config :: "schema_config option \<Rightarrow> ustring \<Rightarrow> client_error + schema_config" where
  "require_config config operation =
     (case config of None \<Rightarrow> Inl (MissingConfig operation) | Some c \<Rightarrow> Inr c)"

text \<open>
  The registration loop of \<open>EngineClient::request\<close>: one attempt per fresh id, with the time
  its turn begins at. \<open>None\<close>: the attempts listed have all collided before the deadline.
\<close>

fun register_request ::
  "nat \<Rightarrow> (nat \<times> ustring) list \<Rightarrow> pending_registry
     \<Rightarrow> (client_error + ustring \<times> nat) option \<times> pending_registry" where
  "register_request deadline [] p = (None, p)"
| "register_request deadline ((now, request_id) # attempts) p =
     (if deadline \<le> now then (Some (Inl RequestTimedOut), p)
      else case register_pending request_id p of
        (Inr m, q) \<Rightarrow> (Some (Inr (request_id, m)), q)
      | (Inl Collision, q) \<Rightarrow> register_request deadline attempts q
      | (Inl (RegistryTerminated f), q) \<Rightarrow> (Some (Inl (ClientFailed f)), q))"

definition request_envelope ::
  "mac \<Rightarrow> byte list option \<Rightarrow> 64 word \<Rightarrow> rpc_kind \<Rightarrow> ustring \<Rightarrow> byte list \<Rightarrow> rpc_request" where
  "request_envelope mac key now kind request_id payload =
     (let envelope = \<lparr>rq_schema_version = schema_version, rq_request_id = request_id,
            rq_kind = rpc_kind_number kind, rq_timestamp = now, rq_hmac = [], rq_payload = payload\<rparr>
      in (case key of
            None \<Rightarrow> envelope
          | Some k \<Rightarrow> envelope\<lparr>rq_hmac := rpc_request_hmac mac envelope k\<rparr>))"

text \<open>What waiting gave: the deadline, or what \<open>send\<close> and \<open>receive\<close> returned.\<close>

datatype exchange = ExchangeTimedOut | Exchanged pending_reply

definition finish_request ::
  "(byte list \<Rightarrow> ustring + 'a) \<Rightarrow> exchange \<Rightarrow> client_error + 'a" where
  "finish_request decode outcome =
     (case outcome of
        ExchangeTimedOut \<Rightarrow> Inl RequestTimedOut
      | Exchanged (Inl failure) \<Rightarrow> Inl (ClientFailed failure)
      | Exchanged (Inr response) \<Rightarrow>
          if rs_status response = status_error then
            Inl (RemoteFailed (case rs_error response of
                   None \<Rightarrow> missing_engine_error | Some e \<Rightarrow> from_engine_error e))
          else (case decode (rs_payload response) of
                  Inl e \<Rightarrow> Inl (UndecodablePayload e) | Inr x \<Rightarrow> Inr x))"

text \<open>The client's methods: the kind and the message each sends.\<close>

datatype client_message =
    EmptyMessage | ShutdownMessage "ustring option" | ListStationsMessage nat nat
  | GetConfigMessage bool | UpdateConfigMessage "schema_config option"

definition status_call :: "rpc_kind \<times> client_message" where
  "status_call = (GetEngineStatus, EmptyMessage)"
definition shutdown_call :: "rpc_kind \<times> client_message" where
  "shutdown_call = (Shutdown, EmptyMessage)"
definition shutdown_if_owned_call :: "ustring \<Rightarrow> rpc_kind \<times> client_message" where
  "shutdown_if_owned_call token = (Shutdown, ShutdownMessage (Some token))"
definition configured_stations_call :: "nat \<Rightarrow> nat \<Rightarrow> rpc_kind \<times> client_message" where
  "configured_stations_call offset page_size =
     (ListConfiguredStations, ListStationsMessage offset page_size)"
definition get_config_call :: "bool \<Rightarrow> rpc_kind \<times> client_message" where
  "get_config_call defaults = (GetConfig, GetConfigMessage defaults)"
definition update_config_call :: "schema_config \<Rightarrow> rpc_kind \<times> client_message" where
  "update_config_call config = (UpdateConfig, UpdateConfigMessage (Some config))"

section \<open>The receivers\<close>

definition dispatch_rpc_response ::
  "(byte list \<Rightarrow> ustring + rpc_response) \<Rightarrow> byte list list \<Rightarrow> pending_registry
     \<Rightarrow> (client_failure + unit) \<times> pending_registry" where
  "dispatch_rpc_response decode frames p =
     (case frames of
        [] \<Rightarrow> (Inl (FailedRpcReceive (lit ''received an empty RPC response message'')), p)
      | payload # extra \<Rightarrow>
          if extra \<noteq> [] then
            (Inl (FailedRpcReceive (lit ''received unexpected extra RPC response frames'')), p)
          else (case decode payload of
                  Inl e \<Rightarrow> (Inl (FailedRpcReceive (lit ''invalid response: '' @ e)), p)
                | Inr response \<Rightarrow> (Inr (), complete_pending response p)))"

definition received_event ::
  "(byte list \<Rightarrow> ustring) \<Rightarrow> (byte list \<Rightarrow> event_envelope option) \<Rightarrow> byte list list
     \<Rightarrow> (ustring \<times> event_envelope) option" where
  "received_event lossy decode frames =
     (case frames of
        [topic, payload] \<Rightarrow>
          (case decode payload of None \<Rightarrow> None | Some envelope \<Rightarrow> Some (lossy topic, envelope))
      | _ \<Rightarrow> None)"

section \<open>The session\<close>

datatype session_task = RpcSendTask | RpcReceiveTask | EventReceiveTask
datatype task_state =
    TaskRunning | TaskReturned "client_failure + unit" | TaskAborted ustring | TaskJoined
datatype supervisor = Supervising | Draining | SupervisorGone

fun show_session_task :: "session_task \<Rightarrow> ustring" where
  "show_session_task RpcSendTask = lit ''RPC send task''"
| "show_session_task RpcReceiveTask = lit ''RPC receive task''"
| "show_session_task EventReceiveTask = lit ''event receive task''"

text \<open>
  A task that ended: what it returned, or the join error of one that panicked; \<open>None\<close> when no
  task was left to join.
\<close>

definition joined_failure :: "(session_task \<times> task_state) option \<Rightarrow> client_failure" where
  "joined_failure joined =
     (case joined of
        Some (kind, TaskReturned (Inl failure)) \<Rightarrow> failure
      | Some (kind, TaskReturned (Inr u)) \<Rightarrow>
          FailedTask (show_session_task kind @ lit '' exited unexpectedly'')
      | Some (kind, TaskAborted e) \<Rightarrow> FailedTask e
      | _ \<Rightarrow> FailedTask (lit ''all client tasks exited unexpectedly''))"

record client_session =
  cs_pending :: pending_registry
  cs_outbox :: "byte list list"
  cs_sent :: "byte list list"
  cs_events :: "(ustring \<times> event_envelope) list"
  cs_tasks :: "session_task \<Rightarrow> task_state"
  cs_shutdown :: bool
  cs_supervisor :: supervisor
  cs_done :: bool

definition session_init :: client_session where
  "session_init = \<lparr>cs_pending = pending_new, cs_outbox = [], cs_sent = [], cs_events = [],
     cs_tasks = (\<lambda>_. TaskRunning), cs_shutdown = False, cs_supervisor = Supervising, cs_done = False\<rparr>"

definition end_task :: "session_task \<Rightarrow> task_state \<Rightarrow> client_session \<Rightarrow> client_session" where
  "end_task kind st s = s\<lparr>cs_tasks := (cs_tasks s)(kind := st)\<rparr>"

definition fail_session :: "client_failure \<Rightarrow> client_session \<Rightarrow> client_session" where
  "fail_session failure s = s\<lparr>cs_pending := snd (fail_all failure (cs_pending s))\<rparr>"

definition request_close :: "client_session \<Rightarrow> client_session" where
  "request_close s = (fail_session ClientClosed s)\<lparr>cs_shutdown := True\<rparr>"

text \<open>\<open>Drop for SessionCompletion\<close>, on every way out of the supervisor.\<close>

definition session_completed :: "client_session \<Rightarrow> client_session" where
  "session_completed s =
     (fail_session (FailedTask (lit ''session supervisor exited unexpectedly'')) s)
       \<lparr>cs_supervisor := SupervisorGone, cs_done := True\<rparr>"

text \<open>
  \<open>mpsc::Sender::send\<close>: waits while the queue is full, fails once its receiver (the send
  task) is gone.
\<close>

datatype enqueued = QueueFull | QueueClosed client_failure | Queued client_session

definition enqueue_request :: "byte list \<Rightarrow> client_session \<Rightarrow> enqueued" where
  "enqueue_request payload s =
     (if cs_tasks s RpcSendTask \<noteq> TaskRunning then
        QueueClosed (FailedRpcSend (lit ''request queue closed''))
      else if length (cs_outbox s) \<ge> rpc_send_queue then QueueFull
      else Queued (s\<lparr>cs_outbox := cs_outbox s @ [payload]\<rparr>))"

text \<open>
  One poll of \<open>dispatch_request\<close>: first the exchange (the queue's answer, then the reply),
  then the deadline; leaving it, with whatever outcome, drops the lease.
\<close>

definition dispatch_request ::
  "bool \<Rightarrow> nat \<Rightarrow> enqueued \<Rightarrow> client_session \<Rightarrow> (exchange \<times> client_session) option" where
  "dispatch_request expired m queued s =
     (let left = s\<lparr>cs_pending := drop_lease m (cs_pending s)\<rparr>
      in case (case queued of
                 QueueFull \<Rightarrow> None
               | QueueClosed f \<Rightarrow> Some (Inl f)
               | Queued s' \<Rightarrow> receive_lease m (cs_pending s)) of
           Some reply \<Rightarrow> Some (Exchanged reply, left)
         | None \<Rightarrow> if expired then Some (ExchangeTimedOut, left) else None)"

section \<open>Its steps\<close>

datatype session_event =
    Pending pending_event
  | Enqueue "byte list"
  | SenderSends "ustring option"
  | SendersGone
  | ResponseArrives "ustring + byte list list"
  | EventArrives "ustring + byte list list"
  | TaskPanics session_task ustring
  | CloseRequested
  | SupervisorSeesClose
  | SupervisorJoins session_task
  | SupervisorReturns
  | SupervisorAborted

text \<open>
  A task only acts while it runs. The supervisor first waits for the shutdown flag or an
  ended task, then joins what it aborted (an aborted task may act until it is joined), and
  leaves when every task is joined.
\<close>

record client_codecs =
  cc_response :: "byte list \<Rightarrow> ustring + rpc_response"
  cc_event :: "byte list \<Rightarrow> event_envelope option"
  cc_lossy :: "byte list \<Rightarrow> ustring"

definition run_rpc_sender :: "ustring option \<Rightarrow> client_session \<Rightarrow> client_session" where
  "run_rpc_sender failed s =
     (case cs_outbox s of
        [] \<Rightarrow> s
      | payload # rest \<Rightarrow>
          (let s = s\<lparr>cs_outbox := rest\<rparr>
           in case failed of
                None \<Rightarrow> s\<lparr>cs_sent := cs_sent s @ [payload]\<rparr>
              | Some e \<Rightarrow> end_task RpcSendTask (TaskReturned (Inl (FailedRpcSend e))) s))"

definition run_rpc_receiver ::
  "client_codecs \<Rightarrow> ustring + byte list list \<Rightarrow> client_session \<Rightarrow> client_session" where
  "run_rpc_receiver cc received s =
     (case received of
        Inl e \<Rightarrow> end_task RpcReceiveTask (TaskReturned (Inl (FailedRpcReceive e))) s
      | Inr frames \<Rightarrow>
          (case dispatch_rpc_response (cc_response cc) frames (cs_pending s) of
             (Inl f, p) \<Rightarrow> end_task RpcReceiveTask (TaskReturned (Inl f)) s
           | (Inr u, p) \<Rightarrow> s\<lparr>cs_pending := p\<rparr>))"

definition run_event_receiver ::
  "client_codecs \<Rightarrow> ustring + byte list list \<Rightarrow> client_session \<Rightarrow> client_session" where
  "run_event_receiver cc received s =
     (case received of
        Inl e \<Rightarrow> end_task EventReceiveTask (TaskReturned (Inl (FailedEventReceive e))) s
      | Inr frames \<Rightarrow>
          (case received_event (cc_lossy cc) (cc_event cc) frames of
             None \<Rightarrow> s
           | Some ev \<Rightarrow> s\<lparr>cs_events := cs_events s @ [ev]\<rparr>))"

definition supervisor_joins :: "session_task \<Rightarrow> client_session \<Rightarrow> client_session" where
  "supervisor_joins kind s =
     (case cs_supervisor s of
        Supervising \<Rightarrow>
          (case cs_tasks s kind of
             TaskRunning \<Rightarrow> s
           | TaskJoined \<Rightarrow> s
           | ended \<Rightarrow>
               (end_task kind TaskJoined (fail_session (joined_failure (Some (kind, ended))) s))
                 \<lparr>cs_supervisor := Draining\<rparr>)
      | Draining \<Rightarrow> end_task kind TaskJoined s
      | SupervisorGone \<Rightarrow> s)"

fun session_step :: "client_codecs \<Rightarrow> session_event \<Rightarrow> client_session \<Rightarrow> client_session" where
  "session_step cc (Pending e) s = s\<lparr>cs_pending := pending_step e (cs_pending s)\<rparr>"
| "session_step cc (Enqueue payload) s =
     (case enqueue_request payload s of Queued s' \<Rightarrow> s' | _ \<Rightarrow> s)"
| "session_step cc (SenderSends failed) s =
     (if cs_tasks s RpcSendTask = TaskRunning then run_rpc_sender failed s else s)"
| "session_step cc SendersGone s =
     (if cs_tasks s RpcSendTask = TaskRunning \<and> cs_outbox s = []
      then end_task RpcSendTask (TaskReturned (Inr ())) s else s)"
| "session_step cc (ResponseArrives r) s =
     (if cs_tasks s RpcReceiveTask = TaskRunning then run_rpc_receiver cc r s else s)"
| "session_step cc (EventArrives r) s =
     (if cs_tasks s EventReceiveTask = TaskRunning then run_event_receiver cc r s else s)"
| "session_step cc (TaskPanics kind e) s =
     (if cs_tasks s kind = TaskRunning then end_task kind (TaskAborted e) s else s)"
| "session_step cc CloseRequested s = request_close s"
| "session_step cc SupervisorSeesClose s =
     (if cs_supervisor s = Supervising \<and> cs_shutdown s
      then (fail_session ClientClosed s)\<lparr>cs_supervisor := Draining\<rparr> else s)"
| "session_step cc (SupervisorJoins kind) s = supervisor_joins kind s"
| "session_step cc SupervisorReturns s =
     (if cs_supervisor s = Draining \<and> list_all (\<lambda>k. cs_tasks s k = TaskJoined)
           [RpcSendTask, RpcReceiveTask, EventReceiveTask]
      then session_completed s else s)"
| "session_step cc SupervisorAborted s =
     (if cs_supervisor s = SupervisorGone then s else session_completed s)"

end
