(* ===== verification/Client_Spec.thy ===== *)
theory Client_Spec
  imports Client_Session
begin

text \<open>
  What the renderer's client promises: every waiter gets the reply to its own request or the
  session's failure, closing releases everyone, and a request that the engine handles comes
  back as the handler's value or as the error it named.
\<close>

section \<open>Waiting\<close>

lemma receive_fits:
  assumes inv: "pending_inv p" and l: "hget (pr_leases p) m = Some i" and r: "receive_lease m p = Some reply"
  shows "reply_fits p i reply"
proof (cases "hget (pr_channels p) m")
  case None
  with pending_marker_known(2) [OF inv l] have "sender_alive m p"
    using entries_markers [OF inv, of m] hget_mem [of "pr_sending p" m]
    by (force simp: lease_ok_iff sender_alive_def)
  with None r show ?thesis by (simp add: receive_lease_def)
next
  case (Some x)
  with r pending_marker_known(2) [OF inv l] show ?thesis by (auto simp: receive_lease_def lease_ok_iff)
qed

definition flush_replies :: "pending_registry \<Rightarrow> pending_registry" where
  "flush_replies p = fold send_pending (map fst (pr_sending p)) p"

lemma send_fields [simp]:
  "pr_entries (send_pending m p) = pr_entries p" "pr_terminal (send_pending m p) = pr_terminal p"
  "pr_leases (send_pending m p) = pr_leases p" "pr_next (send_pending m p) = pr_next p"
  "pr_sending (send_pending m p) = hdel m (pr_sending p)"
  by (auto simp: send_pending_def Let_def hdel_absent split: option.split)

lemma sends_fields:
  "pr_entries (fold send_pending ms p) = pr_entries p" "pr_terminal (fold send_pending ms p) = pr_terminal p"
  "pr_leases (fold send_pending ms p) = pr_leases p"
  "pr_sending (fold send_pending ms p) = filter (\<lambda>x. fst x \<notin> set ms) (pr_sending p)"
  by (induction ms arbitrary: p) (auto simp: AList.delete_eq intro: filter_cong)

lemma pending_inv_sends: "pending_inv p \<Longrightarrow> pending_inv (fold send_pending ms p)"
  by (induction ms arbitrary: p) (auto intro: pending_inv_send)

lemma flush_fields [simp]:
  "pr_entries (flush_replies p) = pr_entries p" "pr_terminal (flush_replies p) = pr_terminal p"
  "pr_leases (flush_replies p) = pr_leases p" "pr_sending (flush_replies p) = []"
  by (simp_all add: flush_replies_def sends_fields)

lemma flushed_answers:
  assumes inv: "pending_inv p" and t: "pr_terminal p \<noteq> None" and l: "hget (pr_leases p) m = Some i"
  shows "\<exists>reply. receive_lease m (flush_replies p) = Some reply \<and> reply_fits p i reply"
proof -
  have inv': "pending_inv (flush_replies p)"
    using inv by (simp add: flush_replies_def pending_inv_sends)
  from inv' t have e: "pr_entries (flush_replies p) = []" by (simp add: pending_inv_def)
  have "lease_ok (flush_replies p) m i" using inv' l by (intro pending_marker_known(2)) simp_all
  with e fits_cong [of "flush_replies p" p] show ?thesis by (auto simp: lease_ok_iff receive_lease_def)
qed

section \<open>The session\<close>

definition session_inv :: "client_session \<Rightarrow> bool" where
  "session_inv s \<longleftrightarrow> pending_inv (cs_pending s)
     \<and> ((cs_supervisor s \<noteq> Supervising \<or> cs_shutdown s) \<longrightarrow> pr_terminal (cs_pending s) \<noteq> None)
     \<and> (cs_done s \<longleftrightarrow> cs_supervisor s = SupervisorGone)
     \<and> length (cs_outbox s) \<le> rpc_send_queue"

lemma pending_step_terminal: "pr_terminal p = Some f \<Longrightarrow> pr_terminal (pending_step e p) = Some f"
  by (cases e) (auto simp: register_pending_def complete_pending_def fail_all_def send_pending_def
      drop_lease_def remove_if_matches_def Let_def split: option.split)

lemma terminal_set: "pr_terminal (snd (fail_all f p)) \<noteq> None"
  by (auto simp: fail_all_def split: option.split)

lemma terminal_kept: "pr_terminal p = Some f \<Longrightarrow> snd (fail_all g p) = p"
  by (simp add: fail_all_def)

lemma complete_terminal [simp]: "pr_terminal (complete_pending r p) = pr_terminal p"
  by (simp add: complete_pending_def split: option.split)

lemmas session_simps = end_task_def fail_session_def request_close_def session_completed_def
  run_rpc_sender_def run_rpc_receiver_def run_event_receiver_def supervisor_joins_def
  enqueue_request_def Let_def

lemma dispatch_cases:
  "snd (dispatch_rpc_response d frames p) = p
   \<or> (\<exists>r. snd (dispatch_rpc_response d frames p) = complete_pending r p)"
  by (auto simp: dispatch_rpc_response_def split: list.split sum.split)

text \<open>How a step touches the registry: not at all, by one of its operations, or by failing it.\<close>

lemma step_pending:
  "cs_pending (session_step cc e s) = cs_pending s
   \<or> (\<exists>pe. cs_pending (session_step cc e s) = pending_step pe (cs_pending s))"
proof (cases e)
  case (Pending pe)
  then show ?thesis by auto
next
  case (ResponseArrives r)
  show ?thesis
  proof (cases r)
    case (Inr frames)
    with ResponseArrives show ?thesis
      using dispatch_cases [of "cc_response cc" frames "cs_pending s"]
      by (auto simp: session_simps split: prod.split sum.split)
         (metis pending_step.simps(2))+
  qed (use ResponseArrives in \<open>simp add: session_simps\<close>)
next
  case CloseRequested
  then show ?thesis by (auto simp: session_simps intro: exI [of _ "FailAll ClientClosed"])
next
  case SupervisorSeesClose
  then show ?thesis by (auto simp: session_simps intro: exI [of _ "FailAll ClientClosed"])
next
  case (SupervisorJoins k)
  show ?thesis
    using SupervisorJoins
    by (auto simp: session_simps split: supervisor.split task_state.split)
       (metis pending_step.simps(3))+
next
  case SupervisorReturns
  then show ?thesis
    by (auto simp: session_simps
        intro: exI [of _ "FailAll (FailedTask (lit ''session supervisor exited unexpectedly''))"])
next
  case SupervisorAborted
  then show ?thesis
    by (auto simp: session_simps
        intro: exI [of _ "FailAll (FailedTask (lit ''session supervisor exited unexpectedly''))"])
qed (auto simp: session_simps split: enqueued.split list.split option.split sum.split)

lemma step_terminal:
  "pr_terminal (cs_pending s) = Some f \<Longrightarrow> pr_terminal (cs_pending (session_step cc e s)) = Some f"
  using step_pending [of cc e s] pending_step_terminal by metis

lemma steps_terminal:
  "pr_terminal (cs_pending s) = Some f
   \<Longrightarrow> pr_terminal (cs_pending (fold (session_step cc) es s)) = Some f"
  by (induction es arbitrary: s) (auto intro: step_terminal)

lemma step_outbox:
  "length (cs_outbox s) \<le> rpc_send_queue \<Longrightarrow> length (cs_outbox (session_step cc e s)) \<le> rpc_send_queue"
  by (cases e) (auto simp: session_simps split: list.split option.split sum.split prod.split
      supervisor.split task_state.split)

lemma step_lifecycle:
  assumes "session_inv s"
  shows "(cs_supervisor (session_step cc e s) \<noteq> Supervising \<or> cs_shutdown (session_step cc e s)
      \<longrightarrow> pr_terminal (cs_pending (session_step cc e s)) \<noteq> None)
    \<and> (cs_done (session_step cc e s) \<longleftrightarrow> cs_supervisor (session_step cc e s) = SupervisorGone)"
proof (cases "pr_terminal (cs_pending s)")
  case (Some f)
  with step_terminal [OF Some, of cc e] assms show ?thesis
    by (cases e) (auto simp: session_inv_def session_simps split: list.split option.split sum.split
      prod.split supervisor.split task_state.split)
next
  case None
  with assms terminal_set show ?thesis
    by (cases e) (auto simp: session_inv_def session_simps split: list.split option.split sum.split
      prod.split supervisor.split task_state.split)
qed

lemma session_inv_step: "session_inv s \<Longrightarrow> session_inv (session_step cc e s)"
  using step_lifecycle [of s cc e] step_outbox [of s cc e] step_pending [of cc e s] pending_inv_step
  unfolding session_inv_def by metis

lemma session_inv_init: "session_inv session_init"
  by (simp add: session_inv_def session_init_def pending_inv_new)

interpretation session_system: invariant_system session_init "session_step cc" session_inv
  for cc
  by unfold_locales (rule session_inv_init, rule session_inv_step)

lemma session_pending: "pending_inv (cs_pending (fold (session_step cc) es session_init))"
  using session_system.inv_run by (simp add: session_inv_def)

section \<open>Properties\<close>

text \<open>
  C13: However requests, responses, task failures and closing interleave, what a waiting request
  receives is a response carrying its own identifier or the session's one terminal failure;
  no waiter loses its channel, and the request queue never exceeds its bound.
\<close>

theorem waiters_receive_only_their_own_reply:
  "(let s = fold (session_step cc) es session_init; p = cs_pending s
    in (case (hget (pr_leases p) m, receive_lease m p) of
          (Some request_id, Some (Inr response)) \<Rightarrow> rs_request_id response = request_id
        | (Some request_id, Some (Inl failure)) \<Rightarrow> pr_terminal p = Some failure
        | (Some request_id, None) \<Rightarrow> sender_alive m p
        | (None, _) \<Rightarrow> True)
     \<and> length (cs_outbox s) \<le> rpc_send_queue)"
proof -
  let ?s = "fold (session_step cc) es session_init"
  let ?p = "cs_pending ?s"
  have "length (cs_outbox ?s) \<le> rpc_send_queue"
    using session_system.inv_run [of cc es] by (simp add: session_inv_def)
  moreover have "sender_alive m ?p" if "receive_lease m ?p = None"
    using that by (auto simp: receive_lease_def split: option.splits if_splits)
  ultimately show ?thesis
    using receive_fits [OF session_pending, of cc es m]
    by (auto simp: Let_def reply_fits_def split: option.split sum.split sum.splits)
qed

definition all_tasks_join :: "session_event list" where
  "all_tasks_join = map SupervisorJoins [RpcSendTask, RpcReceiveTask, EventReceiveTask]"

text \<open>
  C21: Closing the client releases everyone: from any state it leaves one terminal failure that
  no later event replaces, with which every later registration is refused; once the replies
  under way are sent every waiter has an answer; and the supervisor, joining its three tasks,
  reports completion to whoever waits in \<open>close\<close>.
\<close>

theorem closing_releases_every_waiter:
  "(let s = session_step cc CloseRequested (fold (session_step cc) es session_init);
        p = cs_pending s
    in (\<exists>f. pr_terminal p = Some f
         \<and> pr_terminal (cs_pending (fold (session_step cc) later s)) = Some f
         \<and> register_pending request_id p = (Inl (RegistryTerminated f), p)
         \<and> (case hget (pr_leases p) m of
              None \<Rightarrow> True
            | Some i \<Rightarrow> \<exists>reply. receive_lease m (flush_replies p) = Some reply \<and> reply_fits p i reply))
     \<and> cs_done (fold (session_step cc) (SupervisorSeesClose # all_tasks_join @ [SupervisorReturns]) s))"
proof -
  let ?s0 = "fold (session_step cc) es session_init"
  let ?s = "session_step cc CloseRequested ?s0"
  have inv: "session_inv ?s" by (rule session_inv_step [OF session_system.inv_run])
  then have pinv: "pending_inv (cs_pending ?s)" by (simp add: session_inv_def)
  have sd: "cs_shutdown ?s" by (simp add: session_simps)
  with inv obtain f where f: "pr_terminal (cs_pending ?s) = Some f" by (auto simp: session_inv_def)
  have fin: "cs_done (fold (session_step cc) (SupervisorSeesClose # all_tasks_join @ [SupervisorReturns]) ?s)"
    using inv sd
    by (cases "cs_supervisor ?s"; simp add: all_tasks_join_def session_simps session_inv_def)
  have "(case hget (pr_leases (cs_pending ?s)) m of None \<Rightarrow> True
     | Some i \<Rightarrow> \<exists>reply. receive_lease m (flush_replies (cs_pending ?s)) = Some reply
         \<and> reply_fits (cs_pending ?s) i reply)"
    using flushed_answers [OF pinv, of m] f by (auto split: option.split)
  moreover have "register_pending request_id (cs_pending ?s) = (Inl (RegistryTerminated f), cs_pending ?s)"
    unfolding register_pending_def f option.case by (rule refl)
  ultimately have "\<exists>f. pr_terminal (cs_pending ?s) = Some f
       \<and> pr_terminal (cs_pending (fold (session_step cc) later ?s)) = Some f
       \<and> register_pending request_id (cs_pending ?s) = (Inl (RegistryTerminated f), cs_pending ?s)
       \<and> (case hget (pr_leases (cs_pending ?s)) m of None \<Rightarrow> True
         | Some i \<Rightarrow> \<exists>reply. receive_lease m (flush_replies (cs_pending ?s)) = Some reply
             \<and> reply_fits (cs_pending ?s) i reply)"
    using f steps_terminal [OF f, of cc later] by blast
  then show ?thesis using fin unfolding Let_def by blast
qed

section \<open>A call through the engine\<close>

definition handled_kind :: "rpc_kind \<Rightarrow> bool" where
  "handled_kind kind \<longleftrightarrow> kind \<notin> {KindUnspecified, Ping, GetEngineStatus, RestartEngine, Shutdown}"

lemma envelope_fields [simp]:
  "rq_request_id (request_envelope mac key now kind i payload) = i"
  "rq_schema_version (request_envelope mac key now kind i payload) = schema_version"
  "rq_kind (request_envelope mac key now kind i payload) = rpc_kind_number kind"
  "rq_payload (request_envelope mac key now kind i payload) = payload"
  by (simp_all add: request_envelope_def Let_def split: option.split)

lemma envelope_verifies:
  "verify_rpc_request_hmac mac (request_envelope mac (Some k) now kind i payload) k"
  by (simp add: request_envelope_def Let_def verify_rpc_request_hmac_def rpc_request_hmac_def)

lemma engine_accepts:
  assumes "resolve_hmac_key env (sv_config sv st) = Inr key" and "handled_kind kind"
  shows "handle_rpc_request mac env now sv (request_envelope mac key t kind i payload) st
    = sv_handle sv kind (request_envelope mac key t kind i payload) st"
proof -
  have "\<not> (case key of Some k \<Rightarrow>
      \<not> verify_rpc_request_hmac mac (request_envelope mac key t kind i payload) k | None \<Rightarrow> False)"
    by (cases key) (simp_all add: envelope_verifies)
  with assms show ?thesis
    by (cases kind)
       (simp_all add: handle_rpc_request_def handled_kind_def rpc_kind_roundtrip_lemma dispatch_rpc_def
          del: rpc_kind_number.simps split: option.splits)
qed

lemma reply_id [simp]: "rs_request_id (encode_reply mac key now encode i r) = i"
  by (simp add: encode_reply_def build_response_def response_signature_def rpc_error_response_def Let_def
      split: reply.split option.split sum.split)

definition client_outcome :: "'a reply \<Rightarrow> client_error + 'a" where
  "client_outcome r =
     (case r of
        ReplyOk x \<Rightarrow> Inr x
      | ReplyAccepted x \<Rightarrow> Inr x
      | ReplyError code message \<Rightarrow>
          Inl (RemoteFailed \<lparr>re_wire_code = Some (error_code_as_str code), re_known_code = Some code,
                             re_message = message\<rparr>))"

lemma finish_encoded:
  assumes "\<And>x. decode (encode x) = Inr x"
  shows "finish_request decode (Exchanged (Inr (encode_reply mac key now encode i r))) = client_outcome r"
  using assms
  by (simp add: finish_request_def client_outcome_def encode_reply_def build_response_def
      response_signature_def rpc_error_response_def status_ok_def status_accepted_def
      status_error_def from_engine_error_def error_code_round_trip Let_def
      split: reply.split option.split sum.split)

lemma exchange_delivers:
  assumes "pending_inv p" and "hget (pr_entries p) i = Some m" and "rs_request_id response = i"
  shows "receive_lease m (send_pending m (complete_pending response p)) = Some (Inr response)"
  using pending_entry [OF assms(1,2)] assms
  by (auto simp: complete_pending_def send_pending_def receive_lease_def Let_def dest!: hget_mem)
     (force dest: hget_mem)+

text \<open>
  C9: A call through the whole protocol: the engine, configured with the client's key, accepts
  the client's envelope and hands it to the handler of its kind; whatever the handler answers,
  the waiter registered under the request's identifier receives that reply, and the caller
  gets the handler's value, or the remote error with the code and the message it named.
\<close>

theorem call_returns_the_handlers_reply:
  assumes "pending_inv p" and "hget (pr_entries p) i = Some m"
    and "resolve_hmac_key env (sv_config sv st) = Inr key" and "handled_kind kind"
    and "fst (sv_handle sv kind (request_envelope mac key t kind i payload) st)
           = encode_reply mac (Inr key) now encode i r"
    and "decode_response (encode_response (encode_reply mac (Inr key) now encode i r))
           = Inr (encode_reply mac (Inr key) now encode i r)"
    and "\<And>x. decode (encode x) = Inr x"
  shows "(let response = fst (handle_rpc_request mac env now sv
                 (request_envelope mac key t kind i payload) st);
              q = send_pending m (snd (dispatch_rpc_response decode_response
                    [encode_response response] p))
          in receive_lease m q = Some (Inr response)
           \<and> finish_request decode (Exchanged (Inr response)) = client_outcome r
           \<and> (case r of
                ReplyError code message \<Rightarrow>
                  map_sum show_client_error id (client_outcome r)
                    = Inl (error_code_as_str code @ lit '': '' @ message)
              | _ \<Rightarrow> True))"
  using assms exchange_delivers [OF assms(1,2)]
  by (simp add: engine_accepts dispatch_rpc_response_def finish_encoded client_outcome_def
      show_remote_error_def Let_def split: reply.split)

definition sample_replying :: "nat reply \<Rightarrow> nat engine_services" where
  "sample_replying r = sample_services
     \<lparr>sv_handle := (\<lambda>k rq st. (encode_reply (\<lambda>k m. m) (Inr None) 0 (\<lambda>x. replicate x 1) (rq_request_id rq) r, st))\<rparr>"

lemma sample_registered:
  "pending_inv (pending_step (Register (lit ''r'')) pending_new)
   \<and> hget (pr_entries (pending_step (Register (lit ''r'')) pending_new)) (lit ''r'') = Some 0"
  using pending_system.inv_run [of "[Register (lit ''r'')]"]
  by (simp add: register_pending_def pending_new_def)

definition sample_response :: rpc_response where
  "sample_response = encode_reply (\<lambda>k m. m) (Inr None) 0 (\<lambda>x. replicate x 1) (lit ''r'') (ReplyOk 3)"

lemma call_returns_the_handlers_reply_witness:
  "receive_lease 0 (send_pending 0 (snd (dispatch_rpc_response (\<lambda>_. Inr sample_response) [[]]
       (pending_step (Register (lit ''r'')) pending_new)))) = Some (Inr sample_response)
   \<and> finish_request (\<lambda>b. Inr (length b)) (Exchanged (Inr sample_response)) = Inr 3"
proof -
  have r: "resolve_hmac_key sample_config_env (sv_config (sample_replying (ReplyOk 3)) 0) = Inr None"
    by (simp add: sample_replying_def sample_services_def sample_resolves)
  have k: "handled_kind GetConfig" by (simp add: handled_kind_def)
  let ?rq = "request_envelope (\<lambda>k m. m) None 0 GetConfig (lit ''r'') []"
  have h: "fst (sv_handle (sample_replying (ReplyOk 3)) GetConfig ?rq 0) = sample_response"
    by (simp add: sample_replying_def sample_response_def)
  have e: "fst (handle_rpc_request (\<lambda>k m. m) sample_config_env 0 (sample_replying (ReplyOk 3)) ?rq 0)
      = sample_response"
    unfolding engine_accepts [OF r k] by (rule h)
  show ?thesis
    using call_returns_the_handlers_reply [OF conjunct1 [OF sample_registered]
      conjunct2 [OF sample_registered] r k, where t = 0 and payload = "[]" and mac = "\<lambda>k m. m"
      and now = 0 and encode = "\<lambda>x. replicate x 1" and r = "ReplyOk 3"
      and decode = "\<lambda>b. Inr (length b)" and encode_response = "\<lambda>_. []"
      and decode_response = "\<lambda>_. Inr sample_response",
      unfolded e, folded sample_response_def, OF h]
    by (simp add: client_outcome_def Let_def del: pending_step.simps list.map)
qed

end
