(* ===== verification/Gui_Cache.thy ===== *)
theory Gui_Cache
  imports Weather_Data
begin

text \<open>
  The desktop application's weather cache
  (\<^verbatim>\<open>weather-renderer/gui/src-tauri/src/gui_cache.rs\<close>): one SQLite table with a row per
  station, holding the encoded snapshot of one local date. The message codec and the paths
  are other crates' code and the operating system's: they are parameters. Any SQLite or file
  operation may fail (\<open>fails\<close>, by the context the code gives the failure); a transaction that
  fails leaves the table as it was.
\<close>

section \<open>The table\<close>

definition gui_cache_schema_version :: int where "gui_cache_schema_version = 1"
definition max_snapshot_bytes :: nat where "max_snapshot_bytes = 4 * 1024 * 1024"
definition gui_cache_file_name :: ustring where "gui_cache_file_name = lit ''weather-gui.db''"

record gui_row =
  gw_date :: ustring
  gw_cached_at :: int
  gw_snapshot :: "byte list"

record gui_database =
  gd_version :: int
  gd_rows :: "(ustring, gui_row) hmap"

datatype gui_error =
    GuiFailed ustring | GuiTooLarge ustring | GuiSchemaUnsupported int | GuiNoParent

record 'f snapshot_codec =
  sc_encode :: "'f weather_snapshot \<Rightarrow> byte list"
  sc_decode :: "byte list \<Rightarrow> 'f weather_snapshot option"

text \<open>Where the file is: the explicit path, made absolute, or beside the GUI's configuration.\<close>

definition derive_gui_cache_path ::
  "('p \<Rightarrow> bool) \<Rightarrow> ('p \<Rightarrow> 'p \<Rightarrow> 'p) \<Rightarrow> ('p \<Rightarrow> 'p option) \<Rightarrow> (ustring \<Rightarrow> 'p)
     \<Rightarrow> 'p option \<Rightarrow> 'p \<Rightarrow> 'p \<Rightarrow> gui_error + 'p" where
  "derive_gui_cache_path is_absolute path_join parent path explicit gui_config_path current_dir =
     (case explicit of
        Some p \<Rightarrow> Inr (if is_absolute p then p else path_join current_dir p)
      | None \<Rightarrow>
          (case parent gui_config_path of
             None \<Rightarrow> Inl GuiNoParent
           | Some dir \<Rightarrow> Inr (path_join dir (path gui_cache_file_name))))"

section \<open>What is cached of a snapshot\<close>

definition strip_alert_links :: "weather_alert \<Rightarrow> weather_alert" where
  "strip_alert_links a = a\<lparr>wa_url := None, wa_icon_url := None, wa_icon_resource_id := None\<rparr>"

definition cached_form :: "'f weather_snapshot \<Rightarrow> 'f weather_snapshot" where
  "cached_form s = s\<lparr>ws_radar := None, ws_debug := None,
     ws_real := map_option (\<lambda>real. real\<lparr>ow_alerts := map strip_alert_links (ow_alerts real)\<rparr>) (ws_real s),
     ws_stale := True\<rparr>"

definition prepare_for_cache ::
  "'f snapshot_codec \<Rightarrow> 'f weather_snapshot \<Rightarrow> gui_error + (ustring \<times> 'f weather_snapshot) option" where
  "prepare_for_cache codec snapshot =
     (if ws_stale snapshot then Inr None
      else case map_option (\<lambda>st. trim (sr_name st)) (ws_station snapshot) of
        None \<Rightarrow> Inr None
      | Some name \<Rightarrow>
          if name = [] then Inr None
          else if length (sc_encode codec (cached_form snapshot)) > max_snapshot_bytes
          then Inl (GuiTooLarge name)
          else Inr (Some (name, cached_form snapshot)))"

section \<open>Opening, reading, writing\<close>

type_synonym gui_faults = "ustring \<Rightarrow> bool"

fun stages :: "gui_faults \<Rightarrow> ustring list \<Rightarrow> gui_error + unit" where
  "stages fails [] = Inr ()"
| "stages fails (s # ss) = (if fails s then Inl (GuiFailed s) else stages fails ss)"

definition gui_open :: "gui_faults \<Rightarrow> gui_database \<Rightarrow> gui_error + gui_database" where
  "gui_open fails db =
     (case stages fails
         [lit ''create GUI cache directory'', lit ''open GUI cache'', lit ''busy timeout'',
          lit ''WAL'', lit ''synchronization'', lit ''read schema version''] of
        Inl e \<Rightarrow> Inl e
      | Inr u \<Rightarrow>
          if gd_version db = 0 then
            (if fails (lit ''initialize schema'') then Inl (GuiFailed (lit ''initialize schema''))
             else Inr (db\<lparr>gd_version := gui_cache_schema_version\<rparr>))
          else if gd_version db = gui_cache_schema_version then Inr db
          else Inl (GuiSchemaUnsupported (gd_version db)))"

text \<open>A row of the date's query: the snapshot to serve, or \<open>None\<close> when it is to be pruned.\<close>

definition usable_row ::
  "'f snapshot_codec \<Rightarrow> ustring list \<Rightarrow> ustring \<times> gui_row \<Rightarrow> 'f weather_snapshot option" where
  "usable_row codec names r =
     (if fst r \<notin> set names then None
      else if length (gw_snapshot (snd r)) > max_snapshot_bytes then None
      else case sc_decode codec (gw_snapshot (snd r)) of
        None \<Rightarrow> None
      | Some snapshot \<Rightarrow>
          (let decoded_name = (case ws_station snapshot of None \<Rightarrow> [] | Some st \<Rightarrow> sr_name st)
           in if decoded_name \<noteq> fst r then None
              else Some (snapshot\<lparr>ws_stale := True, ws_radar := None, ws_debug := None\<rparr>)))"

definition prune_dates :: "ustring \<Rightarrow> (ustring, gui_row) hmap \<Rightarrow> (ustring, gui_row) hmap" where
  "prune_dates local_date rows = filter (\<lambda>r. gw_date (snd r) = local_date) rows"

definition load_for_date ::
  "gui_faults \<Rightarrow> 'f snapshot_codec \<Rightarrow> ustring \<Rightarrow> ustring list \<Rightarrow> gui_database
     \<Rightarrow> (gui_error + 'f weather_snapshot list) \<times> gui_database" where
  "load_for_date fails codec local_date names db =
     (let rows = prune_dates local_date (gd_rows db);
          ordered = sort_key fst rows;
          snapshots = List.map_filter (usable_row codec names) ordered;
          prune = map fst (filter (\<lambda>r. usable_row codec names r = None) ordered)
      in case stages fails
           [lit ''start read transaction'', lit ''prune expired'', lit ''prepare read'', lit ''query'',
            lit ''read row'', lit ''prune unusable'', lit ''commit pruning''] of
           Inl e \<Rightarrow> (Inl e, db)
         | Inr u \<Rightarrow> (Inr snapshots, db\<lparr>gd_rows := fold hdel prune rows\<rparr>))"

definition upsert_snapshot ::
  "ustring \<Rightarrow> gui_row \<Rightarrow> (ustring, gui_row) hmap \<Rightarrow> (ustring, gui_row) hmap" where
  "upsert_snapshot station_name row rows =
     (case hget rows station_name of
        None \<Rightarrow> hput station_name row rows
      | Some old \<Rightarrow>
          if gw_date old \<noteq> gw_date row \<or> gw_snapshot old \<noteq> gw_snapshot row
          then hput station_name row rows else rows)"

text \<open>The clock gives milliseconds since the epoch, or nothing before it.\<close>

definition store_row ::
  "gui_faults \<Rightarrow> 'f snapshot_codec \<Rightarrow> nat option \<Rightarrow> ustring \<Rightarrow> ustring \<Rightarrow> 'f weather_snapshot
     \<Rightarrow> gui_database \<Rightarrow> (gui_error + unit) \<times> gui_database" where
  "store_row fails codec now local_date station_name snapshot db =
     (case now of
        None \<Rightarrow> (Inl (GuiFailed (lit ''system clock is before Unix epoch'')), db)
      | Some ms \<Rightarrow>
          if int ms > i64_max then
            (Inl (GuiFailed (lit ''GUI cache timestamp exceeds SQLite integer range'')), db)
          else case stages fails
              [lit ''start write transaction'', lit ''prune expired'', lit ''cache GUI weather'',
               lit ''commit cache''] of
            Inl e \<Rightarrow> (Inl e, db)
          | Inr u \<Rightarrow>
              (Inr (), db\<lparr>gd_rows := upsert_snapshot station_name
                   \<lparr>gw_date = local_date, gw_cached_at = int ms,
                    gw_snapshot = sc_encode codec snapshot\<rparr>
                   (prune_dates local_date (gd_rows db))\<rparr>))"

definition cache_store ::
  "gui_faults \<Rightarrow> 'f snapshot_codec \<Rightarrow> nat option \<Rightarrow> ustring \<Rightarrow> 'f weather_snapshot \<Rightarrow> gui_database
     \<Rightarrow> (gui_error + bool) \<times> gui_database" where
  "cache_store fails codec now local_date snapshot db =
     (case prepare_for_cache codec snapshot of
        Inl e \<Rightarrow> (Inl e, db)
      | Inr None \<Rightarrow> (Inr False, db)
      | Inr (Some (station_name, prepared)) \<Rightarrow>
          (case gui_open fails db of
             Inl e \<Rightarrow> (Inl e, db)
           | Inr db1 \<Rightarrow>
               (case store_row fails codec now local_date station_name prepared db1 of
                  (Inl e, db2) \<Rightarrow> (Inl e, db2)
                | (Inr u, db2) \<Rightarrow> (Inr True, db2))))"

definition load_today ::
  "gui_faults \<Rightarrow> 'f snapshot_codec \<Rightarrow> ustring \<Rightarrow> ustring list \<Rightarrow> gui_database
     \<Rightarrow> (gui_error + 'f weather_snapshot list) \<times> gui_database" where
  "load_today fails codec local_date names db =
     (case gui_open fails db of
        Inl e \<Rightarrow> (Inl e, db)
      | Inr db1 \<Rightarrow> load_for_date fails codec local_date names db1)"

section \<open>The table as a register per station\<close>

lemma hget_upsert_snapshot:
  assumes "gw_date row = d" and "\<And>n r. hget rows n = Some r \<Longrightarrow> gw_date r = d"
  shows "map_option gw_snapshot (hget (upsert_snapshot n row rows) k)
    = (if k = n then Some (gw_snapshot row) else map_option gw_snapshot (hget rows k))"
  using assms by (auto simp: upsert_snapshot_def split: option.split)

lemma upsert_ok: "hkeys_ok rows \<Longrightarrow> hkeys_ok (upsert_snapshot n row rows)"
  by (simp add: upsert_snapshot_def split: option.split)

definition gui_ok :: "gui_database \<Rightarrow> bool" where
  "gui_ok db \<longleftrightarrow> hkeys_ok (gd_rows db)"

lemma hkeys_ok_fold_del: "hkeys_ok m \<Longrightarrow> hkeys_ok (fold hdel ks m)"
  by (induction ks arbitrary: m) auto

lemma fold_hdel: "fold hdel ks m = filter (\<lambda>r. fst r \<notin> set ks) m"
  by (induction ks arbitrary: m) (auto simp: AList.delete_eq intro: filter_cong)

lemma gui_ok_load: "gui_ok db \<Longrightarrow> gui_ok (snd (load_today fails codec d names db))"
  by (auto simp: gui_ok_def load_today_def load_for_date_def gui_open_def prune_dates_def Let_def
      hkeys_ok_fold_del simp del: stages.simps split: sum.split)

lemma gui_ok_store: "gui_ok db \<Longrightarrow> gui_ok (snd (cache_store fails codec now d s db))"
  by (auto simp: gui_ok_def cache_store_def store_row_def gui_open_def prune_dates_def Let_def
      upsert_ok simp del: stages.simps split: sum.split option.split)

text \<open>After a load only the served rows are left.\<close>

lemma load_rows:
  assumes "gui_ok db"
  shows "fold hdel (map fst (filter (\<lambda>r. usable_row codec names r = None)
           (sort_key fst (prune_dates d (gd_rows db))))) (prune_dates d (gd_rows db))
    = filter (\<lambda>r. usable_row codec names r \<noteq> None) (prune_dates d (gd_rows db))"
proof -
  let ?rows = "prune_dates d (gd_rows db)"
  have dist: "distinct (map fst ?rows)"
    using assms by (simp add: gui_ok_def hkeys_ok_def prune_dates_def distinct_map_filter)
  have "fst r \<notin> fst ` {r \<in> set ?rows. usable_row codec names r = None}
      \<longleftrightarrow> usable_row codec names r \<noteq> None" if "r \<in> set ?rows" for r
    using that dist
    by (subst inj_on_image_mem_iff [of fst "set ?rows"]) (auto simp: distinct_map)
  then show ?thesis
    by (simp add: fold_hdel cong: filter_cong)
qed

section \<open>Loading\<close>

definition served_name :: "'f weather_snapshot \<Rightarrow> ustring" where
  "served_name s = (case ws_station s of None \<Rightarrow> [] | Some st \<Rightarrow> sr_name st)"

definition served ::
  "'f snapshot_codec \<Rightarrow> ustring \<Rightarrow> ustring list \<Rightarrow> (ustring, gui_row) hmap \<Rightarrow> 'f weather_snapshot list" where
  "served codec d names rows = List.map_filter (usable_row codec names) (sort_key fst (prune_dates d rows))"

definition kept ::
  "'f snapshot_codec \<Rightarrow> ustring \<Rightarrow> ustring list \<Rightarrow> (ustring, gui_row) hmap \<Rightarrow> (ustring, gui_row) hmap" where
  "kept codec d names rows = filter (\<lambda>r. usable_row codec names r \<noteq> None) (prune_dates d rows)"

lemma load_today_Inr:
  assumes "gui_ok db" and "load_today fails codec d names db = (Inr L, db')"
  shows "L = served codec d names (gd_rows db)" "gd_rows db' = kept codec d names (gd_rows db)"
    "gd_version db' = gui_cache_schema_version"
  using assms load_rows [OF assms(1)]
  by (auto simp: load_today_def load_for_date_def gui_open_def served_def kept_def Let_def
      simp del: stages.simps split: sum.splits if_splits)

lemma stages_healthy [simp]: "stages (\<lambda>_. False) ss = Inr ()"
  by (induction ss) simp_all

lemma load_today_healthy:
  assumes "gui_ok db" and "gd_version db = 0 \<or> gd_version db = gui_cache_schema_version"
  shows "load_today (\<lambda>_. False) codec d names db
    = (Inr (served codec d names (gd_rows db)),
       \<lparr>gd_version = gui_cache_schema_version, gd_rows = kept codec d names (gd_rows db)\<rparr>)"
  using assms load_rows [OF assms(1)]
  by (cases db) (auto simp: load_today_def load_for_date_def gui_open_def served_def kept_def Let_def
      gui_cache_schema_version_def simp del: stages.simps)

lemma usable_row_Some:
  "usable_row codec names r = Some s \<Longrightarrow> fst r \<in> set names \<and> served_name s = fst r
     \<and> ws_stale s \<and> ws_radar s = None \<and> ws_debug s = None"
  by (auto simp: usable_row_def served_name_def Let_def split: if_splits option.splits)

lemma served_names:
  "map served_name (served codec d names rows) = map fst (sort_key fst (kept codec d names rows))"
proof -
  have "map served_name (List.map_filter (usable_row codec names) rs)
      = map fst (filter (\<lambda>r. usable_row codec names r \<noteq> None) rs)" for rs
    by (induction rs) (auto simp: map_filter_simps dest: usable_row_Some split: option.split)
  then show ?thesis by (simp add: served_def kept_def filter_sort)
qed

lemma served_members: "s \<in> set (served codec d names rows) \<longleftrightarrow>
    (\<exists>r \<in> set rows. gw_date (snd r) = d \<and> usable_row codec names r = Some s)"
  by (force simp: served_def prune_dates_def map_filter_def)

lemma kept_prune [simp]:
  "prune_dates d (kept codec d names rows) = kept codec d names rows"
  "kept codec d names (kept codec d names rows) = kept codec d names rows"
  by (auto simp: kept_def prune_dates_def intro: filter_cong)

lemma served_kept [simp]: "served codec d names (kept codec d names rows) = served codec d names rows"
proof -
  have "List.map_filter f (filter (\<lambda>r. f r \<noteq> None) rs) = List.map_filter f rs" for f :: "_ \<Rightarrow> 'a weather_snapshot option" and rs
    by (induction rs) (auto simp: map_filter_simps split: option.split)
  then show ?thesis
    by (simp add: served_def) (simp add: kept_def filter_sort [symmetric])
qed

lemma sorted_distinct_strict: "sorted xs \<Longrightarrow> distinct xs \<Longrightarrow> sorted_wrt (<) (xs :: 'a :: linorder list)"
  by (simp add: strict_sorted_iff)

lemma kept_sorted:
  assumes "gui_ok db"
  shows "sorted_wrt (<) (map fst (sort_key fst (kept codec d names (gd_rows db))))"
proof (rule sorted_distinct_strict)
  show "distinct (map fst (sort_key fst (kept codec d names (gd_rows db))))"
    using assms
    by (intro distinct_sort_key) (simp add: gui_ok_def hkeys_ok_def kept_def prune_dates_def distinct_map_filter)
qed simp

text \<open>
  Also: Whatever the cache file holds, a load serves only rows of the asked date: each requested
  station at most once, in the order of the names, marked stale and without radar or debug
  data; every other row is gone afterwards, and loading again gives the same. A load that
  fails leaves the table as it was.
\<close>

theorem gui_load_serves_only_current_rows:
  assumes "gui_ok db"
  shows "(case load_today fails codec d names db of
       (Inl e, db') \<Rightarrow> gd_rows db' = gd_rows db
     | (Inr L, db') \<Rightarrow>
         sorted_wrt (<) (map served_name L)
         \<and> list_all (\<lambda>s. served_name s \<in> set names \<and> ws_stale s \<and> ws_radar s = None \<and> ws_debug s = None) L
         \<and> list_all (\<lambda>r. gw_date (snd r) = d \<and> usable_row codec names r \<noteq> None) (gd_rows db')
         \<and> load_today (\<lambda>_. False) codec d names db' = (Inr L, db'))"
proof (cases "load_today fails codec d names db")
  case (Pair res db')
  show ?thesis
  proof (cases res)
    case (Inl e)
    with Pair show ?thesis
      by (auto simp: load_today_def load_for_date_def gui_open_def Let_def simp del: stages.simps
          split: sum.splits if_splits)
  next
    case (Inr L)
    note ld = load_today_Inr [OF assms Pair [unfolded Inr]]
    have ok': "gui_ok db'" using gui_ok_load [OF assms] Pair by (metis snd_conv)
    have "list_all (\<lambda>s. served_name s \<in> set names \<and> ws_stale s \<and> ws_radar s = None \<and> ws_debug s = None) L"
      unfolding list_all_iff ld(1) by (auto simp: served_members dest!: usable_row_Some)
    moreover have "list_all (\<lambda>r. gw_date (snd r) = d \<and> usable_row codec names r \<noteq> None) (gd_rows db')"
      by (simp add: ld(2) list_all_iff kept_def prune_dates_def)
    moreover have "load_today (\<lambda>_. False) codec d names db' = (Inr L, db')"
      using load_today_healthy [OF ok', of codec d names] ld by (cases db') simp
    moreover have "sorted_wrt (<) (map served_name L)"
      unfolding ld(1) served_names by (rule kept_sorted [OF assms])
    ultimately show ?thesis using Pair Inr by simp
  qed
qed

section \<open>Storing\<close>

text \<open>
  Store operations with their faults, clock and snapshot, beside the register they should
  implement: the newest stored form of each station, updated exactly when a store reports
  that it cached.
\<close>

definition store_op ::
  "'f snapshot_codec \<Rightarrow> ustring \<Rightarrow> gui_faults \<times> nat option \<times> 'f weather_snapshot
     \<Rightarrow> gui_database \<times> (ustring \<Rightarrow> 'f weather_snapshot option)
     \<Rightarrow> gui_database \<times> (ustring \<Rightarrow> 'f weather_snapshot option)" where
  "store_op codec d op st =
     (let (r, db) = cache_store (fst op) codec (fst (snd op)) d (snd (snd op)) (fst st)
      in (db, case (r, prepare_for_cache codec (snd (snd op))) of
                (Inr True, Inr (Some (n, p))) \<Rightarrow> (snd st)(n \<mapsto> p)
              | _ \<Rightarrow> snd st))"

definition gui_cache_new :: gui_database where
  "gui_cache_new = \<lparr>gd_version = 0, gd_rows = []\<rparr>"

definition register_ok ::
  "'f snapshot_codec \<Rightarrow> ustring \<Rightarrow> gui_database \<times> (ustring \<Rightarrow> 'f weather_snapshot option) \<Rightarrow> bool" where
  "register_ok codec d st \<longleftrightarrow> gui_ok (fst st)
     \<and> (gd_version (fst st) = 0 \<or> gd_version (fst st) = gui_cache_schema_version)
     \<and> (\<forall>n r. hget (gd_rows (fst st)) n = Some r \<longrightarrow> gw_date r = d)
     \<and> (\<forall>n. map_option gw_snapshot (hget (gd_rows (fst st)) n) = map_option (sc_encode codec) (snd st n))
     \<and> (\<forall>n p. snd st n = Some p \<longrightarrow> length (sc_encode codec p) \<le> max_snapshot_bytes
           \<and> ws_stale p \<and> ws_radar p = None \<and> ws_debug p = None)"

lemma already_stripped:
  "ws_stale p \<Longrightarrow> ws_radar p = None \<Longrightarrow> ws_debug p = None
   \<Longrightarrow> p\<lparr>ws_stale := True, ws_radar := None, ws_debug := None\<rparr> = p"
  by (cases p) simp

lemma prune_same: "(\<And>n r. hget rows n = Some r \<Longrightarrow> gw_date r = d) \<Longrightarrow> hkeys_ok rows \<Longrightarrow> prune_dates d rows = rows"
  by (auto simp: prune_dates_def filter_id_conv mem_hget_iff)

lemma prepared_form:
  "prepare_for_cache codec s = Inr (Some (n, p)) \<Longrightarrow> p = cached_form s
     \<and> length (sc_encode codec p) \<le> max_snapshot_bytes \<and> ws_stale p \<and> ws_radar p = None \<and> ws_debug p = None"
  by (auto simp: prepare_for_cache_def cached_form_def split: if_splits option.splits)

lemma store_cases:
  assumes "cache_store fails codec now d s db = (r, db')" and "gui_ok db"
    and rows: "\<And>n r. hget (gd_rows db) n = Some r \<Longrightarrow> gw_date r = d"
    and "gd_version db = 0 \<or> gd_version db = gui_cache_schema_version"
  shows "(gd_version db' = 0 \<or> gd_version db' = gui_cache_schema_version)
    \<and> ((r \<noteq> Inr True \<and> gd_rows db' = gd_rows db)
      \<or> (\<exists>n p c. r = Inr True \<and> prepare_for_cache codec s = Inr (Some (n, p))
            \<and> gd_rows db' = upsert_snapshot n \<lparr>gw_date = d, gw_cached_at = c, gw_snapshot = sc_encode codec p\<rparr>
                 (gd_rows db)))"
proof -
  have pr: "prune_dates d (gd_rows db) = gd_rows db"
    using assms(2) by (intro prune_same rows) (simp_all add: gui_ok_def)
  from assms(1,4) pr show ?thesis
    by (auto simp: cache_store_def store_row_def gui_open_def gui_cache_schema_version_def
        simp del: stages.simps split: sum.splits option.splits prod.splits if_splits)
qed

lemma register_ok_step:
  assumes "register_ok codec d st"
  shows "register_ok codec d (store_op codec d op st)"
proof -
  obtain fails now s where op: "op = (fails, now, s)" by (cases op)
  obtain db reg where st: "st = (db, reg)" by (cases st)
  obtain r db' where cs: "cache_store fails codec now d s db = (r, db')"
    by (cases "cache_store fails codec now d s db")
  have ok': "gui_ok db'" using gui_ok_store [of db fails codec now d s] assms cs
    by (simp add: st register_ok_def)
  note inv = assms [unfolded st register_ok_def fst_conv snd_conv]
  from store_cases [OF cs] inv
  have c': "gd_version db' = 0 \<or> gd_version db' = gui_cache_schema_version"
    and "(r \<noteq> Inr True \<and> gd_rows db' = gd_rows db)
      \<or> (\<exists>n p c. r = Inr True \<and> prepare_for_cache codec s = Inr (Some (n, p))
            \<and> gd_rows db' = upsert_snapshot n \<lparr>gw_date = d, gw_cached_at = c, gw_snapshot = sc_encode codec p\<rparr>
                 (gd_rows db))"
    by blast+
  then consider "r \<noteq> Inr True" "gd_rows db' = gd_rows db"
    | n p c where "r = Inr True" "prepare_for_cache codec s = Inr (Some (n, p))"
        "gd_rows db' = upsert_snapshot n \<lparr>gw_date = d, gw_cached_at = c, gw_snapshot = sc_encode codec p\<rparr>
           (gd_rows db)"
    by blast
  then show ?thesis
  proof cases
    case 1
    then have "store_op codec d op st = (db', reg)"
      by (auto simp: store_op_def op st cs split: sum.split bool.split option.split)
    with 1 c' ok' inv show ?thesis by (simp add: register_ok_def)
  next
    case 2
    let ?row = "\<lparr>gw_date = d, gw_cached_at = c, gw_snapshot = sc_encode codec p\<rparr>"
    from 2 have so: "store_op codec d op st = (db', reg(n \<mapsto> p))" by (simp add: store_op_def op st cs)
    have v: "\<forall>k. map_option gw_snapshot (hget (gd_rows db') k)
        = map_option (sc_encode codec) ((reg(n \<mapsto> p)) k)"
      using hget_upsert_snapshot [of ?row d "gd_rows db" n] inv 2 by simp
    have dt: "\<forall>k r'. hget (gd_rows db') k = Some r' \<longrightarrow> gw_date r' = d"
      using inv unfolding 2(3) upsert_snapshot_def by (auto split: option.splits if_splits)
    have pf: "\<forall>k q. (reg(n \<mapsto> p)) k = Some q \<longrightarrow> length (sc_encode codec q) \<le> max_snapshot_bytes
        \<and> ws_stale q \<and> ws_radar q = None \<and> ws_debug q = None"
      using inv prepared_form [OF 2(2)] by (auto split: if_splits)
    show ?thesis
      unfolding so register_ok_def fst_conv snd_conv using v dt pf c' ok' by blast
  qed
qed

lemma register_ok_new: "register_ok codec d (gui_cache_new, \<lambda>_. None)"
  by (simp add: register_ok_def gui_cache_new_def gui_ok_def)

interpretation gui_register: invariant_system "(gui_cache_new, \<lambda>_. None)" "store_op codec d" "register_ok codec d"
  for codec :: "'f snapshot_codec" and d
  by unfold_locales (rule register_ok_new, rule register_ok_step)

lemma register_values:
  "snd (fold (store_op codec d) ops st) n = Some p
   \<Longrightarrow> snd st n = Some p \<or> (\<exists>op \<in> set ops. p = cached_form (snd (snd op)))"
proof (induction ops arbitrary: st)
  case (Cons op ops)
  then have "snd (store_op codec d op st) n = Some p \<or> (\<exists>op \<in> set ops. p = cached_form (snd (snd op)))"
    by simp
  then show ?case
    by (auto simp: store_op_def case_prod_beta dest: prepared_form
        split: sum.splits bool.splits option.splits if_splits)
qed simp

text \<open>
  C27: The cache is a register per station: after any stores of a day, with any failures among
  them, loading that day gives, for exactly the requested stations, the newest snapshot whose
  store reported success (in its cached form: stale, without radar, debug data and alert
  links), provided its station name has no outer spaces; on another day it gives nothing.
\<close>

theorem gui_cache_is_a_register_per_station:
  fixes codec :: "'f snapshot_codec"
  assumes "\<And>s. s \<in> set (map (\<lambda>op. cached_form (snd (snd op))) ops)
      \<Longrightarrow> sc_decode codec (sc_encode codec s) = Some s"
  shows "(let (db, reg) = fold (store_op codec d) ops (gui_cache_new, \<lambda>_. None)
    in (case load_today (\<lambda>_. False) codec d' names db of
          (Inl e, _) \<Rightarrow> False
        | (Inr L, _) \<Rightarrow>
            sorted_wrt (<) (map served_name L)
            \<and> set L = {p. d' = d \<and> (\<exists>n \<in> set names. reg n = Some p \<and> served_name p = n)}))"
proof -
  let ?st = "fold (store_op codec d) ops (gui_cache_new, \<lambda>_. None)"
  obtain db reg where st: "?st = (db, reg)" by (cases ?st)
  note inv = gui_register.inv_run [of codec d ops, unfolded st register_ok_def fst_conv snd_conv]
  have row: "usable_row codec names (n, r) = Some s \<longleftrightarrow> n \<in> set names \<and> reg n = Some s \<and> served_name s = n"
    if "hget (gd_rows db) n = Some r" for n r s
  proof -
    have "map_option gw_snapshot (hget (gd_rows db) n) = map_option (sc_encode codec) (reg n)"
      using inv by blast
    with that obtain p where p: "reg n = Some p" "gw_snapshot r = sc_encode codec p"
      by (cases "reg n") auto
    with inv have "length (gw_snapshot r) \<le> max_snapshot_bytes" by auto
    moreover have "p\<lparr>ws_stale := True, ws_radar := None, ws_debug := None\<rparr> = p"
      using inv p(1) by (intro already_stripped) auto
    ultimately have "length (gw_snapshot r) \<le> max_snapshot_bytes"
      "p\<lparr>ws_stale := True, ws_radar := None, ws_debug := None\<rparr> = p" by blast+
    moreover have "sc_decode codec (sc_encode codec p) = Some p"
      using register_values [of codec d ops "(gui_cache_new, \<lambda>_. None)" n p] p(1)
      by (intro assms) (auto simp: st)
    ultimately show ?thesis using p
      by (auto simp: usable_row_def served_name_def Let_def not_less)
  qed
  have rows: "(n, r) \<in> set (gd_rows db) \<longleftrightarrow> hget (gd_rows db) n = Some r" for n r
    using inv by (simp add: gui_ok_def mem_hget_iff)
  have "set (served codec d' names (gd_rows db))
      = {p. d' = d \<and> (\<exists>n \<in> set names. reg n = Some p \<and> served_name p = n)}"
  proof (intro set_eqI iffI)
    fix s assume "s \<in> set (served codec d' names (gd_rows db))"
    then obtain n r where "hget (gd_rows db) n = Some r" "gw_date r = d'" "usable_row codec names (n, r) = Some s"
      by (auto simp: served_members rows)
    with row inv show "s \<in> {p. d' = d \<and> (\<exists>n \<in> set names. reg n = Some p \<and> served_name p = n)}" by auto
  next
    fix s assume "s \<in> {p. d' = d \<and> (\<exists>n \<in> set names. reg n = Some p \<and> served_name p = n)}"
    then obtain n where n: "d' = d" "n \<in> set names" "reg n = Some s" "served_name s = n" by auto
    have "map_option gw_snapshot (hget (gd_rows db) n) = map_option (sc_encode codec) (reg n)"
      using inv by blast
    with n(3) obtain r where "hget (gd_rows db) n = Some r" by (cases "hget (gd_rows db) n") auto
    with row inv n show "s \<in> set (served codec d' names (gd_rows db))"
      by (auto simp: served_members rows intro!: bexI [of _ "(n, r)"])
  qed
  moreover have "sorted_wrt (<) (map served_name (served codec d' names (gd_rows db)))"
    unfolding served_names using inv by (intro kept_sorted) simp
  moreover have "load_today (\<lambda>_. False) codec d' names db
      = (Inr (served codec d' names (gd_rows db)),
         \<lparr>gd_version = gui_cache_schema_version, gd_rows = kept codec d' names (gd_rows db)\<rparr>)"
    using inv by (intro load_today_healthy) simp_all
  ultimately show ?thesis by (simp add: st)
qed

definition blank_snapshot :: "ustring \<Rightarrow> unit weather_snapshot" where
  "blank_snapshot name = \<lparr>ws_station = Some \<lparr>sr_province = [], sr_city = [], sr_name = name,
       sr_unified_uuid = []\<rparr>, ws_real = None, ws_predict = None, ws_air = None, ws_tempchart = [],
     ws_passedchart = [], ws_climate = None, ws_radar = None, ws_stale = False, ws_debug = None\<rparr>"

definition blank_codec :: "unit snapshot_codec" where
  "blank_codec = \<lparr>sc_encode = (\<lambda>_. [1]), sc_decode = (\<lambda>_. Some (cached_form (blank_snapshot (lit ''a''))))\<rparr>"

definition yesterday :: gui_database where
  "yesterday = \<lparr>gd_version = 1, gd_rows = [(lit ''a'',
     \<lparr>gw_date = lit ''c'', gw_cached_at = 0, gw_snapshot = []\<rparr>)]\<rparr>"

lemma gui_load_serves_only_current_rows_witness:
  "(case load_today (\<lambda>_. False) blank_codec (lit ''d'') [] yesterday of
       (Inl e, db') \<Rightarrow> True
     | (Inr L, db') \<Rightarrow> list_all (\<lambda>r. gw_date (snd r) = lit ''d'') (gd_rows db'))"
proof -
  have "gui_ok yesterday" by (simp add: gui_ok_def hkeys_ok_def yesterday_def)
  from gui_load_serves_only_current_rows [OF this, where fails = "\<lambda>_. False" and codec = blank_codec
      and d = "lit ''d''" and names = "[]"]
  show ?thesis
    by (cases "load_today (\<lambda>_. False) blank_codec (lit ''d'') [] yesterday")
       (auto split: sum.splits elim!: list.pred_mono_strong)
qed

lemma gui_cache_is_a_register_per_station_witness:
  "(case load_today (\<lambda>_. False) blank_codec (lit ''d'') [lit ''a'']
       (fst (store_op blank_codec (lit ''d'') (\<lambda>_. False, Some 5, blank_snapshot (lit ''a''))
          (gui_cache_new, \<lambda>_. None))) of
       (Inl e, _) \<Rightarrow> False
     | (Inr L, _) \<Rightarrow> set L = {cached_form (blank_snapshot (lit ''a''))})"
proof -
  let ?s = "blank_snapshot (lit ''a'')"
  have p: "prepare_for_cache blank_codec ?s = Inr (Some (lit ''a'', cached_form ?s))"
    by (simp add: prepare_for_cache_def blank_snapshot_def blank_codec_def max_snapshot_bytes_def
        trim_def is_whitespace_def)
  have sn: "served_name (cached_form ?s) = lit ''a''"
    by (simp add: served_name_def cached_form_def blank_snapshot_def)
  have r: "snd (store_op blank_codec (lit ''d'') (\<lambda>_. False, Some 5, ?s) (gui_cache_new, \<lambda>_. None))
      = [lit ''a'' \<mapsto> cached_form ?s]"
    by (simp add: store_op_def cache_store_def p gui_open_def gui_cache_new_def store_row_def i64_max_def
        case_prod_beta del: list.map stages.simps)
  let ?st = "store_op blank_codec (lit ''d'') (\<lambda>_. False, Some 5, ?s) (gui_cache_new, \<lambda>_. None)"
  have dec: "sc_decode blank_codec b = Some (cached_form ?s)" for b by (simp add: blank_codec_def)
  obtain db where st: "?st = (db, [lit ''a'' \<mapsto> cached_form ?s])" using r by (cases ?st) simp
  have "(\<Union>n \<in> {lit ''a''}. {p. [lit ''a'' \<mapsto> cached_form ?s] n = Some p \<and> served_name p = n})
      = {cached_form ?s}" using sn by auto
  then have one: "{p. \<exists>n \<in> set [lit ''a'']. [lit ''a'' \<mapsto> cached_form ?s] n = Some p \<and> served_name p = n}
      = {cached_form ?s}" by auto
  have prem: "sc_decode blank_codec (sc_encode blank_codec s) = Some s"
    if "s \<in> set (map (\<lambda>op. cached_form (snd (snd op))) [((\<lambda>_. False) :: gui_faults, Some (5 :: nat), ?s)])" for s
    using that by (simp add: dec)
  note t = gui_cache_is_a_register_per_station [where codec = blank_codec and d = "lit ''d''"
      and d' = "lit ''d''" and names = "[lit ''a'']" and ops = "[(\<lambda>_. False, Some 5, ?s)]", OF prem]
  have f: "fold (store_op blank_codec (lit ''d'')) [(\<lambda>_. False, Some 5, ?s)] (gui_cache_new, \<lambda>_. None)
      = (db, [lit ''a'' \<mapsto> cached_form ?s])" by (simp add: st del: list.map)
  obtain res x where ld: "load_today (\<lambda>_. False) blank_codec (lit ''d'') [lit ''a''] db = (res, x)"
    by (cases "load_today (\<lambda>_. False) blank_codec (lit ''d'') [lit ''a''] db")
  show ?thesis
    using t [unfolded f, simplified Let_def prod.case ld] one
    by (cases res) (simp_all add: st ld del: list.map list.set fun_upd_apply)
qed

end
