(* ===== verification/Engine_Lock.thy ===== *)
theory Engine_Lock
  imports Prelude
begin

text \<open>
  The lock files of the engine and of its database (\<^verbatim>\<open>weather-core/engine/src/lock.rs\<close>):
  opening, locking, checking that the path still names the locked file, writing the launch
  metadata, checking again. Processes interleave at every system call, and anyone may unlink
  or replace the file at the path. A file is its inode number; advisory locks belong to open
  files, are exclusive per inode, and the operating system releases them when their process
  ends.
\<close>

section \<open>Metadata and files\<close>

record launch_metadata =
  lm_version :: nat
  lm_pid :: nat
  lm_instance_id :: ustring
  lm_owner_token :: "ustring option"
  lm_started_at_unix_ms :: nat
  lm_config_path :: ustring

definition engine_lock_metadata_version :: nat where "engine_lock_metadata_version = 1"
definition engine_lock_retries :: nat where "engine_lock_retries = 8"

text \<open>\<open>launch_metadata\<close> of \<^verbatim>\<open>runtime.rs\<close>; the clock may be before the epoch.\<close>

datatype launch_error = OwnerTokenEmpty | StartTimestampInvalid

definition make_launch_metadata ::
  "int \<Rightarrow> nat \<Rightarrow> ustring \<Rightarrow> ustring \<Rightarrow> ustring option \<Rightarrow> launch_error + launch_metadata" where
  "make_launch_metadata now pid instance_id config_path owner_token =
     (if owner_token = Some [] then Inl OwnerTokenEmpty
      else if now < 0 \<or> now > int u64_max then Inl StartTimestampInvalid
      else Inr \<lparr>lm_version = engine_lock_metadata_version, lm_pid = pid, lm_instance_id = instance_id,
                lm_owner_token = owner_token, lm_started_at_unix_ms = nat now,
                lm_config_path = config_path\<rparr>)"

datatype lock_content = LockEmpty | LockTruncated | LockMetadata launch_metadata

datatype lock_error =
    LockIo | LockHeld | LockPathChanged | LockPathChangedInitialising

text \<open>Where a process is in \<open>acquire\<close>: the number of the attempt and the open inode.\<close>

datatype lock_phase =
    LockIdle | Opening nat | Opened nat nat | Locked nat nat | Truncating nat nat | Filling nat nat
  | Written nat nat | Guard nat | LockFailed lock_error | LockDropped

text \<open>What a process asks for: \<open>exclusive\<close> has no retries and no metadata, \<open>engine\<close> both.\<close>

record lock_claim =
  lc_retries :: nat
  lc_metadata :: "launch_metadata option"

definition exclusive_claim :: lock_claim where
  "exclusive_claim = \<lparr>lc_retries = 0, lc_metadata = None\<rparr>"

definition engine_claim :: "launch_metadata \<Rightarrow> lock_claim" where
  "engine_claim m = \<lparr>lc_retries = engine_lock_retries, lc_metadata = Some m\<rparr>"

record lock_world =
  lw_path :: "nat option"
  lw_next :: nat
  lw_locks :: "nat \<Rightarrow> nat option"
  lw_content :: "nat \<Rightarrow> lock_content"
  lw_phase :: "nat \<Rightarrow> lock_phase"

definition lock_init :: lock_world where
  "lock_init = \<lparr>lw_path = None, lw_next = 0, lw_locks = (\<lambda>_. None), lw_content = (\<lambda>_. LockEmpty),
     lw_phase = (\<lambda>_. LockIdle)\<rparr>"

definition goto :: "nat \<Rightarrow> lock_phase \<Rightarrow> lock_world \<Rightarrow> lock_world" where
  "goto p ph w = w\<lparr>lw_phase := (lw_phase w)(p := ph)\<rparr>"

definition unlock :: "nat \<Rightarrow> lock_world \<Rightarrow> lock_world" where
  "unlock i w = w\<lparr>lw_locks := (lw_locks w)(i := None)\<rparr>"

definition file_matches_path :: "nat \<Rightarrow> lock_world \<Rightarrow> bool" where
  "file_matches_path i w \<longleftrightarrow> lw_path w = Some i"

definition retry_or :: "lock_claim \<Rightarrow> nat \<Rightarrow> nat \<Rightarrow> lock_error \<Rightarrow> lock_world \<Rightarrow> lock_world" where
  "retry_or c p attempt e w =
     goto p (if attempt < lc_retries c then Opening (attempt + 1) else LockFailed e) w"

section \<open>Acquiring\<close>

text \<open>
  The next system call of a process inside \<open>acquire\<close>; \<open>io\<close> says that it fails. A failing call
  leaves the function, which closes the file and so releases its lock.
\<close>

definition lock_open :: "bool \<Rightarrow> nat \<Rightarrow> nat \<Rightarrow> lock_world \<Rightarrow> lock_world" where
  "lock_open io p attempt w =
     (if io then goto p (LockFailed LockIo) w
      else case lw_path w of
        Some i \<Rightarrow> goto p (Opened attempt i) w
      | None \<Rightarrow>
          goto p (Opened attempt (lw_next w))
            (w\<lparr>lw_path := Some (lw_next w), lw_next := lw_next w + 1\<rparr>))"

definition acquire_step :: "lock_claim \<Rightarrow> bool \<Rightarrow> nat \<Rightarrow> lock_world \<Rightarrow> lock_world" where
  "acquire_step c io p w =
     (case lw_phase w p of
        LockIdle \<Rightarrow> goto p (if io then LockFailed LockIo else Opening 0) w
      | Opening attempt \<Rightarrow> lock_open io p attempt w
      | Opened attempt i \<Rightarrow>
          (if io then goto p (LockFailed LockIo) w
           else if lw_locks w i = None then
             goto p (Locked attempt i) (w\<lparr>lw_locks := (lw_locks w)(i \<mapsto> p)\<rparr>)
           else retry_or c p attempt LockHeld w)
      | Locked attempt i \<Rightarrow>
          (if io then goto p (LockFailed LockIo) (unlock i w)
           else if \<not> file_matches_path i w then retry_or c p attempt LockPathChanged (unlock i w)
           else goto p (if lc_metadata c = None then Guard i else Truncating attempt i) w)
      | Truncating attempt i \<Rightarrow>
          (if io then goto p (LockFailed LockIo) (unlock i w)
           else goto p (Filling attempt i) (w\<lparr>lw_content := (lw_content w)(i := LockTruncated)\<rparr>))
      | Filling attempt i \<Rightarrow>
          (if io then goto p (LockFailed LockIo) (unlock i w)
           else goto p (Written attempt i)
             (w\<lparr>lw_content := (lw_content w)
                 (i := (case lc_metadata c of Some m \<Rightarrow> LockMetadata m | None \<Rightarrow> lw_content w i))\<rparr>))
      | Written attempt i \<Rightarrow>
          (if io then goto p (LockFailed LockIo) (unlock i w)
           else if \<not> file_matches_path i w then
             retry_or c p attempt LockPathChangedInitialising (unlock i w)
           else goto p (Guard i) w)
      | _ \<Rightarrow> w)"

text \<open>The file a process has locked, if any.\<close>

definition locked_file :: "lock_phase \<Rightarrow> nat option" where
  "locked_file ph =
     (case ph of Locked _ i \<Rightarrow> Some i | Truncating _ i \<Rightarrow> Some i | Filling _ i \<Rightarrow> Some i
      | Written _ i \<Rightarrow> Some i | Guard i \<Rightarrow> Some i | _ \<Rightarrow> None)"

text \<open>\<open>Drop for LockGuard\<close>, or the end of the process wherever it is.\<close>

definition release_step :: "nat \<Rightarrow> lock_world \<Rightarrow> lock_world" where
  "release_step p w =
     goto p LockDropped (case locked_file (lw_phase w p) of Some i \<Rightarrow> unlock i w | None \<Rightarrow> w)"

datatype lock_event = Acquire nat bool | Release nat | Unlink

fun lock_step :: "(nat \<Rightarrow> lock_claim) \<Rightarrow> lock_event \<Rightarrow> lock_world \<Rightarrow> lock_world" where
  "lock_step claim (Acquire p io) w = acquire_step (claim p) io p w"
| "lock_step claim (Release p) w = release_step p w"
| "lock_step claim Unlink w = w\<lparr>lw_path := None\<rparr>"

section \<open>The invariant\<close>

definition open_file :: "lock_phase \<Rightarrow> nat option" where
  "open_file ph = (case ph of Opened _ i \<Rightarrow> Some i | _ \<Rightarrow> locked_file ph)"

definition written_file :: "lock_phase \<Rightarrow> nat option" where
  "written_file ph = (case ph of Written _ i \<Rightarrow> Some i | Guard i \<Rightarrow> Some i | _ \<Rightarrow> None)"

definition lock_inv :: "(nat \<Rightarrow> lock_claim) \<Rightarrow> lock_world \<Rightarrow> bool" where
  "lock_inv claim w \<longleftrightarrow>
     (\<forall>i p. lw_locks w i = Some p \<longleftrightarrow> locked_file (lw_phase w p) = Some i)
     \<and> (\<forall>p i. open_file (lw_phase w p) = Some i \<longrightarrow> i < lw_next w)
     \<and> (\<forall>i. lw_path w = Some i \<longrightarrow> i < lw_next w)
     \<and> (\<forall>p i m. written_file (lw_phase w p) = Some i \<longrightarrow> lc_metadata (claim p) = Some m
           \<longrightarrow> lw_content w i = LockMetadata m)"

lemmas lock_simps = goto_def unlock_def retry_or_def lock_open_def file_matches_path_def

lemma phase_goto [simp]: "lw_phase (goto p ph w) q = (if q = p then ph else lw_phase w q)"
  by (simp add: goto_def)

lemma phase_files [simp]:
  "locked_file LockIdle = None"
  "locked_file (Opening k) = None"
  "locked_file (Opened k i) = None"
  "locked_file (Locked k i) = Some i"
  "locked_file (Truncating k i) = Some i"
  "locked_file (Filling k i) = Some i"
  "locked_file (Written k i) = Some i"
  "locked_file (Guard i) = Some i"
  "locked_file (LockFailed e) = None"
  "locked_file LockDropped = None"
  "open_file LockIdle = None"
  "open_file (Opening k) = None"
  "open_file (Opened k i) = Some i"
  "open_file (Locked k i) = Some i"
  "open_file (Truncating k i) = Some i"
  "open_file (Filling k i) = Some i"
  "open_file (Written k i) = Some i"
  "open_file (Guard i) = Some i"
  "open_file (LockFailed e) = None"
  "open_file LockDropped = None"
  "written_file LockIdle = None"
  "written_file (Opening k) = None"
  "written_file (Opened k i) = None"
  "written_file (Locked k i) = None"
  "written_file (Truncating k i) = None"
  "written_file (Filling k i) = None"
  "written_file (Written k i) = Some i"
  "written_file (Guard i) = Some i"
  "written_file (LockFailed e) = None"
  "written_file LockDropped = None"
  by (simp_all add: locked_file_def open_file_def written_file_def)

lemma locked_open: "locked_file ph = Some i \<Longrightarrow> open_file ph = Some i"
  by (cases ph) (simp_all add: locked_file_def open_file_def)

lemma written_locked: "written_file ph = Some i \<Longrightarrow> locked_file ph = Some i"
  by (cases ph) (simp_all add: locked_file_def written_file_def)

lemma lock_init_inv: "lock_inv claim lock_init"
  by (simp add: lock_inv_def lock_init_def)

lemma lock_unique:
  assumes "lock_inv claim w" and "locked_file (lw_phase w p) = Some i" and "locked_file (lw_phase w q) = Some i"
  shows "p = q"
proof -
  from assms have "lw_locks w i = Some p" "lw_locks w i = Some q" by (simp_all add: lock_inv_def)
  then show ?thesis by simp
qed

text \<open>Moving on without touching a lock.\<close>

lemma inv_goto:
  assumes "lock_inv claim w" and "locked_file ph = locked_file (lw_phase w p)"
    and "\<And>i. open_file ph = Some i \<Longrightarrow> i < lw_next w"
    and "\<And>i m. written_file ph = Some i \<Longrightarrow> lc_metadata (claim p) = Some m \<Longrightarrow> lw_content w i = LockMetadata m"
  shows "lock_inv claim (goto p ph w)"
  using assms by (auto simp: lock_inv_def goto_def)

lemma inv_unlock:
  assumes "lock_inv claim w" and "locked_file (lw_phase w p) = Some i" and "open_file ph = None"
  shows "lock_inv claim (goto p ph (unlock i w))"
proof -
  have l: "locked_file ph = None" using assms(3) locked_open by (cases "locked_file ph") auto
  then have "written_file ph = None" using written_locked by (cases "written_file ph") auto
  let ?w = "goto p ph (unlock i w)"
  have locks: "lw_locks w j = Some q \<longleftrightarrow> locked_file (lw_phase w q) = Some j" for j q
    using assms(1) by (simp add: lock_inv_def)
  have "lw_locks ?w j = Some q \<longleftrightarrow> locked_file (lw_phase ?w q) = Some j" for j q
  proof (cases "q = p \<or> j = i")
    case True
    have "lw_locks w j \<noteq> Some p" if "j \<noteq> i" using assms(2) that by (simp add: locks)
    moreover have "locked_file (lw_phase w q) \<noteq> Some i" if "q \<noteq> p"
      using lock_unique [OF assms(1,2), of q] that by blast
    ultimately show ?thesis using True l by (auto simp: goto_def unlock_def)
  next
    case False
    then show ?thesis by (simp add: goto_def unlock_def locks)
  qed
  then show ?thesis using assms(1,3) \<open>written_file ph = None\<close>
    by (simp add: lock_inv_def goto_def unlock_def)
qed

lemma inv_lock:
  assumes "lock_inv claim w" and "lw_locks w i = None" and "open_file (lw_phase w p) = Some i"
    and "locked_file (lw_phase w p) = None"
  shows "lock_inv claim (goto p (Locked k i) (w\<lparr>lw_locks := (lw_locks w)(i \<mapsto> p)\<rparr>))"
proof -
  have "lw_locks w j \<noteq> Some p" for j using assms by (auto simp: lock_inv_def)
  moreover have "locked_file (lw_phase w q) \<noteq> Some i" for q
    using assms(1,2) by (metis lock_inv_def option.distinct(1))
  ultimately show ?thesis using assms
    by (auto simp: lock_inv_def goto_def)
qed

text \<open>Only the holder of a lock writes the file.\<close>

lemma inv_write:
  assumes inv: "lock_inv claim w" and l: "locked_file (lw_phase w p) = Some i" and "written_file (lw_phase w p) = None"
  shows "lock_inv claim (w\<lparr>lw_content := (lw_content w)(i := x)\<rparr>)"
proof -
  have "written_file (lw_phase w q) \<noteq> Some i" for q
  proof
    assume q: "written_file (lw_phase w q) = Some i"
    with inv l written_locked have "q = p" by (metis lock_inv_def option.inject)
    with q assms(3) show False by simp
  qed
  with inv show ?thesis by (auto simp: lock_inv_def)
qed

lemma inv_retry: "open_file (if attempt < n then Opening (attempt + 1) else LockFailed e) = None"
  by simp

lemma lock_inv_acquire:
  assumes inv: "lock_inv claim w"
  shows "lock_inv claim (acquire_step (claim p) io p w)"
proof (cases "lw_phase w p")
  case LockIdle
  then show ?thesis unfolding acquire_step_def
    by (auto intro!: inv_goto [OF inv])
next
  case (Opening k)
  show ?thesis
  proof (cases "io \<or> lw_path w \<noteq> None")
    case True
    have "i < lw_next w" if "lw_path w = Some i" for i using inv that by (simp add: lock_inv_def)
    with True Opening show ?thesis unfolding acquire_step_def lock_open_def
      by (auto intro!: inv_goto [OF inv] split: option.split)
  next
    case False
    have "lock_inv claim (w\<lparr>lw_path := Some (lw_next w), lw_next := lw_next w + 1\<rparr>)"
      using inv by (auto simp: lock_inv_def less_SucI)
    from inv_goto [OF this, of "Opened k (lw_next w)" p] False Opening show ?thesis
      by (simp add: acquire_step_def lock_open_def)
  qed
next
  case (Opened k i)
  show ?thesis
  proof (cases "\<not> io \<and> lw_locks w i = None")
    case True
    with Opened inv_lock [OF inv, of i p k] show ?thesis
      by (simp add: acquire_step_def)
  next
    case False
    with Opened show ?thesis unfolding acquire_step_def retry_or_def
      by (auto intro!: inv_goto [OF inv])
  qed
next
  case (Locked k i)
  then have l: "locked_file (lw_phase w p) = Some i" and o: "open_file (lw_phase w p) = Some i"
    by (simp_all add:)
  from o inv have "i < lw_next w" by (simp add: lock_inv_def)
  with Locked show ?thesis unfolding acquire_step_def retry_or_def
    by (auto intro!: inv_unlock [OF inv l] inv_goto [OF inv])
next
  case (Truncating k i)
  then have l: "locked_file (lw_phase w p) = Some i" and o: "open_file (lw_phase w p) = Some i"
      and n: "written_file (lw_phase w p) = None"
    by (simp_all add:)
  from o inv have "i < lw_next w" by (simp add: lock_inv_def)
  with Truncating l show ?thesis unfolding acquire_step_def
    by (auto intro!: inv_unlock [OF inv l] inv_goto [OF inv_write [OF inv l n]])
next
  case (Filling k i)
  then have l: "locked_file (lw_phase w p) = Some i" and o: "open_file (lw_phase w p) = Some i"
      and n: "written_file (lw_phase w p) = None"
    by (simp_all add:)
  from o inv have "i < lw_next w" by (simp add: lock_inv_def)
  with Filling l show ?thesis unfolding acquire_step_def
    by (auto intro!: inv_unlock [OF inv l] inv_goto [OF inv_write [OF inv l n]])
next
  case (Written k i)
  then have l: "locked_file (lw_phase w p) = Some i" and o: "open_file (lw_phase w p) = Some i"
      and n: "written_file (lw_phase w p) = Some i"
    by (simp_all add:)
  from o inv have "i < lw_next w" by (simp add: lock_inv_def)
  moreover from n inv have "lc_metadata (claim p) = Some m \<Longrightarrow> lw_content w i = LockMetadata m" for m
    by (simp add: lock_inv_def)
  ultimately show ?thesis using Written l unfolding acquire_step_def retry_or_def
    by (auto intro!: inv_unlock [OF inv l] inv_goto [OF inv])
qed (use inv in \<open>simp_all add: acquire_step_def\<close>)

lemma lock_inv_step:
  assumes inv: "lock_inv claim w"
  shows "lock_inv claim (lock_step claim e w)"
proof (cases e)
  case (Acquire p io)
  with lock_inv_acquire [OF inv] show ?thesis by simp
next
  case (Release p)
  show ?thesis
  proof (cases "locked_file (lw_phase w p)")
    case None
    with Release show ?thesis
      by (auto simp: release_step_def intro!: inv_goto [OF inv])
  next
    case (Some i)
    with Release show ?thesis
      by (simp add: release_step_def inv_unlock [OF inv Some])
  qed
qed (use inv in \<open>simp add: lock_inv_def\<close>)

interpretation lock_system: invariant_system lock_init "lock_step claim" "lock_inv claim"
  for claim
  by unfold_locales (rule lock_init_inv, rule lock_inv_step)

text \<open>While nobody unlinks the path, every open file is the one at the path.\<close>

definition path_stable :: "lock_world \<Rightarrow> bool" where
  "path_stable w \<longleftrightarrow> (\<forall>p i. open_file (lw_phase w p) = Some i \<longrightarrow> lw_path w = Some i)"

lemma path_stable_step:
  assumes "path_stable w" and "e \<noteq> Unlink"
  shows "path_stable (lock_step claim e w)"
proof (cases e)
  case (Acquire p io)
  from assms(1) have op: "open_file (lw_phase w q) = Some i \<Longrightarrow> lw_path w = Some i" for q i
    by (simp add: path_stable_def)
  have other: "path_stable w'" if "\<And>q. q \<noteq> p \<Longrightarrow> lw_phase w' q = lw_phase w q"
    and "\<And>i. open_file (lw_phase w' p) = Some i \<Longrightarrow> lw_path w' = Some i"
    and "lw_path w' = lw_path w \<or> lw_path w = None" for w'
    unfolding path_stable_def
  proof (intro allI impI)
    fix q i assume o: "open_file (lw_phase w' q) = Some i"
    show "lw_path w' = Some i"
    proof (cases "q = p")
      case False
      with o that(1) op [of q i] have "lw_path w = Some i" by simp
      with that(3) show ?thesis by auto
    qed (use o that(2) in simp)
  qed
  show ?thesis
    using op [of p] unfolding Acquire
    by (cases "lw_phase w p"; auto intro!: other simp: acquire_step_def lock_simps
        split: if_splits option.splits)
next
  case (Release p)
  with assms(1) show ?thesis
    by (auto simp: path_stable_def release_step_def unlock_def goto_def split: option.split if_splits)
qed (use assms in simp)

lemma path_stable_run: "Unlink \<notin> set es \<Longrightarrow> path_stable w \<Longrightarrow> path_stable (fold (lock_step claim) es w)"
proof (induction es arbitrary: w)
  case (Cons e es)
  then have "path_stable (lock_step claim e w)" by (intro path_stable_step) auto
  with Cons show ?case by simp
qed simp

section \<open>Properties\<close>

text \<open>
  C2: The lock excludes: however the system calls of any processes interleave, with files
  unlinked and calls failing, two processes never hold guards on the same file, and while
  nobody unlinks the path at most one guard exists at all; the file a guard holds contains
  exactly the metadata its process wrote.
\<close>

theorem engine_lock_excludes:
  "(let w = fold (lock_step claim) es lock_init
    in case (lw_phase w p, lw_phase w q) of
         (Guard i, Guard j) \<Rightarrow>
           (if Unlink \<in> set es \<and> i \<noteq> j then True else p = q)
           \<and> (case lc_metadata (claim p) of
                None \<Rightarrow> True | Some m \<Rightarrow> lw_content w i = LockMetadata m)
       | _ \<Rightarrow> True)"
proof -
  let ?w = "fold (lock_step claim) es lock_init"
  have inv: "lock_inv claim ?w" by (rule lock_system.inv_run)
  have "path_stable lock_init" by (simp add: path_stable_def lock_init_def)
  then have st: "Unlink \<notin> set es \<Longrightarrow> path_stable ?w" by (intro path_stable_run)
  have "(i = j \<or> Unlink \<notin> set es \<longrightarrow> p = q) \<and> (\<forall>m. lc_metadata (claim p) = Some m \<longrightarrow> lw_content ?w i = LockMetadata m)"
    if g: "lw_phase ?w p = Guard i" "lw_phase ?w q = Guard j" for i j
  proof (intro conjI impI allI)
    assume "i = j \<or> Unlink \<notin> set es"
    moreover have "i = j" if "Unlink \<notin> set es"
    proof -
      have "lw_path ?w = Some k" if "open_file (lw_phase ?w r) = Some k" for r k
        using st [OF \<open>Unlink \<notin> set es\<close>] that by (simp add: path_stable_def)
      from this [of p i] this [of q j] g show ?thesis by simp
    qed
    ultimately have "i = j" by blast
    with g lock_unique [OF inv, of p i q] show "p = q" by simp
  next
    fix m assume m: "lc_metadata (claim p) = Some m"
    have "written_file (lw_phase ?w p) = Some i" using g by simp
    with inv m show "lw_content ?w i = LockMetadata m" unfolding lock_inv_def by blast
  qed
  then show ?thesis by (auto simp: Let_def split: lock_phase.split option.split)
qed

text \<open>Every system call of \<open>acquire\<close> brings it closer to its end.\<close>

fun acquire_left :: "nat \<Rightarrow> lock_phase \<Rightarrow> nat" where
  "acquire_left n LockIdle = 6 * n + 7"
| "acquire_left n (Opening k) = 6 * (n - k) + 6"
| "acquire_left n (Opened k i) = 6 * (n - k) + 5"
| "acquire_left n (Locked k i) = 6 * (n - k) + 4"
| "acquire_left n (Truncating k i) = 6 * (n - k) + 3"
| "acquire_left n (Filling k i) = 6 * (n - k) + 2"
| "acquire_left n (Written k i) = 6 * (n - k) + 1"
| "acquire_left n _ = 0"

definition acquire_ended :: "lock_phase \<Rightarrow> bool" where
  "acquire_ended ph = (case ph of Guard i \<Rightarrow> True | LockFailed e \<Rightarrow> True | LockDropped \<Rightarrow> True | _ \<Rightarrow> False)"

lemma acquire_left_zero: "acquire_left n ph = 0 \<longleftrightarrow> acquire_ended ph"
  by (cases ph) (simp_all add: acquire_ended_def)

lemma acquire_left_decreases:
  "acquire_left (lc_retries c) (lw_phase (acquire_step c io p w) p)
    \<le> acquire_left (lc_retries c) (lw_phase w p) - 1"
  by (cases "lw_phase w p") (auto simp: acquire_step_def lock_simps split: option.split)

lemma acquire_left_other:
  "q \<noteq> p \<Longrightarrow> lw_phase (lock_step claim (Acquire q io) w) p = lw_phase w p"
  by (cases "lw_phase w q") (auto simp: acquire_step_def lock_simps split: option.split)

lemma acquire_left_step:
  "acquire_left (lc_retries (claim p)) (lw_phase (lock_step claim e w) p)
    \<le> acquire_left (lc_retries (claim p)) (lw_phase w p) - (if \<exists>io. e = Acquire p io then 1 else 0)"
proof (cases e)
  case (Acquire q io)
  then show ?thesis
    using acquire_left_decreases [of "claim p" io p w] acquire_left_other [of q p claim io w]
    by (cases "q = p") auto
next
  case (Release q)
  then show ?thesis
    by (cases "q = p") (auto simp: release_step_def goto_def unlock_def split: option.split)
qed simp

lemma acquire_left_run:
  "acquire_left (lc_retries (claim p)) (lw_phase (fold (lock_step claim) es w) p)
    \<le> acquire_left (lc_retries (claim p)) (lw_phase w p)
        - length (filter (\<lambda>e. \<exists>io. e = Acquire p io) es)"
proof (induction es arbitrary: w)
  case (Cons e es)
  show ?case
    using Cons.IH [of "lock_step claim e w"] acquire_left_step [of claim p e w] by (auto split: if_splits)
qed simp

text \<open>
  Also: Acquiring a lock ends: after \<open>6 (retries + 1) + 1\<close> of its own system calls, whatever all
  other processes do in between, a process has its guard or has failed.
\<close>

theorem lock_acquisition_ends:
  assumes "6 * (lc_retries (claim p) + 1) + 1 \<le> length (filter (\<lambda>e. \<exists>io. e = Acquire p io) es)"
  shows "acquire_ended (lw_phase (fold (lock_step claim) es lock_init) p)"
  using acquire_left_run [of claim p es lock_init] assms
  by (simp add: acquire_left_zero [symmetric, of _ "lc_retries (claim p)"] lock_init_def)

lemma lock_acquisition_ends_witness:
  "acquire_ended (lw_phase (fold (lock_step (\<lambda>_. exclusive_claim)) (replicate 7 (Acquire 1 False)) lock_init) 1)"
  by (rule lock_acquisition_ends) (simp add: exclusive_claim_def filter_replicate ex_bool_eq del: replicate.simps)

end
