(* ===== verification/Manifest.thy ===== *)
theory Manifest
  imports Prelude "HOL-Library.Product_Lexorder"
begin

text \<open>
  The component manifest (\<^verbatim>\<open>weather-core/manifest/src/lib.rs\<close>): a TOML file that lists the
  files an installation owns, updated under an exclusive advisory lock and replaced atomically.
  Paths are the operating system's, the TOML codec is a library: both are parameters. The
  lock makes each \<open>record\<close> one step for everyone else.
\<close>

datatype component_kind = ComponentBin | ComponentConfig | ComponentDb | ComponentLock

fun component_kind_number :: "component_kind \<Rightarrow> nat" where
  "component_kind_number ComponentBin = 0"
| "component_kind_number ComponentConfig = 1"
| "component_kind_number ComponentDb = 2"
| "component_kind_number ComponentLock = 3"

lemma component_kind_number_inj [simp]: "component_kind_number a = component_kind_number b \<longleftrightarrow> a = b"
  by (cases a; cases b) simp_all

record 'p component_entry =
  ce_kind :: component_kind
  ce_path :: 'p

text \<open>\<open>pl_components\<close> is what \<open>PathBuf\<close> compares: its components, in order.\<close>

record 'p path_lib =
  pl_absolute :: "'p \<Rightarrow> bool"
  pl_str :: "'p \<Rightarrow> ustring option"
  pl_of :: "ustring \<Rightarrow> 'p"
  pl_components :: "'p \<Rightarrow> ustring list"

record stored_entry =
  se_kind :: component_kind
  se_path :: ustring

record manifest_document =
  md_version :: nat
  md_components :: "stored_entry list"

definition component_manifest_version :: nat where "component_manifest_version = 1"

datatype manifest_error =
    ManifestIo ustring | ManifestParse | ManifestVersion nat | ManifestPathRelative
  | ManifestPathNotUtf8 | ManifestSerialize | ManifestUnlock

record manifest_toml =
  mt_parse :: "ustring \<Rightarrow> manifest_document option"
  mt_print :: "manifest_document \<Rightarrow> ustring option"

section \<open>Entries as a sorted set\<close>

definition entry_key :: "'p path_lib \<Rightarrow> 'p component_entry \<Rightarrow> nat \<times> ustring list" where
  "entry_key pl e = (component_kind_number (ce_kind e), pl_components pl (ce_path e))"

text \<open>\<open>BTreeSet::insert\<close>: whether the set changed, and the set in ascending order.\<close>

definition set_insert ::
  "'p path_lib \<Rightarrow> 'p component_entry \<Rightarrow> 'p component_entry list \<Rightarrow> bool \<times> 'p component_entry list" where
  "set_insert pl e es =
     (if entry_key pl e \<in> entry_key pl ` set es then (False, es)
      else (True, insort_key (entry_key pl) e es))"

definition make_component_entry ::
  "'p path_lib \<Rightarrow> component_kind \<Rightarrow> 'p \<Rightarrow> manifest_error + 'p component_entry" where
  "make_component_entry pl kind path =
     (if \<not> pl_absolute pl path then Inl ManifestPathRelative
      else case pl_str pl path of
        None \<Rightarrow> Inl ManifestPathNotUtf8
      | Some s \<Rightarrow> Inr \<lparr>ce_kind = kind, ce_path = path\<rparr>)"

fun read_components ::
  "'p path_lib \<Rightarrow> stored_entry list \<Rightarrow> manifest_error + 'p component_entry list" where
  "read_components pl [] = Inr []"
| "read_components pl (s # ss) =
     (case make_component_entry pl (se_kind s) (pl_of pl (se_path s)) of
        Inl e \<Rightarrow> Inl e
      | Inr c \<Rightarrow> (case read_components pl ss of Inl e \<Rightarrow> Inl e | Inr cs \<Rightarrow> Inr (c # cs)))"

definition collect_set :: "'p path_lib \<Rightarrow> 'p component_entry list \<Rightarrow> 'p component_entry list" where
  "collect_set pl cs = fold (\<lambda>c es. snd (set_insert pl c es)) cs []"

section \<open>Reading and writing the file\<close>

text \<open>The file's content, or \<open>None\<close> when there is no file; \<open>fails\<close> names the I/O calls that fail.\<close>

type_synonym manifest_faults = "ustring \<Rightarrow> bool"

definition load_entries ::
  "manifest_faults \<Rightarrow> 'p path_lib \<Rightarrow> manifest_toml \<Rightarrow> ustring option
     \<Rightarrow> manifest_error + 'p component_entry list" where
  "load_entries fails pl toml file =
     (case file of
        None \<Rightarrow> Inl (ManifestIo (lit ''read''))
      | Some content \<Rightarrow>
          if fails (lit ''read'') then Inl (ManifestIo (lit ''read''))
          else case mt_parse toml content of
            None \<Rightarrow> Inl ManifestParse
          | Some document \<Rightarrow>
              if md_version document \<noteq> component_manifest_version
              then Inl (ManifestVersion (md_version document))
              else (case read_components pl (md_components document) of
                      Inl e \<Rightarrow> Inl e | Inr cs \<Rightarrow> Inr (collect_set pl cs)))"

fun write_components :: "'p path_lib \<Rightarrow> 'p component_entry list \<Rightarrow> manifest_error + stored_entry list" where
  "write_components pl [] = Inr []"
| "write_components pl (e # es) =
     (case pl_str pl (ce_path e) of
        None \<Rightarrow> Inl ManifestPathNotUtf8
      | Some s \<Rightarrow>
          (case write_components pl es of
             Inl err \<Rightarrow> Inl err | Inr ss \<Rightarrow> Inr (\<lparr>se_kind = ce_kind e, se_path = s\<rparr> # ss)))"

text \<open>
  \<open>write_entries_unlocked\<close>: the temporary file is written, flushed and synced before it
  replaces the manifest; syncing the directory can still fail after that.
\<close>

definition write_entries ::
  "manifest_faults \<Rightarrow> 'p path_lib \<Rightarrow> manifest_toml \<Rightarrow> 'p component_entry list \<Rightarrow> ustring option
     \<Rightarrow> (manifest_error + unit) \<times> ustring option" where
  "write_entries fails pl toml entries file =
     (case write_components pl entries of
        Inl e \<Rightarrow> (Inl e, file)
      | Inr components \<Rightarrow>
          (case mt_print toml \<lparr>md_version = component_manifest_version, md_components = components\<rparr> of
             None \<Rightarrow> (Inl ManifestSerialize, file)
           | Some content \<Rightarrow>
               (case find fails [lit ''create temporary'', lit ''write'', lit ''flush'', lit ''sync'', lit ''replace''] of
                  Some c \<Rightarrow> (Inl (ManifestIo c), file)
                | None \<Rightarrow>
                    if fails (lit ''sync directory'') then (Inl (ManifestIo (lit ''sync directory'')), Some content)
                    else (Inr (), Some content))))"

text \<open>The value of the operation survives only if the unlock succeeds.\<close>

definition finish_locked :: "manifest_error + 'a \<Rightarrow> bool \<Rightarrow> manifest_error + 'a" where
  "finish_locked operation unlock_fails =
     (case operation of
        Inl e \<Rightarrow> Inl e
      | Inr v \<Rightarrow> if unlock_fails then Inl ManifestUnlock else Inr v)"

definition record_component ::
  "manifest_faults \<Rightarrow> 'p path_lib \<Rightarrow> manifest_toml \<Rightarrow> component_kind \<Rightarrow> 'p \<Rightarrow> ustring option
     \<Rightarrow> (manifest_error + unit) \<times> ustring option" where
  "record_component fails pl toml kind path file =
     (case make_component_entry pl kind path of
        Inl e \<Rightarrow> (Inl e, file)
      | Inr entry \<Rightarrow>
          (case find fails [lit ''mkdir'', lit ''open lock'', lit ''lock'', lit ''inspect''] of
             Some c \<Rightarrow> (Inl (ManifestIo c), file)
           | None \<Rightarrow>
               (case (if file = None then Inr [] else load_entries fails pl toml file) of
                  Inl e \<Rightarrow> (Inl e, file)
                | Inr entries \<Rightarrow>
                    (case set_insert pl entry entries of
                       (False, same) \<Rightarrow> (finish_locked (Inr ()) (fails (lit ''unlock'')), file)
                     | (True, entries') \<Rightarrow>
                         (case write_entries fails pl toml entries' file of
                            (r, file') \<Rightarrow> (finish_locked r (fails (lit ''unlock'')), file'))))))"

definition list_components ::
  "manifest_faults \<Rightarrow> 'p path_lib \<Rightarrow> manifest_toml \<Rightarrow> ustring option
     \<Rightarrow> manifest_error + 'p component_entry list" where
  "list_components fails pl toml file =
     (if fails (lit ''inspect'') then Inl (ManifestIo (lit ''inspect''))
      else if file = None then Inr []
      else case find fails [lit ''open lock'', lit ''lock''] of
        Some c \<Rightarrow> Inl (ManifestIo c)
      | None \<Rightarrow> finish_locked (load_entries fails pl toml file) (fails (lit ''unlock'')))"

section \<open>The manifest as a set\<close>

definition entries_ok :: "'p path_lib \<Rightarrow> 'p component_entry list \<Rightarrow> bool" where
  "entries_ok pl es \<longleftrightarrow> sorted_wrt (<) (map (entry_key pl) es)
     \<and> (\<forall>e \<in> set es. pl_absolute pl (ce_path e) \<and> pl_str pl (ce_path e) \<noteq> None)"

lemma strict_insort:
  "sorted_wrt (<) (map f xs) \<Longrightarrow> (f x :: 'b :: linorder) \<notin> f ` set xs
   \<Longrightarrow> sorted_wrt (<) (map f (insort_key f x xs))"
  by (induction xs) (auto simp: set_insort_key)

lemma set_insert_ok:
  assumes "entries_ok pl es" and "pl_absolute pl (ce_path e)" and "pl_str pl (ce_path e) \<noteq> None"
  shows "entries_ok pl (snd (set_insert pl e es))"
  using assms strict_insort [of "entry_key pl" es e]
  by (auto simp: entries_ok_def set_insert_def set_insort_key)

lemma set_insert_keys:
  "entry_key pl ` set (snd (set_insert pl e es)) = insert (entry_key pl e) (entry_key pl ` set es)"
  by (auto simp: set_insert_def set_insort_key)

text \<open>Reading back what was written.\<close>

lemma collect_sorted:
  assumes "sorted_wrt (<) (map (entry_key pl) (acc @ es))"
  shows "fold (\<lambda>c es. snd (set_insert pl c es)) es acc = acc @ es"
  using assms
proof (induction es arbitrary: acc)
  case (Cons e es)
  have "\<forall>x \<in> set acc. entry_key pl x < entry_key pl e" using Cons.prems by (auto simp: sorted_wrt_append)
  then have new: "entry_key pl e \<notin> entry_key pl ` set acc" by auto
  moreover have "insort_key (entry_key pl) e acc = acc @ [e]"
    using \<open>\<forall>x \<in> set acc. entry_key pl x < entry_key pl e\<close> by (induction acc) auto
  ultimately show ?case using Cons.IH [of "acc @ [e]"] Cons.prems by (simp add: set_insert_def)
qed simp

text \<open>What is used of the libraries: a path reads back from its text, a document from its TOML.\<close>

definition codec_ok :: "'p path_lib \<Rightarrow> manifest_toml \<Rightarrow> bool" where
  "codec_ok pl toml \<longleftrightarrow>
     (\<forall>p s. pl_str pl p = Some s \<longrightarrow> pl_of pl s = p)
     \<and> (\<forall>d c. mt_print toml d = Some c \<longrightarrow> mt_parse toml c = Some d)"

definition manifest_holds ::
  "'p path_lib \<Rightarrow> manifest_toml \<Rightarrow> ustring option \<Rightarrow> 'p component_entry list \<Rightarrow> bool" where
  "manifest_holds pl toml file es \<longleftrightarrow> entries_ok pl es \<and>
     (case file of
        None \<Rightarrow> es = []
      | Some content \<Rightarrow> load_entries (\<lambda>_. False) pl toml (Some content) = Inr es)"

lemma components_back:
  assumes "codec_ok pl toml"
  shows "write_components pl es = Inr ss \<Longrightarrow> \<forall>e \<in> set es. pl_absolute pl (ce_path e)
    \<Longrightarrow> read_components pl ss = Inr es"
proof (induction es arbitrary: ss)
  case (Cons e es)
  then obtain s ts where s: "pl_str pl (ce_path e) = Some s" "write_components pl es = Inr ts"
    "ss = \<lparr>se_kind = ce_kind e, se_path = s\<rparr> # ts" by (auto split: option.splits sum.splits)
  have "pl_of pl s = ce_path e" using assms s(1) by (simp add: codec_ok_def)
  then have "make_component_entry pl (ce_kind e) (pl_of pl s) = Inr e"
    using Cons.prems s by (simp add: make_component_entry_def)
  with Cons s show ?case by simp
qed simp

lemma load_holds:
  "manifest_holds pl toml (Some c) es \<Longrightarrow> load_entries fails pl toml (Some c) = Inr es' \<Longrightarrow> es' = es"
  by (auto simp: manifest_holds_def load_entries_def split: if_splits option.splits sum.splits)

lemma write_cases:
  assumes "write_entries fails pl toml es file = (r, file')"
  shows "(\<exists>e. r = Inl e \<and> file' = file) \<or>
    (\<exists>ss c. write_components pl es = Inr ss
       \<and> mt_print toml \<lparr>md_version = component_manifest_version, md_components = ss\<rparr> = Some c
       \<and> file' = Some c)"
proof (cases "write_components pl es")
  case (Inr ss)
  with assms show ?thesis
    by (cases "mt_print toml \<lparr>md_version = component_manifest_version, md_components = ss\<rparr>")
       (auto simp: write_entries_def simp del: find.simps split: option.splits if_splits)
qed (use assms in \<open>auto simp: write_entries_def\<close>)

lemma write_holds:
  assumes "codec_ok pl toml" and "entries_ok pl es" and "write_entries fails pl toml es file = (r, file')"
  shows "(\<exists>e. r = Inl e \<and> file' = file) \<or> manifest_holds pl toml file' es"
proof (cases "\<exists>e. r = Inl e \<and> file' = file")
  case False
  with write_cases [OF assms(3)] obtain ss c where w: "write_components pl es = Inr ss"
      "mt_print toml \<lparr>md_version = component_manifest_version, md_components = ss\<rparr> = Some c" "file' = Some c"
    by blast
  have "sorted_wrt (<) (map (entry_key pl) ([] @ es))" using assms(2) by (simp add: entries_ok_def)
  from collect_sorted [OF this] components_back [OF assms(1) w(1)] assms(1,2) w(2,3)
  show ?thesis by (simp add: manifest_holds_def load_entries_def collect_set_def entries_ok_def codec_ok_def)
qed simp

lemma component_entry_ok:
  "make_component_entry pl kind path = Inr e \<Longrightarrow> e = \<lparr>ce_kind = kind, ce_path = path\<rparr>
     \<and> pl_absolute pl (ce_path e) \<and> pl_str pl (ce_path e) \<noteq> None"
  by (auto simp: make_component_entry_def split: if_splits option.splits)

text \<open>One record: the file stays, or holds one entry more; success means the entry is there.\<close>

lemma record_effect:
  assumes ok: "codec_ok pl toml" and h: "manifest_holds pl toml file es"
    and rc: "record_component fails pl toml kind path file = (r, file')"
  shows "\<exists>es'. manifest_holds pl toml file' es'
    \<and> (entry_key pl ` set es' = entry_key pl ` set es
       \<or> entry_key pl ` set es' = insert (entry_key pl \<lparr>ce_kind = kind, ce_path = path\<rparr>) (entry_key pl ` set es))
    \<and> (r = Inr () \<longrightarrow> entry_key pl \<lparr>ce_kind = kind, ce_path = path\<rparr> \<in> entry_key pl ` set es')"
proof (cases "make_component_entry pl kind path")
  case (Inl e)
  with rc h show ?thesis by (auto simp: record_component_def)
next
  case (Inr e)
  note e = component_entry_ok [OF Inr]
  show ?thesis
  proof (cases "find fails [lit ''mkdir'', lit ''open lock'', lit ''lock'', lit ''inspect'']")
    case (Some c)
    with rc Inr h show ?thesis by (auto simp: record_component_def simp del: find.simps)
  next
    case None
    show ?thesis
    proof (cases "if file = None then Inr [] else load_entries fails pl toml file")
      case (Inl err)
      with rc Inr None h show ?thesis by (auto simp: record_component_def simp del: find.simps)
    next
      case (Inr es0)
      have es0: "es0 = es"
        using Inr h load_holds [of pl toml _ es fails es0]
        by (cases "file") (auto simp: manifest_holds_def)
      show ?thesis
      proof (cases "entry_key pl e \<in> entry_key pl ` set es")
        case True
        then have "set_insert pl e es = (False, es)" by (simp add: set_insert_def)
        with rc Inr None \<open>make_component_entry pl kind path = Inr e\<close> es0 have "file' = file"
          by (simp add: record_component_def del: find.simps)
        with h True e show ?thesis by auto
      next
        case False
        then have si: "set_insert pl e es = (True, insort_key (entry_key pl) e es)"
          by (simp add: set_insert_def)
        let ?es = "insort_key (entry_key pl) e es"
        have ok': "entries_ok pl ?es"
        proof -
          have "pl_absolute pl (ce_path e)" "pl_str pl (ce_path e) \<noteq> None" using e by blast+
          from set_insert_ok [OF _ this, of es] h have "entries_ok pl (snd (set_insert pl e es))"
            by (simp add: manifest_holds_def)
          then show ?thesis by (simp only: si snd_conv)
        qed
        obtain r0 where w: "write_entries fails pl toml ?es file = (r0, file')"
          and r: "r = finish_locked r0 (fails (lit ''unlock''))"
          using rc Inr None \<open>make_component_entry pl kind path = Inr e\<close> es0 si
          by (auto simp: record_component_def simp del: find.simps list.map split: prod.splits)
        from write_holds [OF ok ok' w] show ?thesis
        proof
          assume "\<exists>x. r0 = Inl x \<and> file' = file"
          with h r show ?thesis by (auto simp: finish_locked_def)
        next
          assume "manifest_holds pl toml file' ?es"
          moreover have "e = \<lparr>ce_kind = kind, ce_path = path\<rparr>" using e by blast
          ultimately show ?thesis by (intro exI [of _ ?es]) (simp add: set_insort_key)
        qed
      qed
    qed
  qed
qed

text \<open>Records of any processes, in the order in which they held the lock.\<close>

definition record_step ::
  "'p path_lib \<Rightarrow> manifest_toml \<Rightarrow> manifest_faults \<times> component_kind \<times> 'p
     \<Rightarrow> ustring option \<times> (manifest_error + unit) list \<Rightarrow> ustring option \<times> (manifest_error + unit) list" where
  "record_step pl toml op st =
     (case op of (fails, kind, path) \<Rightarrow>
        (case record_component fails pl toml kind path (fst st) of
           (r, file) \<Rightarrow> (file, snd st @ [r])))"

definition op_entry :: "manifest_faults \<times> component_kind \<times> 'p \<Rightarrow> 'p component_entry" where
  "op_entry op = (case op of (fails, kind, path) \<Rightarrow> \<lparr>ce_kind = kind, ce_path = path\<rparr>)"

lemma records_effect:
  assumes "codec_ok pl toml" and "fold (record_step pl toml) ops (None, []) = (file, rs)"
  shows "\<exists>es. manifest_holds pl toml file es \<and> length rs = length ops
    \<and> entry_key pl ` set es \<subseteq> (entry_key pl \<circ> op_entry) ` set ops
    \<and> (\<forall>k < length ops. rs ! k = Inr () \<longrightarrow> entry_key pl (op_entry (ops ! k)) \<in> entry_key pl ` set es)"
  using assms(2)
proof (induction ops arbitrary: "file" rs rule: rev_induct)
  case Nil
  then show ?case by (auto simp: manifest_holds_def entries_ok_def intro: exI [of _ "[]"])
next
  case (snoc op ops)
  obtain file0 rs0 where f0: "fold (record_step pl toml) ops (None, []) = (file0, rs0)" by fastforce
  from snoc.IH [OF f0] obtain es where es: "manifest_holds pl toml file0 es" "length rs0 = length ops"
    "entry_key pl ` set es \<subseteq> (entry_key pl \<circ> op_entry) ` set ops"
    "\<forall>k < length ops. rs0 ! k = Inr () \<longrightarrow> entry_key pl (op_entry (ops ! k)) \<in> entry_key pl ` set es" by blast
  obtain fails kind path where op: "op = (fails, kind, path)" by (cases op)
  obtain r file1 where rc1: "record_component fails pl toml kind path file0 = (r, file1)" by fastforce
  have "record_step pl toml op (file0, rs0) = (file, rs)" using snoc.prems f0 by simp
  with rc1 have rc: "record_component fails pl toml kind path file0 = (r, file)" and rs: "rs = rs0 @ [r]"
    by (simp_all add: record_step_def op)
  from record_effect [OF assms(1) es(1) rc] obtain es' where es': "manifest_holds pl toml file es'"
    "entry_key pl ` set es' = entry_key pl ` set es
       \<or> entry_key pl ` set es' = insert (entry_key pl (op_entry op)) (entry_key pl ` set es)"
    "r = Inr () \<longrightarrow> entry_key pl (op_entry op) \<in> entry_key pl ` set es'"
    by (auto simp: op_entry_def op)
  have "entry_key pl ` set es \<subseteq> entry_key pl ` set es'" using es'(2) by auto
  then have succ: "\<forall>k < length (ops @ [op]). rs ! k = Inr () \<longrightarrow>
      entry_key pl (op_entry ((ops @ [op]) ! k)) \<in> entry_key pl ` set es'"
    using es(2,4) es'(3) by (auto simp: rs nth_append less_Suc_eq)
  have "entry_key pl ` set es' \<subseteq> insert (entry_key pl (op_entry op)) ((entry_key pl \<circ> op_entry) ` set ops)"
    using es'(2) es(3) by blast
  then have "entry_key pl ` set es' \<subseteq> (entry_key pl \<circ> op_entry) ` set (ops @ [op])" by simp
  with succ es(2) es'(1) rs show ?case by (intro exI [of _ es']) simp
qed

text \<open>
  C25: The manifest loses nothing: after records of any processes with any failures, listing it
  gives entries in strictly ascending order, each recorded by someone, and every record that
  reported success is among them.
\<close>

theorem manifest_keeps_every_record:
  assumes "codec_ok pl toml" and "fold (record_step pl toml) ops (None, []) = (file, rs)"
  shows "(case list_components (\<lambda>_. False) pl toml file of
       Inl e \<Rightarrow> False
     | Inr es \<Rightarrow>
         sorted_wrt (<) (map (entry_key pl) es)
         \<and> entry_key pl ` set es \<subseteq> (entry_key pl \<circ> op_entry) ` set ops
         \<and> (\<forall>k < length ops. rs ! k = Inr () \<longrightarrow> entry_key pl (op_entry (ops ! k)) \<in> entry_key pl ` set es))"
  using records_effect [OF assms]
  by (auto simp: list_components_def finish_locked_def manifest_holds_def entries_ok_def split: option.splits)

definition text_paths :: "ustring path_lib" where
  "text_paths = \<lparr>pl_absolute = (\<lambda>p. True), pl_str = Some, pl_of = id, pl_components = (\<lambda>p. [p])\<rparr>"

definition sample_document :: manifest_document where
  "sample_document = \<lparr>md_version = 1, md_components = [\<lparr>se_kind = ComponentDb, se_path = lit ''a''\<rparr>]\<rparr>"

definition sample_toml :: manifest_toml where
  "sample_toml = \<lparr>mt_parse = (\<lambda>_. Some sample_document),
     mt_print = (\<lambda>d. if d = sample_document then Some (lit ''doc'') else None)\<rparr>"

lemma manifest_keeps_every_record_witness:
  "(case list_components (\<lambda>_. False) text_paths sample_toml (Some (lit ''doc'')) of
      Inl e \<Rightarrow> False
    | Inr es \<Rightarrow> entry_key text_paths \<lparr>ce_kind = ComponentDb, ce_path = lit ''a''\<rparr> \<in> entry_key text_paths ` set es)"
proof -
  have c: "codec_ok text_paths sample_toml"
    by (simp add: codec_ok_def text_paths_def sample_toml_def)
  have f: "fold (record_step text_paths sample_toml) [(\<lambda>_. False, ComponentDb, lit ''a'')] (None, [])
      = (Some (lit ''doc''), [Inr ()])"
    by (simp add: record_step_def record_component_def make_component_entry_def text_paths_def set_insert_def
        write_entries_def sample_toml_def sample_document_def component_manifest_version_def finish_locked_def)
  show ?thesis using manifest_keeps_every_record [OF c f] by (simp add: op_entry_def split: sum.splits)
qed

end
