(* ===== verification/Daemon_Probe.thy ===== *)
theory Daemon_Probe
  imports Router Engine_Lock
begin

text \<open>
  The daemon's probe (\<^verbatim>\<open>weather-core/daemon/src/probe.rs\<close>) and its stop command
  (\<^verbatim>\<open>weather-core/daemon/src/stop.rs\<close>): the lock file is observed before and after the
  endpoints are tried, and the whole sample is repeated while the lock changes under it. What
  the file system, the sockets and the clock answer is given reading by reading; durations are
  nanoseconds.
\<close>

section \<open>Observing the lock\<close>

definition probe_sample_attempts :: nat where "probe_sample_attempts = 3"
definition lock_observation_attempts :: nat where "lock_observation_attempts = 3"

datatype lock_state = LockMissing | LockFree | LockIsHeld

record lock_snapshot =
  ls_state :: lock_state
  ls_identity :: "nat option"
  ls_modified :: "nat option"
  ls_metadata :: "launch_metadata option"

datatype probe_error =
    ProbeIo ustring | ProbeLockChanged | ProbeStateChanged | ProbeHmac ustring | ProbePath ustring

text \<open>
  One reading: the file's number, modification time and content, whether a shared lock was
  granted, and whether the path still names the file; any call may fail.
\<close>

datatype shared_lock = SharedGranted | SharedWouldBlock | SharedFailed

record lock_reading =
  lr_identity :: nat
  lr_modified :: nat
  lr_content :: "byte list"
  lr_shared :: shared_lock
  lr_matches :: "bool option"

datatype lock_open_result = LockNotFound | LockOpenFails | LockInspectFails | LockOpens lock_reading

definition is_supported :: "launch_metadata \<Rightarrow> bool" where
  "is_supported m \<longleftrightarrow> lm_version m = engine_lock_metadata_version"

definition read_lock_metadata ::
  "(byte list \<Rightarrow> launch_metadata option) \<Rightarrow> byte list \<Rightarrow> launch_metadata option" where
  "read_lock_metadata parse contents =
     (case parse contents of None \<Rightarrow> None | Some m \<Rightarrow> if is_supported m then Some m else None)"

definition missing_lock :: lock_snapshot where
  "missing_lock = \<lparr>ls_state = LockMissing, ls_identity = None, ls_modified = None, ls_metadata = None\<rparr>"

definition observe_lock_once ::
  "(byte list \<Rightarrow> launch_metadata option) \<Rightarrow> lock_open_result \<Rightarrow> probe_error + lock_snapshot option" where
  "observe_lock_once parse opened =
     (case opened of
        LockNotFound \<Rightarrow> Inr (Some missing_lock)
      | LockOpenFails \<Rightarrow> Inl (ProbeIo (lit ''failed to open lock file''))
      | LockInspectFails \<Rightarrow> Inl (ProbeIo (lit ''failed to inspect open lock file''))
      | LockOpens r \<Rightarrow>
          (let snapshot = (\<lambda>st. \<lparr>ls_state = st, ls_identity = Some (lr_identity r),
                 ls_modified = Some (lr_modified r),
                 ls_metadata = read_lock_metadata parse (lr_content r)\<rparr>)
           in case (lr_shared r, lr_matches r) of
                (SharedFailed, _) \<Rightarrow> Inl (ProbeIo (lit ''failed to probe lock''))
              | (_, None) \<Rightarrow> Inl (ProbeIo (lit ''failed to identify lock path''))
              | (_, Some False) \<Rightarrow> Inr None
              | (SharedGranted, Some True) \<Rightarrow> Inr (Some (snapshot LockFree))
              | (SharedWouldBlock, Some True) \<Rightarrow> Inr (Some (snapshot LockIsHeld))))"

text \<open>The readings of the attempts, in order; the loop takes at most \<open>n\<close> of them.\<close>

fun observe_loop ::
  "(byte list \<Rightarrow> launch_metadata option) \<Rightarrow> nat \<Rightarrow> (nat \<Rightarrow> lock_open_result) \<Rightarrow> nat
     \<Rightarrow> probe_error + lock_snapshot" where
  "observe_loop parse 0 readings k = Inl ProbeLockChanged"
| "observe_loop parse (Suc n) readings k =
     (case observe_lock_once parse (readings k) of
        Inl e \<Rightarrow> Inl e
      | Inr (Some snapshot) \<Rightarrow> Inr snapshot
      | Inr None \<Rightarrow> observe_loop parse n readings (Suc k))"

definition observe_lock ::
  "(byte list \<Rightarrow> launch_metadata option) \<Rightarrow> (nat \<Rightarrow> lock_open_result) \<Rightarrow> probe_error + lock_snapshot" where
  "observe_lock parse readings = observe_loop parse lock_observation_attempts readings 0"

definition duration_ms :: "nat \<Rightarrow> nat" where
  "duration_ms d = min (d div 1000000) u64_max"

definition lock_age :: "lock_snapshot \<Rightarrow> nat \<Rightarrow> nat option" where
  "lock_age s now =
     (if ls_state s \<noteq> LockIsHeld then None
      else case (case ls_metadata s of
                   Some m \<Rightarrow> Some (lm_started_at_unix_ms m * 1000000) | None \<Rightarrow> ls_modified s) of
        None \<Rightarrow> None
      | Some started_at \<Rightarrow> Some (now - started_at))"

section \<open>Classification\<close>

datatype status_disposition = MatchingReady | MatchingNotReady | AdoptedReady | Foreign
datatype probe_state =
    ProbeNotRunning | ProbeStarting | ProbeRunning | ProbeUnhealthy | ProbeEndpointConflict

fun probe_state_str :: "probe_state \<Rightarrow> ustring" where
  "probe_state_str ProbeNotRunning = lit ''not_running''"
| "probe_state_str ProbeStarting = lit ''starting''"
| "probe_state_str ProbeRunning = lit ''running''"
| "probe_state_str ProbeUnhealthy = lit ''unhealthy''"
| "probe_state_str ProbeEndpointConflict = lit ''endpoint_conflict''"

text \<open>\<open>norm_path\<close> canonicalises an existing path and makes another absolute; it may fail.\<close>

definition disposition_of ::
  "(ustring \<Rightarrow> probe_error + ustring) \<Rightarrow> ustring \<Rightarrow> app_config \<Rightarrow> engine_status \<Rightarrow> bool
     \<Rightarrow> launch_metadata option \<Rightarrow> probe_error + status_disposition" where
  "disposition_of norm_path requested_config config status strict_config lock_metadata =
     (case norm_path requested_config of
        Inl e \<Rightarrow> Inl e
      | Inr requested \<Rightarrow>
          (case norm_path (es_config_path status) of
             Inl e \<Rightarrow> Inl e
           | Inr active \<Rightarrow>
               (let matches = requested = active
                      \<and> es_rpc_endpoint status = rpc_endpoint (ac_ipc config)
                      \<and> es_pub_endpoint status = pub_endpoint (ac_ipc config);
                    verdict =
                      (if \<not> matches \<and> \<not> strict_config \<and> es_ready status then AdoptedReady
                       else if \<not> matches then Foreign
                       else if es_ready status then MatchingReady else MatchingNotReady)
                in case lock_metadata of
                     None \<Rightarrow> Inr verdict
                   | Some m \<Rightarrow>
                       (case norm_path (lm_config_path m) of
                          Inl e \<Rightarrow> Inl e
                        | Inr metadata_config \<Rightarrow>
                            if metadata_config \<noteq> active \<or> lm_instance_id m \<noteq> es_instance_id status
                            then Inr Foreign else Inr verdict))))"

definition classify_probe ::
  "lock_state \<Rightarrow> nat option \<Rightarrow> nat \<Rightarrow> bool \<Rightarrow> bool \<Rightarrow> status_disposition option \<Rightarrow> probe_state" where
  "classify_probe lock age startup_timeout rpc_reachable pub_reachable status =
     (if status = Some AdoptedReady then ProbeRunning
      else if status = Some Foreign then ProbeEndpointConflict
      else if lock = LockIsHeld then
        (if status = Some MatchingReady then ProbeRunning
         else if (case age of None \<Rightarrow> True | Some a \<Rightarrow> a \<ge> startup_timeout) then ProbeUnhealthy
         else ProbeStarting)
      else if rpc_reachable \<or> pub_reachable \<or> status \<noteq> None then ProbeEndpointConflict
      else ProbeNotRunning)"

definition state_message ::
  "probe_state \<Rightarrow> nat option \<Rightarrow> nat \<Rightarrow> status_disposition option \<Rightarrow> ustring option" where
  "state_message st age startup_timeout status =
     (case st of
        ProbeNotRunning \<Rightarrow> None
      | ProbeRunning \<Rightarrow> None
      | ProbeStarting \<Rightarrow>
          Some (lit ''engine lock is held and startup is still within ''
                @ show_nat (duration_ms startup_timeout) @ lit '' ms'')
      | ProbeUnhealthy \<Rightarrow>
          Some (lit ''engine lock has been held for ''
                @ show_nat (case age of None \<Rightarrow> 0 | Some a \<Rightarrow> duration_ms a)
                @ lit '' ms without a ready status'')
      | ProbeEndpointConflict \<Rightarrow>
          Some (if status = Some Foreign
                then lit ''RPC endpoint returned a status for a different engine configuration''
                else lit ''one or more configured endpoints are reachable without a healthy engine holding the expected lock''))"

section \<open>The status request\<close>

definition daemon_request ::
  "mac \<Rightarrow> byte list option \<Rightarrow> 64 word \<Rightarrow> rpc_kind \<Rightarrow> ustring \<Rightarrow> byte list \<Rightarrow> rpc_request" where
  "daemon_request mac key now kind request_id payload =
     (let envelope = \<lparr>rq_schema_version = schema_version, rq_request_id = request_id,
            rq_kind = rpc_kind_number kind, rq_timestamp = now, rq_hmac = [], rq_payload = payload\<rparr>
      in (case key of
            None \<Rightarrow> envelope
          | Some k \<Rightarrow> envelope\<lparr>rq_hmac := rpc_request_hmac mac envelope k\<rparr>))"

text \<open>
  \<open>rpc_endpoint_status\<close>: \<open>exchanged\<close> is the response received in time, if any. Whatever goes
  wrong after the key is resolved counts as no status.
\<close>

definition rpc_endpoint_status ::
  "ustring + byte list option \<Rightarrow> (byte list \<Rightarrow> engine_status option) \<Rightarrow> ustring \<Rightarrow> rpc_response option
     \<Rightarrow> probe_error + engine_status option" where
  "rpc_endpoint_status resolved_key decode_status request_id exchanged =
     (case resolved_key of
        Inl e \<Rightarrow> Inl (ProbeHmac e)
      | Inr key \<Rightarrow>
          (case exchanged of
             None \<Rightarrow> Inr None
           | Some response \<Rightarrow>
               if rs_schema_version response \<noteq> schema_version \<or> rs_request_id response \<noteq> request_id
               then Inr None
               else if rs_status response \<noteq> status_ok then Inr None
               else Inr (decode_status (rs_payload response))))"

definition tcp_endpoint :: "ustring \<Rightarrow> ustring option" where
  "tcp_endpoint endpoint =
     (let p = lit ''tcp://''
      in if prefix p endpoint then Some (drop (length p) endpoint) else None)"

section \<open>The sampling loop\<close>

record probe_sample =
  ps_lock_before :: "nat \<Rightarrow> lock_open_result"
  ps_rpc_reachable :: bool
  ps_pub_reachable :: bool
  ps_request_id :: ustring
  ps_exchanged :: "rpc_response option"
  ps_lock_after :: "nat \<Rightarrow> lock_open_result"
  ps_now :: nat

record probe_setup =
  pc_config_path :: ustring
  pc_lock_path :: ustring
  pc_config :: app_config
  pc_strict :: bool
  pc_key :: "ustring + byte list option"
  pc_normalize :: "ustring \<Rightarrow> probe_error + ustring"
  pc_parse :: "byte list \<Rightarrow> launch_metadata option"
  pc_decode_status :: "byte list \<Rightarrow> engine_status option"

record probe_status =
  st_state :: probe_state
  st_rpc_endpoint :: ustring
  st_pub_endpoint :: ustring
  st_config_path :: ustring
  st_lock_path :: ustring
  st_lock_held :: bool
  st_lock_age_ms :: "nat option"
  st_startup_timeout_ms :: nat
  st_lock_metadata :: "launch_metadata option"
  st_rpc_reachable :: bool
  st_pub_reachable :: bool
  st_engine_status :: "engine_status option"
  st_message :: "ustring option"

definition startup_timeout_of :: "app_config \<Rightarrow> nat" where
  "startup_timeout_of config = max (startup_timeout_ms (ac_engine config)) 1 * 1000000"

definition probe_report ::
  "probe_setup \<Rightarrow> lock_snapshot \<Rightarrow> bool \<Rightarrow> bool \<Rightarrow> engine_status option \<Rightarrow> nat \<Rightarrow> probe_error + probe_status" where
  "probe_report pc lock rpc_reachable pub_reachable status now =
     (let config = pc_config pc;
          timeout = startup_timeout_of config;
          age = lock_age lock now;
          held = (if ls_state lock = LockIsHeld then ls_metadata lock else None)
      in case (case status of
                 None \<Rightarrow> Inr None
               | Some s \<Rightarrow> map_sum id Some (disposition_of (pc_normalize pc) (pc_config_path pc) config s (pc_strict pc) held)) of
        Inl e \<Rightarrow> Inl e
      | Inr disposition \<Rightarrow>
          (let st = classify_probe (ls_state lock) age timeout rpc_reachable pub_reachable disposition;
               active = (if disposition \<in> {Some MatchingReady, Some AdoptedReady} then status else None)
           in Inr \<lparr>st_state = st,
                   st_rpc_endpoint = (case active of Some s \<Rightarrow> es_rpc_endpoint s | None \<Rightarrow> rpc_endpoint (ac_ipc config)),
                   st_pub_endpoint = (case active of Some s \<Rightarrow> es_pub_endpoint s | None \<Rightarrow> pub_endpoint (ac_ipc config)),
                   st_config_path = (case active of Some s \<Rightarrow> es_config_path s | None \<Rightarrow> pc_config_path pc),
                   st_lock_path = pc_lock_path pc, st_lock_held = (ls_state lock = LockIsHeld),
                   st_lock_age_ms = map_option duration_ms age,
                   st_startup_timeout_ms = duration_ms timeout, st_lock_metadata = held,
                   st_rpc_reachable = rpc_reachable, st_pub_reachable = pub_reachable,
                   st_engine_status = status,
                   st_message = (if disposition = Some AdoptedReady
                     then Some (lit ''adopted a ready engine discovered at the configured RPC endpoint'')
                     else state_message st age timeout disposition)\<rparr>))"

fun probe_loop :: "probe_setup \<Rightarrow> nat \<Rightarrow> (nat \<Rightarrow> probe_sample) \<Rightarrow> nat \<Rightarrow> probe_error + probe_status" where
  "probe_loop pc 0 samples k = Inl ProbeStateChanged"
| "probe_loop pc (Suc n) samples k =
     (let s = samples k
      in case observe_lock (pc_parse pc) (ps_lock_before s) of
        Inl e \<Rightarrow> Inl e
      | Inr before \<Rightarrow>
          (case (if ps_rpc_reachable s
                 then rpc_endpoint_status (pc_key pc) (pc_decode_status pc) (ps_request_id s) (ps_exchanged s)
                 else Inr None) of
             Inl e \<Rightarrow> Inl e
           | Inr status \<Rightarrow>
               (case observe_lock (pc_parse pc) (ps_lock_after s) of
                  Inl e \<Rightarrow> Inl e
                | Inr lock \<Rightarrow>
                    if before \<noteq> lock then probe_loop pc n samples (Suc k)
                    else probe_report pc lock (ps_rpc_reachable s) (ps_pub_reachable s) status (ps_now s))))"

definition probe_status_of :: "probe_setup \<Rightarrow> (nat \<Rightarrow> probe_sample) \<Rightarrow> probe_error + probe_status" where
  "probe_status_of pc samples = probe_loop pc probe_sample_attempts samples 0"

section \<open>Stopping\<close>

definition stop_cleanup_grace :: nat where "stop_cleanup_grace = 12 * 1000000000"
definition stop_poll_interval :: nat where "stop_poll_interval = 50 * 1000000"

datatype stop_error =
    StopProbe probe_error | StopState probe_state "ustring option" | StopHmac ustring | StopExchange ustring
  | StopEnvelope | StopRejected ustring ustring | StopRejectedSilently | StopNotAccepted | StopBadHmac
  | StopBadPayload | StopTimedOut

fun show_stop_state :: "probe_state \<Rightarrow> ustring option \<Rightarrow> ustring" where
  "show_stop_state st (Some message) =
     lit ''cannot stop weather daemon in state '' @ probe_state_str st @ lit '': '' @ message"
| "show_stop_state st None = lit ''cannot stop weather daemon in state '' @ probe_state_str st"

definition validate_shutdown_response ::
  "mac \<Rightarrow> (byte list \<Rightarrow> bool) \<Rightarrow> rpc_response \<Rightarrow> ustring \<Rightarrow> byte list option \<Rightarrow> stop_error + unit" where
  "validate_shutdown_response mac decodes_empty response request_id key_opt =
     (if rs_schema_version response \<noteq> schema_version \<or> rs_request_id response \<noteq> request_id
      then Inl StopEnvelope
      else if rs_status response = status_error then
        Inl (case rs_error response of
               None \<Rightarrow> StopRejectedSilently | Some e \<Rightarrow> StopRejected (ee_code e) (ee_message e))
      else if rs_status response \<noteq> status_accepted then Inl StopNotAccepted
      else if (case key_opt of
                 None \<Rightarrow> False | Some key \<Rightarrow> rs_hmac response \<noteq> rpc_response_hmac mac response key)
      then Inl StopBadHmac
      else if \<not> decodes_empty (rs_payload response) then Inl StopBadPayload
      else Inr ())"

text \<open>
  \<open>wait_until_stopped\<close>: each turn reads the clock and, before the deadline, the probe; the list
  holds the turns' readings, and running out of it means still waiting.
\<close>

fun wait_until_stopped ::
  "nat \<Rightarrow> (nat \<times> (probe_error + probe_status)) list \<Rightarrow> (stop_error + unit) option" where
  "wait_until_stopped deadline [] = None"
| "wait_until_stopped deadline ((now, probed) # turns) =
     (if deadline \<le> now then Some (Inl StopTimedOut)
      else case probed of
        Inr st \<Rightarrow> if st_state st = ProbeNotRunning then Some (Inr ()) else wait_until_stopped deadline turns
      | Inl e \<Rightarrow> wait_until_stopped deadline turns)"

text \<open>
  \<open>stop\<close>: what the shutdown request was answered (an error or a response) is a function of the
  request, so that the engine's own handler can answer it.
\<close>

record stop_env =
  sp_mac :: mac
  sp_key :: "ustring + byte list option"
  sp_now :: "64 word"
  sp_request_id :: ustring
  sp_encode_shutdown :: "ustring option \<Rightarrow> byte list"
  sp_decodes_empty :: "byte list \<Rightarrow> bool"
  sp_exchange :: "rpc_request \<Rightarrow> ustring + rpc_response"

definition request_shutdown :: "stop_env \<Rightarrow> ustring option \<Rightarrow> stop_error + unit" where
  "request_shutdown sp owner_token =
     (case sp_key sp of
        Inl e \<Rightarrow> Inl (StopHmac e)
      | Inr key \<Rightarrow>
          (case sp_exchange sp (daemon_request (sp_mac sp) key (sp_now sp) Shutdown (sp_request_id sp)
                  (sp_encode_shutdown sp owner_token)) of
             Inl e \<Rightarrow> Inl (StopExchange e)
           | Inr response \<Rightarrow>
               validate_shutdown_response (sp_mac sp) (sp_decodes_empty sp) response (sp_request_id sp) key))"

definition stop_daemon ::
  "stop_env \<Rightarrow> probe_error + probe_status \<Rightarrow> nat \<Rightarrow> (nat \<times> (probe_error + probe_status)) list
     \<Rightarrow> (stop_error + unit) option" where
  "stop_daemon sp probed deadline turns =
     (case probed of
        Inl e \<Rightarrow> Some (Inl (StopProbe e))
      | Inr st \<Rightarrow>
          (case st_state st of
             ProbeNotRunning \<Rightarrow> Some (Inr ())
           | ProbeRunning \<Rightarrow>
               (case request_shutdown sp (case st_lock_metadata st of None \<Rightarrow> None | Some m \<Rightarrow> lm_owner_token m) of
                  Inl e \<Rightarrow> Some (Inl e)
                | Inr u \<Rightarrow> wait_until_stopped deadline turns)
           | other \<Rightarrow> Some (Inl (StopState other (st_message st)))))"

section \<open>What a report rests on\<close>

definition rests_on :: "probe_setup \<Rightarrow> probe_sample \<Rightarrow> probe_status \<Rightarrow> bool" where
  "rests_on pc s st \<longleftrightarrow>
     (\<exists>lock status. observe_lock (pc_parse pc) (ps_lock_before s) = Inr lock
        \<and> observe_lock (pc_parse pc) (ps_lock_after s) = Inr lock
        \<and> probe_report pc lock (ps_rpc_reachable s) (ps_pub_reachable s) status (ps_now s) = Inr st)"

lemma probe_loop_step:
  "probe_loop pc (Suc n) samples k = Inr st
   \<Longrightarrow> rests_on pc (samples k) st \<or> probe_loop pc n samples (Suc k) = Inr st"
  by (auto simp: rests_on_def Let_def split: sum.splits if_splits)

lemma probe_loop_report: "probe_loop pc n samples k = Inr st \<Longrightarrow> \<exists>j. rests_on pc (samples j) st"
proof (induction n arbitrary: k)
  case (Suc n)
  with probe_loop_step [OF Suc.prems] show ?case by blast
qed simp

lemma disposition_ready:
  assumes "disposition_of norm_path requested config s strict meta = Inr d" and "d \<in> {MatchingReady, AdoptedReady}"
  shows "es_ready s
    \<and> (case meta of None \<Rightarrow> True | Some m \<Rightarrow> lm_instance_id m = es_instance_id s)
    \<and> (d = AdoptedReady \<longrightarrow> \<not> strict)
    \<and> (d = MatchingReady \<longrightarrow> norm_path requested = norm_path (es_config_path s)
         \<and> es_rpc_endpoint s = rpc_endpoint (ac_ipc config) \<and> es_pub_endpoint s = pub_endpoint (ac_ipc config))"
  using assms by (auto simp: disposition_of_def Let_def split: sum.splits option.splits if_splits)

lemma classify_running:
  "classify_probe lock age t rpc pub d = ProbeRunning
   \<longleftrightarrow> d = Some AdoptedReady \<or> (lock = LockIsHeld \<and> d = Some MatchingReady)"
  by (auto simp: classify_probe_def)

lemma classify_not_running:
  "classify_probe lock age t rpc pub d = ProbeNotRunning
   \<longleftrightarrow> lock \<noteq> LockIsHeld \<and> \<not> rpc \<and> \<not> pub \<and> d = None"
  by (auto simp: classify_probe_def)

text \<open>
  Also: A running engine is never reported on thin evidence: the report rests on a ready status
  whose instance is the one that wrote the lock file, if the lock is held with metadata; asked
  about a given configuration, it also needs the lock to be held and the engine to run exactly
  that configuration on its endpoints. \<open>not_running\<close> means that the lock was free and nothing
  answered.
\<close>

theorem probe_reports_are_justified:
  assumes "probe_status_of pc samples = Inr st"
  shows "(if st_state st = ProbeRunning then
       (\<exists>s. st_engine_status st = Some s \<and> es_ready s \<and> st_rpc_endpoint st = es_rpc_endpoint s
         \<and> (case st_lock_metadata st of None \<Rightarrow> True | Some m \<Rightarrow> lm_instance_id m = es_instance_id s)
         \<and> (if pc_strict pc then
              st_lock_held st \<and> pc_normalize pc (pc_config_path pc) = pc_normalize pc (es_config_path s)
              \<and> es_rpc_endpoint s = rpc_endpoint (ac_ipc (pc_config pc))
              \<and> es_pub_endpoint s = pub_endpoint (ac_ipc (pc_config pc))
            else True))
     else if st_state st = ProbeNotRunning then
       \<not> st_lock_held st \<and> \<not> st_rpc_reachable st \<and> \<not> st_pub_reachable st \<and> st_engine_status st = None
     else True)"
proof -
  from probe_loop_report [OF assms [unfolded probe_status_of_def]] obtain lock rpc pub status now
    where r: "probe_report pc lock rpc pub status now = Inr st" unfolding rests_on_def by blast
  then obtain d where d: "(case status of None \<Rightarrow> Inr None
      | Some s \<Rightarrow> map_sum id Some (disposition_of (pc_normalize pc) (pc_config_path pc) (pc_config pc) s
          (pc_strict pc) (if ls_state lock = LockIsHeld then ls_metadata lock else None))) = Inr d"
    by (auto simp: probe_report_def Let_def split: sum.splits)
  note r' = r [unfolded probe_report_def Let_def d, simplified]
  have dn: "d = None \<longleftrightarrow> status = None"
    using d by (cases status) (auto simp: map_sum_def split: sum.splits)
  have ds: "disposition_of (pc_normalize pc) (pc_config_path pc) (pc_config pc) s (pc_strict pc)
      (if ls_state lock = LockIsHeld then ls_metadata lock else None) = Inr v"
    if "status = Some s" "d = Some v" for s v
    using d that by (cases "disposition_of (pc_normalize pc) (pc_config_path pc) (pc_config pc) s (pc_strict pc)
      (if ls_state lock = LockIsHeld then ls_metadata lock else None)") auto
  show ?thesis
  proof (cases "st_state st = ProbeRunning")
    case True
    then have cl: "d = Some AdoptedReady \<or> (ls_state lock = LockIsHeld \<and> d = Some MatchingReady)"
      using r' by (auto simp: classify_running)
    then obtain s v where s: "status = Some s" "d = Some v" "v \<in> {MatchingReady, AdoptedReady}"
      using dn by (cases status) auto
    from disposition_ready [OF ds [OF s(1,2)] s(3)] cl s True r' show ?thesis
      by (auto simp: classify_running)
  next
    case False
    with r' dn show ?thesis by (auto simp: classify_not_running)
  qed
qed

definition quiet_setup :: probe_setup where
  "quiet_setup = \<lparr>pc_config_path = [], pc_lock_path = [], pc_config = default_config, pc_strict = True,
     pc_key = Inr None, pc_normalize = Inr, pc_parse = (\<lambda>_. None), pc_decode_status = (\<lambda>_. None)\<rparr>"

definition quiet_sample :: probe_sample where
  "quiet_sample = \<lparr>ps_lock_before = (\<lambda>_. LockNotFound), ps_rpc_reachable = False, ps_pub_reachable = False,
     ps_request_id = [], ps_exchanged = None, ps_lock_after = (\<lambda>_. LockNotFound), ps_now = 0\<rparr>"

lemma probe_reports_are_justified_witness:
  "\<exists>st. probe_status_of quiet_setup (\<lambda>_. quiet_sample) = Inr st \<and> \<not> st_lock_held st
     \<and> st_engine_status st = None"
proof -
  have ob: "observe_lock parse (\<lambda>_. LockNotFound) = Inr missing_lock" for parse
    by (simp add: observe_lock_def lock_observation_attempts_def observe_lock_once_def numeral_3_eq_3)
  obtain st where st: "probe_status_of quiet_setup (\<lambda>_. quiet_sample) = Inr st" "st_state st = ProbeNotRunning"
    by (simp add: probe_status_of_def probe_sample_attempts_def numeral_3_eq_3 ob quiet_setup_def
        quiet_sample_def probe_report_def classify_probe_def missing_lock_def Let_def)
  from probe_reports_are_justified [OF st(1)] st show ?thesis by auto
qed

section \<open>Stopping the right engine\<close>

lemma daemon_request_fields [simp]:
  "rq_request_id (daemon_request mac key now kind i payload) = i"
  "rq_schema_version (daemon_request mac key now kind i payload) = schema_version"
  "rq_kind (daemon_request mac key now kind i payload) = rpc_kind_number kind"
  "rq_payload (daemon_request mac key now kind i payload) = payload"
  by (simp_all add: daemon_request_def Let_def split: option.split)

lemma daemon_request_verifies:
  "verify_rpc_request_hmac mac (daemon_request mac (Some k) now kind i payload) k"
  by (simp add: daemon_request_def Let_def verify_rpc_request_hmac_def rpc_request_hmac_def)

lemma engine_takes_shutdown:
  assumes "resolve_hmac_key env (sv_config sv st) = Inr key"
  shows "fst (handle_rpc_request mac env now sv (daemon_request mac key t Shutdown i payload) st)
    = handle_shutdown mac (Inr key) now sv (daemon_request mac key t Shutdown i payload)"
proof -
  have "\<not> (case key of Some k \<Rightarrow>
      \<not> verify_rpc_request_hmac mac (daemon_request mac key t Shutdown i payload) k | None \<Rightarrow> False)"
    by (cases key) (simp_all add: daemon_request_verifies)
  with assms show ?thesis
    by (simp add: handle_rpc_request_def rpc_kind_roundtrip_lemma dispatch_rpc_def
        del: rpc_kind_number.simps)
qed

lemma accepted_shutdown_valid:
  assumes "decodes_empty []"
  shows "validate_shutdown_response mac decodes_empty
    (build_response mac (Inr key) now i status_accepted [] None) i key = Inr ()"
  using assms
  by (cases key) (simp_all add: validate_shutdown_response_def build_response_def response_signature_def
      status_accepted_def status_error_def rpc_response_hmac_def Let_def)


definition sample_stop :: stop_env where
  "sample_stop = \<lparr>sp_mac = (\<lambda>k m. m), sp_key = Inr None, sp_now = 0, sp_request_id = lit ''q'',
     sp_encode_shutdown = (\<lambda>t. case t of None \<Rightarrow> [] | Some _ \<Rightarrow> [1]), sp_decodes_empty = (\<lambda>b. b = []),
     sp_exchange = (\<lambda>rq. Inr (fst (handle_rpc_request (\<lambda>k m. m) sample_config_env 0 sample_services rq 3)))\<rparr>"


section \<open>Waiting\<close>

definition paced :: "(nat \<times> 'a) list \<Rightarrow> bool" where
  "paced turns \<longleftrightarrow> successively (\<lambda>a b. fst a + stop_poll_interval \<le> fst b) turns"

lemma wait_ends:
  "paced turns \<Longrightarrow> turns \<noteq> [] \<Longrightarrow> deadline \<le> fst (hd turns) + (length turns - 1) * stop_poll_interval
   \<Longrightarrow> wait_until_stopped deadline turns \<noteq> None"
proof (induction deadline turns rule: wait_until_stopped.induct)
  case (2 deadline now probed turns)
  show ?case
  proof (cases "deadline \<le> now")
    case False
    with 2 have ne: "turns \<noteq> []" by (cases turns) auto
    with 2 False have "paced turns" "deadline \<le> fst (hd turns) + (length turns - 1) * stop_poll_interval"
      by (cases turns; auto simp: paced_def successively_Cons algebra_simps)+
    with 2 False ne show ?thesis by (auto split: sum.split)
  qed simp
qed simp

lemma wait_success:
  "wait_until_stopped deadline turns = Some (Inr ())
   \<Longrightarrow> \<exists>(now, probed) \<in> set turns. now < deadline \<and> (\<exists>st. probed = Inr st \<and> st_state st = ProbeNotRunning)"
  by (induction deadline turns rule: wait_until_stopped.induct) (auto split: if_splits sum.splits)

definition saw_it_stopped :: "nat \<Rightarrow> (nat \<times> (probe_error + probe_status)) list \<Rightarrow> bool" where
  "saw_it_stopped deadline turns \<longleftrightarrow>
     list_ex (\<lambda>(now, p). now < deadline
       \<and> (case p of Inr st \<Rightarrow> st_state st = ProbeNotRunning | Inl e \<Rightarrow> False)) turns"

text \<open>
  Also: Stopping always ends and only succeeds on proof: with turns at least one poll interval
  apart, enough of them to pass the deadline give an answer; success means that the daemon was
  not running to begin with, or that its shutdown was accepted and a probe before the deadline
  saw it gone.
\<close>

theorem stop_ends_and_succeeds_on_proof:
  assumes "paced turns" and "turns \<noteq> []"
    and "deadline \<le> fst (hd turns) + (length turns - 1) * stop_poll_interval"
  shows "(case stop_daemon sp probed deadline turns of
       None \<Rightarrow> False
     | Some (Inl e) \<Rightarrow> True
     | Some (Inr u) \<Rightarrow>
         (\<exists>st. probed = Inr st \<and> (st_state st = ProbeNotRunning
            \<or> (st_state st = ProbeRunning
               \<and> request_shutdown sp (case st_lock_metadata st of None \<Rightarrow> None | Some m \<Rightarrow> lm_owner_token m) = Inr ()
               \<and> saw_it_stopped deadline turns))))"
proof (cases probed)
  case (Inr st)
  have w: "wait_until_stopped deadline turns \<noteq> None" using wait_ends [OF assms] .
  have "saw_it_stopped deadline turns"
    if "wait_until_stopped deadline turns = Some (Inr ())"
  proof -
    from wait_success [OF that] obtain now st' where "(now, Inr st') \<in> set turns" "now < deadline"
      "st_state st' = ProbeNotRunning" by auto
    then show ?thesis unfolding saw_it_stopped_def list_ex_iff by (intro bexI [of _ "(now, Inr st')"]) simp_all
  qed
  with w Inr show ?thesis
    by (auto simp: stop_daemon_def split: probe_state.split sum.split option.split)
qed (simp add: stop_daemon_def)

lemma stop_ends_and_succeeds_on_proof_witness:
  "stop_daemon sample_stop (Inl ProbeStateChanged) 0 [(0, Inl ProbeStateChanged)] \<noteq> None"
  using stop_ends_and_succeeds_on_proof [where turns = "[(0, Inl ProbeStateChanged)]" and deadline = 0
      and sp = sample_stop and probed = "Inl ProbeStateChanged"]
  by (auto simp: paced_def split: option.splits)

end
