(* ===== verification/Daemon_Supervisor.thy ===== *)
theory Daemon_Supervisor
  imports Engine_Lock
begin

text \<open>
  The renderers' supervisor of the daemon
  (\<^verbatim>\<open>weather-renderer/common/src/daemon.rs\<close>): it probes, starts a foreground daemon when
  none runs, waits until an engine is ready, decides whether that engine is its own, and kills
  what it started otherwise. Processes and clocks are the operating system's: what a probe, a
  clock or a process status answers is given turn by turn. Durations are nanoseconds, the
  instants the code compares are natural numbers.
\<close>

section \<open>Probes\<close>

definition readiness_poll_interval :: nat where "readiness_poll_interval = 50 * 1000000"

datatype daemon_probe_state =
    DaemonNotRunning | DaemonStarting | DaemonRunning | DaemonUnhealthy | DaemonEndpointConflict

record daemon_probe =
  dp_state :: daemon_probe_state
  dp_rpc_endpoint :: ustring
  dp_pub_endpoint :: ustring
  dp_lock_age_ms :: "nat option"
  dp_startup_timeout_ms :: nat
  dp_lock_metadata :: "launch_metadata option"
  dp_message :: "ustring option"

fun daemon_state_str :: "daemon_probe_state \<Rightarrow> ustring" where
  "daemon_state_str DaemonNotRunning = lit ''not_running''"
| "daemon_state_str DaemonStarting = lit ''starting''"
| "daemon_state_str DaemonRunning = lit ''running''"
| "daemon_state_str DaemonUnhealthy = lit ''unhealthy''"
| "daemon_state_str DaemonEndpointConflict = lit ''endpoint_conflict''"

definition probe_state_error :: "daemon_probe_state \<Rightarrow> ustring option \<Rightarrow> ustring" where
  "probe_state_error st message =
     (case message of
        Some m \<Rightarrow> lit ''engine probe reported '' @ daemon_state_str st @ lit '': '' @ m
      | None \<Rightarrow> lit ''engine probe reported '' @ daemon_state_str st)"

datatype supervisor_error =
    ExecutableNotFound ustring | CommandFailed ustring | ProbeTimedOut | ProbeCommandFailed
  | ProbeUnparsable | ProbeStateRefused ustring | NotReadyWithin nat | EngineStopped
  | ForegroundExited int | ForegroundUninspectable | TimeoutTooLarge | NoDaemonExecutable

section \<open>Commands\<close>

datatype spawn_result = SpawnNotFound | SpawnFailed | Spawned nat

definition daemon_command_error :: "ustring \<Rightarrow> ustring \<Rightarrow> bool \<Rightarrow> supervisor_error" where
  "daemon_command_error executable operation not_found =
     (if not_found then ExecutableNotFound executable
      else CommandFailed (lit ''failed to '' @ operation @ lit '' '' @ executable))"

record daemon_supervisor =
  sup_exe :: ustring
  sup_prefix_args :: "ustring list"
  sup_config :: "ustring option"

text \<open>
  \<open>resolve_daemon_exe\<close>: the executable beside the current one if it exists, else the bare name.
  \<open>DaemonSupervisor::new\<close> evaluates it even when a path is given.
\<close>

definition resolve_daemon_exe ::
  "ustring option option \<Rightarrow> (ustring \<Rightarrow> ustring) \<Rightarrow> (ustring \<Rightarrow> bool) \<Rightarrow> ustring \<Rightarrow> supervisor_error + ustring" where
  "resolve_daemon_exe current_dir join_name exists name =
     (case current_dir of
        Some (Some dir) \<Rightarrow> Inr (if exists (join_name dir) then join_name dir else name)
      | _ \<Rightarrow> Inl NoDaemonExecutable)"

definition supervisor_new ::
  "supervisor_error + ustring \<Rightarrow> ustring option \<Rightarrow> ustring option \<Rightarrow> supervisor_error + daemon_supervisor" where
  "supervisor_new resolved daemon_exe config =
     (case resolved of
        Inl e \<Rightarrow> Inl e
      | Inr found \<Rightarrow>
          Inr \<lparr>sup_exe = (case daemon_exe of Some e \<Rightarrow> e | None \<Rightarrow> found), sup_prefix_args = [],
               sup_config = config\<rparr>)"

definition for_current_exe :: "ustring option \<Rightarrow> ustring option \<Rightarrow> supervisor_error + daemon_supervisor" where
  "for_current_exe current_exe config =
     (case current_exe of
        None \<Rightarrow> Inl NoDaemonExecutable
      | Some e \<Rightarrow> Inr \<lparr>sup_exe = e, sup_prefix_args = [lit ''daemon''], sup_config = config\<rparr>)"

definition config_args :: "daemon_supervisor \<Rightarrow> ustring list" where
  "config_args sv = (case sup_config sv of None \<Rightarrow> [] | Some c \<Rightarrow> [lit ''--config'', c])"

definition foreground_args :: "daemon_supervisor \<Rightarrow> ustring \<Rightarrow> ustring list" where
  "foreground_args sv owner_token =
     sup_prefix_args sv @ [lit ''run'', lit ''--foreground'', lit ''--owner-token'', owner_token] @ config_args sv"

definition probe_args :: "daemon_supervisor \<Rightarrow> ustring list" where
  "probe_args sv = sup_prefix_args sv @ [lit ''probe'', lit ''--verbose''] @ config_args sv"

text \<open>What running the probe command gave: its exit and its output.\<close>

datatype probe_output = OutputTimedOut | OutputError bool | OutputExit bool "daemon_probe option"

definition read_probe :: "daemon_supervisor \<Rightarrow> probe_output \<Rightarrow> supervisor_error + daemon_probe" where
  "read_probe sv output =
     (case output of
        OutputTimedOut \<Rightarrow> Inl ProbeTimedOut
      | OutputError not_found \<Rightarrow> Inl (daemon_command_error (sup_exe sv) (lit ''run daemon probe'') not_found)
      | OutputExit success parsed \<Rightarrow>
          if \<not> success then Inl ProbeCommandFailed
          else (case parsed of None \<Rightarrow> Inl ProbeUnparsable | Some p \<Rightarrow> Inr p))"

section \<open>The foreground process\<close>

text \<open>
  A child process: when it exits by itself, if ever, and whether it has been killed or its
  exit collected.
\<close>

record foreground_daemon =
  fg_pid :: nat
  fg_graceful :: bool

datatype child_end = ChildReaped | ChildKilled

text \<open>
  \<open>Drop for ForegroundDaemon\<close>: after a graceful request it polls up to five seconds; a child
  that still runs is killed; either way its exit is collected. \<open>exits\<close> is the instant the child
  ends by itself, if it does.
\<close>

definition graceful_wait :: nat where "graceful_wait = 5 * 1000000000"
definition graceful_poll :: nat where "graceful_poll = 100 * 1000000"

definition child_exited :: "nat option \<Rightarrow> nat \<Rightarrow> bool" where
  "child_exited exits now \<longleftrightarrow> (case exits of None \<Rightarrow> False | Some t \<Rightarrow> t \<le> now)"

function poll_child :: "nat option \<Rightarrow> nat \<Rightarrow> nat \<Rightarrow> nat option \<times> nat" where
  "poll_child exits deadline now =
     (if deadline \<le> now then (None, now)
      else if child_exited exits now then (Some now, now)
      else poll_child exits deadline (now + graceful_poll))"
  by pat_completeness auto
termination
  by (relation "measure (\<lambda>(exits, deadline, now). deadline - now)") (auto simp: graceful_poll_def)

declare poll_child.simps [simp del]

definition drop_foreground :: "foreground_daemon \<Rightarrow> nat option \<Rightarrow> nat \<Rightarrow> child_end \<times> nat" where
  "drop_foreground fg exits now =
     (let (seen, later) =
        (if fg_graceful fg \<and> \<not> child_exited exits now then poll_child exits (now + graceful_wait) now
         else (None, now))
      in case seen of
           Some t \<Rightarrow> (ChildReaped, t)
         | None \<Rightarrow> (if child_exited exits later then ChildReaped else ChildKilled, later))"

definition mark_graceful_shutdown_requested :: "foreground_daemon \<Rightarrow> foreground_daemon" where
  "mark_graceful_shutdown_requested fg = fg\<lparr>fg_graceful := True\<rparr>"

definition start_foreground :: "daemon_supervisor \<Rightarrow> spawn_result \<Rightarrow> supervisor_error + foreground_daemon" where
  "start_foreground sv spawned =
     (case spawned of
        SpawnNotFound \<Rightarrow> Inl (daemon_command_error (sup_exe sv) (lit ''start foreground daemon'') True)
      | SpawnFailed \<Rightarrow> Inl (daemon_command_error (sup_exe sv) (lit ''start foreground daemon'') False)
      | Spawned pid \<Rightarrow> Inr \<lparr>fg_pid = pid, fg_graceful = False\<rparr>)"

section \<open>Readiness\<close>

record spawned_foreground =
  sf_token :: ustring
  sf_foreground :: foreground_daemon

datatype readiness = ReadyWait | ReadyOwned | ReadyAdopted

definition readiness_decision ::
  "daemon_probe \<Rightarrow> (nat \<times> ustring) option \<Rightarrow> supervisor_error + readiness" where
  "readiness_decision probe spawned =
     (case dp_state probe of
        DaemonNotRunning \<Rightarrow> Inr ReadyWait
      | DaemonStarting \<Rightarrow> Inr ReadyWait
      | DaemonRunning \<Rightarrow>
          (case spawned of
             None \<Rightarrow> Inr ReadyAdopted
           | Some (pid, token) \<Rightarrow>
               Inr (case dp_lock_metadata probe of
                      None \<Rightarrow> ReadyAdopted
                    | Some m \<Rightarrow>
                        if lm_pid m = pid \<and> lm_owner_token m = Some token then ReadyOwned else ReadyAdopted))
      | st \<Rightarrow> Inl (ProbeStateRefused (probe_state_error st (dp_message probe))))"

datatype ownership = Direct | Adopted | Owned spawned_foreground

record ready_daemon =
  rd_probe :: daemon_probe
  rd_ownership :: ownership

definition startup_wait_duration :: "daemon_probe \<Rightarrow> nat" where
  "startup_wait_duration probe =
     (dp_startup_timeout_ms probe - (case dp_lock_age_ms probe of None \<Rightarrow> 0 | Some a \<Rightarrow> a)) * 1000000"

text \<open>\<open>Instant::checked_add\<close>: \<open>horizon\<close> is the last instant the platform represents.\<close>

definition readiness_deadline :: "nat \<Rightarrow> nat \<Rightarrow> nat \<Rightarrow> supervisor_error + nat" where
  "readiness_deadline horizon now wait =
     (if now + wait \<le> horizon then Inr (now + wait) else Inl TimeoutTooLarge)"

text \<open>
  One turn of the waiting loop: the clock, what the probe gave, and what \<open>try_wait\<close> on the
  child would give (\<open>None\<close> that it cannot be inspected).
\<close>

record readiness_turn =
  rt_now :: nat
  rt_output :: probe_output
  rt_exit :: "int option option"

text \<open>The result comes with what became of the child: handed over, dropped, or there was none.\<close>

datatype child_fate = NoChild | HandedOver foreground_daemon | DroppedChild foreground_daemon

definition drop_spawned :: "spawned_foreground option \<Rightarrow> child_fate" where
  "drop_spawned spawned = (case spawned of None \<Rightarrow> NoChild | Some s \<Rightarrow> DroppedChild (sf_foreground s))"

definition spawn_identity :: "spawned_foreground option \<Rightarrow> (nat \<times> ustring) option" where
  "spawn_identity spawned = map_option (\<lambda>s. (fg_pid (sf_foreground s), sf_token s)) spawned"

definition turn_result ::
  "daemon_supervisor \<Rightarrow> nat \<Rightarrow> nat \<Rightarrow> spawned_foreground option \<Rightarrow> readiness_turn
     \<Rightarrow> ((supervisor_error + ready_daemon) \<times> child_fate) option" where
  "turn_result sv deadline startup_timeout_ms spawned t =
     (if deadline \<le> rt_now t then Some (Inl (NotReadyWithin startup_timeout_ms), drop_spawned spawned)
      else case read_probe sv (rt_output t) of
        Inl e \<Rightarrow> Some (Inl (NotReadyWithin startup_timeout_ms), drop_spawned spawned)
      | Inr probe \<Rightarrow>
          (case (readiness_decision probe (spawn_identity spawned), spawned) of
             (Inl e, _) \<Rightarrow> Some (Inl e, drop_spawned spawned)
           | (Inr ReadyOwned, Some s) \<Rightarrow>
               Some (Inr \<lparr>rd_probe = probe, rd_ownership = Owned s\<rparr>, HandedOver (sf_foreground s))
           | (Inr ReadyOwned, None) \<Rightarrow> Some (Inl EngineStopped, NoChild)
           | (Inr ReadyAdopted, _) \<Rightarrow>
               Some (Inr \<lparr>rd_probe = probe, rd_ownership = Adopted\<rparr>, drop_spawned spawned)
           | (Inr ReadyWait, _) \<Rightarrow>
               if dp_state probe = DaemonNotRunning then
                 (case spawned of
                    None \<Rightarrow> Some (Inl EngineStopped, NoChild)
                  | Some s \<Rightarrow>
                      (case rt_exit t of
                         None \<Rightarrow> Some (Inl ForegroundUninspectable, drop_spawned spawned)
                       | Some (Some status) \<Rightarrow> Some (Inl (ForegroundExited status), drop_spawned spawned)
                       | Some None \<Rightarrow> None))
               else None))"

fun wait_for_readiness ::
  "daemon_supervisor \<Rightarrow> nat \<Rightarrow> nat \<Rightarrow> spawned_foreground option \<Rightarrow> readiness_turn list
     \<Rightarrow> ((supervisor_error + ready_daemon) \<times> child_fate) option" where
  "wait_for_readiness sv deadline startup_timeout_ms spawned [] = None"
| "wait_for_readiness sv deadline startup_timeout_ms spawned (t # ts) =
     (case turn_result sv deadline startup_timeout_ms spawned t of
        Some r \<Rightarrow> Some r
      | None \<Rightarrow> wait_for_readiness sv deadline startup_timeout_ms spawned ts)"

text \<open>\<open>ensure_ready\<close>; \<open>token\<close> is the fresh owner token, \<open>now\<close> the clock when the deadline is set.\<close>

definition ensure_ready ::
  "daemon_supervisor \<Rightarrow> nat \<Rightarrow> nat \<Rightarrow> ustring \<Rightarrow> spawn_result \<Rightarrow> daemon_probe \<Rightarrow> readiness_turn list
     \<Rightarrow> ((supervisor_error + ready_daemon) \<times> child_fate) option" where
  "ensure_ready sv horizon now token spawned initial turns =
     (case dp_state initial of
        DaemonRunning \<Rightarrow> Some (Inr \<lparr>rd_probe = initial, rd_ownership = Adopted\<rparr>, NoChild)
      | DaemonNotRunning \<Rightarrow>
          (case start_foreground sv spawned of
             Inl e \<Rightarrow> Some (Inl e, NoChild)
           | Inr fg \<Rightarrow>
               (let child = Some \<lparr>sf_token = token, sf_foreground = fg\<rparr>
                in case readiness_deadline horizon now (max (dp_startup_timeout_ms initial) 1 * 1000000) of
                     Inl e \<Rightarrow> Some (Inl e, drop_spawned child)
                   | Inr deadline \<Rightarrow> wait_for_readiness sv deadline (dp_startup_timeout_ms initial) child turns))
      | DaemonStarting \<Rightarrow>
          (case readiness_deadline horizon now (startup_wait_duration initial) of
             Inl e \<Rightarrow> Some (Inl e, NoChild)
           | Inr deadline \<Rightarrow> wait_for_readiness sv deadline (dp_startup_timeout_ms initial) None turns)
      | st \<Rightarrow> Some (Inl (ProbeStateRefused (probe_state_error st (dp_message initial))), NoChild))"

section \<open>Properties\<close>

text \<open>What a finished call owes: the child exactly when the engine is proved to be its own.\<close>

definition justified :: "nat option \<Rightarrow> ustring \<Rightarrow> (supervisor_error + ready_daemon) \<times> child_fate \<Rightarrow> bool" where
  "justified pid token r =
     (case fst r of
        Inl e \<Rightarrow> (case snd r of HandedOver fg \<Rightarrow> False | NoChild \<Rightarrow> pid = None | DroppedChild fg \<Rightarrow> pid = Some (fg_pid fg))
      | Inr rd \<Rightarrow>
          dp_state (rd_probe rd) = DaemonRunning
          \<and> (case rd_ownership rd of
               Owned s \<Rightarrow> snd r = HandedOver (sf_foreground s) \<and> pid = Some (fg_pid (sf_foreground s))
                 \<and> sf_token s = token
                 \<and> (\<exists>m. dp_lock_metadata (rd_probe rd) = Some m \<and> Some (lm_pid m) = pid \<and> lm_owner_token m = Some token)
             | Adopted \<Rightarrow> (case snd r of HandedOver fg \<Rightarrow> False | NoChild \<Rightarrow> pid = None | DroppedChild fg \<Rightarrow> pid = Some (fg_pid fg))
             | Direct \<Rightarrow> False))"

lemma turn_justified:
  assumes "turn_result sv deadline ms spawned t = Some r"
  shows "justified (map_option (\<lambda>s. fg_pid (sf_foreground s)) spawned)
    (case spawned of None \<Rightarrow> token | Some s \<Rightarrow> sf_token s) r"
  using assms
  by (cases spawned)
     (auto simp: turn_result_def justified_def drop_spawned_def spawn_identity_def readiness_decision_def
       split: if_splits sum.splits daemon_probe_state.splits option.splits readiness.splits)

lemma wait_justified:
  "wait_for_readiness sv deadline ms spawned turns = Some r
   \<Longrightarrow> justified (map_option (\<lambda>s. fg_pid (sf_foreground s)) spawned)
        (case spawned of None \<Rightarrow> token | Some s \<Rightarrow> sf_token s) r"
  by (induction sv deadline ms spawned turns rule: wait_for_readiness.induct)
     (auto split: option.splits dest: turn_justified)

text \<open>
  C10: The supervisor never loses a daemon it started: whenever \<open>ensure_ready\<close> ends, a started
  process is either handed to the caller, and then a running engine's lock names this process
  and this call's owner token, or dropped, which kills it; an engine that is not its own is
  only adopted.
\<close>

theorem started_daemon_is_owned_or_dropped:
  assumes "ensure_ready sv horizon now token spawned initial turns = Some r"
  shows "justified (case (dp_state initial, spawned) of (DaemonNotRunning, Spawned pid) \<Rightarrow> Some pid | _ \<Rightarrow> None)
    token r"
proof (cases "dp_state initial")
  case DaemonNotRunning
  show ?thesis
  proof (cases spawned)
    case (Spawned pid)
    let ?child = "\<lparr>sf_token = token, sf_foreground = \<lparr>fg_pid = pid, fg_graceful = False\<rparr>\<rparr>"
    from assms DaemonNotRunning Spawned show ?thesis
      using wait_justified [of sv _ "dp_startup_timeout_ms initial" "Some ?child" turns r]
      by (auto simp: ensure_ready_def start_foreground_def drop_spawned_def justified_def [of _ _ "(Inl _, _)"]
          Let_def split: sum.splits)
  qed (use assms DaemonNotRunning in \<open>auto simp: ensure_ready_def start_foreground_def justified_def\<close>)
next
  case DaemonStarting
  with assms wait_justified [of sv _ "dp_startup_timeout_ms initial" None turns r token] show ?thesis
    by (auto simp: ensure_ready_def justified_def [of _ _ "(Inl _, _)"] split: sum.splits)
qed (use assms in \<open>auto simp: ensure_ready_def justified_def\<close>)

definition own_probe :: daemon_probe where
  "own_probe = \<lparr>dp_state = DaemonRunning, dp_rpc_endpoint = [], dp_pub_endpoint = [], dp_lock_age_ms = None,
     dp_startup_timeout_ms = 8000,
     dp_lock_metadata = Some \<lparr>lm_version = 1, lm_pid = 7, lm_instance_id = [], lm_owner_token = Some (lit ''t''),
       lm_started_at_unix_ms = 0, lm_config_path = []\<rparr>, dp_message = None\<rparr>"

definition plain_supervisor :: daemon_supervisor where
  "plain_supervisor = \<lparr>sup_exe = lit ''d'', sup_prefix_args = [], sup_config = None\<rparr>"

lemma started_daemon_is_owned_or_dropped_witness:
  "\<exists>r. ensure_ready plain_supervisor (10 ^ 20) 0 (lit ''t'') (Spawned 7) (own_probe\<lparr>dp_state := DaemonNotRunning\<rparr>)
        [\<lparr>rt_now = 1, rt_output = OutputExit True (Some own_probe), rt_exit = None\<rparr>] = Some r
      \<and> justified (Some 7) (lit ''t'') r"
proof -
  obtain r where r: "ensure_ready plain_supervisor (10 ^ 20) 0 (lit ''t'') (Spawned 7)
      (own_probe\<lparr>dp_state := DaemonNotRunning\<rparr>)
      [\<lparr>rt_now = 1, rt_output = OutputExit True (Some own_probe), rt_exit = None\<rparr>] = Some r"
    by (simp add: ensure_ready_def start_foreground_def readiness_deadline_def own_probe_def turn_result_def
        read_probe_def readiness_decision_def spawn_identity_def Let_def)
  from started_daemon_is_owned_or_dropped [OF r] r show ?thesis by (simp add: own_probe_def)
qed

definition paced_until :: "nat \<Rightarrow> readiness_turn list \<Rightarrow> bool" where
  "paced_until deadline turns \<longleftrightarrow>
     successively (\<lambda>a b. min (rt_now a + readiness_poll_interval) deadline \<le> rt_now b) turns"

lemma readiness_ends:
  "paced_until deadline turns \<Longrightarrow> turns \<noteq> []
   \<Longrightarrow> deadline \<le> rt_now (hd turns) + (length turns - 1) * readiness_poll_interval
   \<Longrightarrow> wait_for_readiness sv deadline ms spawned turns \<noteq> None"
proof (induction turns)
  case (Cons t ts)
  show ?case
  proof (cases "turn_result sv deadline ms spawned t")
    case None
    then have now: "rt_now t < deadline" by (auto simp: turn_result_def not_le split: if_splits)
    with Cons.prems have ne: "ts \<noteq> []" by (cases ts) auto
    then obtain u us where ts: "ts = u # us" by (cases ts) auto
    with Cons.prems have p: "paced_until deadline ts"
      and st: "min (rt_now t + readiness_poll_interval) deadline \<le> rt_now u"
      by (simp_all add: paced_until_def)
    have "deadline \<le> rt_now u + (length ts - 1) * readiness_poll_interval"
      using st Cons.prems(3) by (simp add: ts min_def split: if_splits)
    with Cons.IH [OF p ne] None ts show ?thesis by simp
  qed simp
qed simp

lemma poll_child_bound:
  assumes "now \<le> deadline"
  shows "snd (poll_child exits deadline now) \<le> deadline + graceful_poll
    \<and> (\<forall>t. fst (poll_child exits deadline now) = Some t \<longrightarrow>
          child_exited exits t \<and> snd (poll_child exits deadline now) = t)"
  using assms
proof (induction exits deadline now rule: poll_child.induct)
  case (1 exits deadline now)
  show ?case
  proof (cases "deadline \<le> now \<or> child_exited exits now")
    case True
    with 1 show ?thesis by (subst (1 2 3) poll_child.simps) auto
  next
    case False
    then have e: "poll_child exits deadline now = poll_child exits deadline (now + graceful_poll)"
      by (subst poll_child.simps) simp
    show ?thesis
    proof (cases "now + graceful_poll \<le> deadline")
      case True
      with 1 False e show ?thesis by simp
    next
      case late: False
      then have "poll_child exits deadline (now + graceful_poll) = (None, now + graceful_poll)"
        by (subst poll_child.simps) simp
      with e False show ?thesis by simp
    qed
  qed
qed

text \<open>
  Also: Waiting for a daemon ends, and so does dropping one: turns that are at least a poll
  interval apart (or at the deadline) and reach the deadline give a result; a dropped process
  is collected within the five seconds of grace and one poll, killed unless it had exited by
  itself, and without a graceful request at once.
\<close>

theorem readiness_and_drop_end:
  assumes "paced_until deadline turns" and "turns \<noteq> []"
    and "deadline \<le> rt_now (hd turns) + (length turns - 1) * readiness_poll_interval"
  shows "wait_for_readiness sv deadline ms spawned turns \<noteq> None
    \<and> snd (drop_foreground fg exits now) \<le> now + (if fg_graceful fg then graceful_wait + graceful_poll else 0)
    \<and> (fst (drop_foreground fg exits now) = ChildReaped
         \<longleftrightarrow> child_exited exits (snd (drop_foreground fg exits now)))"
proof (intro conjI)
  show "wait_for_readiness sv deadline ms spawned turns \<noteq> None" by (rule readiness_ends [OF assms])
  note b = poll_child_bound [of now "now + graceful_wait" exits]
  show "snd (drop_foreground fg exits now) \<le> now + (if fg_graceful fg then graceful_wait + graceful_poll else 0)"
    using b by (auto simp: drop_foreground_def Let_def case_prod_beta split: option.split)
  show "fst (drop_foreground fg exits now) = ChildReaped
      \<longleftrightarrow> child_exited exits (snd (drop_foreground fg exits now))"
    using b by (auto simp: drop_foreground_def Let_def case_prod_beta split: option.split)
qed

lemma readiness_and_drop_end_witness:
  "wait_for_readiness plain_supervisor 0 8000 None [\<lparr>rt_now = 0, rt_output = OutputTimedOut, rt_exit = None\<rparr>] \<noteq> None"
  using readiness_and_drop_end [where deadline = 0 and sv = plain_supervisor and ms = 8000 and spawned = None
      and turns = "[\<lparr>rt_now = 0, rt_output = OutputTimedOut, rt_exit = None\<rparr>]"]
  by (simp add: paced_until_def)

end
