(* ===== verification/Tui_State.thy ===== *)
theory Tui_State
  imports Station_Names Config "HOL-Library.Multiset"
begin

text \<open>
  The terminal client's own state machines
  (\<^verbatim>\<open>weather-renderer/tui/src/tui/state.rs\<close>): the search panel with its token, page
  order and duplicate suppression, the selection among the stations that are enabled and not
  hidden, and the draft of a move. An operation that runs \<open>bump_token\<close> is an option: the
  counter is checked and its overflow is a panic, \<open>None\<close>.
\<close>

section \<open>Modes, keys and small helpers\<close>

datatype input_mode =
    ModeNormal | ModeManage | ModeManageMove | ModeManageAddSearch | ModeManageBrowseSearch
  | ModeAbout

datatype panel_focus = FocusStations | FocusCurrent | FocusForecast | FocusAlert

datatype search_status = SearchIdle | SearchLoading | SearchReady | SearchFailed ustring

datatype search_intent =
  IntentNone | IntentExit | IntentSubmit | IntentQueryChanged | IntentAction

text \<open>The key codes the client tells apart; every other one is \<open>KeyOther\<close>.\<close>

datatype key_code =
    KeyEsc | KeyEnter | KeyBackspace | KeyTab | KeyDown | KeyUp | KeyPageDown | KeyPageUp
  | KeyChar nat | KeyOther

record key_event =
  ke_code :: key_code
  ke_control :: bool
  ke_alt :: bool

text \<open>\<open>saturating_add_signed\<close> on \<open>usize\<close>, then the clamp.\<close>

definition sat_add_signed :: "nat \<Rightarrow> int \<Rightarrow> nat" where
  "sat_add_signed n d = nat (max 0 (min (int u64_max) (int n + d)))"

definition moved_index :: "nat \<Rightarrow> nat \<Rightarrow> int \<Rightarrow> nat" where
  "moved_index current len delta =
     (if len = 0 then 0 else min (sat_add_signed current delta) (len - 1))"

fun list_position :: "('a \<Rightarrow> bool) \<Rightarrow> 'a list \<Rightarrow> nat option" where
  "list_position P [] = None"
| "list_position P (x # xs) = (if P x then Some 0 else map_option Suc (list_position P xs))"

definition slice_get :: "'a list \<Rightarrow> nat \<Rightarrow> 'a option" where
  "slice_get xs i = (if i < length xs then Some (xs ! i) else None)"

definition checked_add_u64 :: "nat \<Rightarrow> nat option" where
  "checked_add_u64 n = (if n < u64_max then Some (n + 1) else None)"

lemma moved_index_less [simp]: "0 < n \<Longrightarrow> moved_index i n d < n"
  by (auto simp: moved_index_def)

lemma moved_index_0 [simp]: "moved_index i 0 d = 0"
  by (simp add: moved_index_def)

lemma moved_index_down: "i < n \<Longrightarrow> n \<le> u64_max \<Longrightarrow> moved_index i n 1 = min (i + 1) (n - 1)"
  by (auto simp: moved_index_def sat_add_signed_def)

lemma moved_index_up: "i < n \<Longrightarrow> n \<le> u64_max \<Longrightarrow> moved_index i n (- 1) = i - 1"
  by (auto simp: moved_index_def sat_add_signed_def)

lemma list_position_SomeD: "list_position P xs = Some i \<Longrightarrow> i < length xs \<and> P (xs ! i)"
  by (induction P xs arbitrary: i rule: list_position.induct) (auto split: if_splits)

lemma list_position_None_iff: "list_position P xs = None \<longleftrightarrow> (\<forall>x \<in> set xs. \<not> P x)"
  by (induction P xs rule: list_position.induct) auto

lemma list_position_bound: "list_position P xs = Some i \<Longrightarrow> i < length xs"
  by (simp add: list_position_SomeD)

lemma slice_get_Some [simp]: "slice_get xs i = Some x \<longleftrightarrow> i < length xs \<and> xs ! i = x"
  by (simp add: slice_get_def)

lemma slice_get_None [simp]: "slice_get xs i = None \<longleftrightarrow> length xs \<le> i"
  by (simp add: slice_get_def not_less)

lemma checked_add_Some [simp]: "checked_add_u64 n = Some m \<longleftrightarrow> n < u64_max \<and> m = n + 1"
  by (auto simp: checked_add_u64_def)

section \<open>The search panel\<close>

record search_page =
  sg_token :: nat
  sg_requested_offset :: nat
  sg_stations :: "station_ref list"
  sg_more :: bool
  sg_next :: nat

record search_state =
  srch_query :: ustring
  srch_results :: "station_ref list"
  srch_selected :: nat
  srch_has_more :: bool
  srch_next_offset :: nat
  srch_status :: search_status
  srch_token :: nat

definition search_default :: search_state where
  "search_default = \<lparr>srch_query = [], srch_results = [], srch_selected = 0,
     srch_has_more = False, srch_next_offset = 0, srch_status = SearchIdle, srch_token = 0\<rparr>"

definition bump_token :: "search_state \<Rightarrow> search_state option" where
  "bump_token s = map_option (\<lambda>t. s\<lparr>srch_token := t\<rparr>) (checked_add_u64 (srch_token s))"

definition cancel_and_clear :: "search_state \<Rightarrow> search_state option" where
  "cancel_and_clear s = map_option (\<lambda>s. s\<lparr>srch_results := [], srch_selected := 0,
     srch_has_more := False, srch_next_offset := 0, srch_status := SearchIdle\<rparr>) (bump_token s)"

definition search_enter :: "search_state \<Rightarrow> search_state option" where
  "search_enter s = map_option (\<lambda>s. s\<lparr>srch_query := []\<rparr>) (cancel_and_clear s)"

definition search_start :: "search_state \<Rightarrow> ((nat \<times> ustring) \<times> search_state) option" where
  "search_start s = map_option (\<lambda>s. ((srch_token s, srch_query s),
     s\<lparr>srch_results := [], srch_selected := 0, srch_has_more := False, srch_next_offset := 0,
       srch_status := SearchLoading\<rparr>)) (bump_token s)"

definition cancel_results_for_edit :: "search_state \<Rightarrow> search_state option" where
  "cancel_results_for_edit s = map_option (\<lambda>s. s\<lparr>srch_results := [], srch_selected := 0,
     srch_has_more := False, srch_next_offset := 0, srch_status := SearchIdle\<rparr>) (bump_token s)"

text \<open>The character 97 is \<open>a\<close>.\<close>

definition search_key :: "key_event \<Rightarrow> search_state \<Rightarrow> (search_intent \<times> search_state) option" where
  "search_key k s =
     (case ke_code k of
        KeyEsc \<Rightarrow> Some (IntentExit, s)
      | KeyEnter \<Rightarrow> Some (IntentSubmit, s)
      | KeyBackspace \<Rightarrow> map_option (Pair IntentQueryChanged)
          (cancel_results_for_edit (s\<lparr>srch_query := butlast (srch_query s)\<rparr>))
      | KeyDown \<Rightarrow> Some (IntentNone,
          s\<lparr>srch_selected := moved_index (srch_selected s) (length (srch_results s)) 1\<rparr>)
      | KeyUp \<Rightarrow> Some (IntentNone,
          s\<lparr>srch_selected := moved_index (srch_selected s) (length (srch_results s)) (- 1)\<rparr>)
      | KeyChar c \<Rightarrow>
          (if c = 97 \<and> ke_control k then Some (IntentAction, s)
           else if \<not> ke_control k \<and> \<not> ke_alt k
           then map_option (Pair IntentQueryChanged)
             (cancel_results_for_edit (s\<lparr>srch_query := srch_query s @ [c]\<rparr>))
           else Some (IntentNone, s))
      | _ \<Rightarrow> Some (IntentNone, s))"

text \<open>
  Two results are the same station when their identifiers agree, or, when one of them has no
  identifier, when name, province and city agree.
\<close>

definition same_station :: "station_ref \<Rightarrow> station_ref \<Rightarrow> bool" where
  "same_station item station =
     (if sr_unified_uuid item \<noteq> [] \<and> sr_unified_uuid station \<noteq> []
      then sr_unified_uuid item = sr_unified_uuid station
      else sr_name item = sr_name station \<and> sr_province item = sr_province station
           \<and> sr_city item = sr_city station)"

fun append_unique_stations :: "station_ref list \<Rightarrow> station_ref list \<Rightarrow> station_ref list" where
  "append_unique_stations target [] = target"
| "append_unique_stations target (station # source) =
     append_unique_stations
       (if list_ex (\<lambda>item. same_station item station) target then target else target @ [station])
       source"

definition apply_page :: "search_page \<Rightarrow> search_state \<Rightarrow> bool \<times> search_state" where
  "apply_page page s =
     (if sg_token page \<noteq> srch_token s \<or> srch_status s \<noteq> SearchLoading then (False, s)
      else if sg_requested_offset page \<noteq> srch_next_offset s
      then (False, s\<lparr>srch_status := SearchFailed
              (lit ''search page arrived out of order: expected '' @ show_nat (srch_next_offset s)
               @ lit '', got '' @ show_nat (sg_requested_offset page)),
              srch_has_more := False\<rparr>)
      else
        let results = append_unique_stations (srch_results s) (sg_stations page);
            selected = (if srch_selected s \<ge> length results \<and> results \<noteq> []
                        then length results - 1 else srch_selected s)
        in (True, s\<lparr>srch_results := results, srch_has_more := sg_more page,
              srch_next_offset := sg_next page, srch_selected := selected,
              srch_status := (if \<not> sg_more page then SearchReady else srch_status s)\<rparr>))"

definition apply_error :: "nat \<Rightarrow> ustring \<Rightarrow> search_state \<Rightarrow> bool \<times> search_state" where
  "apply_error token message s =
     (if token \<noteq> srch_token s \<or> srch_status s \<noteq> SearchLoading then (False, s)
      else (True, s\<lparr>srch_has_more := False, srch_status := SearchFailed message\<rparr>))"

definition selected_result :: "search_state \<Rightarrow> station_ref option" where
  "selected_result s = slice_get (srch_results s) (srch_selected s)"

text \<open>
  The panel's invariant: no station twice, the selection inside the list, more pages only
  while loading, and nothing left of a search that was cancelled.
\<close>

definition search_ok :: "search_state \<Rightarrow> bool" where
  "search_ok s \<longleftrightarrow>
     sorted_wrt (\<lambda>a b. \<not> same_station a b) (srch_results s)
     \<and> srch_selected s < max 1 (length (srch_results s))
     \<and> (srch_has_more s \<longrightarrow> srch_status s = SearchLoading)
     \<and> (srch_status s = SearchIdle \<longrightarrow> srch_results s = [])
     \<and> srch_token s \<le> u64_max"

lemma append_unique_distinct:
  "sorted_wrt (\<lambda>a b. \<not> same_station a b) target \<Longrightarrow>
     sorted_wrt (\<lambda>a b. \<not> same_station a b) (append_unique_stations target source)"
  by (induction source arbitrary: target) (auto simp: sorted_wrt_append list_ex_iff)

lemma append_unique_set:
  "set target \<subseteq> set (append_unique_stations target source)
   \<and> set (append_unique_stations target source) \<subseteq> set target \<union> set source"
proof (induction source arbitrary: target)
  case (Cons x xs)
  show ?case
    using Cons.IH [of target] Cons.IH [of "target @ [x]"] by auto
qed simp

lemma append_unique_prefix: "\<exists>more. append_unique_stations target source = target @ more"
proof (induction source arbitrary: target)
  case (Cons x xs)
  show ?case
    using Cons.IH [of target] Cons.IH [of "target @ [x]"] by auto
qed simp

lemma append_unique_length: "length target \<le> length (append_unique_stations target source)"
  using append_unique_prefix [of target source] by auto

lemma append_unique_append:
  "append_unique_stations target (xs @ ys)
     = append_unique_stations (append_unique_stations target xs) ys"
  by (induction xs arbitrary: target) auto

lemma append_unique_covers:
  assumes "x \<in> set source"
  shows "\<exists>y \<in> set (append_unique_stations target source). y = x \<or> same_station y x"
  using assms
proof (induction source arbitrary: target)
  case (Cons z zs)
  define target' where "target' = (if list_ex (\<lambda>item. same_station item z) target then target
      else target @ [z])"
  have step: "append_unique_stations target (z # zs) = append_unique_stations target' zs"
    by (simp add: target'_def)
  show ?case
  proof (cases "x = z")
    case True
    then have "\<exists>y \<in> set target'. y = x \<or> same_station y x"
      by (auto simp: target'_def list_ex_iff)
    then show ?thesis
      using append_unique_set [of target' zs] unfolding step by blast
  next
    case False
    with Cons.prems Cons.IH [of target'] show ?thesis
      unfolding step by simp
  qed
qed simp

lemma search_default_ok [simp]: "search_ok search_default"
  by (simp add: search_ok_def search_default_def)

lemma cancel_and_clear_ok: "cancel_and_clear s = Some s' \<Longrightarrow> search_ok s'"
  by (auto simp: cancel_and_clear_def bump_token_def search_ok_def)

lemma search_enter_ok: "search_enter s = Some s' \<Longrightarrow> search_ok s'"
  by (auto simp: search_enter_def cancel_and_clear_def bump_token_def search_ok_def)

lemma search_start_ok: "search_start s = Some (r, s') \<Longrightarrow> search_ok s'"
  by (auto simp: search_start_def bump_token_def search_ok_def)

lemma search_key_ok:
  assumes "search_ok s" and "search_key k s = Some (i, s')"
  shows "search_ok s'"
  using assms
  by (cases "srch_results s = []")
     (auto simp: search_key_def cancel_results_for_edit_def bump_token_def search_ok_def max_def
        moved_index_def split: key_code.splits if_splits)

lemma apply_page_ok:
  assumes "search_ok s"
  shows "search_ok (snd (apply_page page s))"
  using assms append_unique_distinct [of "srch_results s" "sg_stations page"]
    append_unique_length [of "srch_results s" "sg_stations page"]
  by (auto simp: search_ok_def apply_page_def Let_def max_def split: if_splits)

lemma apply_error_ok: "search_ok s \<Longrightarrow> search_ok (snd (apply_error t m s))"
  by (auto simp: search_ok_def apply_error_def)

section \<open>Runs of operations that may panic\<close>

fun run_partial :: "('e \<Rightarrow> 's \<Rightarrow> 's option) \<Rightarrow> 'e list \<Rightarrow> 's \<Rightarrow> 's option" where
  "run_partial step [] s = Some s"
| "run_partial step (e # es) s = Option.bind (step e s) (run_partial step es)"

lemma run_partial_snoc:
  "run_partial step (es @ [e]) s = Option.bind (run_partial step es s) (step e)"
  by (induction es arbitrary: s) (auto simp: bind_eq_Some_conv split: bind_splits)

text \<open>
  The contract of a component whose operations may panic: a fuel that every operation
  consumes by at most one unit, and an invariant; while fuel is left an operation returns and
  keeps the invariant.
\<close>

locale fuelled_system =
  fixes init :: 's
    and step :: "'e \<Rightarrow> 's \<Rightarrow> 's option"
    and inv :: "'s \<Rightarrow> bool"
    and spent :: "'s \<Rightarrow> nat"
    and budget :: nat
  assumes start: "inv init" "spent init = 0"
    and returns: "inv s \<Longrightarrow> spent s < budget \<Longrightarrow>
      \<exists>s'. step e s = Some s' \<and> inv s' \<and> spent s' \<le> spent s + 1"
begin

lemma run_returns_from:
  "inv s \<Longrightarrow> spent s + length es \<le> budget \<Longrightarrow>
     \<exists>s'. run_partial step es s = Some s' \<and> inv s' \<and> spent s' \<le> spent s + length es"
proof (induction es arbitrary: s)
  case (Cons e es)
  then have lt: "spent s < budget" by simp
  with returns [of s e] Cons.prems(1)
  obtain s1 where s1: "step e s = Some s1" "inv s1" "spent s1 \<le> spent s + 1" by blast
  with Cons.IH [of s1] Cons.prems(2)
  obtain s' where "run_partial step es s1 = Some s'" "inv s'" "spent s' \<le> spent s1 + length es"
    by auto
  with s1 show ?case by auto
qed simp

lemma run_returns:
  "length es \<le> budget \<Longrightarrow>
     \<exists>s'. run_partial step es init = Some s' \<and> inv s' \<and> spent s' \<le> length es"
  using run_returns_from [OF start(1), of es] start(2) by auto

end

text \<open>The same with an invariant that every operation keeps whenever it returns.\<close>

locale fuelled_invariant = fuelled_system init step inv spent budget
  for init :: 's and step :: "'e \<Rightarrow> 's \<Rightarrow> 's option" and inv :: "'s \<Rightarrow> bool"
    and spent :: "'s \<Rightarrow> nat" and budget :: nat +
  assumes keeps: "inv s \<Longrightarrow> step e s = Some s' \<Longrightarrow> inv s'"
begin

lemma run_keeps: "inv s \<Longrightarrow> run_partial step es s = Some s' \<Longrightarrow> inv s'"
proof (induction es arbitrary: s)
  case (Cons e es)
  from Cons.prems(2) obtain s1 where "step e s = Some s1" "run_partial step es s1 = Some s'"
    by (auto simp: bind_eq_Some_conv)
  with Cons.IH keeps Cons.prems(1) show ?case by blast
qed simp

lemma run_cases:
  "case run_partial step es init of None \<Rightarrow> budget < length es | Some s \<Rightarrow> inv s"
proof (cases "run_partial step es init")
  case None
  then show ?thesis using run_returns [of es] by (cases "length es \<le> budget") auto
next
  case (Some s)
  then show ?thesis using run_keeps [OF start(1) Some] by simp
qed

end

section \<open>The panel as a machine\<close>

datatype search_op =
    OpEnter | OpClear | OpStart | OpKey key_event | OpPage search_page | OpError nat ustring

fun search_step :: "search_op \<Rightarrow> search_state \<Rightarrow> search_state option" where
  "search_step OpEnter s = search_enter s"
| "search_step OpClear s = cancel_and_clear s"
| "search_step OpStart s = map_option snd (search_start s)"
| "search_step (OpKey k) s = map_option snd (search_key k s)"
| "search_step (OpPage page) s = Some (snd (apply_page page s))"
| "search_step (OpError token message) s = Some (snd (apply_error token message s))"

lemma search_step_ok:
  assumes "search_ok s" and "search_step op s = Some s'"
  shows "search_ok s'"
  using assms
  by (cases op)
     (auto intro: search_enter_ok cancel_and_clear_ok search_start_ok search_key_ok apply_page_ok
       apply_error_ok)

lemmas search_bumps = search_enter_def cancel_and_clear_def search_start_def
  cancel_results_for_edit_def bump_token_def

lemma search_step_returns:
  assumes "srch_token s < u64_max"
  shows "\<exists>s'. search_step op s = Some s' \<and> srch_token s' \<le> srch_token s + 1"
proof (cases op)
  case (OpKey k)
  with assms show ?thesis
    by (cases "ke_code k") (auto simp: search_key_def search_bumps checked_add_u64_def)
next
  case (OpPage page)
  then show ?thesis by (simp add: apply_page_def Let_def)
next
  case (OpError t m)
  then show ?thesis by (simp add: apply_error_def)
qed (use assms in \<open>simp_all add: search_bumps checked_add_u64_def\<close>)

interpretation panel: fuelled_invariant search_default search_step search_ok srch_token u64_max
proof unfold_locales
  show "search_ok search_default" by simp
  show "srch_token search_default = 0" by (simp add: search_default_def)
qed (use search_step_returns search_step_ok in \<open>blast+\<close>)

text \<open>The stations that the pages of one search brought.\<close>

fun op_stations :: "nat \<Rightarrow> search_op \<Rightarrow> station_ref list" where
  "op_stations t (OpPage page) = (if sg_token page = t then sg_stations page else [])"
| "op_stations t _ = []"

definition delivered :: "nat \<Rightarrow> search_op list \<Rightarrow> station_ref list" where
  "delivered t ops = concat (map (op_stations t) ops)"

lemma set_delivered_snoc:
  "set (delivered t (ops @ [op])) = set (delivered t ops) \<union> set (op_stations t op)"
  by (simp add: delivered_def)

lemma search_step_results:
  assumes "search_step op s = Some s'"
  shows "srch_results s' = []
    \<or> srch_token s' = srch_token s
      \<and> set (srch_results s') \<subseteq> set (srch_results s) \<union> set (op_stations (srch_token s) op)"
proof (cases op)
  case (OpKey k)
  with assms show ?thesis
    by (auto simp: search_key_def search_bumps split: key_code.splits if_splits)
next
  case (OpPage page)
  with assms append_unique_set [of "srch_results s" "sg_stations page"] show ?thesis
    by (auto simp: apply_page_def Let_def split: if_splits)
next
  case (OpError t m)
  with assms show ?thesis by (auto simp: apply_error_def split: if_splits)
qed (use assms in \<open>auto simp: search_bumps\<close>)

lemma panel_provenance:
  "run_partial search_step ops search_default = Some s \<Longrightarrow>
     set (srch_results s) \<subseteq> set (delivered (srch_token s) ops)"
proof (induction ops arbitrary: s rule: rev_induct)
  case (snoc op ops)
  then obtain r where r: "run_partial search_step ops search_default = Some r"
    and step: "search_step op r = Some s"
    by (auto simp: run_partial_snoc bind_eq_Some_conv)
  show ?case
    using search_step_results [OF step]
  proof
    assume *: "srch_token s = srch_token r
      \<and> set (srch_results s) \<subseteq> set (srch_results r) \<union> set (op_stations (srch_token r) op)"
    then have "set (srch_results s) \<subseteq> set (delivered (srch_token r) (ops @ [op]))"
      unfolding set_delivered_snoc using snoc.IH [OF r] by (meson Un_mono order_refl order_trans)
    with * show ?thesis by simp
  qed simp
qed (simp add: search_default_def)

text \<open>
  C22: Whatever keys are pressed and however late or shuffled pages and errors of earlier
  searches arrive, the panel shows only stations that a page of its current search brought,
  none of them twice, with the selection inside the list and more pages expected only while
  the search is loading; an operation panics only after the search token is exhausted.
\<close>

theorem panel_shows_only_its_search:
  "case run_partial search_step ops search_default of
     None \<Rightarrow> u64_max < length ops
   | Some s \<Rightarrow> search_ok s
       \<and> list_all (\<lambda>r. r \<in> set (delivered (srch_token s) ops)) (srch_results s)"
  using panel.run_cases [of ops] panel_provenance [of ops]
  by (auto simp: list_all_iff split: option.splits)

section \<open>Selection among the stations\<close>

text \<open>\<open>ConfiguredStation\<close> has exactly the fields of a configured station.\<close>

type_synonym configured_station = station_config

definition station_is_selectable :: "configured_station \<Rightarrow> ustring set \<Rightarrow> bool" where
  "station_is_selectable station hidden \<longleftrightarrow> sc_enabled station \<and> sc_name station \<notin> hidden"

definition normalize_station_selection ::
  "configured_station list \<Rightarrow> ustring set \<Rightarrow> nat option \<Rightarrow> nat option" where
  "normalize_station_selection stations hidden selected =
     (if (case selected of None \<Rightarrow> False
          | Some index \<Rightarrow> (case slice_get stations index of None \<Rightarrow> False
              | Some station \<Rightarrow> station_is_selectable station hidden))
      then selected
      else list_position (\<lambda>station. station_is_selectable station hidden) stations)"

definition selectable_indices :: "configured_station list \<Rightarrow> ustring set \<Rightarrow> nat list" where
  "selectable_indices stations hidden =
     map fst (filter (\<lambda>(index, station). station_is_selectable station hidden)
       (zip [0..<length stations] stations))"

definition move_station_selection ::
  "configured_station list \<Rightarrow> ustring set \<Rightarrow> nat option \<Rightarrow> int \<Rightarrow> nat option" where
  "move_station_selection stations hidden selected delta =
     (let selectable = selectable_indices stations hidden
      in if selectable = [] then None
         else
           let at = (case Option.bind selected (\<lambda>i. list_position (\<lambda>index. index = i) selectable) of
                       None \<Rightarrow> 0 | Some p \<Rightarrow> p)
           in Some (selectable ! moved_index at (length selectable) delta))"

text \<open>What a selection should be: a selectable station whenever there is one.\<close>

definition selection_ok :: "configured_station list \<Rightarrow> ustring set \<Rightarrow> nat option \<Rightarrow> bool" where
  "selection_ok stations hidden selected =
     (case selected of
        None \<Rightarrow> list_all (\<lambda>station. \<not> station_is_selectable station hidden) stations
      | Some i \<Rightarrow> i < length stations \<and> station_is_selectable (stations ! i) hidden)"

lemma normalize_station_selection_ok [simp]:
  "selection_ok stations hidden (normalize_station_selection stations hidden selected)"
  by (auto simp: selection_ok_def normalize_station_selection_def list_all_iff list_position_None_iff
      dest: list_position_SomeD split: option.splits)

lemma normalize_station_selection_id:
  "selection_ok stations hidden selected \<Longrightarrow>
     normalize_station_selection stations hidden selected = selected"
  by (auto simp: selection_ok_def normalize_station_selection_def list_all_iff list_position_None_iff
      split: option.splits)

lemma set_selectable_indices:
  "set (selectable_indices stations hidden)
     = {i. i < length stations \<and> station_is_selectable (stations ! i) hidden}"
  by (force simp: selectable_indices_def set_zip)

lemma selectable_indices_Nil:
  "selectable_indices stations hidden = []
     \<longleftrightarrow> list_all (\<lambda>station. \<not> station_is_selectable station hidden) stations"
proof -
  have "selectable_indices stations hidden = []
      \<longleftrightarrow> (\<forall>i < length stations. \<not> station_is_selectable (stations ! i) hidden)"
    using set_selectable_indices [of stations hidden] by (auto simp flip: set_empty)
  then show ?thesis by (simp add: list_all_length)
qed

lemma move_station_selection_ok:
  "selection_ok stations hidden (move_station_selection stations hidden selected delta)"
proof (cases "selectable_indices stations hidden = []")
  case True
  then show ?thesis
    by (simp add: move_station_selection_def selection_ok_def selectable_indices_Nil)
next
  case False
  define at where "at = (case Option.bind selected (\<lambda>i. list_position (\<lambda>index. index = i)
      (selectable_indices stations hidden)) of None \<Rightarrow> 0 | Some p \<Rightarrow> p)"
  from False have "selectable_indices stations hidden !
      moved_index at (length (selectable_indices stations hidden)) delta
        \<in> set (selectable_indices stations hidden)"
    by (intro nth_mem) simp
  with False show ?thesis
    by (simp add: move_station_selection_def selection_ok_def Let_def at_def [symmetric]
        set_selectable_indices)
qed

section \<open>The draft of a move\<close>

record move_draft =
  md_stations :: "station_config list"
  md_selected :: nat
  md_origin :: nat

definition move_draft_new :: "station_config list \<Rightarrow> nat \<Rightarrow> move_draft option" where
  "move_draft_new stations selected =
     (if stations = [] then None
      else let selected = min selected (length stations - 1)
           in Some \<lparr>md_stations = stations, md_selected = selected, md_origin = selected\<rparr>)"

definition list_swap :: "'a list \<Rightarrow> nat \<Rightarrow> nat \<Rightarrow> 'a list" where
  "list_swap xs i j = xs[i := xs ! j, j := xs ! i]"

definition draft_move_by :: "int \<Rightarrow> move_draft \<Rightarrow> move_draft" where
  "draft_move_by delta d =
     (let next = moved_index (md_selected d) (length (md_stations d)) delta
      in if next \<noteq> md_selected d
         then d\<lparr>md_stations := list_swap (md_stations d) (md_selected d) next, md_selected := next\<rparr>
         else d)"

text \<open>\<open>Vec::remove\<close> and \<open>Vec::insert\<close> at indices inside the list.\<close>

definition list_remove :: "nat \<Rightarrow> 'a list \<Rightarrow> 'a list" where
  "list_remove i xs = take i xs @ drop (Suc i) xs"

definition list_insert :: "nat \<Rightarrow> 'a \<Rightarrow> 'a list \<Rightarrow> 'a list" where
  "list_insert i x xs = take i xs @ x # drop i xs"

lemma length_list_swap [simp]: "length (list_swap xs i j) = length xs"
  by (simp add: list_swap_def)

lemma mset_list_swap: "i < length xs \<Longrightarrow> j < length xs \<Longrightarrow> mset (list_swap xs i j) = mset xs"
  by (simp add: list_swap_def mset_swap)

lemma length_list_insert [simp]: "length (list_insert i x xs) = Suc (length xs)"
  by (simp add: list_insert_def)

lemma length_list_remove: "i < length xs \<Longrightarrow> length (list_remove i xs) = length xs - 1"
  by (simp add: list_remove_def)

lemma list_insert_remove: "i < length xs \<Longrightarrow> list_insert i (xs ! i) (list_remove i xs) = xs"
  by (simp add: list_insert_def list_remove_def min_def id_take_nth_drop [symmetric])

lemma list_swap_commute: "list_swap xs i j = list_swap xs j i"
  by (cases "i = j") (simp_all add: list_swap_def list_update_swap)

lemma insert_swap_up:
  assumes "i < length ys"
  shows "list_swap (list_insert i x ys) i (Suc i) = list_insert (Suc i) x ys"
proof -
  from assms have split: "ys = take i ys @ ys ! i # drop (Suc i) ys"
    by (simp add: id_take_nth_drop)
  define a b where "a = take i ys" and "b = drop (Suc i) ys"
  from split have ys: "ys = a @ ys ! i # b" by (simp add: a_def b_def)
  from assms have len: "length a = i" by (simp add: a_def)
  have ins: "list_insert i x ys = a @ x # ys ! i # b"
    using len by (subst ys) (simp add: list_insert_def)
  have ins': "list_insert (Suc i) x ys = a @ ys ! i # x # b"
    using len by (subst ys) (simp add: list_insert_def)
  show ?thesis
    unfolding ins ins' using len by (simp add: list_swap_def nth_append list_update_append)
qed

lemma insert_swap_down:
  "Suc i \<le> length ys \<Longrightarrow>
     list_swap (list_insert (Suc i) x ys) (Suc i) i = list_insert i x ys"
proof -
  assume "Suc i \<le> length ys"
  then have up: "list_swap (list_insert i x ys) i (Suc i) = list_insert (Suc i) x ys"
    by (intro insert_swap_up) simp
  have "list_swap (list_swap (list_insert i x ys) i (Suc i)) (Suc i) i = list_insert i x ys"
    using \<open>Suc i \<le> length ys\<close> by (simp add: list_swap_def list_eq_iff_nth_eq nth_list_update)
  then show ?thesis by (simp add: up)
qed

text \<open>
  The draft of a list with the station at \<open>origin\<close> taken out and put back at
  \<open>selected\<close>.
\<close>

definition draft_of :: "station_config list \<Rightarrow> move_draft \<Rightarrow> bool" where
  "draft_of stations d \<longleftrightarrow>
     md_origin d < length stations \<and> md_selected d < length stations
     \<and> md_stations d
         = list_insert (md_selected d) (stations ! md_origin d) (list_remove (md_origin d) stations)"

lemma draft_of_length: "draft_of stations d \<Longrightarrow> length (md_stations d) = length stations"
  by (auto simp: draft_of_def length_list_remove)

lemma move_draft_new_draft:
  assumes "move_draft_new stations i = Some d"
  shows "draft_of stations d"
proof -
  let ?i = "min i (length stations - 1)"
  from assms have "stations \<noteq> []" and d: "d = \<lparr>md_stations = stations, md_selected = ?i, md_origin = ?i\<rparr>"
    by (auto simp: move_draft_new_def Let_def split: if_splits)
  then have i: "?i < length stations" by (simp add: min_less_iff_disj)
  then show ?thesis
    unfolding draft_of_def d using list_insert_remove [OF i] by simp
qed

lemma draft_move_by_origin [simp]: "md_origin (draft_move_by delta d) = md_origin d"
  by (simp add: draft_move_by_def Let_def)

lemma draft_move_by_selected:
  "md_selected (draft_move_by delta d) = moved_index (md_selected d) (length (md_stations d)) delta"
  by (simp add: draft_move_by_def Let_def)

lemma draft_move_by_draft:
  assumes d: "draft_of stations d" and len: "length stations \<le> u64_max"
    and delta: "delta = 1 \<or> delta = - 1"
  shows "draft_of stations (draft_move_by delta d)"
proof -
  let ?n = "length stations"
  let ?s = "md_selected d"
  let ?x = "stations ! md_origin d"
  let ?ys = "list_remove (md_origin d) stations"
  from d have s: "?s < ?n" and o: "md_origin d < ?n" and st: "md_stations d = list_insert ?s ?x ?ys"
    by (auto simp: draft_of_def)
  have lys: "length ?ys = ?n - 1" using o by (rule length_list_remove)
  show ?thesis
    using delta
  proof
    assume up: "delta = 1"
    show ?thesis
    proof (cases "Suc ?s < ?n")
      case True
      then have "moved_index ?s (length (md_stations d)) delta = Suc ?s"
        using moved_index_down [OF s len] up draft_of_length [OF d] by simp
      with True o lys show ?thesis
        using insert_swap_up [of ?s ?ys ?x] by (simp add: draft_move_by_def draft_of_def st)
    next
      case False
      then have "moved_index ?s (length (md_stations d)) delta = ?s"
        using moved_index_down [OF s len] up draft_of_length [OF d] s by simp
      with d show ?thesis by (simp add: draft_move_by_def)
    qed
  next
    assume down: "delta = - 1"
    have mi: "moved_index ?s (length (md_stations d)) delta = ?s - 1"
      using moved_index_up [OF s len] down draft_of_length [OF d] by simp
    show ?thesis
    proof (cases ?s)
      case 0
      with mi d show ?thesis by (simp add: draft_move_by_def)
    next
      case (Suc k)
      with s lys have "list_swap (list_insert (Suc k) ?x ?ys) (Suc k) k = list_insert k ?x ?ys"
        by (intro insert_swap_down) simp
      with mi Suc o s show ?thesis by (simp add: draft_move_by_def draft_of_def st)
    qed
  qed
qed

lemma draft_moves_draft:
  assumes "draft_of stations d" and "length stations \<le> u64_max"
    and "list_all (\<lambda>delta. delta = 1 \<or> delta = - 1) deltas"
  shows "draft_of stations (fold draft_move_by deltas d)"
  using assms by (induction deltas arbitrary: d) (auto intro: draft_move_by_draft)

lemma mset_list_insert: "mset (list_insert i x xs) = add_mset x (mset xs)"
proof -
  have "mset xs = mset (take i xs) + mset (drop i xs)"
    by (metis append_take_drop_id mset_append)
  then show ?thesis by (simp add: list_insert_def)
qed

lemma mset_draft: "draft_of stations d \<Longrightarrow> mset (md_stations d) = mset stations"
  by (metis draft_of_def list_insert_remove mset_list_insert)

end
