(* ===== verification/Tui_Search.thy ===== *)
theory Tui_Search
  imports Paging Fuzzy
begin

text \<open>
  The terminal client's search command (\<^verbatim>\<open>weather-renderer/tui/src/search.rs\<close>): the
  text and the result selector that the filters give, the pages that are fetched until enough
  results match, the filters, the removal of duplicates and the final cut. The page fetch is
  a parameter with a state of its own; the pages' filter arguments are the options of the
  command line.
\<close>

section \<open>Text and selector\<close>

text \<open>\<open>str::parse::<usize>\<close>: digits after an optional plus sign, without overflow.\<close>

fun parse_digits :: "nat \<Rightarrow> ustring \<Rightarrow> nat option" where
  "parse_digits n [] = Some n"
| "parse_digits n (c # cs) =
     (if 48 \<le> c \<and> c \<le> 57 \<and> n * 10 + (c - 48) \<le> u64_max then parse_digits (n * 10 + (c - 48)) cs
      else None)"

definition parse_usize :: "ustring \<Rightarrow> nat option" where
  "parse_usize s =
     (let digits = (case s of c # cs \<Rightarrow> if c = 43 then cs else s | [] \<Rightarrow> [])
      in if digits = [] then None else parse_digits 0 digits)"

text \<open>\<open>rsplit_once\<close>: the parts around the last separator.\<close>

definition rsplit_once :: "nat \<Rightarrow> ustring \<Rightarrow> (ustring \<times> ustring) option" where
  "rsplit_once sep s =
     (if sep \<notin> set s then None
      else Some (rev (tl (dropWhile (\<lambda>c. c \<noteq> sep) (rev s))), rev (takeWhile (\<lambda>c. c \<noteq> sep) (rev s))))"

text \<open>The characters 45 and 46 are the hyphen and the dot.\<close>

definition split_result_selector :: "ustring \<Rightarrow> ustring \<times> nat option" where
  "split_result_selector value =
     (case rsplit_once 46 value of
        None \<Rightarrow> (value, None)
      | Some (stem, number) \<Rightarrow>
          (case parse_usize number of
             Some index \<Rightarrow> if index > 0 then (stem, Some index) else (value, None)
           | None \<Rightarrow> (value, None)))"

definition provider_query_from_search_text :: "ustring \<Rightarrow> ustring" where
  "provider_query_from_search_text value =
     (case filter (\<lambda>part. part \<noteq> []) (split_on 45 value) of
        [] \<Rightarrow> value
      | parts \<Rightarrow> last parts)"

definition search_text_from_filters ::
  "ustring option \<Rightarrow> ustring option \<Rightarrow> ustring option \<Rightarrow> ustring option \<Rightarrow> ustring" where
  "search_text_from_filters query province city station =
     (case station of Some v \<Rightarrow> v | None \<Rightarrow>
      (case city of Some v \<Rightarrow> v | None \<Rightarrow>
       (case query of Some v \<Rightarrow> v | None \<Rightarrow>
        (case province of Some v \<Rightarrow> v | None \<Rightarrow> []))))"

section \<open>Filters\<close>

text \<open>\<open>is_none_or\<close>.\<close>

definition none_or :: "('a \<Rightarrow> bool) \<Rightarrow> 'a option \<Rightarrow> bool" where
  "none_or P v = (case v of None \<Rightarrow> True | Some x \<Rightarrow> P x)"

definition station_name_matches :: "ustring \<Rightarrow> station_ref \<Rightarrow> bool" where
  "station_name_matches value s =
     (let value = fst (split_result_selector value) in sr_name s = value \<or> sr_city s = value)"

definition station_province_matches :: "ustring \<Rightarrow> station_ref \<Rightarrow> bool" where
  "station_province_matches value s \<longleftrightarrow>
     sr_province s = value \<or> short_region_name (sr_province s) = value"

definition city_province_matches :: "ustring \<Rightarrow> ustring \<times> ustring \<Rightarrow> bool" where
  "city_province_matches value c \<longleftrightarrow> fst c = value \<or> short_region_name (fst c) = value"

record search_filters =
  sf_province :: "ustring option"
  sf_city :: "ustring option"
  sf_station :: "ustring option"

definition exact_path :: "ustring \<Rightarrow> ustring option" where
  "exact_path search_text = (if 45 \<in> set search_text then Some search_text else None)"

definition station_result_matches :: "search_filters \<Rightarrow> ustring \<Rightarrow> station_ref \<Rightarrow> bool" where
  "station_result_matches f search_text item \<longleftrightarrow>
     none_or (\<lambda>v. station_province_matches v item) (sf_province f)
     \<and> none_or (\<lambda>v. sr_city item = v) (sf_city f)
     \<and> none_or (\<lambda>v. station_name_matches v item) (sf_station f)
     \<and> none_or (\<lambda>v. sr_name item = v) (exact_path search_text)"

definition city_result_matches :: "search_filters \<Rightarrow> ustring \<Rightarrow> ustring \<times> ustring \<Rightarrow> bool" where
  "city_result_matches f search_text item \<longleftrightarrow>
     exact_path search_text = None
     \<and> none_or (\<lambda>v. city_province_matches v item) (sf_province f)
     \<and> none_or (\<lambda>v. snd item = v) (sf_city f)"

definition province_result_matches :: "search_filters \<Rightarrow> ustring \<Rightarrow> ustring \<Rightarrow> bool" where
  "province_result_matches f search_text item \<longleftrightarrow>
     exact_path search_text = None \<and> none_or (\<lambda>v. item = v) (sf_province f)"

definition retain_matching_search_results ::
  "search_filters \<Rightarrow> ustring \<Rightarrow> fuzzy_response \<Rightarrow> fuzzy_response" where
  "retain_matching_search_results f search_text r =
     r\<lparr>fr_stations := filter (station_result_matches f search_text) (fr_stations r),
       fr_cities := filter (city_result_matches f search_text) (fr_cities r),
       fr_provinces := filter (province_result_matches f search_text) (fr_provinces r)\<rparr>"

section \<open>Collecting\<close>

definition fuzzy_response_default :: fuzzy_response where
  "fuzzy_response_default = \<lparr>fr_stations = [], fr_cities = [], fr_provinces = [],
     fr_has_more = False, fr_next_offset = 0\<rparr>"

definition append_search_results :: "fuzzy_response \<Rightarrow> fuzzy_response \<Rightarrow> fuzzy_response" where
  "append_search_results combined page =
     combined\<lparr>fr_stations := fr_stations combined @ fr_stations page,
       fr_cities := fr_cities combined @ fr_cities page,
       fr_provinces := fr_provinces combined @ fr_provinces page\<rparr>"

text \<open>\<open>retain(|item| seen.insert(key))\<close>: the first item of every key.\<close>

fun retain_first :: "('a \<Rightarrow> 'k) \<Rightarrow> 'k set \<Rightarrow> 'a list \<Rightarrow> 'a list" where
  "retain_first key seen [] = []"
| "retain_first key seen (x # xs) =
     (if key x \<in> seen then retain_first key seen xs
      else x # retain_first key (insert (key x) seen) xs)"

definition station_public_key :: "station_ref \<Rightarrow> ustring" where
  "station_public_key item =
     (if sr_unified_uuid item = []
      then sr_name item @ lit ''|'' @ sr_province item @ lit ''|'' @ sr_city item
      else sr_unified_uuid item)"

definition station_location :: "station_ref \<Rightarrow> ustring \<times> ustring" where
  "station_location item = (sr_province item, sr_city item)"

definition dedup_search_results :: "fuzzy_response \<Rightarrow> fuzzy_response" where
  "dedup_search_results r =
     (let stations = retain_first station_public_key {} (fr_stations r);
          locations = set (map station_location stations)
      in r\<lparr>fr_stations := stations,
           fr_cities := retain_first (\<lambda>c. c) {} (filter (\<lambda>c. c \<notin> locations) (fr_cities r)),
           fr_provinces := retain_first (\<lambda>p. p) {} (fr_provinces r)\<rparr>)"

definition search_target_reached :: "fuzzy_response \<Rightarrow> nat option \<Rightarrow> nat \<Rightarrow> bool" where
  "search_target_reached r selector target =
     (if selector \<noteq> None then length (fr_stations r) \<ge> target
      else sat_add (sat_add (length (fr_stations r)) (length (fr_cities r)))
             (length (fr_provinces r)) \<ge> target)"

definition cut_results :: "nat \<Rightarrow> fuzzy_response \<Rightarrow> fuzzy_response" where
  "cut_results limit r =
     (let stations = take limit (fr_stations r);
          cities = take (limit - length stations) (fr_cities r);
          provinces = take (limit - (length stations + length cities)) (fr_provinces r)
      in r\<lparr>fr_stations := stations, fr_cities := cities, fr_provinces := provinces\<rparr>)"

definition finalize_search_results :: "nat option \<Rightarrow> nat \<Rightarrow> fuzzy_response \<Rightarrow> fuzzy_response" where
  "finalize_search_results selector limit r =
     (case selector of
        Some n \<Rightarrow>
          (if n > 0 \<and> n \<le> length (fr_stations r)
           then r\<lparr>fr_stations := [fr_stations r ! (n - 1)], fr_cities := [], fr_provinces := []\<rparr>
           else cut_results limit r)
      | None \<Rightarrow> cut_results limit r)"

text \<open>One turn of the loop's body: the page is filtered, appended and the duplicates go.\<close>

definition absorb_page ::
  "search_filters \<Rightarrow> ustring \<Rightarrow> fuzzy_response \<Rightarrow> fuzzy_response \<Rightarrow> fuzzy_response" where
  "absorb_page f search_text combined page =
     (dedup_search_results (append_search_results combined
        (retain_matching_search_results f search_text page)))
       \<lparr>fr_has_more := fr_has_more page, fr_next_offset := fr_next_offset page\<rparr>"

type_synonym 's page_fetch = "'s \<Rightarrow> fuzzy_request \<Rightarrow> (page_error + fuzzy_response) \<times> 's"

function search_loop ::
  "'s page_fetch \<Rightarrow> search_filters \<Rightarrow> ustring \<Rightarrow> nat option \<Rightarrow> nat \<Rightarrow> 's \<Rightarrow> page_cursor \<Rightarrow> nat
     \<Rightarrow> fuzzy_response \<Rightarrow> (page_error + fuzzy_response) \<times> 's" where
  "search_loop fetch f search_text selector target s cursor page_size combined =
     (case cursor_request page_size cursor of
        Inl e \<Rightarrow> (Inl e, s)
      | Inr ((page_offset, bounded_page_size), cursor) \<Rightarrow>
          (case fetch s \<lparr>fz_query = provider_query_from_search_text search_text,
                  fz_province = sf_province f, fz_page_offset = page_offset,
                  fz_page_size = bounded_page_size\<rparr> of
             (Inl e, s) \<Rightarrow> (Inl e, s)
           | (Inr page, s) \<Rightarrow>
               let combined = absorb_page f search_text combined page
               in (case cursor_advance (fr_has_more page) (fr_next_offset page) cursor of
                     Inl e \<Rightarrow> (Inl e, s)
                   | Inr (can_continue, cursor) \<Rightarrow>
                       if search_target_reached combined selector target \<or> \<not> can_continue
                       then (Inr combined, s)
                       else search_loop fetch f search_text selector target s cursor
                              max_rpc_page_size combined)))"
  by pat_completeness auto
termination
  by (relation "measure (\<lambda>(fetch, f, t, sel, target, s, c, n, acc).
        max_paginated_requests - cur_request_count c)")
     (auto simp: cursor_request_def cursor_advance_def split: if_splits)

declare search_loop.simps [simp del]

definition execute_search_with ::
  "'s page_fetch \<Rightarrow> ustring option \<Rightarrow> search_filters \<Rightarrow> nat \<Rightarrow> 's
     \<Rightarrow> (page_error + fuzzy_response) \<times> 's" where
  "execute_search_with fetch query f limit s =
     (let (search_text, selector) =
            split_result_selector (search_text_from_filters query (sf_province f) (sf_city f) (sf_station f));
          target = (case selector of None \<Rightarrow> limit | Some n \<Rightarrow> n)
      in if target = 0 then (Inr fuzzy_response_default, s)
         else (case search_loop fetch f search_text selector target s page_cursor_default
                      (page_size_for_target target) fuzzy_response_default of
                 (Inl e, s) \<Rightarrow> (Inl e, s)
               | (Inr combined, s) \<Rightarrow> (Inr (finalize_search_results selector limit combined), s)))"

section \<open>What a search returns\<close>

lemma retain_first_subset: "set (retain_first key seen xs) \<subseteq> set xs"
proof (induction xs arbitrary: seen)
  case (Cons x xs)
  show ?case using Cons.IH [of seen] Cons.IH [of "insert (key x) seen"] by auto
qed simp

lemma retain_first_keys:
  "distinct (map key (retain_first key seen xs))
   \<and> key ` set (retain_first key seen xs) = key ` set xs - seen"
  by (induction xs arbitrary: seen) auto

lemma retain_first_covers: "x \<in> set xs \<Longrightarrow> key x \<in> key ` set (retain_first key {} xs)"
  using retain_first_keys [of key "{}" xs] by auto

definition results_ok :: "search_filters \<Rightarrow> ustring \<Rightarrow> fuzzy_response \<Rightarrow> bool" where
  "results_ok f search_text r \<longleftrightarrow>
     list_all (station_result_matches f search_text) (fr_stations r)
     \<and> list_all (city_result_matches f search_text) (fr_cities r)
     \<and> list_all (province_result_matches f search_text) (fr_provinces r)
     \<and> distinct (map station_public_key (fr_stations r))
     \<and> distinct (fr_cities r) \<and> distinct (fr_provinces r)
     \<and> list_all (\<lambda>s. station_location s \<notin> set (fr_cities r)) (fr_stations r)"

lemma results_ok_default [simp]: "results_ok f t fuzzy_response_default"
  by (simp add: results_ok_def fuzzy_response_default_def)

lemma absorb_page_ok:
  assumes "results_ok f t combined"
  shows "results_ok f t (absorb_page f t combined page)"
proof -
  let ?stations = "fr_stations combined @ filter (station_result_matches f t) (fr_stations page)"
  let ?cities = "fr_cities combined @ filter (city_result_matches f t) (fr_cities page)"
  let ?provinces = "fr_provinces combined @ filter (province_result_matches f t) (fr_provinces page)"
  let ?kept = "retain_first station_public_key {} ?stations"
  let ?free = "filter (\<lambda>c. c \<notin> station_location ` set ?kept) ?cities"
  have eq: "fr_stations (absorb_page f t combined page) = ?kept"
    "fr_cities (absorb_page f t combined page) = retain_first (\<lambda>c. c) {} ?free"
    "fr_provinces (absorb_page f t combined page) = retain_first (\<lambda>p. p) {} ?provinces"
    by (simp_all add: absorb_page_def dedup_search_results_def append_search_results_def
        retain_matching_search_results_def Let_def)
  have all: "list_all (station_result_matches f t) ?stations" "list_all (city_result_matches f t) ?free"
    "list_all (province_result_matches f t) ?provinces"
    using assms by (auto simp: results_ok_def list_all_iff)
  show ?thesis
    unfolding results_ok_def eq
  proof (intro conjI)
    show "list_all (station_result_matches f t) ?kept"
      using all(1) retain_first_subset [of station_public_key "{}" ?stations]
      unfolding list_all_iff by blast
    show "list_all (city_result_matches f t) (retain_first (\<lambda>c. c) {} ?free)"
      using all(2) retain_first_subset [of "\<lambda>c. c" "{}" ?free] unfolding list_all_iff by blast
    show "list_all (province_result_matches f t) (retain_first (\<lambda>p. p) {} ?provinces)"
      using all(3) retain_first_subset [of "\<lambda>p. p" "{}" ?provinces] unfolding list_all_iff by blast
    show "distinct (map station_public_key ?kept)"
      using retain_first_keys by blast
    show "distinct (retain_first (\<lambda>c. c) {} ?free)"
      using retain_first_keys [of "\<lambda>c. c" "{}" ?free] by simp
    show "distinct (retain_first (\<lambda>p. p) {} ?provinces)"
      using retain_first_keys [of "\<lambda>p. p" "{}" ?provinces] by simp
    show "list_all (\<lambda>s. station_location s \<notin> set (retain_first (\<lambda>c. c) {} ?free)) ?kept"
      using retain_first_subset [of "\<lambda>c. c" "{}" ?free] unfolding list_all_iff by fastforce
  qed
qed

lemma absorb_page_more [simp]: "fr_has_more (absorb_page f t combined page) = fr_has_more page"
  by (simp add: absorb_page_def)

lemma search_loop_result:
  assumes "results_ok f t combined"
    and "fst (search_loop fetch f t selector target s c n combined) = Inr r"
  shows "results_ok f t r \<and> (fr_has_more r \<longrightarrow> search_target_reached r selector target)"
  using assms
proof (induction "max_paginated_requests - cur_request_count c" arbitrary: s c n combined
    rule: less_induct)
  case less
  from less.prems(2) obtain c1 where q: "cursor_request n c = Inr ((cur_offset c, n), c1)"
    by (subst (asm) search_loop.simps)
       (auto simp: cursor_request_Inr_iff split: sum.splits)
  then have c1: "c1 = c\<lparr>cur_request_count := cur_request_count c + 1\<rparr>"
    and lt: "cur_request_count c < max_paginated_requests"
    by (simp_all add: cursor_request_Inr_iff)
  let ?rq = "\<lparr>fz_query = provider_query_from_search_text t, fz_province = sf_province f,
      fz_page_offset = cur_offset c, fz_page_size = n\<rparr>"
  obtain a s1 where a: "fetch s ?rq = (a, s1)" by (cases "fetch s ?rq")
  from less.prems(2) obtain page where page: "a = Inr page"
    by (subst (asm) search_loop.simps) (auto simp: q a split: sum.splits)
  let ?combined = "absorb_page f t combined page"
  from less.prems(2) obtain again c2 where
    adv: "cursor_advance (fr_has_more page) (fr_next_offset page) c1 = Inr (again, c2)"
    by (subst (asm) search_loop.simps) (auto simp: q a page Let_def split: sum.splits)
  note ok = absorb_page_ok [OF less.prems(1), of page]
  have eq: "search_loop fetch f t selector target s c n combined =
      (if search_target_reached ?combined selector target \<or> \<not> again then (Inr ?combined, s1)
       else search_loop fetch f t selector target s1 c2 max_rpc_page_size ?combined)"
    by (subst search_loop.simps) (simp add: q a page adv Let_def)
  show ?case
  proof (cases "search_target_reached ?combined selector target \<or> \<not> again")
    case True
    with less.prems(2) ok adv show ?thesis
      unfolding eq by (auto simp: cursor_advance_def split: if_splits)
  next
    case False
    with adv have "cur_request_count c2 = cur_request_count c + 1"
      by (auto simp: cursor_advance_True_iff c1)
    with less.hyps [of c2 ?combined s1 max_rpc_page_size] False less.prems(2) ok lt show ?thesis
      unfolding eq by simp
  qed
qed

lemma search_loop_preserves:
  assumes "\<And>s rq. P s \<Longrightarrow> P (snd (fetch s rq))" and "P s"
  shows "P (snd (search_loop fetch f t selector target s c n combined))"
  using assms(2)
proof (induction "max_paginated_requests - cur_request_count c" arbitrary: s c n combined
    rule: less_induct)
  case less
  show ?case
  proof (cases "cursor_request n c")
    case (Inl e)
    with less.prems show ?thesis by (subst search_loop.simps) simp
  next
    case (Inr q)
    then obtain c1 where q: "cursor_request n c = Inr ((cur_offset c, n), c1)"
      and c1: "c1 = c\<lparr>cur_request_count := cur_request_count c + 1\<rparr>"
      and lt: "cur_request_count c < max_paginated_requests"
      by (cases q) (auto simp: cursor_request_Inr_iff)
    let ?rq = "\<lparr>fz_query = provider_query_from_search_text t, fz_province = sf_province f,
        fz_page_offset = cur_offset c, fz_page_size = n\<rparr>"
    obtain a s1 where a: "fetch s ?rq = (a, s1)" by (cases "fetch s ?rq")
    have s1: "P s1" using assms(1) [OF less.prems, of ?rq] by (simp add: a)
    have IH: "P (snd (search_loop fetch f t selector target s1 c2 m acc))"
      if "cur_request_count c2 = cur_request_count c + 1" for c2 m acc
      using less.hyps [of c2 s1 m acc] lt s1 that by simp
    show ?thesis
      by (subst search_loop.simps)
         (auto simp: q a Let_def s1 c1 cursor_advance_def split: sum.split intro!: IH)
  qed
qed

lemma execute_search_preserves:
  assumes "\<And>s rq. P s \<Longrightarrow> P (snd (fetch s rq))" and "P s"
  shows "P (snd (execute_search_with fetch query f limit s))"
proof -
  obtain needle selector where parts: "split_result_selector
       (search_text_from_filters query (sf_province f) (sf_city f) (sf_station f)) = (needle, selector)"
    by fastforce
  let ?target = "case selector of None \<Rightarrow> limit | Some n \<Rightarrow> n"
  obtain r s1 where loop: "search_loop fetch f needle selector ?target s page_cursor_default
      (page_size_for_target ?target) fuzzy_response_default = (r, s1)"
    by fastforce
  have "P s1"
    using search_loop_preserves [of P fetch s f needle selector ?target page_cursor_default
        "page_size_for_target ?target" fuzzy_response_default] assms
    by (simp add: loop)
  with assms(2) loop show ?thesis
    by (simp add: execute_search_with_def parts Let_def split: sum.split)
qed

definition result_count :: "fuzzy_response \<Rightarrow> nat" where
  "result_count r = length (fr_stations r) + length (fr_cities r) + length (fr_provinces r)"

lemma finalize_ok:
  assumes ok: "results_ok f t r"
  shows "results_ok f t (finalize_search_results selector limit r)"
proof -
  have sub: "results_ok f t r'"
    if "fr_stations r' = take i (fr_stations r)" "fr_cities r' = take j (fr_cities r)"
      "fr_provinces r' = take k (fr_provinces r)" for r' :: fuzzy_response and i j k
    using ok that
    by (auto simp: results_ok_def list_all_iff take_map [symmetric] dest: in_set_takeD)
  have one: "results_ok f t (r\<lparr>fr_stations := [fr_stations r ! n], fr_cities := [],
      fr_provinces := []\<rparr>)" if "n < length (fr_stations r)" for n
    using ok that by (auto simp: results_ok_def list_all_iff)
  have "results_ok f t (cut_results limit r)"
    unfolding cut_results_def Let_def by (rule sub) simp_all
  with one show ?thesis
    by (auto simp: finalize_search_results_def split: option.split)
qed

lemma cut_results_count: "result_count (cut_results limit r) = min limit (result_count r)"
  by (auto simp: cut_results_def result_count_def Let_def min_def)

lemma finalize_count:
  "selector = None \<Longrightarrow> result_count (finalize_search_results selector limit r)
     = min limit (result_count r)"
  by (simp add: finalize_search_results_def cut_results_count)

lemma finalize_count_selected:
  "result_count (finalize_search_results (Some n) limit r) \<le> max 1 limit"
  using cut_results_count [of limit r]
  by (auto simp: finalize_search_results_def result_count_def)

lemma finalize_more [simp]: "fr_has_more (finalize_search_results sel limit r) = fr_has_more r"
  by (simp add: finalize_search_results_def cut_results_def Let_def split: option.split)

lemma target_reached_count: "search_target_reached r None target \<Longrightarrow> target \<le> result_count r"
  by (auto simp: search_target_reached_def result_count_def sat_add_def split: if_splits)


end
