(* ===== verification/Tui_Command.thy ===== *)
theory Tui_Command
  imports Tui_State Tui_Search Client_Session
begin

text \<open>
  The terminal client's commands (\<^verbatim>\<open>weather-renderer/tui/src/command.rs\<close>): the
  selector that names one configured station, the edits of the configuration's station list,
  and the commands that read the engine's configuration, edit it and send it back. The
  engine behind the client is a parameter with a state of its own; printing is the final
  step of every command and is represented by the value that is printed.
\<close>

section \<open>Selecting and editing stations\<close>

datatype command_error =
    CommandClient client_error | CommandSearch page_error | IndexOutOfRange nat
  | NotConfigured ustring | AmbiguousStation ustring | NotOneStation nat | BadAddress

definition resolve_station_selector ::
  "station_config list \<Rightarrow> ustring \<Rightarrow> command_error + nat" where
  "resolve_station_selector stations selector =
     (case parse_usize selector of
        Some index \<Rightarrow>
          (if index = 0 \<or> index > length stations then Inl (IndexOutOfRange index)
           else Inr (index - 1))
      | None \<Rightarrow>
          (case filter (\<lambda>i. sc_name (stations ! i) = selector) [0..<length stations] of
             [] \<Rightarrow> Inl (NotConfigured selector)
           | [index] \<Rightarrow> Inr index
           | _ \<Rightarrow> Inl (AmbiguousStation selector)))"

definition stations_update ::
  "(station_config list \<Rightarrow> station_config list) \<Rightarrow> schema_config \<Rightarrow> schema_config" where
  "stations_update f config = config\<lparr>sa_stations := f (sa_stations config)\<rparr>"

text \<open>\<open>iter_mut().find\<close>: the first station of the name becomes enabled.\<close>

fun enable_first :: "ustring \<Rightarrow> station_config list \<Rightarrow> station_config list" where
  "enable_first name [] = []"
| "enable_first name (s # ss) =
     (if sc_name s = name then s\<lparr>sc_enabled := True\<rparr> # ss else s # enable_first name ss)"

definition upsert_station :: "ustring \<Rightarrow> schema_config \<Rightarrow> bool \<times> schema_config" where
  "upsert_station name config =
     (if list_ex (\<lambda>s. sc_name s = name) (sa_stations config)
      then (True, stations_update (enable_first name) config)
      else (False, stations_update (\<lambda>ss. ss @ [\<lparr>sc_name = name, sc_enabled = True\<rparr>]) config))"

definition remove_station :: "ustring \<Rightarrow> schema_config \<Rightarrow> command_error + ustring \<times> schema_config" where
  "remove_station selector config =
     (case resolve_station_selector (sa_stations config) selector of
        Inl e \<Rightarrow> Inl e
      | Inr index \<Rightarrow>
          Inr (sc_name (sa_stations config ! index), stations_update (list_remove index) config))"

definition move_station ::
  "ustring \<Rightarrow> ustring \<Rightarrow> schema_config \<Rightarrow> command_error + (ustring \<times> nat \<times> nat) \<times> schema_config" where
  "move_station from_sel to_sel config =
     (case resolve_station_selector (sa_stations config) from_sel of
        Inl e \<Rightarrow> Inl e
      | Inr from_index \<Rightarrow>
          (case resolve_station_selector (sa_stations config) to_sel of
             Inl e \<Rightarrow> Inl e
           | Inr to_index \<Rightarrow>
               let station = sa_stations config ! from_index
               in Inr ((sc_name station, from_index, to_index),
                    stations_update (\<lambda>ss. list_insert to_index station (list_remove from_index ss)) config)))"

definition set_station_enabled ::
  "ustring \<Rightarrow> bool \<Rightarrow> schema_config \<Rightarrow> command_error + ustring \<times> schema_config" where
  "set_station_enabled selector enabled config =
     (case resolve_station_selector (sa_stations config) selector of
        Inl e \<Rightarrow> Inl e
      | Inr index \<Rightarrow>
          Inr (sc_name (sa_stations config ! index),
            stations_update (\<lambda>ss. ss[index := (ss ! index)\<lparr>sc_enabled := enabled\<rparr>]) config))"

definition unique_station_name :: "fuzzy_response \<Rightarrow> command_error + ustring" where
  "unique_station_name results =
     (case fr_stations results of
        [s] \<Rightarrow> Inr (sr_name s)
      | ss \<Rightarrow> Inl (NotOneStation (length ss)))"

definition normalize_address :: "ustring \<Rightarrow> command_error + ustring" where
  "normalize_address address =
     (let parts = map trim (split_on 45 address)
      in if length parts \<notin> {2, 3} \<or> list_ex (\<lambda>part. part = []) parts then Inl BadAddress
         else Inr (join [45] parts))"

section \<open>The engine behind the client\<close>

record ('s, 'w) engine_access =
  ea_get_config :: "bool \<Rightarrow> 's \<Rightarrow> (client_error + schema_config option) \<times> 's"
  ea_update_config :: "schema_config \<Rightarrow> 's \<Rightarrow> (client_error + schema_config option) \<times> 's"
  ea_fetch_page :: "'s page_fetch"
  ea_list_stations :: "'s \<Rightarrow> (client_error + configured_station page) \<times> 's"
  ea_weather :: "ustring \<Rightarrow> bool \<Rightarrow> bool \<Rightarrow> 's \<Rightarrow> (client_error + 'w) \<times> 's"
  ea_status :: "'s \<Rightarrow> (client_error + engine_status) \<times> 's"
  ea_restart :: "'s \<Rightarrow> (client_error + unit) \<times> 's"

text \<open>The \<open>?\<close> operator over a state: an error ends the command.\<close>

definition and_then ::
  "('e + 'a) \<times> 's \<Rightarrow> ('a \<Rightarrow> 's \<Rightarrow> ('e + 'b) \<times> 's) \<Rightarrow> ('e + 'b) \<times> 's" where
  "and_then r f = (case r of (Inl e, s) \<Rightarrow> (Inl e, s) | (Inr x, s) \<Rightarrow> f x s)"

definition lift_error :: "('d \<Rightarrow> 'e) \<Rightarrow> ('d + 'a) \<times> 's \<Rightarrow> ('e + 'a) \<times> 's" where
  "lift_error f r = (map_sum f (\<lambda>x. x) (fst r), snd r)"

definition required ::
  "ustring \<Rightarrow> (client_error + schema_config option) \<times> 's \<Rightarrow> (command_error + schema_config) \<times> 's" where
  "required operation r =
     (case r of
        (Inl e, s) \<Rightarrow> (Inl (CommandClient e), s)
      | (Inr config, s) \<Rightarrow> (map_sum CommandClient (\<lambda>c. c) (require_config config operation), s))"

definition current_config :: "('s, 'w) engine_access \<Rightarrow> 's \<Rightarrow> (command_error + schema_config) \<times> 's" where
  "current_config ea s = required (lit ''get-config'') (ea_get_config ea False s)"

definition update_config ::
  "('s, 'w) engine_access \<Rightarrow> schema_config \<Rightarrow> 's \<Rightarrow> (command_error + schema_config) \<times> 's" where
  "update_config ea config s = required (lit ''update-config'') (ea_update_config ea config s)"

record station_filter_args =
  fa_filters :: search_filters
  fa_limit :: nat

definition search_with_filters ::
  "('s, 'w) engine_access \<Rightarrow> ustring option \<Rightarrow> station_filter_args \<Rightarrow> 's
     \<Rightarrow> (command_error + fuzzy_response) \<times> 's" where
  "search_with_filters ea query args s =
     lift_error CommandSearch
       (execute_search_with (ea_fetch_page ea) query (fa_filters args) (fa_limit args) s)"

record station_upsert_output =
  uo_station_name :: ustring
  uo_already_configured :: bool
  uo_config :: schema_config

definition upsert_search_result ::
  "('s, 'w) engine_access \<Rightarrow> fuzzy_response \<Rightarrow> 's \<Rightarrow> (command_error + station_upsert_output) \<times> 's" where
  "upsert_search_result ea results s =
     (case unique_station_name results of
        Inl e \<Rightarrow> (Inl e, s)
      | Inr station_name \<Rightarrow>
          and_then (current_config ea s) (\<lambda>config s.
            let (already_configured, config) = upsert_station station_name config
            in and_then (update_config ea config s) (\<lambda>config s.
                 (Inr \<lparr>uo_station_name = station_name, uo_already_configured = already_configured,
                       uo_config = config\<rparr>, s))))"

definition resolve_address ::
  "('s, 'w) engine_access \<Rightarrow> ustring \<Rightarrow> 's \<Rightarrow> (command_error + station_ref) \<times> 's" where
  "resolve_address ea address s =
     (case normalize_address address of
        Inl e \<Rightarrow> (Inl e, s)
      | Inr address \<Rightarrow>
          and_then (search_with_filters ea (Some address)
              \<lparr>fa_filters = \<lparr>sf_province = None, sf_city = None, sf_station = Some address\<rparr>,
               fa_limit = 10\<rparr> s) (\<lambda>results s.
            (case fr_stations results of
               [station] \<Rightarrow> (Inr station, s)
             | ss \<Rightarrow> (Inl (NotOneStation (length ss)), s))))"

definition fetch_weather ::
  "(byte list \<Rightarrow> byte list) \<Rightarrow> ('s, 'w) engine_access \<Rightarrow> ustring option \<Rightarrow> bool \<Rightarrow> bool \<Rightarrow> 's
     \<Rightarrow> (command_error + 'w) \<times> 's" where
  "fetch_weather sha ea address refresh include_debug s =
     and_then
       (case address of
          None \<Rightarrow> (Inr [], s)
        | Some address \<Rightarrow>
            and_then (resolve_address ea address s) (\<lambda>station s.
              (Inr (if sr_unified_uuid station = [] then unified_station_uuid sha (sr_name station)
                    else sr_unified_uuid station), s)))
       (\<lambda>unified_uuid s. lift_error CommandClient (ea_weather ea unified_uuid refresh include_debug s))"

section \<open>The commands\<close>

datatype stations_command =
    StationsList | StationsSearch "ustring option" station_filter_args
  | StationsAdd ustring station_filter_args | StationsRemove ustring | StationsEnable ustring
  | StationsDisable ustring | StationsMove ustring ustring

datatype config_command = ConfigShow | ConfigDefaults
datatype engine_command = EngineShowStatus | EngineRestart | EngineStop

datatype command_kind =
    CmdOnce "ustring option" bool
  | CmdStations stations_command
  | CmdConfig config_command
  | CmdEngine engine_command
  | CmdSearch "ustring option" station_filter_args bool
  | CmdAdd ustring station_filter_args
  | CmdStatus
  | CmdKill

datatype 'w command_output =
    PrintConfig schema_config | PrintRestartAccepted | PrintWeather 'w
  | PrintSearch fuzzy_response | PrintStations "configured_station page"
  | PrintChange ustring "configured_station list" | PrintStatus engine_status

text \<open>The messages of the station commands: the Chinese text and the quoted name.\<close>

definition added_message :: "ustring \<Rightarrow> ustring" where
  "added_message name = [24050, 28155, 21152, 31449, 28857, 32, 96] @ name @ lit ''`''"
definition already_enabled_message :: "ustring \<Rightarrow> ustring" where
  "already_enabled_message name = [24050, 21551, 29992, 24050, 26377, 31449, 28857, 32, 96] @ name @ lit ''`''"
definition removed_message :: "ustring \<Rightarrow> ustring" where
  "removed_message name = [24050, 21024, 38500, 31449, 28857, 32, 96] @ name @ lit ''`''"
definition switched_message :: "bool \<Rightarrow> ustring \<Rightarrow> ustring" where
  "switched_message enabled name =
     (if enabled then [24050, 21551, 29992] else [24050, 20572, 29992]) @ [31449, 28857, 32, 96] @ name @ lit ''`''"
definition moved_message :: "ustring \<Rightarrow> nat \<Rightarrow> nat \<Rightarrow> ustring" where
  "moved_message name from_index to_index =
     [24050, 31227, 21160, 31449, 28857, 32, 96] @ name @ [96, 65306] @ show_nat (from_index + 1) @ lit '' -> ''
       @ show_nat (to_index + 1)"

definition configured_stations :: "schema_config \<Rightarrow> configured_station list" where
  "configured_stations config =
     map (\<lambda>s. \<lparr>sc_name = sc_name s, sc_enabled = sc_enabled s\<rparr>) (sa_stations config)"

definition set_station_state ::
  "('s, 'w) engine_access \<Rightarrow> ustring \<Rightarrow> bool \<Rightarrow> 's \<Rightarrow> (command_error + 'w command_output) \<times> 's" where
  "set_station_state ea selector enabled s =
     and_then (current_config ea s) (\<lambda>config s.
       (case set_station_enabled selector enabled config of
          Inl e \<Rightarrow> (Inl e, s)
        | Inr (name, config) \<Rightarrow>
            and_then (update_config ea config s) (\<lambda>updated s.
              (Inr (PrintChange (switched_message enabled name) (configured_stations updated)), s))))"

fun run_stations_command ::
  "('s, 'w) engine_access \<Rightarrow> stations_command \<Rightarrow> 's \<Rightarrow> (command_error + 'w command_output) \<times> 's" where
  "run_stations_command ea StationsList s =
     and_then (lift_error CommandClient (ea_list_stations ea s)) (\<lambda>page s. (Inr (PrintStations page), s))"
| "run_stations_command ea (StationsSearch query args) s =
     and_then (search_with_filters ea query args s) (\<lambda>results s. (Inr (PrintSearch results), s))"
| "run_stations_command ea (StationsAdd name args) s =
     and_then (search_with_filters ea (Some name) args s) (\<lambda>results s.
       and_then (upsert_search_result ea results s) (\<lambda>change s.
         (Inr (PrintChange
            (if uo_already_configured change then already_enabled_message (uo_station_name change)
             else added_message (uo_station_name change))
            (configured_stations (uo_config change))), s)))"
| "run_stations_command ea (StationsRemove selector) s =
     and_then (current_config ea s) (\<lambda>config s.
       (case remove_station selector config of
          Inl e \<Rightarrow> (Inl e, s)
        | Inr (name, config) \<Rightarrow>
            and_then (update_config ea config s) (\<lambda>updated s.
              (Inr (PrintChange (removed_message name) (configured_stations updated)), s))))"
| "run_stations_command ea (StationsEnable selector) s = set_station_state ea selector True s"
| "run_stations_command ea (StationsDisable selector) s = set_station_state ea selector False s"
| "run_stations_command ea (StationsMove from_sel to_sel) s =
     and_then (current_config ea s) (\<lambda>config s.
       (case move_station from_sel to_sel config of
          Inl e \<Rightarrow> (Inl e, s)
        | Inr (moved, config) \<Rightarrow>
            and_then (update_config ea config s) (\<lambda>updated s.
              (Inr (PrintChange (case moved of (name, from_index, to_index) \<Rightarrow>
                   moved_message name from_index to_index) (configured_stations updated)), s))))"

definition print_config ::
  "('s, 'w) engine_access \<Rightarrow> bool \<Rightarrow> 's \<Rightarrow> (command_error + 'w command_output) \<times> 's" where
  "print_config ea defaults s =
     and_then (required (if defaults then lit ''get-default-config'' else lit ''get-config'')
         (ea_get_config ea defaults s)) (\<lambda>config s. (Inr (PrintConfig config), s))"

definition restart_engine ::
  "('s, 'w) engine_access \<Rightarrow> 's \<Rightarrow> (command_error + 'w command_output) \<times> 's" where
  "restart_engine ea s =
     and_then (lift_error CommandClient (ea_restart ea s)) (\<lambda>_ s. (Inr PrintRestartAccepted, s))"

definition output_engine_status ::
  "('s, 'w) engine_access \<Rightarrow> 's \<Rightarrow> (command_error + 'w command_output) \<times> 's" where
  "output_engine_status ea s =
     and_then (lift_error CommandClient (ea_status ea s)) (\<lambda>st s. (Inr (PrintStatus st), s))"

datatype output_format = FormatTui | FormatJson

text \<open>The parsed command line, as far as the commands and the start of a session read it.\<close>

record cli =
  cli_format :: output_format
  cli_endpoint :: "ustring option"
  cli_rpc_endpoint :: "ustring option"
  cli_pub_endpoint :: "ustring option"
  cli_config :: "ustring option"
  cli_daemon_exe :: "ustring option"
  cli_hmac :: ustring
  cli_hmac_key :: ustring
  cli_hmac_env_key_name :: "ustring option"
  cli_core_get_default_config :: bool
  cli_core_get_config :: bool
  cli_core_restart_engine :: bool
  cli_include_debug :: bool
  cli_command :: "command_kind option"

text \<open>\<open>None\<close> is the panic of the \<open>unreachable\<close> branches.\<close>

definition run_command ::
  "(byte list \<Rightarrow> byte list) \<Rightarrow> ('s, 'w) engine_access \<Rightarrow> cli \<Rightarrow> 's
     \<Rightarrow> ((command_error + 'w command_output) \<times> 's) option" where
  "run_command sha ea cli s =
     (if cli_core_get_default_config cli then Some (print_config ea True s)
      else if cli_core_get_config cli then Some (print_config ea False s)
      else if cli_core_restart_engine cli then Some (restart_engine ea s)
      else case cli_command cli of
        Some (CmdOnce address refresh) \<Rightarrow>
          Some (and_then (fetch_weather sha ea address refresh (cli_include_debug cli) s)
            (\<lambda>snapshot s. (Inr (PrintWeather snapshot), s)))
      | Some (CmdSearch query args write) \<Rightarrow>
          Some (and_then (search_with_filters ea query args s) (\<lambda>results s.
            if write
            then and_then (upsert_search_result ea results s) (\<lambda>_ s. (Inr (PrintSearch results), s))
            else (Inr (PrintSearch results), s)))
      | Some (CmdAdd name args) \<Rightarrow>
          Some (and_then (search_with_filters ea (Some name) args s) (\<lambda>results s.
            and_then (upsert_search_result ea results s) (\<lambda>_ s. (Inr (PrintSearch results), s))))
      | Some (CmdStations command) \<Rightarrow> Some (run_stations_command ea command s)
      | Some (CmdConfig ConfigShow) \<Rightarrow> Some (print_config ea False s)
      | Some (CmdConfig ConfigDefaults) \<Rightarrow> Some (print_config ea True s)
      | Some (CmdEngine EngineShowStatus) \<Rightarrow> Some (output_engine_status ea s)
      | Some (CmdEngine EngineRestart) \<Rightarrow> Some (restart_engine ea s)
      | Some (CmdEngine EngineStop) \<Rightarrow> None
      | Some CmdStatus \<Rightarrow> Some (output_engine_status ea s)
      | Some CmdKill \<Rightarrow> None
      | None \<Rightarrow>
          Some (and_then (fetch_weather sha ea None False (cli_include_debug cli) s)
            (\<lambda>snapshot s. (Inr (PrintWeather snapshot), s))))"

section \<open>What a command does to the engine's configuration\<close>

datatype config_traffic = ReadConfig schema_config | SentConfig schema_config

text \<open>The engine with a log of the configurations it gave and was sent.\<close>

definition logged_access ::
  "('s, 'w) engine_access \<Rightarrow> ('s \<times> config_traffic list, 'w) engine_access" where
  "logged_access ea =
     \<lparr>ea_get_config = (\<lambda>d (s, log). let (r, s') = ea_get_config ea d s
        in (r, s', log @ (case r of Inr (Some c) \<Rightarrow> [ReadConfig c] | _ \<Rightarrow> []))),
      ea_update_config = (\<lambda>c (s, log). let (r, s') = ea_update_config ea c s
        in (r, s', log @ [SentConfig c])),
      ea_fetch_page = (\<lambda>(s, log) rq. let (r, s') = ea_fetch_page ea s rq in (r, s', log)),
      ea_list_stations = (\<lambda>(s, log). let (r, s') = ea_list_stations ea s in (r, s', log)),
      ea_weather = (\<lambda>u r d (s, log). let (x, s') = ea_weather ea u r d s in (x, s', log)),
      ea_status = (\<lambda>(s, log). let (r, s') = ea_status ea s in (r, s', log)),
      ea_restart = (\<lambda>(s, log). let (r, s') = ea_restart ea s in (r, s', log))\<rparr>"

text \<open>The list \<open>ys\<close> is \<open>xs\<close> with one station added, removed, moved or switched.\<close>

definition one_station_edit :: "station_config list \<Rightarrow> station_config list \<Rightarrow> bool" where
  "one_station_edit xs ys \<longleftrightarrow>
     (\<exists>name. name \<notin> sc_name ` set xs \<and> ys = xs @ [\<lparr>sc_name = name, sc_enabled = True\<rparr>])
     \<or> (\<exists>i < length xs.
          (\<exists>b. ys = xs[i := (xs ! i)\<lparr>sc_enabled := b\<rparr>])
          \<or> (\<exists>as bs. xs = as @ xs ! i # bs \<and> length as = i \<and> ys = as @ bs)
          \<or> (\<exists>j < length xs. ys = list_insert j (xs ! i) (list_remove i xs)))"

definition config_edit :: "schema_config \<Rightarrow> schema_config \<Rightarrow> bool" where
  "config_edit c c' \<longleftrightarrow>
     c' = c\<lparr>sa_stations := sa_stations c'\<rparr> \<and> one_station_edit (sa_stations c) (sa_stations c')"

fun traffic_ok :: "config_traffic list \<Rightarrow> bool" where
  "traffic_ok [] = True"
| "traffic_ok [ReadConfig c] = True"
| "traffic_ok [ReadConfig c, SentConfig c'] = config_edit c c'"
| "traffic_ok _ = False"

lemma resolve_station_selector_sound:
  assumes "resolve_station_selector stations selector = Inr i"
  shows "i < length stations
    \<and> (case parse_usize selector of
         Some n \<Rightarrow> n = i + 1
       | None \<Rightarrow> sc_name (stations ! i) = selector
           \<and> (\<forall>j < length stations. sc_name (stations ! j) = selector \<longrightarrow> j = i))"
proof (cases "parse_usize selector")
  case None
  let ?hits = "filter (\<lambda>i. sc_name (stations ! i) = selector) [0..<length stations]"
  from assms None have hits: "?hits = [i]"
    by (auto simp: resolve_station_selector_def split: list.splits)
  have "set ?hits = {j. j < length stations \<and> sc_name (stations ! j) = selector}" by auto
  with hits have "{j. j < length stations \<and> sc_name (stations ! j) = selector} = {i}" by simp
  with None show ?thesis by auto
next
  case (Some n)
  with assms show ?thesis
    by (auto simp: resolve_station_selector_def split: if_splits)
qed

lemma resolve_bound: "resolve_station_selector stations selector = Inr i \<Longrightarrow> i < length stations"
  using resolve_station_selector_sound by blast

lemma enable_first_update:
  "list_ex (\<lambda>s. sc_name s = name) xs \<Longrightarrow>
     \<exists>i < length xs. sc_name (xs ! i) = name \<and> enable_first name xs = xs[i := (xs ! i)\<lparr>sc_enabled := True\<rparr>]"
proof (induction xs)
  case (Cons x xs)
  show ?case
  proof (cases "sc_name x = name")
    case True
    then show ?thesis by (intro exI [of _ 0]) simp
  next
    case False
    with Cons obtain i where "i < length xs" "sc_name (xs ! i) = name"
      "enable_first name xs = xs[i := (xs ! i)\<lparr>sc_enabled := True\<rparr>]" by auto
    with False show ?thesis by (intro exI [of _ "Suc i"]) simp
  qed
qed simp

lemma config_edit_update: "one_station_edit (sa_stations c) (f (sa_stations c)) \<Longrightarrow>
    config_edit c (stations_update f c)"
  by (simp add: config_edit_def stations_update_def)

lemma edit_add:
  "name \<notin> sc_name ` set xs \<Longrightarrow> one_station_edit xs (xs @ [\<lparr>sc_name = name, sc_enabled = True\<rparr>])"
  by (auto simp: one_station_edit_def)

lemma edit_switch: "i < length xs \<Longrightarrow> one_station_edit xs (xs[i := (xs ! i)\<lparr>sc_enabled := b\<rparr>])"
  by (auto simp: one_station_edit_def)

lemma edit_move:
  "i < length xs \<Longrightarrow> j < length xs \<Longrightarrow> one_station_edit xs (list_insert j (xs ! i) (list_remove i xs))"
  by (auto simp: one_station_edit_def)

lemma edit_remove:
  assumes "i < length xs"
  shows "one_station_edit xs (list_remove i xs)"
proof -
  have "xs = take i xs @ xs ! i # drop (Suc i) xs" "length (take i xs) = i"
    using assms id_take_nth_drop by auto
  with assms show ?thesis
    unfolding one_station_edit_def list_remove_def by blast
qed

lemma upsert_station_edit: "config_edit c (snd (upsert_station name c))"
proof (cases "list_ex (\<lambda>s. sc_name s = name) (sa_stations c)")
  case True
  from enable_first_update [OF True] obtain i where "i < length (sa_stations c)"
    and "enable_first name (sa_stations c)
      = (sa_stations c)[i := (sa_stations c ! i)\<lparr>sc_enabled := True\<rparr>]" by blast
  with edit_switch [of i "sa_stations c" True]
  have "config_edit c (stations_update (enable_first name) c)"
    by (intro config_edit_update) simp
  with True show ?thesis by (simp add: upsert_station_def)
next
  case False
  then have "name \<notin> sc_name ` set (sa_stations c)" by (auto simp: list_ex_iff)
  then have "config_edit c (stations_update (\<lambda>ss. ss @ [\<lparr>sc_name = name, sc_enabled = True\<rparr>]) c)"
    by (intro config_edit_update edit_add)
  with False show ?thesis by (simp add: upsert_station_def)
qed

lemma remove_station_edit:
  assumes "remove_station selector c = Inr (name, c')"
  shows "config_edit c c'"
proof -
  from assms obtain i where r: "resolve_station_selector (sa_stations c) selector = Inr i"
    and c': "c' = stations_update (list_remove i) c"
    by (auto simp: remove_station_def split: sum.splits)
  show ?thesis
    unfolding c' by (intro config_edit_update edit_remove resolve_bound [OF r])
qed

lemma move_station_edit:
  assumes "move_station from_sel to_sel c = Inr (r, c')"
  shows "config_edit c c'"
proof -
  from assms obtain i j where i: "resolve_station_selector (sa_stations c) from_sel = Inr i"
    and j: "resolve_station_selector (sa_stations c) to_sel = Inr j"
    and c': "c' = stations_update (\<lambda>ss. list_insert j (sa_stations c ! i) (list_remove i ss)) c"
    by (auto simp: move_station_def Let_def split: sum.splits)
  show ?thesis
    unfolding c' by (intro config_edit_update edit_move resolve_bound [OF i] resolve_bound [OF j])
qed

lemma set_station_enabled_edit:
  assumes "set_station_enabled selector b c = Inr (name, c')"
  shows "config_edit c c'"
proof -
  from assms obtain i where i: "resolve_station_selector (sa_stations c) selector = Inr i"
    and c': "c' = stations_update (\<lambda>ss. ss[i := (ss ! i)\<lparr>sc_enabled := b\<rparr>]) c"
    by (auto simp: set_station_enabled_def split: sum.splits)
  show ?thesis
    unfolding c' by (intro config_edit_update edit_switch resolve_bound [OF i])
qed

text \<open>Reading logs the configuration that the command goes on with; sending logs what is sent.\<close>

lemma current_config_logged:
  assumes "current_config (logged_access ea) (s, log) = (r, (s', log'))"
  shows "log' = log @ (case r of Inl e \<Rightarrow> [] | Inr c \<Rightarrow> [ReadConfig c])"
  using assms
  by (cases "ea_get_config ea False s")
     (auto simp: current_config_def required_def logged_access_def require_config_def
        split: sum.splits option.splits)

lemma update_config_logged:
  assumes "update_config (logged_access ea) c (s, log) = (r, (s', log'))"
  shows "log' = log @ [SentConfig c]"
  using assms
  by (cases "ea_update_config ea c s")
     (auto simp: update_config_def required_def logged_access_def require_config_def
        split: sum.splits option.splits)

lemma search_logged:
  assumes "search_with_filters (logged_access ea) query args (s, log) = (r, (s', log'))"
  shows "log' = log"
proof -
  have "snd (snd (execute_search_with (ea_fetch_page (logged_access ea)) query (fa_filters args)
      (fa_limit args) (s, log))) = log"
    by (rule execute_search_preserves [where P = "\<lambda>st. snd st = log"])
       (auto simp: logged_access_def Let_def split: prod.splits)
  with assms show ?thesis by (auto simp: search_with_filters_def lift_error_def)
qed

lemma edit_traffic:
  assumes "\<forall>c x c'. edit c = Inr (x, c') \<longrightarrow> config_edit c c'"
  shows "traffic_ok (snd (snd (and_then (current_config (logged_access ea) (s, [])) (\<lambda>config s.
     (case edit config of
        Inl e \<Rightarrow> (Inl e, s)
      | Inr (x, config) \<Rightarrow>
          and_then (update_config (logged_access ea) config s) (\<lambda>updated s.
            (Inr (out x updated), s)))))))"
proof -
  obtain r s1 log1 where cur: "current_config (logged_access ea) (s, []) = (r, (s1, log1))"
    by (metis prod.collapse)
  note log1 = current_config_logged [OF cur]
  show ?thesis
  proof (cases r)
    case (Inl e)
    with log1 show ?thesis by (simp add: and_then_def cur)
  next
    case (Inr c)
    show ?thesis
    proof (cases "edit c")
      case (Inl e)
      with log1 Inr show ?thesis by (simp add: and_then_def cur)
    next
      fix q assume q: "edit c = Inr q"
      obtain x c' where x: "q = (x, c')" by (cases q)
      obtain u s2 log2 where upd: "update_config (logged_access ea) c' (s1, log1) = (u, (s2, log2))"
        by (metis prod.collapse)
      from update_config_logged [OF upd] log1 Inr
      have "log2 = [ReadConfig c, SentConfig c']" by simp
      with assms q x Inr show ?thesis
        by (cases u) (simp_all add: and_then_def cur upd)
    qed
  qed
qed

lemma upsert_traffic:
  "traffic_ok (snd (snd (upsert_search_result (logged_access ea) results (s, []))))"
proof (cases "unique_station_name results")
  case (Inr name)
  let ?edit = "\<lambda>c. Inr (upsert_station name c) :: command_error + bool \<times> schema_config"
  let ?out = "\<lambda>already config. \<lparr>uo_station_name = name, uo_already_configured = already,
      uo_config = config\<rparr>"
  have edit: "\<forall>c x c'. ?edit c = Inr (x, c') \<longrightarrow> config_edit c c'"
    using upsert_station_edit [of _ name] by (metis snd_conv sum.inject(2))
  show ?thesis
    using edit_traffic [of ?edit ea s ?out, OF edit] Inr
    by (simp add: upsert_search_result_def case_prod_beta' Let_def)
qed (simp add: upsert_search_result_def)

lemma and_then_search:
  assumes "\<And>results s'. traffic_ok (snd (snd (f results (s', []))))"
  shows "traffic_ok (snd (snd (and_then (search_with_filters (logged_access ea) query args (s, [])) f)))"
proof -
  obtain r s1 log1 where cur: "search_with_filters (logged_access ea) query args (s, []) = (r, (s1, log1))"
    by (metis prod.collapse)
  with search_logged [OF cur] assms show ?thesis by (cases r) (simp_all add: and_then_def)
qed

lemma upsert_output_traffic:
  "traffic_ok (snd (snd (and_then (upsert_search_result (logged_access ea) results (s, []))
      (\<lambda>change s. (Inr (out change), s)))))"
  using upsert_traffic [of ea results s] by (auto simp: and_then_def split: sum.splits prod.splits)

lemma stations_command_traffic:
  "traffic_ok (snd (snd (run_stations_command (logged_access ea) command (s, []))))"
proof (cases command)
  case StationsList
  then show ?thesis
    by (cases "ea_list_stations ea s")
       (auto simp: and_then_def lift_error_def logged_access_def split: sum.splits)
next
  case (StationsSearch query args)
  then show ?thesis by (auto intro: and_then_search)
next
  case (StationsAdd name args)
  then show ?thesis by (auto intro!: and_then_search upsert_output_traffic)
next
  case (StationsRemove selector)
  with edit_traffic [of "remove_station selector" ea s "\<lambda>name updated.
      PrintChange (removed_message name) (configured_stations updated)"] remove_station_edit
  show ?thesis by simp
next
  case (StationsEnable selector)
  with edit_traffic [of "set_station_enabled selector True" ea s "\<lambda>name updated.
      PrintChange (switched_message True name) (configured_stations updated)"] set_station_enabled_edit
  show ?thesis by (simp add: set_station_state_def)
next
  case (StationsDisable selector)
  with edit_traffic [of "set_station_enabled selector False" ea s "\<lambda>name updated.
      PrintChange (switched_message False name) (configured_stations updated)"] set_station_enabled_edit
  show ?thesis by (simp add: set_station_state_def)
next
  case (StationsMove from_sel to_sel)
  have "\<forall>c x c'. move_station from_sel to_sel c = Inr (x, c') \<longrightarrow> config_edit c c'"
    using move_station_edit by blast
  from edit_traffic [of "move_station from_sel to_sel" ea s "\<lambda>moved updated.
      PrintChange (case moved of (name, i, j) \<Rightarrow> moved_message name i j) (configured_stations updated)",
      OF this] StationsMove
  show ?thesis by simp
qed

lemma print_config_traffic: "traffic_ok (snd (snd (print_config (logged_access ea) d (s, []))))"
  by (cases "ea_get_config ea d s")
     (auto simp: print_config_def and_then_def required_def logged_access_def require_config_def
        split: sum.splits option.splits)

lemma restart_traffic: "traffic_ok (snd (snd (restart_engine (logged_access ea) (s, []))))"
  by (cases "ea_restart ea s")
     (auto simp: restart_engine_def and_then_def lift_error_def logged_access_def split: sum.splits)

lemma status_traffic: "traffic_ok (snd (snd (output_engine_status (logged_access ea) (s, []))))"
  by (cases "ea_status ea s")
     (auto simp: output_engine_status_def and_then_def lift_error_def logged_access_def
        split: sum.splits)

lemma weather_traffic:
  "traffic_ok (snd (snd (and_then (fetch_weather sha (logged_access ea) address refresh d (s, []))
     (\<lambda>snapshot s. (Inr (out snapshot), s)))))"
proof -
  have weather: "snd (snd (lift_error CommandClient (ea_weather (logged_access ea) u refresh d (s', log)))) = log"
    for u s' log
    by (cases "ea_weather ea u refresh d s'") (simp add: lift_error_def logged_access_def)
  have resolve: "snd (snd (resolve_address (logged_access ea) a (s, []))) = []" for a
  proof (cases "normalize_address a")
    case (Inr a')
    obtain r s1 log1 where cur: "search_with_filters (logged_access ea) (Some a')
        \<lparr>fa_filters = \<lparr>sf_province = None, sf_city = None, sf_station = Some a'\<rparr>, fa_limit = 10\<rparr>
        (s, []) = (r, (s1, log1))"
      by (metis prod.collapse)
    with search_logged [OF cur] Inr show ?thesis
      by (auto simp: resolve_address_def and_then_def split: sum.split list.split)
  qed (simp add: resolve_address_def)
  have "snd (snd (fetch_weather sha (logged_access ea) address refresh d (s, []))) = []"
  proof (cases address)
    case None
    then show ?thesis by (simp add: fetch_weather_def and_then_def weather)
  next
    case (Some a)
    obtain r s1 log1 where "resolve_address (logged_access ea) a (s, []) = (r, (s1, log1))"
      by (metis prod.collapse)
    with resolve [of a] Some show ?thesis
      by (cases r) (simp_all add: fetch_weather_def and_then_def weather)
  qed
  then show ?thesis
    by (cases "fetch_weather sha (logged_access ea) address refresh d (s, [])")
       (auto simp: and_then_def split: sum.split)
qed

text \<open>
  C15: Whatever the command line and the engine, a command reads the engine's configuration
  at most once and then sends at most one: the one it has just read with one station added,
  removed, moved or switched on or off and every other setting as it was; and the only
  command lines that reach an unreachable branch are those that stop the engine, which the
  start of the session has handled before.
\<close>

theorem commands_edit_one_station:
  "case run_command sha (logged_access ea) cli (s, []) of
     None \<Rightarrow> cli_command cli = Some CmdKill \<or> cli_command cli = Some (CmdEngine EngineStop)
   | Some (r, st) \<Rightarrow> traffic_ok (snd st)"
proof -
  note all = print_config_traffic restart_traffic status_traffic weather_traffic
    stations_command_traffic
  show ?thesis
  proof (cases "cli_core_get_default_config cli \<or> cli_core_get_config cli
      \<or> cli_core_restart_engine cli")
    case True
    then show ?thesis by (auto simp: run_command_def split_def all)
  next
    case flags: False
    show ?thesis
    proof (cases "cli_command cli")
      case None
      with flags show ?thesis by (simp add: run_command_def split_def weather_traffic)
    next
      case (Some k)
      show ?thesis
      proof (cases k)
        case (CmdSearch query args w)
        show ?thesis
        proof (cases w)
          case True
          with flags Some CmdSearch show ?thesis
            by (simp add: run_command_def split_def) (rule and_then_search, rule upsert_output_traffic)
        next
          case False
          with flags Some CmdSearch show ?thesis
            by (simp add: run_command_def split_def) (rule and_then_search, simp)
        qed
      next
        case (CmdAdd name args)
        with flags Some show ?thesis
          by (auto simp: run_command_def split_def intro!: and_then_search upsert_output_traffic)
      next
        case (CmdConfig c)
        with flags Some show ?thesis by (cases c) (auto simp: run_command_def split_def all)
      next
        case (CmdEngine c)
        with flags Some show ?thesis by (cases c) (auto simp: run_command_def split_def all)
      qed (use flags Some in \<open>auto simp: run_command_def split_def all\<close>)
    qed
  qed
qed

section \<open>The move mode of the interface and the move command\<close>

lemma parse_digits_append:
  "parse_digits n (xs @ ys) = Option.bind (parse_digits n xs) (\<lambda>m. parse_digits m ys)"
  by (induction xs arbitrary: n) auto

lemma parse_digits_show: "n \<le> u64_max \<Longrightarrow> parse_digits 0 (show_nat n) = Some n"
proof (induction n rule: show_nat.induct)
  case (1 n)
  show ?case
  proof (cases "n < 10")
    case True
    with 1 show ?thesis by (subst show_nat.simps) simp
  next
    case False
    have "parse_digits 0 (show_nat (n div 10)) = Some (n div 10)"
      using 1 False by (meson div_le_dividend le_trans)
    moreover have "n div 10 * 10 + n mod 10 = n" by simp
    moreover have "show_nat n = show_nat (n div 10) @ [48 + n mod 10]"
      using False by (subst show_nat.simps) simp
    ultimately show ?thesis using 1 by (simp add: parse_digits_append)
  qed
qed

lemma show_nat_digits: "c \<in> set (show_nat n) \<Longrightarrow> 48 \<le> c \<and> c \<le> 57"
proof (induction n rule: show_nat.induct)
  case (1 n)
  then show ?case
    by (cases "n < 10") (subst (asm) (2) show_nat.simps, auto)+
qed

lemma show_nat_not_Nil: "show_nat n \<noteq> []"
  by (subst show_nat.simps) simp

lemma parse_usize_show:
  assumes "n \<le> u64_max"
  shows "parse_usize (show_nat n) = Some n"
proof (cases "show_nat n")
  case Nil
  with show_nat_not_Nil [of n] show ?thesis by simp
next
  case (Cons c cs)
  then have "c \<noteq> 43" using show_nat_digits [of c n] by auto
  with Cons parse_digits_show [OF assms] show ?thesis by (simp add: parse_usize_def)
qed

lemma resolve_index:
  "i < length stations \<Longrightarrow> length stations \<le> u64_max \<Longrightarrow>
     resolve_station_selector stations (show_nat (i + 1)) = Inr i"
  by (simp add: resolve_station_selector_def parse_usize_show del: add_Suc_right One_nat_def)

text \<open>
  C32: Moving a station step by step in the interface's move mode and confirming gives the
  same station list as the command \<open>stations move\<close> with the two list positions: the moved
  station ends at the position shown as selected, the others keep their order, and nothing is
  lost.
\<close>

theorem move_mode_is_the_move_command:
  assumes "move_draft_new (sa_stations config) i = Some d"
    and "list_all (\<lambda>delta. delta = 1 \<or> delta = - 1) deltas"
    and "length (sa_stations config) \<le> u64_max"
  shows "let d' = fold draft_move_by deltas d in
      map_sum (\<lambda>e. e) snd (move_station (show_nat (md_origin d' + 1)) (show_nat (md_selected d' + 1)) config)
        = Inr (config\<lparr>sa_stations := md_stations d'\<rparr>)
      \<and> mset (md_stations d') = mset (sa_stations config)
      \<and> md_stations d' ! md_selected d' = sa_stations config ! md_origin d'"
proof -
  define d' where "d' = fold draft_move_by deltas d"
  have draft: "draft_of (sa_stations config) d'"
    unfolding d'_def by (rule draft_moves_draft [OF move_draft_new_draft [OF assms(1)] assms(3,2)])
  note ms = mset_draft [OF draft]
  from draft have o: "md_origin d' < length (sa_stations config)"
    and sel: "md_selected d' < length (sa_stations config)"
    and st: "md_stations d' = list_insert (md_selected d') (sa_stations config ! md_origin d')
      (list_remove (md_origin d') (sa_stations config))"
    by (auto simp: draft_of_def)
  have len: "length (list_remove (md_origin d') (sa_stations config)) = length (sa_stations config) - 1"
    using o by (rule length_list_remove)
  have at: "md_stations d' ! md_selected d' = sa_stations config ! md_origin d'"
    unfolding st using sel len by (simp add: list_insert_def nth_append min_def)
  show ?thesis
    using ms at resolve_index [OF o assms(3)] resolve_index [OF sel assms(3)]
    by (simp add: d'_def [symmetric] move_station_def Let_def stations_update_def st
        del: add_Suc_right One_nat_def)
qed

definition sample_stations :: "station_config list" where
  "sample_stations = map (\<lambda>n. \<lparr>sc_name = n, sc_enabled = True\<rparr>) [lit ''a'', lit ''b'', lit ''c'']"

definition sample_schema_config :: schema_config where
  "sample_schema_config = \<lparr>sa_engine = None, sa_ipc = None, sa_db = None, sa_updater = None,
     sa_daemon = None, sa_stations = sample_stations, sa_version = 1\<rparr>"

theorem move_mode_is_the_move_command_witness:
  "let d' = fold draft_move_by [1, 1] \<lparr>md_stations = sample_stations, md_selected = 0, md_origin = 0\<rparr>
   in md_selected d' = 2 \<and> mset (md_stations d') = mset sample_stations
      \<and> md_stations d' ! 2 = sample_stations ! 0"
proof -
  have d: "move_draft_new (sa_stations sample_schema_config) 0
      = Some \<lparr>md_stations = sample_stations, md_selected = 0, md_origin = 0\<rparr>"
    by (simp add: move_draft_new_def sample_schema_config_def sample_stations_def)
  have sel: "md_selected (fold draft_move_by [1, 1]
      \<lparr>md_stations = sample_stations, md_selected = 0, md_origin = 0\<rparr>) = 2"
    by (simp add: draft_move_by_def moved_index_def sat_add_signed_def list_swap_def
        sample_stations_def Let_def u64_max_def)
  show ?thesis
    using move_mode_is_the_move_command [OF d, of "[1, 1]"] sel
    by (simp add: Let_def sample_schema_config_def sample_stations_def u64_max_def)
qed

end
