(* ===== verification/Tui_App.thy ===== *)
theory Tui_App
  imports Tui_Command Events Weather_Data
begin

text \<open>
  The terminal interface's controller: \<open>TuiApp\<close> and its key handlers
  (\<^verbatim>\<open>weather-renderer/tui/src/tui.rs\<close>) and the application of effect results and engine
  events (\<^verbatim>\<open>tui/events.rs\<close>, the effects of \<^verbatim>\<open>tui/effects.rs\<close>). Every
  operation is an option: \<open>None\<close> is a panic, of a token counter that is exhausted or of an
  index outside a list. Drawing is not modelled; the decoders of the event payloads are
  parameters; \<open>now\<close> is the clock in milliseconds.
\<close>

section \<open>State\<close>

definition weather_refresh_interval :: nat where "weather_refresh_interval = 60000"
definition max_log_lines :: nat where "max_log_lines = 64"

datatype tui_effect =
    EffectCancelSearch
  | EffectSearch nat ustring
  | EffectLoadWeather nat ustring "ustring option" bool
  | EffectPreview nat station_ref
  | EffectUpdateConfig nat schema_config
  | EffectLoadAbout

datatype 'f effect_result =
    ResultSearchPage search_page
  | ResultSearchFailed nat ustring
  | ResultWeather nat ustring "ustring + 'f weather_snapshot"
  | ResultPreview nat ustring "ustring + 'f weather_snapshot"
  | ResultConfig nat "ustring + schema_config"
  | ResultAbout "ustring + engine_status"
  | ResultTaskFailed ustring

record pending_config =
  pn_token :: nat
  pn_message :: ustring
  pn_select_name :: "ustring option"

record 'f tui_app =
  ta_config :: schema_config
  ta_stations :: "configured_station list"
  ta_selected :: "nat option"
  ta_snapshot :: "'f weather_snapshot option"
  ta_mode :: input_mode
  ta_focus :: panel_focus
  ta_forecast_scroll :: nat
  ta_alert_scroll :: nat
  ta_logs :: "ustring list"
  ta_last_refresh :: "nat option"
  ta_manage_selected :: nat
  ta_draft :: "move_draft option"
  ta_hidden :: "ustring set"
  ta_preview :: "'f weather_snapshot option"
  ta_search :: search_state
  ta_about :: "engine_status option"
  ta_weather_token :: nat
  ta_weather_pending :: bool
  ta_config_token :: nat
  ta_pending :: "pending_config option"

definition tui_load :: "schema_config \<Rightarrow> engine_status option \<Rightarrow> 'f tui_app" where
  "tui_load config about =
     (let stations = configured_stations config
      in \<lparr>ta_config = config, ta_stations = stations,
          ta_selected = normalize_station_selection stations {} None, ta_snapshot = None,
          ta_mode = ModeNormal, ta_focus = FocusStations, ta_forecast_scroll = 0,
          ta_alert_scroll = 0, ta_logs = [lit ''ready''], ta_last_refresh = None,
          ta_manage_selected = 0, ta_draft = None, ta_hidden = {}, ta_preview = None,
          ta_search = search_default, ta_about = about, ta_weather_token = 0,
          ta_weather_pending = False, ta_config_token = 0, ta_pending = None\<rparr>)"

definition push_log :: "ustring \<Rightarrow> 'f tui_app \<Rightarrow> 'f tui_app" where
  "push_log message a =
     (let logs = ta_logs a @ [message]
      in a\<lparr>ta_logs := drop (length logs - max_log_lines) logs\<rparr>)"

section \<open>Focus and scrolling\<close>

definition focus_hidden :: "panel_focus \<Rightarrow> 'f tui_app \<Rightarrow> bool" where
  "focus_hidden panel a =
     (case panel of
        FocusAlert \<Rightarrow>
          (case ta_snapshot a of None \<Rightarrow> True
           | Some s \<Rightarrow> (case ws_real s of None \<Rightarrow> True | Some real \<Rightarrow> ow_alerts real = []))
      | _ \<Rightarrow> False)"

definition focus_order :: "panel_focus list" where
  "focus_order = [FocusStations, FocusCurrent, FocusForecast, FocusAlert]"

definition focus_next :: "panel_focus \<Rightarrow> 'f tui_app \<Rightarrow> panel_focus" where
  "focus_next self a =
     (let start = (case list_position (\<lambda>panel. panel = self) focus_order of None \<Rightarrow> 0 | Some p \<Rightarrow> p);
          candidates = map (\<lambda>step. focus_order ! ((start + step) mod 4)) [1, 2, 3, 4]
      in case filter (\<lambda>candidate. \<not> focus_hidden candidate a) candidates of
           [] \<Rightarrow> self | candidate # _ \<Rightarrow> candidate)"

fun show_focus :: "panel_focus \<Rightarrow> ustring" where
  "show_focus FocusStations = lit ''Stations''"
| "show_focus FocusCurrent = lit ''Current''"
| "show_focus FocusForecast = lit ''Forecast''"
| "show_focus FocusAlert = lit ''Alert''"

definition scroll_forecast :: "int \<Rightarrow> 'f tui_app \<Rightarrow> 'f tui_app" where
  "scroll_forecast delta a =
     (let len = (case ta_snapshot a of None \<Rightarrow> 0
                 | Some s \<Rightarrow> (case ws_predict s of None \<Rightarrow> 0 | Some p \<Rightarrow> length (fr_days p)))
      in if len = 0 then a\<lparr>ta_forecast_scroll := 0\<rparr>
         else a\<lparr>ta_forecast_scroll := min (sat_add_signed (ta_forecast_scroll a) delta) (len - 1)\<rparr>)"

section \<open>Requests\<close>

definition normalize_selected_station :: "'f tui_app \<Rightarrow> 'f tui_app" where
  "normalize_selected_station a =
     a\<lparr>ta_selected := normalize_station_selection (ta_stations a) (ta_hidden a) (ta_selected a)\<rparr>"

definition request_selected_weather ::
  "nat \<Rightarrow> bool \<Rightarrow> 'f tui_app \<Rightarrow> (tui_effect option \<times> 'f tui_app) option" where
  "request_selected_weather now refresh a =
     (let a = normalize_selected_station a
      in case ta_selected a of
           None \<Rightarrow>
             Some (None, push_log (lit ''no enabled visible stations'')
               (a\<lparr>ta_snapshot := None, ta_weather_pending := False, ta_last_refresh := Some now\<rparr>))
         | Some index \<Rightarrow>
             (case slice_get (ta_stations a) index of
                None \<Rightarrow> Some (None, a)
              | Some station \<Rightarrow>
                  (case checked_add_u64 (ta_weather_token a) of
                     None \<Rightarrow> None
                   | Some t \<Rightarrow>
                       Some (Some (EffectLoadWeather t (sc_name station) None refresh),
                         a\<lparr>ta_weather_token := t, ta_weather_pending := True\<rparr>))))"

text \<open>The same, with the effects as the list that a handler returns.\<close>

definition request_weather_effects ::
  "nat \<Rightarrow> bool \<Rightarrow> 'f tui_app \<Rightarrow> (tui_effect list \<times> 'f tui_app) option" where
  "request_weather_effects now refresh a =
     map_option (\<lambda>(e, a). (case e of None \<Rightarrow> [] | Some e \<Rightarrow> [e], a)) (request_selected_weather now refresh a)"

definition begin_config_update ::
  "schema_config \<Rightarrow> ustring \<Rightarrow> ustring option \<Rightarrow> 'f tui_app \<Rightarrow> (tui_effect list \<times> 'f tui_app) option" where
  "begin_config_update config message select_name a =
     (if ta_pending a \<noteq> None
      then Some ([], push_log (lit ''configuration update already in progress'') a)
      else case checked_add_u64 (ta_config_token a) of
             None \<Rightarrow> None
           | Some t \<Rightarrow>
               Some ([EffectUpdateConfig t config],
                 a\<lparr>ta_config_token := t,
                   ta_pending := Some \<lparr>pn_token = t, pn_message = message, pn_select_name = select_name\<rparr>\<rparr>))"

definition tui_tick :: "nat \<Rightarrow> 'f tui_app \<Rightarrow> (tui_effect list \<times> 'f tui_app) option" where
  "tui_tick now a =
     (let due = (case ta_last_refresh a of None \<Rightarrow> True | Some t0 \<Rightarrow> now - t0 \<ge> weather_refresh_interval)
      in if due \<and> \<not> ta_weather_pending a then request_weather_effects now False a
         else Some ([], a))"

definition select_station :: "int \<Rightarrow> 'f tui_app \<Rightarrow> bool \<times> 'f tui_app" where
  "select_station delta a =
     (let a = normalize_selected_station a;
          target = move_station_selection (ta_stations a) (ta_hidden a) (ta_selected a) delta
      in if target = ta_selected a then (False, a)
         else (True, a\<lparr>ta_selected := target, ta_forecast_scroll := 0, ta_alert_scroll := 0\<rparr>))"

section \<open>Editing the station list\<close>

definition with_stations :: "schema_config \<Rightarrow> station_config list \<Rightarrow> schema_config" where
  "with_stations config stations = config\<lparr>sa_stations := stations\<rparr>"

definition toggle_selected :: "'f tui_app \<Rightarrow> (tui_effect list \<times> 'f tui_app) option" where
  "toggle_selected a =
     (let stations = sa_stations (ta_config a); i = ta_manage_selected a
      in case slice_get stations i of
           None \<Rightarrow> Some ([], a)
         | Some station \<Rightarrow>
             begin_config_update
               (with_stations (ta_config a) (stations[i := station\<lparr>sc_enabled := \<not> sc_enabled station\<rparr>]))
               ((if \<not> sc_enabled station then lit ''enabled '' else lit ''disabled '') @ sc_name station)
               (Some (sc_name station)) a)"

text \<open>\<open>Vec::remove\<close> panics at an index outside the list.\<close>

definition delete_selected :: "'f tui_app \<Rightarrow> (tui_effect list \<times> 'f tui_app) option" where
  "delete_selected a =
     (let stations = sa_stations (ta_config a); i = ta_manage_selected a
      in if stations = [] then Some ([], a)
         else case slice_get stations i of
                None \<Rightarrow> None
              | Some station \<Rightarrow>
                  let rest = list_remove i stations
                  in begin_config_update (with_stations (ta_config a) rest)
                       (lit ''removed '' @ sc_name station)
                       (map_option sc_name (slice_get rest (min i (length rest - 1)))) a)"

definition exit_search_to_manage :: "'f tui_app \<Rightarrow> 'f tui_app option" where
  "exit_search_to_manage a =
     map_option (\<lambda>s. push_log (lit ''search closed'')
         (a\<lparr>ta_search := s, ta_mode := ModeManage, ta_preview := None\<rparr>))
       (cancel_and_clear (ta_search a))"

definition enter_search :: "input_mode \<Rightarrow> 'f tui_app \<Rightarrow> 'f tui_app option" where
  "enter_search mode a =
     map_option (\<lambda>s. push_log
         (case mode of
            ModeManageAddSearch \<Rightarrow> lit ''add search: type query, Enter to search, Ctrl+A to add''
          | ModeManageBrowseSearch \<Rightarrow>
              lit ''browse search: type query, Enter to search, Ctrl+A to preview''
          | _ \<Rightarrow> [])
         (a\<lparr>ta_mode := mode, ta_search := s, ta_preview := None\<rparr>))
       (search_enter (ta_search a))"

definition add_selected_result :: "station_ref \<Rightarrow> 'f tui_app \<Rightarrow> (tui_effect list \<times> 'f tui_app) option" where
  "add_selected_result station a =
     (let name = sr_name station; stations = sa_stations (ta_config a);
          already = list_ex (\<lambda>item. sc_name item = name) stations;
          candidate = with_stations (ta_config a)
            (if already then enable_first name stations
             else stations @ [\<lparr>sc_name = name, sc_enabled = True\<rparr>]);
          message = (if already then lit ''enabled existing '' else lit ''added '') @ name
      in Option.bind (exit_search_to_manage a) (begin_config_update candidate message (Some name)))"

section \<open>Keys\<close>

abbreviation key :: "char \<Rightarrow> key_code" where "key c \<equiv> KeyChar (of_char c)"

text \<open>A handler returns whether the interface exits, the effects and the state.\<close>

type_synonym 'f handled = "((bool \<times> tui_effect list) \<times> 'f tui_app) option"

definition stay :: "(tui_effect list \<times> 'f tui_app) option \<Rightarrow> 'f handled" where
  "stay r = map_option (\<lambda>(effects, a). ((False, effects), a)) r"

definition quiet :: "'f tui_app \<Rightarrow> 'f handled" where
  "quiet a = Some ((False, []), a)"

definition step_station :: "nat \<Rightarrow> int \<Rightarrow> 'f tui_app \<Rightarrow> 'f handled" where
  "step_station now delta a =
     (case select_station delta a of
        (True, a) \<Rightarrow> stay (request_weather_effects now False a)
      | (False, a) \<Rightarrow> quiet a)"

definition handle_normal_key :: "nat \<Rightarrow> key_code \<Rightarrow> 'f tui_app \<Rightarrow> 'f handled" where
  "handle_normal_key now code a =
     (if code = key CHR ''q'' then Some ((True, []), a)
      else if code = key CHR ''r'' then stay (request_weather_effects now True a)
      else if code = KeyTab then
        (let a = a\<lparr>ta_focus := focus_next (ta_focus a) a\<rparr>
         in quiet (push_log (lit ''focus: '' @ show_focus (ta_focus a)) a))
      else if code = KeyEsc then
        quiet (a\<lparr>ta_focus := FocusStations, ta_forecast_scroll := 0, ta_alert_scroll := 0\<rparr>)
      else if code = key CHR ''j'' \<or> code = KeyDown then
        (case ta_focus a of
           FocusStations \<Rightarrow> step_station now 1 a
         | FocusForecast \<Rightarrow> quiet (scroll_forecast 1 a)
         | FocusAlert \<Rightarrow> quiet (a\<lparr>ta_alert_scroll := sat_add (ta_alert_scroll a) 1\<rparr>)
         | FocusCurrent \<Rightarrow> quiet a)
      else if code = key CHR ''k'' \<or> code = KeyUp then
        (case ta_focus a of
           FocusStations \<Rightarrow> step_station now (- 1) a
         | FocusForecast \<Rightarrow> quiet (scroll_forecast (- 1) a)
         | FocusAlert \<Rightarrow> quiet (a\<lparr>ta_alert_scroll := ta_alert_scroll a - 1\<rparr>)
         | FocusCurrent \<Rightarrow> quiet a)
      else if code = KeyPageDown \<and> ta_focus a = FocusForecast then quiet (scroll_forecast 5 a)
      else if code = KeyPageUp \<and> ta_focus a = FocusForecast then quiet (scroll_forecast (- 5) a)
      else if code = key CHR ''m'' then
        quiet (push_log (lit ''manage mode'')
          (a\<lparr>ta_mode := ModeManage,
             ta_manage_selected := min (case ta_selected a of None \<Rightarrow> 0 | Some i \<Rightarrow> i)
               (length (sa_stations (ta_config a)) - 1)\<rparr>))
      else if code = key CHR ''?'' then Some ((False, [EffectLoadAbout]), a\<lparr>ta_mode := ModeAbout\<rparr>)
      else quiet a)"

definition handle_about_key :: "key_code \<Rightarrow> 'f tui_app \<Rightarrow> 'f handled" where
  "handle_about_key code a =
     (if code = key CHR ''r'' then Some ((False, [EffectLoadAbout]), a)
      else quiet (a\<lparr>ta_mode := ModeNormal\<rparr>))"

text \<open>\<open>h\<close>: the station under the cursor is hidden or shown again.\<close>

definition toggle_hidden :: "nat \<Rightarrow> 'f tui_app \<Rightarrow> 'f handled" where
  "toggle_hidden now a =
     (case slice_get (sa_stations (ta_config a)) (ta_manage_selected a) of
        None \<Rightarrow> quiet a
      | Some station \<Rightarrow>
          let name = sc_name station;
              previous = ta_selected a;
              new_hidden = (name \<notin> ta_hidden a);
              a = normalize_selected_station
                (a\<lparr>ta_hidden := (if new_hidden then insert name (ta_hidden a) else ta_hidden a - {name})\<rparr>);
              requested = (if ta_selected a \<noteq> previous then request_weather_effects now False a
                           else Some ([], a))
          in stay (map_option (\<lambda>(effects, a). (effects,
               push_log ((if new_hidden then lit ''hid '' else lit ''showed '') @ name) a)) requested))"

definition handle_manage_key :: "nat \<Rightarrow> key_code \<Rightarrow> 'f tui_app \<Rightarrow> 'f handled" where
  "handle_manage_key now code a =
     (if code = KeyEsc then
        (let previous = ta_selected a;
             a = push_log (lit ''manage closed'') (normalize_selected_station (a\<lparr>ta_mode := ModeNormal\<rparr>))
         in if ta_selected a \<noteq> previous then stay (request_weather_effects now False a) else quiet a)
      else if code = key CHR ''j'' \<or> code = KeyDown then
        quiet (a\<lparr>ta_manage_selected :=
          moved_index (ta_manage_selected a) (length (sa_stations (ta_config a))) 1\<rparr>)
      else if code = key CHR ''k'' \<or> code = KeyUp then
        quiet (a\<lparr>ta_manage_selected :=
          moved_index (ta_manage_selected a) (length (sa_stations (ta_config a))) (- 1)\<rparr>)
      else if code = key CHR '' '' then stay (toggle_selected a)
      else if code = key CHR ''d'' then stay (delete_selected a)
      else if code = key CHR ''a'' then Option.bind (enter_search ModeManageAddSearch a) quiet
      else if code = key CHR ''s'' then Option.bind (enter_search ModeManageBrowseSearch a) quiet
      else if code = key CHR ''M'' then
        (if ta_pending a \<noteq> None
         then quiet (push_log (lit ''configuration update already in progress'') a)
         else case move_draft_new (sa_stations (ta_config a)) (ta_manage_selected a) of
                None \<Rightarrow> quiet a
              | Some draft \<Rightarrow>
                  quiet (push_log (lit ''move mode: j/k to move, Enter to confirm'')
                    (a\<lparr>ta_draft := Some draft, ta_mode := ModeManageMove\<rparr>)))
      else if code = key CHR ''h'' then toggle_hidden now a
      else quiet a)"

definition handle_move_key :: "key_code \<Rightarrow> 'f tui_app \<Rightarrow> 'f handled" where
  "handle_move_key code a =
     (case ta_draft a of
        None \<Rightarrow> quiet (a\<lparr>ta_mode := ModeManage\<rparr>)
      | Some draft \<Rightarrow>
          if code = KeyEsc then
            quiet (push_log (lit ''move cancelled'')
              (a\<lparr>ta_manage_selected := md_origin draft, ta_draft := None, ta_mode := ModeManage\<rparr>))
          else if code = KeyEnter then
            stay (begin_config_update (with_stations (ta_config a) (md_stations draft))
              (lit ''move confirmed'')
              (map_option sc_name (slice_get (md_stations draft) (md_selected draft)))
              (a\<lparr>ta_manage_selected := md_selected draft, ta_draft := None, ta_mode := ModeManage\<rparr>))
          else if code = key CHR ''j'' \<or> code = KeyDown then
            (let draft = draft_move_by 1 draft
             in quiet (a\<lparr>ta_draft := Some draft, ta_manage_selected := md_selected draft\<rparr>))
          else if code = key CHR ''k'' \<or> code = KeyUp then
            (let draft = draft_move_by (- 1) draft
             in quiet (a\<lparr>ta_draft := Some draft, ta_manage_selected := md_selected draft\<rparr>))
          else quiet a)"

definition handle_search_key :: "key_event \<Rightarrow> 'f tui_app \<Rightarrow> 'f handled" where
  "handle_search_key k a =
     (case search_key k (ta_search a) of
        None \<Rightarrow> None
      | Some (intent, s) \<Rightarrow>
          let a = a\<lparr>ta_search := s\<rparr>
          in case intent of
               IntentExit \<Rightarrow>
                 map_option (\<lambda>a. ((False, [EffectCancelSearch]), a)) (exit_search_to_manage a)
             | IntentSubmit \<Rightarrow>
                 map_option (\<lambda>((t, query), s).
                   ((False, [EffectSearch t query]), a\<lparr>ta_search := s, ta_preview := None\<rparr>))
                   (search_start s)
             | IntentQueryChanged \<Rightarrow>
                 Some ((False, [EffectCancelSearch]), a\<lparr>ta_preview := None\<rparr>)
             | IntentAction \<Rightarrow>
                 (case selected_result s of
                    None \<Rightarrow> quiet (push_log (lit ''no selected search result'') a)
                  | Some station \<Rightarrow>
                      if ta_mode a = ModeManageAddSearch then
                        stay (map_option (\<lambda>(effects, a). (EffectCancelSearch # effects, a))
                          (add_selected_result station a))
                      else Some ((False, [EffectPreview (srch_token s) station]), a))
             | IntentNone \<Rightarrow> quiet a)"

definition reduce_key :: "nat \<Rightarrow> key_event \<Rightarrow> 'f tui_app \<Rightarrow> 'f handled" where
  "reduce_key now k a =
     (if ke_code k = key CHR ''c'' \<and> ke_control k then Some ((True, []), a)
      else case ta_mode a of
             ModeNormal \<Rightarrow> handle_normal_key now (ke_code k) a
           | ModeManage \<Rightarrow> handle_manage_key now (ke_code k) a
           | ModeManageMove \<Rightarrow> handle_move_key (ke_code k) a
           | ModeManageAddSearch \<Rightarrow> handle_search_key k a
           | ModeManageBrowseSearch \<Rightarrow> handle_search_key k a
           | ModeAbout \<Rightarrow> handle_about_key (ke_code k) a)"

section \<open>Results of effects\<close>

definition clamp_manage :: "schema_config \<Rightarrow> nat \<Rightarrow> nat" where
  "clamp_manage config i = min i (length (sa_stations config) - 1)"

definition station_name_at :: "configured_station list \<Rightarrow> nat option \<Rightarrow> ustring option" where
  "station_name_at stations selected =
     map_option sc_name (Option.bind selected (slice_get stations))"

text \<open>A confirmed configuration replaces everything that was read from the old one.\<close>

definition adopt_config :: "pending_config \<Rightarrow> schema_config \<Rightarrow> 'f tui_app \<Rightarrow> 'f tui_app" where
  "adopt_config pending config a =
     (let old_name = station_name_at (ta_stations a) (ta_selected a);
          stations = configured_stations config;
          hidden = {name \<in> ta_hidden a. list_ex (\<lambda>s. sc_name s = name) stations};
          preferred = Option.bind old_name (\<lambda>name. list_position (\<lambda>s. sc_name s = name) stations);
          manage = (case pn_select_name pending of
             Some name \<Rightarrow>
               (case list_position (\<lambda>s. sc_name s = name) (sa_stations config) of
                  Some i \<Rightarrow> i | None \<Rightarrow> length (sa_stations config) - 1)
           | None \<Rightarrow> clamp_manage config (ta_manage_selected a))
      in push_log (pn_message pending)
           (a\<lparr>ta_config := config, ta_stations := stations, ta_hidden := hidden,
              ta_selected := normalize_station_selection stations hidden preferred,
              ta_manage_selected := manage, ta_pending := None\<rparr>))"

definition reject_config :: "pending_config \<Rightarrow> ustring \<Rightarrow> 'f tui_app \<Rightarrow> 'f tui_app" where
  "reject_config pending error a =
     (let clamped = clamp_manage (ta_config a) (ta_manage_selected a);
          manage = (case pn_select_name pending of
             Some name \<Rightarrow>
               (case list_position (\<lambda>s. sc_name s = name) (sa_stations (ta_config a)) of
                  Some i \<Rightarrow> i | None \<Rightarrow> clamped)
           | None \<Rightarrow> clamped)
      in push_log (lit ''configuration update failed: '' @ error)
           (a\<lparr>ta_manage_selected := manage, ta_pending := None\<rparr>))"

definition apply_effect_result ::
  "nat \<Rightarrow> 'f effect_result \<Rightarrow> 'f tui_app \<Rightarrow> (tui_effect list \<times> 'f tui_app) option" where
  "apply_effect_result now result a =
     (case result of
        ResultSearchPage page \<Rightarrow> Some ([], a\<lparr>ta_search := snd (apply_page page (ta_search a))\<rparr>)
      | ResultSearchFailed token message \<Rightarrow>
          (case apply_error token message (ta_search a) of
             (applied, s) \<Rightarrow>
               let a = a\<lparr>ta_search := s\<rparr>
               in Some ([], if applied then push_log (lit ''search failed: '' @ message) a else a))
      | ResultWeather token name r \<Rightarrow>
          if token \<noteq> ta_weather_token a then Some ([], a)
          else
            let a = a\<lparr>ta_weather_pending := False, ta_last_refresh := Some now\<rparr>
            in (case r of
                  Inr snapshot \<Rightarrow>
                    let a = a\<lparr>ta_snapshot := Some snapshot\<rparr>;
                        a = (if focus_hidden (ta_focus a) a then a\<lparr>ta_focus := FocusStations\<rparr> else a)
                    in Some ([], push_log (lit ''loaded '' @ name) a)
                | Inl error \<Rightarrow> Some ([], push_log (lit ''refresh failed: '' @ error) a))
      | ResultPreview token station_name r \<Rightarrow>
          if token = srch_token (ta_search a) \<and> ta_mode a = ModeManageBrowseSearch
             \<and> map_option sr_name (selected_result (ta_search a)) = Some station_name
          then (case r of
                  Inr snapshot \<Rightarrow>
                    Some ([], push_log (lit ''preview '' @ station_name) (a\<lparr>ta_preview := Some snapshot\<rparr>))
                | Inl error \<Rightarrow> Some ([], push_log (lit ''preview failed: '' @ error) a))
          else Some ([], a)
      | ResultConfig token r \<Rightarrow>
          (case ta_pending a of
             None \<Rightarrow> Some ([], a)
           | Some pending \<Rightarrow>
               if token \<noteq> pn_token pending then Some ([], a)
               else (case r of
                  Inr config \<Rightarrow>
                    let old_name = station_name_at (ta_stations a) (ta_selected a);
                        a = adopt_config pending config a
                    in if station_name_at (ta_stations a) (ta_selected a) \<noteq> old_name
                       then request_weather_effects now False a else Some ([], a)
                | Inl error \<Rightarrow> Some ([], reject_config pending error a)))
      | ResultAbout (Inr status) \<Rightarrow> Some ([], a\<lparr>ta_about := Some status\<rparr>)
      | ResultAbout (Inl error) \<Rightarrow> Some ([], push_log (lit ''about refresh failed: '' @ error) a)
      | ResultTaskFailed error \<Rightarrow> Some ([], push_log error a))"

section \<open>Engine events\<close>

text \<open>
  The messages as they decode from an event's payload, with the enumerations still numbers;
  a number that no variant has reads as unspecified.
\<close>

record fetch_log_message =
  fm_unified_uuid :: "ustring option"
  fm_endpoint :: ustring
  fm_ok :: bool
  fm_outcome :: int

record refresh_message =
  rm_unified_uuid :: "ustring option"
  rm_started :: bool
  rm_completed :: bool
  rm_message :: "ustring option"
  rm_phase :: int
  rm_outcome :: int

record 'f event_codec =
  ec_snapshot :: "byte list \<Rightarrow> 'f weather_snapshot option option"
  ec_status :: "byte list \<Rightarrow> engine_status option"
  ec_fetch_log :: "byte list \<Rightarrow> fetch_log_message option"
  ec_refresh :: "byte list \<Rightarrow> refresh_message option"

definition or_empty :: "ustring option \<Rightarrow> ustring" where
  "or_empty v = (case v of None \<Rightarrow> [] | Some s \<Rightarrow> s)"

text \<open>\<open>: message\<close> when there is a message that is not empty.\<close>

definition detail :: "ustring option \<Rightarrow> ustring" where
  "detail v = (if or_empty v = [] then [] else lit '': '' @ or_empty v)"

definition strip_prefix :: "ustring \<Rightarrow> ustring \<Rightarrow> ustring option" where
  "strip_prefix p s = (if take (length p) s = p then Some (drop (length p) s) else None)"

definition log_station_label :: "(byte list \<Rightarrow> byte list) \<Rightarrow> 'f tui_app \<Rightarrow> ustring \<Rightarrow> ustring" where
  "log_station_label sha a uuid =
     (let named = (\<lambda>name. name @ lit ''('' @ uuid @ lit '')'')
      in if uuid = [] then lit ''global''
         else
           case Option.bind (Option.bind (ta_snapshot a) ws_station)
                  (\<lambda>s. if sr_unified_uuid s = uuid then Some s else None) of
             Some s \<Rightarrow>
               named (if sr_name s = [] then sr_province s @ lit ''-'' @ sr_city s else sr_name s)
           | None \<Rightarrow>
               (case find (\<lambda>s. sr_unified_uuid s = uuid) (srch_results (ta_search a)) of
                  Some s \<Rightarrow> named (sr_name s)
                | None \<Rightarrow>
                    (case find (\<lambda>s. unified_station_uuid sha (sc_name s) = uuid)
                            (sa_stations (ta_config a)) of
                       Some s \<Rightarrow> named (sc_name s)
                     | None \<Rightarrow> uuid)))"

definition status_state :: "engine_status \<Rightarrow> ustring" where
  "status_state st =
     (let n = es_lifecycle_state st
      in if n = 1 then lit ''starting'' else if n = 2 then lit ''ready''
         else if n = 3 then lit ''stopping'' else if n = 4 then lit ''failed''
         else if es_ready st then lit ''ready'' else lit ''not-ready'')"

definition fetch_log_state :: "fetch_log_message \<Rightarrow> ustring" where
  "fetch_log_state m =
     (if fm_outcome m = 1 then lit ''ok'' else if fm_outcome m = 2 then lit ''warn''
      else if fm_outcome m = 3 then lit ''fail''
      else if fm_ok m then lit ''ok'' else lit ''fail'')"

text \<open>The line of a refresh event; \<open>None\<close> for one that neither starts nor completes.\<close>

definition refresh_line :: "ustring \<Rightarrow> ustring \<Rightarrow> refresh_message \<Rightarrow> ustring option" where
  "refresh_line topic station m =
     (let line = (\<lambda>t. topic @ lit '' '' @ station @ lit '' '' @ t)
      in if rm_phase m = 1 then Some (line (lit ''started''))
         else if rm_phase m = 2 then
           Some (line
             (if rm_outcome m = 1 then lit ''success''
              else if rm_outcome m = 2 then lit ''stale''
              else if rm_outcome m = 3 then
                lit ''failure'' @ detail (Option.bind (rm_message m) (strip_prefix (lit ''failure: '')))
              else lit ''completed'' @ detail (rm_message m)))
         else if rm_started m then Some (line (lit ''started''))
         else if rm_completed m then Some (line (lit ''completed''))
         else None)"

definition snapshot_uuid :: "'f weather_snapshot option \<Rightarrow> ustring option" where
  "snapshot_uuid s = map_option sr_unified_uuid (Option.bind s ws_station)"

definition apply_engine_event ::
  "(byte list \<Rightarrow> byte list) \<Rightarrow> 'f event_codec \<Rightarrow> nat \<Rightarrow> ustring \<Rightarrow> event_envelope \<Rightarrow> 'f tui_app
     \<Rightarrow> 'f tui_app" where
  "apply_engine_event sha ec now topic e a =
     (if ev_kind e = kind_snapshot then
        (case ec_snapshot ec (ev_payload e) of
           None \<Rightarrow> a
         | Some incoming \<Rightarrow>
             if (case snapshot_uuid incoming of None \<Rightarrow> False | Some u \<Rightarrow> u \<noteq> [])
                \<and> snapshot_uuid incoming = snapshot_uuid (ta_snapshot a)
             then a\<lparr>ta_snapshot := incoming, ta_last_refresh := Some now\<rparr> else a)
      else if ev_kind e = kind_status then
        (case ec_status ec (ev_payload e) of
           None \<Rightarrow> a
         | Some st \<Rightarrow>
             push_log (lit ''engine '' @ es_mode st @ lit '' '' @ status_state st
               @ detail (es_message st)) a)
      else if ev_kind e = kind_fetch_log then
        (case ec_fetch_log ec (ev_payload e) of
           None \<Rightarrow> a
         | Some m \<Rightarrow>
             push_log (topic @ lit '' '' @ log_station_label sha a (or_empty (fm_unified_uuid m))
               @ lit '' '' @ fetch_log_state m @ lit '': '' @ fm_endpoint m) a)
      else if ev_kind e = kind_refresh then
        (case ec_refresh ec (ev_payload e) of
           None \<Rightarrow> a
         | Some m \<Rightarrow>
             (case refresh_line topic (log_station_label sha a (or_empty (rm_unified_uuid m))) m of
                None \<Rightarrow> a | Some line \<Rightarrow> push_log line a))
      else a)"

section \<open>The interface as a machine\<close>

datatype 'f tui_event =
    EventKey key_event | EventResult "'f effect_result" | EventEngine ustring event_envelope
  | EventLagged nat | EventTick

text \<open>
  One turn of \<open>run_interactive\<close>: what \<open>select!\<close> took, with the clock, to the exit flag,
  the effects that are dispatched and the next state.
\<close>

fun tui_turn ::
  "(byte list \<Rightarrow> byte list) \<Rightarrow> 'f event_codec \<Rightarrow> nat \<times> 'f tui_event \<Rightarrow> 'f tui_app \<Rightarrow> 'f handled" where
  "tui_turn sha ec (now, EventKey k) a = reduce_key now k a"
| "tui_turn sha ec (now, EventResult r) a = stay (apply_effect_result now r a)"
| "tui_turn sha ec (now, EventEngine topic e) a = quiet (apply_engine_event sha ec now topic e a)"
| "tui_turn sha ec (now, EventLagged skipped) a =
     quiet (push_log (lit ''engine events lagged by '' @ show_nat skipped) a)"
| "tui_turn sha ec (now, EventTick) a = stay (tui_tick now a)"

definition tui_step ::
  "(byte list \<Rightarrow> byte list) \<Rightarrow> 'f event_codec \<Rightarrow> nat \<times> 'f tui_event \<Rightarrow> 'f tui_app \<Rightarrow> 'f tui_app option" where
  "tui_step sha ec e a = map_option snd (tui_turn sha ec e a)"

text \<open>
  The invariant: the stations are those of the configuration, the selection is a selectable
  station whenever there is one, the cursor of the manage mode is inside the list, a draft
  belongs to the move mode and to the configuration of that moment with no update in flight,
  an update in flight carries the newest token, and the log is bounded.
\<close>

definition move_mode_ok ::
  "station_config list \<Rightarrow> input_mode \<Rightarrow> move_draft option \<Rightarrow> pending_config option \<Rightarrow> nat \<Rightarrow> bool" where
  "move_mode_ok stations mode draft pending manage \<longleftrightarrow>
     (case draft of
        None \<Rightarrow> mode \<noteq> ModeManageMove
      | Some d \<Rightarrow> mode = ModeManageMove \<and> pending = None \<and> manage = md_selected d
          \<and> md_selected d < length stations \<and> md_origin d < length stations
          \<and> length (md_stations d) = length stations
          \<and> (length stations \<le> u64_max \<longrightarrow> draft_of stations d))"

definition pending_ok :: "pending_config option \<Rightarrow> nat \<Rightarrow> bool" where
  "pending_ok pending token = (case pending of None \<Rightarrow> True | Some p \<Rightarrow> pn_token p = token)"

definition tui_ok :: "'f tui_app \<Rightarrow> bool" where
  "tui_ok a \<longleftrightarrow>
     ta_stations a = configured_stations (ta_config a)
     \<and> selection_ok (configured_stations (ta_config a)) (ta_hidden a) (ta_selected a)
     \<and> ta_manage_selected a < max 1 (length (sa_stations (ta_config a)))
     \<and> move_mode_ok (sa_stations (ta_config a)) (ta_mode a) (ta_draft a) (ta_pending a)
         (ta_manage_selected a)
     \<and> search_ok (ta_search a)
     \<and> pending_ok (ta_pending a) (ta_config_token a)
     \<and> length (ta_logs a) \<le> max_log_lines"

text \<open>Fields that an operation leaves alone, and fields the invariant does not read.\<close>

lemma push_log_fields [simp]:
  "ta_config (push_log m a) = ta_config a" "ta_stations (push_log m a) = ta_stations a"
  "ta_selected (push_log m a) = ta_selected a" "ta_snapshot (push_log m a) = ta_snapshot a"
  "ta_mode (push_log m a) = ta_mode a" "ta_manage_selected (push_log m a) = ta_manage_selected a"
  "ta_draft (push_log m a) = ta_draft a" "ta_hidden (push_log m a) = ta_hidden a"
  "ta_search (push_log m a) = ta_search a" "ta_weather_token (push_log m a) = ta_weather_token a"
  "ta_config_token (push_log m a) = ta_config_token a" "ta_pending (push_log m a) = ta_pending a"
  "ta_weather_pending (push_log m a) = ta_weather_pending a" "ta_focus (push_log m a) = ta_focus a"
  "length (ta_logs (push_log m a)) \<le> max_log_lines"
  by (simp_all add: push_log_def Let_def)

lemma tui_okD:
  assumes "tui_ok a"
  shows "ta_stations a = configured_stations (ta_config a)"
    and "selection_ok (ta_stations a) (ta_hidden a) (ta_selected a)"
    and "ta_manage_selected a < max 1 (length (sa_stations (ta_config a)))"
    and "move_mode_ok (sa_stations (ta_config a)) (ta_mode a) (ta_draft a) (ta_pending a)
         (ta_manage_selected a)"
    and "search_ok (ta_search a)"
    and "pending_ok (ta_pending a) (ta_config_token a)"
    and "length (ta_logs a) \<le> max_log_lines"
  using assms unfolding tui_ok_def by simp_all

lemma tui_ok_push_log [simp]: "tui_ok a \<Longrightarrow> tui_ok (push_log m a)"
  unfolding tui_ok_def push_log_fields
  by (elim conjE) (intro conjI push_log_fields(15))

lemma tui_ok_irrelevant [simp]:
  "tui_ok (a\<lparr>ta_snapshot := v1\<rparr>) = tui_ok a" "tui_ok (a\<lparr>ta_focus := v2\<rparr>) = tui_ok a"
  "tui_ok (a\<lparr>ta_forecast_scroll := v3\<rparr>) = tui_ok a" "tui_ok (a\<lparr>ta_alert_scroll := v4\<rparr>) = tui_ok a"
  "tui_ok (a\<lparr>ta_last_refresh := v5\<rparr>) = tui_ok a" "tui_ok (a\<lparr>ta_preview := v6\<rparr>) = tui_ok a"
  "tui_ok (a\<lparr>ta_about := v7\<rparr>) = tui_ok a" "tui_ok (a\<lparr>ta_weather_token := v8\<rparr>) = tui_ok a"
  "tui_ok (a\<lparr>ta_weather_pending := v9\<rparr>) = tui_ok a"
  by (simp_all add: tui_ok_def)

definition tokens_spent :: "'f tui_app \<Rightarrow> nat" where
  "tokens_spent a = max (srch_token (ta_search a)) (max (ta_weather_token a) (ta_config_token a))"

text \<open>A turn from \<open>a\<close> that does not panic, keeps the invariant and spends at most one token.\<close>

definition good_turn :: "'f tui_app \<Rightarrow> ('x \<times> 'f tui_app) option \<Rightarrow> bool" where
  "good_turn a r =
     (case r of None \<Rightarrow> False | Some (_, a') \<Rightarrow> tui_ok a' \<and> tokens_spent a' \<le> tokens_spent a + 1)"

lemma good_quiet: "tui_ok b \<Longrightarrow> tokens_spent b \<le> tokens_spent a + 1 \<Longrightarrow> good_turn a (quiet b)"
  by (simp add: good_turn_def quiet_def)

lemma good_stay [simp]: "good_turn a (stay r) = good_turn a r"
  by (cases r) (auto simp: good_turn_def stay_def)

text \<open>Everything but the selection.\<close>

definition tui_pre :: "'f tui_app \<Rightarrow> bool" where
  "tui_pre a \<longleftrightarrow> tui_ok (normalize_selected_station a)"

lemma normalize_id: "tui_ok a \<Longrightarrow> normalize_selected_station a = a"
proof -
  assume "tui_ok a"
  then have "selection_ok (ta_stations a) (ta_hidden a) (ta_selected a)" by (rule tui_okD(2))
  then show ?thesis by (simp add: normalize_selected_station_def normalize_station_selection_id)
qed

lemma tui_ok_pre: "tui_ok a \<Longrightarrow> tui_pre a"
  by (simp add: tui_pre_def normalize_id)

lemma normalize_twice [simp]:
  "normalize_selected_station (normalize_selected_station a) = normalize_selected_station a"
  by (simp add: normalize_selected_station_def normalize_station_selection_id)

lemma normalize_fields [simp]:
  "tokens_spent (normalize_selected_station a) = tokens_spent a"
  "ta_weather_token (normalize_selected_station a) = ta_weather_token a"
  "ta_stations (normalize_selected_station a) = ta_stations a"
  "ta_draft (normalize_selected_station a) = ta_draft a"
  by (simp_all add: tokens_spent_def normalize_selected_station_def)

lemma tokens_spent_push_log [simp]: "tokens_spent (push_log m a) = tokens_spent a"
  by (simp add: tokens_spent_def)

lemma tokens_spent_irrelevant [simp]:
  "tokens_spent (a\<lparr>ta_snapshot := v1\<rparr>) = tokens_spent a" "tokens_spent (a\<lparr>ta_focus := v2\<rparr>) = tokens_spent a"
  "tokens_spent (a\<lparr>ta_forecast_scroll := v3\<rparr>) = tokens_spent a"
  "tokens_spent (a\<lparr>ta_alert_scroll := v4\<rparr>) = tokens_spent a"
  "tokens_spent (a\<lparr>ta_last_refresh := v5\<rparr>) = tokens_spent a"
  "tokens_spent (a\<lparr>ta_preview := v6\<rparr>) = tokens_spent a" "tokens_spent (a\<lparr>ta_about := v7\<rparr>) = tokens_spent a"
  "tokens_spent (a\<lparr>ta_weather_pending := v9\<rparr>) = tokens_spent a"
  "tokens_spent (a\<lparr>ta_mode := v10\<rparr>) = tokens_spent a" "tokens_spent (a\<lparr>ta_draft := v11\<rparr>) = tokens_spent a"
  "tokens_spent (a\<lparr>ta_manage_selected := v12\<rparr>) = tokens_spent a"
  "tokens_spent (a\<lparr>ta_hidden := v13\<rparr>) = tokens_spent a" "tokens_spent (a\<lparr>ta_selected := v14\<rparr>) = tokens_spent a"
  "tokens_spent (a\<lparr>ta_pending := v15\<rparr>) = tokens_spent a" "tokens_spent (a\<lparr>ta_config := v16\<rparr>) = tokens_spent a"
  "tokens_spent (a\<lparr>ta_stations := v17\<rparr>) = tokens_spent a"
  by (simp_all add: tokens_spent_def)

lemma request_good:
  assumes "tui_pre b" and "tokens_spent b \<le> tokens_spent a" and "tokens_spent a < u64_max"
  shows "good_turn a (request_weather_effects now refresh b)"
proof -
  let ?b = "normalize_selected_station b"
  have ok: "tui_ok ?b" using assms(1) by (simp add: tui_pre_def)
  have tok: "tokens_spent ?b \<le> tokens_spent a" using assms(2) by simp
  then have lt: "ta_weather_token ?b < u64_max" and le: "ta_weather_token ?b \<le> tokens_spent a"
    using assms(3) by (auto simp: tokens_spent_def)
  show ?thesis
  proof (cases "ta_selected ?b")
    case None
    with ok tok show ?thesis
      by (simp add: request_weather_effects_def request_selected_weather_def good_turn_def Let_def)
  next
    case (Some i)
    with tui_okD(2) [OF ok] have "i < length (ta_stations ?b)" by (simp add: selection_ok_def)
    with Some lt ok tok le show ?thesis
      by (auto simp: request_weather_effects_def request_selected_weather_def good_turn_def Let_def
          slice_get_def checked_add_u64_def tokens_spent_def)
  qed
qed

lemma begin_config_good:
  assumes "tui_ok b" and "ta_draft b = None" and "tokens_spent b \<le> tokens_spent a + 1"
    and "ta_config_token b \<le> tokens_spent a" and "tokens_spent a < u64_max"
  shows "good_turn a (begin_config_update c m n b)"
proof (cases "ta_pending b")
  case None
  with assms show ?thesis
    by (auto simp: begin_config_update_def good_turn_def checked_add_u64_def tui_ok_def
        move_mode_ok_def pending_ok_def tokens_spent_def)
next
  case (Some p)
  with assms show ?thesis by (simp add: begin_config_update_def good_turn_def)
qed

lemma begin_config_now:
  assumes "tui_ok a" and "ta_draft a = None" and "tokens_spent a < u64_max"
  shows "good_turn a (begin_config_update c m n a)"
  using assms by (intro begin_config_good) (auto simp: tokens_spent_def)

section \<open>Every turn keeps the invariant\<close>

lemma no_draft: "tui_ok a \<Longrightarrow> ta_mode a \<noteq> ModeManageMove \<longleftrightarrow> ta_draft a = None"
  by (drule tui_okD(4)) (auto simp: move_mode_ok_def split: option.splits)

lemma tui_ok_selected:
  "tui_ok a \<Longrightarrow> selection_ok (ta_stations a) (ta_hidden a) i \<Longrightarrow> tui_ok (a\<lparr>ta_selected := i\<rparr>)"
  unfolding tui_ok_def by auto

lemma tui_ok_search: "tui_ok a \<Longrightarrow> search_ok s \<Longrightarrow> tui_ok (a\<lparr>ta_search := s\<rparr>)"
  unfolding tui_ok_def by simp

lemma tui_ok_manage:
  "tui_ok a \<Longrightarrow> ta_draft a = None \<Longrightarrow> i < max 1 (length (sa_stations (ta_config a))) \<Longrightarrow>
     tui_ok (a\<lparr>ta_manage_selected := i\<rparr>)"
  unfolding tui_ok_def by (simp add: move_mode_ok_def)

lemma tui_ok_mode:
  "tui_ok a \<Longrightarrow> ta_draft a = None \<Longrightarrow> m \<noteq> ModeManageMove \<Longrightarrow> tui_ok (a\<lparr>ta_mode := m\<rparr>)"
  unfolding tui_ok_def by (simp add: move_mode_ok_def)

lemma tui_pre_hidden:
  assumes "tui_ok a"
  shows "tui_pre (a\<lparr>ta_hidden := h\<rparr>)"
  using assms unfolding tui_pre_def tui_ok_def normalize_selected_station_def by simp

lemma normalize_ok: "tui_pre a \<Longrightarrow> tui_ok (normalize_selected_station a)"
  by (simp add: tui_pre_def)

lemma moved_index_max: "moved_index i n d < max 1 n"
  by (cases "n = 0") (auto simp: moved_index_def)

lemma clamp_max: "min i (n - 1) < max 1 (n :: nat)"
  by (auto simp: max_def min_def)

lemma tokens_search:
  "srch_token s \<le> tokens_spent a + 1 \<Longrightarrow> tokens_spent (a\<lparr>ta_search := s\<rparr>) \<le> tokens_spent a + 1"
  by (auto simp: tokens_spent_def)

lemma tokens_search_le: "srch_token (ta_search a) \<le> tokens_spent a"
  by (simp add: tokens_spent_def)

lemma select_station_ok:
  assumes "tui_ok a" and "select_station delta a = (m, b)"
  shows "tui_ok b \<and> tokens_spent b = tokens_spent a"
proof -
  have "tui_ok (a\<lparr>ta_selected :=
      move_station_selection (ta_stations a) (ta_hidden a) (ta_selected a) delta\<rparr>)"
    by (rule tui_ok_selected [OF assms(1) move_station_selection_ok])
  with assms show ?thesis
    by (auto simp: select_station_def Let_def normalize_id split: if_splits)
qed

lemma step_station_good:
  assumes "tui_ok a" and "tokens_spent a < u64_max"
  shows "good_turn a (step_station now delta a)"
proof -
  obtain m b where s: "select_station delta a = (m, b)" by (cases "select_station delta a")
  note b = select_station_ok [OF assms(1) s]
  then have "good_turn a (request_weather_effects now False b)"
    by (intro request_good tui_ok_pre) (use assms(2) in auto)
  with b s show ?thesis
    by (cases m) (auto simp: step_station_def intro: good_quiet)
qed

lemma request_now:
  "tui_ok a \<Longrightarrow> tokens_spent a < u64_max \<Longrightarrow> good_turn a (request_weather_effects now refresh a)"
  by (rule request_good [OF tui_ok_pre]) simp_all

lemma scroll_forecast_ok [simp]:
  "tui_ok a \<Longrightarrow> tui_ok (scroll_forecast d a)" "tokens_spent (scroll_forecast d a) = tokens_spent a"
  by (simp_all add: scroll_forecast_def Let_def)

lemma normal_key_good:
  assumes "tui_ok a" and "tokens_spent a < u64_max" and "ta_mode a = ModeNormal"
  shows "good_turn a (handle_normal_key now code a)"
proof -
  have d: "ta_draft a = None" using no_draft [OF assms(1)] assms(3) by simp
  have manage: "tui_ok (push_log m (a\<lparr>ta_mode := ModeManage,
      ta_manage_selected := min i (length (sa_stations (ta_config a)) - 1)\<rparr>))" for m i
    using tui_ok_manage [OF tui_ok_mode [OF assms(1) d, of ModeManage], of "min i (length (sa_stations (ta_config a)) - 1)"]
      d clamp_max by simp
  have about: "tui_ok (a\<lparr>ta_mode := ModeAbout\<rparr>)"
    by (rule tui_ok_mode [OF assms(1) d]) simp
  have exit: "good_turn a (Some ((True, []), a))" "good_turn a (Some ((False, e), a\<lparr>ta_mode := ModeAbout\<rparr>))" for e
    using assms(1) about by (simp_all add: good_turn_def)
  show ?thesis
    unfolding handle_normal_key_def
    by (auto simp: assms request_now step_station_good exit manage [simplified] Let_def split: panel_focus.split
        intro!: good_quiet)
qed

lemma about_key_good:
  assumes "tui_ok a" and "ta_mode a = ModeAbout"
  shows "good_turn a (handle_about_key code a)"
proof -
  have "ta_draft a = None" using no_draft [OF assms(1)] assms(2) by simp
  then have "tui_ok (a\<lparr>ta_mode := ModeNormal\<rparr>)" by (rule tui_ok_mode [OF assms(1)]) simp
  with assms(1) show ?thesis
    by (auto simp: handle_about_key_def good_turn_def quiet_def)
qed

lemma hidden_good:
  assumes "tui_ok a" and "tokens_spent a < u64_max"
  shows "good_turn a (toggle_hidden now a)"
proof (cases "slice_get (sa_stations (ta_config a)) (ta_manage_selected a)")
  case None
  with assms(1) show ?thesis by (auto simp: toggle_hidden_def slice_get_def intro: good_quiet)
next
  case (Some station)
  define b where "b = normalize_selected_station (a\<lparr>ta_hidden :=
      (if sc_name station \<notin> ta_hidden a then insert (sc_name station) (ta_hidden a)
       else ta_hidden a - {sc_name station})\<rparr>)"
  have b: "tui_ok b" "tokens_spent b = tokens_spent a"
    unfolding b_def using normalize_ok [OF tui_pre_hidden [OF assms(1)]] by simp_all
  have log: "good_turn a (map_option (\<lambda>(e, c). (e, push_log m c)) r)" if "good_turn a r"
    for r :: "(tui_effect list \<times> 'a tui_app) option" and m
    using that by (cases r) (auto simp: good_turn_def)
  have "good_turn a (if ta_selected b \<noteq> ta_selected a then request_weather_effects now False b
      else Some ([], b))"
    using request_good [OF tui_ok_pre [OF b(1)], of a] b assms(2) by (auto simp: good_turn_def)
  from log [OF this] show ?thesis
    by (simp only: toggle_hidden_def Some option.case Let_def b_def good_stay)
qed

lemma toggle_good:
  assumes "tui_ok a" and "ta_draft a = None" and "tokens_spent a < u64_max"
  shows "good_turn a (toggle_selected a)"
proof -
  have "good_turn a (Some ([] :: tui_effect list, a))" using assms(1) by (simp add: good_turn_def)
  with begin_config_now [OF assms] show ?thesis
    by (simp add: toggle_selected_def Let_def slice_get_def)
qed

lemma delete_good:
  assumes "tui_ok a" and "ta_draft a = None" and "tokens_spent a < u64_max"
  shows "good_turn a (delete_selected a)"
proof (cases "sa_stations (ta_config a) = []")
  case True
  with assms(1) show ?thesis by (simp add: delete_selected_def good_turn_def)
next
  case False
  with tui_okD(3) [OF assms(1)] have "ta_manage_selected a < length (sa_stations (ta_config a))"
    by (cases "sa_stations (ta_config a)") auto
  with False begin_config_now [OF assms] show ?thesis
    by (simp add: delete_selected_def Let_def slice_get_def)
qed

lemma search_enter_returns:
  "srch_token s < u64_max \<Longrightarrow> \<exists>s'. search_enter s = Some s' \<and> srch_token s' = srch_token s + 1"
  by (simp add: search_bumps checked_add_u64_def)

lemma cancel_returns:
  "srch_token s < u64_max \<Longrightarrow> \<exists>s'. cancel_and_clear s = Some s' \<and> srch_token s' = srch_token s + 1"
  by (simp add: search_bumps checked_add_u64_def)

lemma enter_search_good:
  assumes "tui_ok a" and "ta_draft a = None" and "tokens_spent a < u64_max" and "m \<noteq> ModeManageMove"
  shows "good_turn a (Option.bind (enter_search m a) quiet)"
proof -
  from assms(3) tokens_search_le [of a] have "srch_token (ta_search a) < u64_max" by simp
  from search_enter_returns [OF this] obtain s
    where s: "search_enter (ta_search a) = Some s" "srch_token s = srch_token (ta_search a) + 1" by blast
  have "tui_ok (a\<lparr>ta_mode := m, ta_search := s\<rparr>)"
    by (rule tui_ok_search [OF tui_ok_mode [OF assms(1,2,4)] search_enter_ok [OF s(1)]])
  moreover have "tokens_spent (a\<lparr>ta_mode := m, ta_search := s\<rparr>) \<le> tokens_spent a + 1"
    using tokens_search [of s "a\<lparr>ta_mode := m\<rparr>"] s(2) tokens_search_le [of a] by simp
  ultimately show ?thesis
    using s(1) by (auto simp: enter_search_def intro!: good_quiet)
qed

lemma manage_key_good:
  assumes "tui_ok a" and "tokens_spent a < u64_max" and "ta_mode a = ModeManage"
  shows "good_turn a (handle_manage_key now code a)"
proof -
  have d: "ta_draft a = None" using no_draft [OF assms(1)] assms(3) by simp
  have close: "good_turn a (if P then stay (request_weather_effects now False b) else quiet b)"
    if "b = push_log m (normalize_selected_station (a\<lparr>ta_mode := ModeNormal\<rparr>))" for P m b
  proof -
    have "tui_ok (normalize_selected_station (a\<lparr>ta_mode := ModeNormal\<rparr>))"
      using tui_ok_mode [OF assms(1) d, of ModeNormal] by (simp add: normalize_id)
    then have "tui_ok b" "tokens_spent b = tokens_spent a" using that by simp_all
    with assms(2) show ?thesis
      by (auto intro: good_quiet request_good [OF tui_ok_pre])
  qed
  have move: "good_turn a (quiet (a\<lparr>ta_manage_selected :=
      moved_index (ta_manage_selected a) (length (sa_stations (ta_config a))) delta\<rparr>))" for delta
    using tui_ok_manage [OF assms(1) d moved_index_max] by (simp add: good_quiet)
  have same: "good_turn a (quiet a)" "good_turn a (quiet (push_log m a))" for m
    using assms(1) by (simp_all add: good_quiet)
  have draft: "good_turn a (quiet (push_log m (a\<lparr>ta_draft := Some dr, ta_mode := ModeManageMove\<rparr>)))"
    if new: "move_draft_new (sa_stations (ta_config a)) (ta_manage_selected a) = Some dr"
      and "ta_pending a = None" for m dr
  proof -
    from new have "sa_stations (ta_config a) \<noteq> []" by (auto simp: move_draft_new_def)
    with tui_okD(3) [OF assms(1)] have i: "ta_manage_selected a < length (sa_stations (ta_config a))"
      by (cases "sa_stations (ta_config a)") auto
    with new have dr: "dr = \<lparr>md_stations = sa_stations (ta_config a),
        md_selected = ta_manage_selected a, md_origin = ta_manage_selected a\<rparr>"
      by (auto simp: move_draft_new_def Let_def split: if_splits)
    have "tui_ok (a\<lparr>ta_draft := Some dr, ta_mode := ModeManageMove\<rparr>)"
      using assms(1) i move_draft_new_draft [OF new] \<open>ta_pending a = None\<close>
      unfolding tui_ok_def by (simp add: move_mode_ok_def dr)
    then show ?thesis by (simp add: good_quiet)
  qed
  show ?thesis
    unfolding handle_manage_key_def
    using d assms(1,2)
    by (auto simp: close move same draft toggle_good delete_good hidden_good enter_search_good Let_def
        split: option.split)
qed

lemma move_key_good:
  assumes "tui_ok a" and "tokens_spent a < u64_max" and "ta_mode a = ModeManageMove"
  shows "good_turn a (handle_move_key code a)"
proof -
  obtain d where d: "ta_draft a = Some d" using no_draft [OF assms(1)] assms(3) by auto
  let ?n = "length (sa_stations (ta_config a))"
  from tui_okD(4) [OF assms(1)] d have sel: "md_selected d < ?n" and org: "md_origin d < ?n"
    and len: "length (md_stations d) = ?n" and pend: "ta_pending a = None"
    and man: "ta_manage_selected a = md_selected d"
    and draft: "?n \<le> u64_max \<longrightarrow> draft_of (sa_stations (ta_config a)) d"
    by (auto simp: move_mode_ok_def)
  have leave: "tui_ok (a\<lparr>ta_manage_selected := i, ta_draft := None, ta_mode := ModeManage\<rparr>)"
    if "i < ?n" for i
    using assms(1) that unfolding tui_ok_def by (simp add: move_mode_ok_def)
  have esc: "good_turn a (quiet (push_log m (a\<lparr>ta_manage_selected := md_origin d, ta_draft := None,
      ta_mode := ModeManage\<rparr>)))" for m
    using leave [OF org] by (simp add: good_quiet)
  have confirm: "good_turn a (begin_config_update c m n (a\<lparr>ta_manage_selected := md_selected d,
      ta_draft := None, ta_mode := ModeManage\<rparr>))" for c m n
    by (rule begin_config_good) (use leave [OF sel] assms(2) in \<open>auto simp: tokens_spent_def\<close>)
  have move: "good_turn a (quiet (a\<lparr>ta_draft := Some (draft_move_by delta d),
      ta_manage_selected := md_selected (draft_move_by delta d)\<rparr>))"
    if delta: "delta = 1 \<or> delta = - 1" for delta
  proof -
    have "md_selected (draft_move_by delta d) < ?n"
      using len sel by (auto simp: draft_move_by_selected intro!: moved_index_less)
    moreover have "length (md_stations (draft_move_by delta d)) = ?n"
      using len by (simp add: draft_move_by_def Let_def)
    moreover have "?n \<le> u64_max \<longrightarrow> draft_of (sa_stations (ta_config a)) (draft_move_by delta d)"
      using draft draft_move_by_draft delta by blast
    ultimately have "tui_ok (a\<lparr>ta_draft := Some (draft_move_by delta d),
        ta_manage_selected := md_selected (draft_move_by delta d)\<rparr>)"
      using assms(1,3) org pend unfolding tui_ok_def by (simp add: move_mode_ok_def)
    then show ?thesis by (simp add: good_quiet)
  qed
  show ?thesis
    unfolding handle_move_key_def d
    using assms(1) by (simp add: esc confirm move Let_def good_quiet)
qed

lemma search_key_kept:
  "search_key k s = Some (i, s') \<Longrightarrow> i \<noteq> IntentNone \<Longrightarrow> i \<noteq> IntentQueryChanged \<Longrightarrow> s' = s"
  by (auto simp: search_key_def split: key_code.splits if_splits)

lemma exit_search_ok:
  assumes "tui_ok a" and "ta_draft a = None" and "tokens_spent a < u64_max"
  obtains b where "exit_search_to_manage a = Some b" and "tui_ok b" and "ta_draft b = None"
    and "tokens_spent b \<le> tokens_spent a + 1" and "ta_config_token b = ta_config_token a"
proof -
  from assms(3) tokens_search_le [of a] have "srch_token (ta_search a) < u64_max" by simp
  from cancel_returns [OF this] obtain s
    where s: "cancel_and_clear (ta_search a) = Some s" "srch_token s = srch_token (ta_search a) + 1" by blast
  let ?b = "a\<lparr>ta_search := s, ta_mode := ModeManage\<rparr>"
  have "tui_ok ?b"
    by (rule tui_ok_mode [OF tui_ok_search [OF assms(1) cancel_and_clear_ok [OF s(1)]]])
       (use assms(2) in simp_all)
  moreover have "tokens_spent ?b \<le> tokens_spent a + 1"
    using tokens_search [of s a] s(2) tokens_search_le [of a] by simp
  ultimately have "tui_ok (?b\<lparr>ta_preview := None\<rparr>)" "tokens_spent (?b\<lparr>ta_preview := None\<rparr>) \<le> tokens_spent a + 1"
    by simp_all
  moreover have "exit_search_to_manage a = Some (push_log (lit ''search closed'') (?b\<lparr>ta_preview := None\<rparr>))"
    by (simp add: exit_search_to_manage_def s(1))
  ultimately show ?thesis
    using assms(2) by (intro that [of "push_log (lit ''search closed'') (?b\<lparr>ta_preview := None\<rparr>)"]) simp_all
qed

lemma add_result_good:
  assumes "tui_ok a" and "ta_draft a = None" and "tokens_spent a < u64_max"
  shows "good_turn a (add_selected_result station a)"
proof -
  obtain b where b: "exit_search_to_manage a = Some b" "tui_ok b" "ta_draft b = None"
    "tokens_spent b \<le> tokens_spent a + 1" "ta_config_token b = ta_config_token a"
    using exit_search_ok [OF assms] .
  have "ta_config_token b \<le> tokens_spent a" using b(5) by (simp add: tokens_spent_def)
  then have "good_turn a (begin_config_update c m n b)" for c m n
    by (intro begin_config_good b assms(3))
  with b(1) show ?thesis by (simp add: add_selected_result_def Let_def)
qed

lemma search_key_good:
  assumes ok: "tui_ok a" and lt: "tokens_spent a < u64_max" and d: "ta_draft a = None"
  shows "good_turn a (handle_search_key k a)"
proof -
  have tok: "srch_token (ta_search a) < u64_max" using lt tokens_search_le [of a] by simp
  from search_step_returns [OF this, of "OpKey k"] obtain i s
    where k: "search_key k (ta_search a) = Some (i, s)" and t: "srch_token s \<le> srch_token (ta_search a) + 1"
    by auto
  have sok: "search_ok s" by (rule search_key_ok [OF tui_okD(5) [OF ok] k])
  let ?a = "a\<lparr>ta_search := s\<rparr>"
  have ok': "tui_ok ?a" by (rule tui_ok_search [OF ok sok])
  have spent': "tokens_spent ?a \<le> tokens_spent a + 1"
    using t tokens_search_le [of a] by (intro tokens_search) simp
  obtain b where b: "exit_search_to_manage a = Some b" "tui_ok b" "ta_draft b = None"
    "tokens_spent b \<le> tokens_spent a + 1" "ta_config_token b = ta_config_token a"
    using exit_search_ok [OF ok d lt] .
  show ?thesis
  proof (cases i)
    case IntentNone
    with k ok' spent' show ?thesis by (simp add: handle_search_key_def good_quiet)
  next
    case IntentQueryChanged
    with k ok' spent' show ?thesis by (simp add: handle_search_key_def good_turn_def)
  next
    case IntentExit
    with search_key_kept [OF k] have a: "a\<lparr>ta_search := s\<rparr> = a" by simp
    show ?thesis using b(2,4) by (simp add: handle_search_key_def k IntentExit a b(1) good_turn_def)
  next
    case IntentSubmit
    with search_key_kept [OF k] have s: "s = ta_search a" by simp
    from tok obtain r s' where st: "search_start s = Some (r, s')" and tk: "srch_token s' = srch_token s + 1"
      unfolding s by (auto simp: search_start_def bump_token_def checked_add_u64_def)
    have "tui_ok (a\<lparr>ta_search := s'\<rparr>)" by (rule tui_ok_search [OF ok search_start_ok [OF st]])
    moreover have "tokens_spent (a\<lparr>ta_search := s'\<rparr>) \<le> tokens_spent a + 1"
      using tk s tokens_search_le [of a] by (intro tokens_search) simp
    ultimately show ?thesis
      using IntentSubmit k st by (cases r) (simp add: handle_search_key_def good_turn_def Let_def)
  next
    case IntentAction
    with search_key_kept [OF k] have s: "s = ta_search a" by simp
    have prepend: "good_turn a (map_option (\<lambda>(e, c). (x # e, c)) r)" if "good_turn a r"
      for r :: "(tui_effect list \<times> 'a tui_app) option" and x
      using that by (cases r) (auto simp: good_turn_def)
    note add = prepend [OF add_result_good [OF ok d lt]]
    have keep: "good_turn a (Some ((False, [e :: tui_effect]), a))" for e
      using ok by (simp add: good_turn_def)
    have a: "a\<lparr>ta_search := s\<rparr> = a" by (simp add: s)
    show ?thesis
    proof (cases "selected_result s")
      case None
      then show ?thesis
        using ok by (simp add: handle_search_key_def k IntentAction a good_quiet)
    next
      case (Some station)
      then show ?thesis
        using add keep by (simp add: handle_search_key_def k IntentAction a)
    qed
  qed
qed

lemma reduce_key_good:
  assumes "tui_ok a" and "tokens_spent a < u64_max"
  shows "good_turn a (reduce_key now k a)"
proof -
  have "good_turn a (Some ((True, []), a))" using assms(1) by (simp add: good_turn_def)
  with assms no_draft [OF assms(1)] show ?thesis
    by (cases "ta_mode a")
       (auto simp: reduce_key_def normal_key_good manage_key_good move_key_good about_key_good
         search_key_good)
qed

lemma pending_no_draft: "tui_ok a \<Longrightarrow> ta_pending a = Some p \<Longrightarrow> ta_draft a = None \<and> ta_mode a \<noteq> ModeManageMove"
  by (drule tui_okD(4)) (auto simp: move_mode_ok_def split: option.splits)

lemma list_position_max: "list_position P xs = Some i \<Longrightarrow> i < max 1 (length xs)"
  by (drule list_position_bound) simp

lemma adopt_config_ok:
  assumes "tui_ok a" and "ta_pending a = Some p"
  shows "tui_ok (adopt_config q config a) \<and> tokens_spent (adopt_config q config a) = tokens_spent a"
proof -
  note d = pending_no_draft [OF assms]
  have manage: "(case pn_select_name q of
       Some name \<Rightarrow>
         (case list_position (\<lambda>s. sc_name s = name) (sa_stations config) of
            Some i \<Rightarrow> i | None \<Rightarrow> length (sa_stations config) - 1)
     | None \<Rightarrow> clamp_manage config m) < max 1 (length (sa_stations config))" for m
    by (auto simp: clamp_manage_def clamp_max [unfolded One_nat_def] split: option.split dest: list_position_max)
  show ?thesis
    unfolding adopt_config_def Let_def
    using assms d manage by (auto simp: tui_ok_def move_mode_ok_def pending_ok_def intro!: tui_ok_push_log)
qed

lemma reject_config_ok:
  assumes "tui_ok a" and "ta_pending a = Some p"
  shows "tui_ok (reject_config q e a) \<and> tokens_spent (reject_config q e a) = tokens_spent a"
proof -
  note d = pending_no_draft [OF assms]
  have manage: "(case pn_select_name q of
       Some name \<Rightarrow>
         (case list_position (\<lambda>s. sc_name s = name) (sa_stations (ta_config a)) of
            Some i \<Rightarrow> i | None \<Rightarrow> clamp_manage (ta_config a) m)
     | None \<Rightarrow> clamp_manage (ta_config a) m) < max 1 (length (sa_stations (ta_config a)))" for m
    by (auto simp: clamp_manage_def clamp_max [unfolded One_nat_def] split: option.split dest: list_position_max)
  show ?thesis
    unfolding reject_config_def Let_def
    using assms d manage by (auto simp: tui_ok_def move_mode_ok_def pending_ok_def intro!: tui_ok_push_log)
qed

lemma apply_page_token [simp]: "srch_token (snd (apply_page page s)) = srch_token s"
  by (simp add: apply_page_def Let_def)

lemma apply_error_token [simp]: "srch_token (snd (apply_error t m s)) = srch_token s"
  by (simp add: apply_error_def)

lemma result_good:
  assumes ok: "tui_ok a" and lt: "tokens_spent a < u64_max"
  shows "good_turn a (apply_effect_result now r a)"
proof -
  have keep: "good_turn a (Some (e, b))" if "tui_ok b" "tokens_spent b = tokens_spent a"
    for e :: "tui_effect list" and b
    using that by (simp add: good_turn_def)
  have search: "tui_ok (a\<lparr>ta_search := s\<rparr>) \<and> tokens_spent (a\<lparr>ta_search := s\<rparr>) = tokens_spent a"
    if "search_ok s" "srch_token s = srch_token (ta_search a)" for s
    using tui_ok_search [OF ok that(1)] that(2) by (simp add: tokens_spent_def)
  show ?thesis
  proof (cases r)
    case (ResultSearchPage page)
    with search [OF apply_page_ok [OF tui_okD(5) [OF ok]]] show ?thesis
      by (simp add: apply_effect_result_def keep)
  next
    case (ResultSearchFailed t m)
    obtain b s where e: "apply_error t m (ta_search a) = (b, s)" by (cases "apply_error t m (ta_search a)")
    then have "search_ok s" "srch_token s = srch_token (ta_search a)"
      using apply_error_ok [OF tui_okD(5) [OF ok], of t m] apply_error_token [of t m "ta_search a"]
      by simp_all
    from search [OF this] ResultSearchFailed e show ?thesis
      by (simp add: apply_effect_result_def Let_def keep)
  next
    case (ResultWeather t name res)
    with ok show ?thesis
      by (cases res) (auto simp: apply_effect_result_def Let_def intro!: keep)
  next
    case (ResultPreview t name res)
    with ok show ?thesis
      by (cases res) (auto simp: apply_effect_result_def intro!: keep)
  next
    case (ResultConfig t res)
    show ?thesis
    proof (cases "ta_pending a")
      case None
      with ResultConfig ok show ?thesis by (simp add: apply_effect_result_def keep)
    next
      case (Some p)
      note adopt = adopt_config_ok [OF ok Some] and reject = reject_config_ok [OF ok Some]
      from adopt lt have "good_turn a (request_weather_effects now False (adopt_config p config a))" for config
        by (intro request_good tui_ok_pre) simp_all
      with ResultConfig Some ok adopt reject show ?thesis
        by (cases res) (auto simp: apply_effect_result_def Let_def intro!: keep)
    qed
  next
    case (ResultAbout res)
    with ok show ?thesis by (cases res) (auto simp: apply_effect_result_def intro!: keep)
  next
    case (ResultTaskFailed e)
    with ok show ?thesis by (simp add: apply_effect_result_def keep)
  qed
qed

lemma engine_event_ok:
  "tui_ok a \<Longrightarrow> tui_ok (apply_engine_event sha ec now topic e a)
    \<and> tokens_spent (apply_engine_event sha ec now topic e a) = tokens_spent a"
  by (simp add: apply_engine_event_def split: option.split)

lemma turn_good:
  assumes "tui_ok a" and "tokens_spent a < u64_max"
  shows "good_turn a (tui_turn sha ec e a)"
proof (cases e)
  case (Pair now ev)
  have tick: "good_turn a (tui_tick now a)"
    using request_now [OF assms, of now False] assms(1)
    by (simp add: tui_tick_def Let_def) (simp add: good_turn_def)
  show ?thesis
    using assms engine_event_ok [OF assms(1)] tick Pair
    by (cases ev) (simp_all add: reduce_key_good result_good good_quiet)
qed

lemma tui_load_ok: "tui_ok (tui_load config about)"
  by (simp add: tui_ok_def tui_load_def Let_def move_mode_ok_def pending_ok_def max_log_lines_def)

lemma tui_load_spent: "tokens_spent (tui_load config about) = 0"
  by (simp add: tokens_spent_def tui_load_def search_default_def Let_def)

interpretation tui: fuelled_system "tui_load config about" "tui_step sha ec" tui_ok tokens_spent u64_max
  for config about sha ec
proof unfold_locales
  show "tui_ok (tui_load config about)" by (rule tui_load_ok)
  show "tokens_spent (tui_load config about) = 0" by (rule tui_load_spent)
  show "\<exists>a'. tui_step sha ec e a = Some a' \<and> tui_ok a' \<and> tokens_spent a' \<le> tokens_spent a + 1"
    if "tui_ok a" "tokens_spent a < u64_max" for a e
    using turn_good [OF that, of sha ec e]
    by (auto simp: tui_step_def good_turn_def split: option.splits)
qed

section \<open>Requests and their replies\<close>

fun load_token :: "tui_effect \<Rightarrow> nat list" where
  "load_token (EffectLoadWeather t name uuid refresh) = [t]"
| "load_token _ = []"

fun update_token :: "tui_effect \<Rightarrow> nat list" where
  "update_token (EffectUpdateConfig t config) = [t]"
| "update_token _ = []"

text \<open>
  The requests that lead from one state to another: every weather request and every update
  carries the next number, and the states hold the last ones.
\<close>

definition numbered :: "'f tui_app \<Rightarrow> tui_effect list \<Rightarrow> 'f tui_app \<Rightarrow> bool" where
  "numbered a effects a' \<longleftrightarrow>
     ta_weather_token a \<le> ta_weather_token a' \<and> ta_config_token a \<le> ta_config_token a'
     \<and> concat (map load_token effects) = [Suc (ta_weather_token a)..<Suc (ta_weather_token a')]
     \<and> concat (map update_token effects) = [Suc (ta_config_token a)..<Suc (ta_config_token a')]"

definition numbered_turn :: "'f tui_app \<Rightarrow> ((bool \<times> tui_effect list) \<times> 'f tui_app) option \<Rightarrow> bool" where
  "numbered_turn a r =
     (case r of None \<Rightarrow> True
      | Some ((_, effects), a') \<Rightarrow> numbered a effects a' \<and> ta_config a' = ta_config a)"

lemma numbered_none [simp]:
  "ta_weather_token b = ta_weather_token a \<Longrightarrow> ta_config_token b = ta_config_token a \<Longrightarrow>
     ta_config b = ta_config a \<Longrightarrow> numbered_turn a (quiet b)"
  by (simp add: numbered_turn_def numbered_def quiet_def)

lemma numbered_request:
  assumes "ta_weather_token b = ta_weather_token a" "ta_config_token b = ta_config_token a"
  shows "case request_weather_effects now refresh b of None \<Rightarrow> True
    | Some (effects, a') \<Rightarrow> numbered a effects a' \<and> ta_config a' = ta_config b"
  using assms
  by (auto simp: request_weather_effects_def request_selected_weather_def Let_def numbered_def
      normalize_selected_station_def checked_add_u64_def slice_get_def split: option.split)

lemma numbered_update:
  assumes "ta_weather_token b = ta_weather_token a" "ta_config_token b = ta_config_token a"
  shows "case begin_config_update c m n b of None \<Rightarrow> True
    | Some (effects, a') \<Rightarrow> numbered a effects a' \<and> ta_config a' = ta_config b"
  using assms
  by (auto simp: begin_config_update_def numbered_def checked_add_u64_def split: option.split)

lemma numbered_stay:
  "(case r of None \<Rightarrow> True | Some (effects, a') \<Rightarrow> numbered a effects a' \<and> ta_config a' = ta_config b)
     \<Longrightarrow> ta_config b = ta_config a \<Longrightarrow> numbered_turn a (stay r)"
  by (cases r) (auto simp: numbered_turn_def stay_def)

lemma numbered_stay_request:
  "ta_weather_token b = ta_weather_token a \<Longrightarrow> ta_config_token b = ta_config_token a \<Longrightarrow>
     ta_config b = ta_config a \<Longrightarrow> numbered_turn a (stay (request_weather_effects now refresh b))"
  by (rule numbered_stay [OF numbered_request])

lemma numbered_stay_update:
  "ta_weather_token b = ta_weather_token a \<Longrightarrow> ta_config_token b = ta_config_token a \<Longrightarrow>
     ta_config b = ta_config a \<Longrightarrow> numbered_turn a (stay (begin_config_update c m n b))"
  by (rule numbered_stay [OF numbered_update])

lemma numbered_plain:
  "ta_weather_token b = ta_weather_token a \<Longrightarrow> ta_config_token b = ta_config_token a \<Longrightarrow>
     ta_config b = ta_config a \<Longrightarrow> concat (map load_token e) = [] \<Longrightarrow> concat (map update_token e) = []
     \<Longrightarrow> numbered_turn a (Some ((x, e), b))"
  by (simp add: numbered_turn_def numbered_def)

lemma numbered_stay_nil: "numbered_turn a (stay (Some ([], a)))"
  by (simp add: numbered_turn_def numbered_def stay_def)

lemma numbered_stay_panic: "numbered_turn a (stay None)"
  by (simp add: numbered_turn_def stay_def)

lemma normalize_config [simp]: "ta_config (normalize_selected_station a) = ta_config a"
  "ta_config_token (normalize_selected_station a) = ta_config_token a"
  by (simp_all add: normalize_selected_station_def)

lemma scroll_tokens [simp]:
  "ta_weather_token (scroll_forecast d a) = ta_weather_token a"
  "ta_config_token (scroll_forecast d a) = ta_config_token a" "ta_config (scroll_forecast d a) = ta_config a"
  by (simp_all add: scroll_forecast_def Let_def)

lemma numbered_step_station: "numbered_turn a (step_station now delta a)"
proof -
  obtain m b where s: "select_station delta a = (m, b)" by (cases "select_station delta a")
  then have "ta_weather_token b = ta_weather_token a" "ta_config_token b = ta_config_token a"
    "ta_config b = ta_config a"
    by (auto simp: select_station_def Let_def split: if_splits)
  then show ?thesis
    by (cases m) (simp_all add: step_station_def s numbered_stay_request)
qed

lemma numbered_normal_key: "numbered_turn a (handle_normal_key now code a)"
  unfolding handle_normal_key_def
  by (simp add: numbered_step_station numbered_stay_request numbered_plain Let_def
      split: panel_focus.split)

lemma numbered_toggle_hidden: "numbered_turn a (toggle_hidden now a)"
proof (cases "slice_get (sa_stations (ta_config a)) (ta_manage_selected a)")
  case None
  then show ?thesis by (simp only: toggle_hidden_def None option.case) simp
next
  case (Some station)
  have log: "numbered_turn a (stay (map_option (\<lambda>(e, c). (e, push_log m c)) r))"
    if "numbered_turn a (stay r)" for r :: "(tui_effect list \<times> 'a tui_app) option" and m
    using that by (cases r) (auto simp: numbered_turn_def stay_def numbered_def)
  have "numbered_turn a (stay (if P then request_weather_effects now False b else Some ([], b)))"
    if "ta_weather_token b = ta_weather_token a" "ta_config_token b = ta_config_token a"
      "ta_config b = ta_config a" for P b
    using that numbered_stay_request [OF that] numbered_plain [OF that, of "[]" False]
    by (simp add: stay_def)
  then show ?thesis
    by (simp only: toggle_hidden_def Some option.case Let_def) (rule log, simp)
qed

lemma numbered_manage_key: "numbered_turn a (handle_manage_key now code a)"
proof -
  have enter: "numbered_turn a (Option.bind (enter_search m a) quiet)" for m
    by (cases "search_enter (ta_search a)")
       (auto simp: enter_search_def numbered_turn_def quiet_def numbered_def)
  have toggle: "numbered_turn a (stay (toggle_selected a))"
    by (simp add: toggle_selected_def Let_def numbered_stay_update numbered_stay_nil split: option.split)
  have delete: "numbered_turn a (stay (delete_selected a))"
    by (simp add: delete_selected_def Let_def numbered_stay_update numbered_stay_nil
        numbered_stay_panic split: option.split)
  show ?thesis
    unfolding handle_manage_key_def
    by (simp add: enter toggle delete numbered_toggle_hidden numbered_stay_request Let_def
        split: option.split)
qed

lemma numbered_move_key: "numbered_turn a (handle_move_key code a)"
  by (simp add: handle_move_key_def Let_def numbered_stay_update split: option.split)

lemma numbered_search_key: "numbered_turn a (handle_search_key k a)"
proof (cases "search_key k (ta_search a)")
  case None
  then show ?thesis by (simp add: handle_search_key_def numbered_turn_def)
next
  case (Some q)
  obtain i s where q: "q = (i, s)" by (cases q)
  have exit: "ta_weather_token b = ta_weather_token c \<and> ta_config_token b = ta_config_token c
      \<and> ta_config b = ta_config c" if "exit_search_to_manage c = Some b" for b c :: "'a tui_app"
    using that by (auto simp: exit_search_to_manage_def)
  have add: "numbered_turn a (stay (map_option (\<lambda>(e, c). (EffectCancelSearch # e, c))
      (add_selected_result st (a\<lparr>ta_search := s\<rparr>))))" for st
  proof (cases "exit_search_to_manage (a\<lparr>ta_search := s\<rparr>)")
    case None
    then show ?thesis by (simp add: add_selected_result_def Let_def numbered_stay_panic)
  next
    case (Some b)
    have tail: "numbered_turn a (stay (map_option (\<lambda>(e, c). (EffectCancelSearch # e, c)) r))"
      if "numbered_turn a (stay r)" for r :: "(tui_effect list \<times> 'a tui_app) option"
      using that by (cases r) (auto simp: numbered_turn_def stay_def numbered_def)
    have "numbered_turn a (stay (begin_config_update c m n b))" for c m n
      by (rule numbered_stay_update) (use exit [OF Some] in simp_all)
    from tail [OF this] Some show ?thesis by (simp add: add_selected_result_def Let_def)
  qed
  have leave: "numbered_turn a (map_option (\<lambda>b. ((False, [EffectCancelSearch]), b))
      (exit_search_to_manage (a\<lparr>ta_search := s\<rparr>)))"
  proof (cases "exit_search_to_manage (a\<lparr>ta_search := s\<rparr>)")
    case (Some b)
    with exit [OF Some] show ?thesis by (simp add: numbered_plain)
  qed (simp add: numbered_turn_def)
  have start: "numbered_turn a (map_option (\<lambda>((t, query), s').
      ((False, [EffectSearch t query]), a\<lparr>ta_search := s', ta_preview := None\<rparr>)) (search_start s))"
    by (cases "search_start s") (auto simp: numbered_turn_def numbered_def)
  show ?thesis
  proof (cases i)
    case IntentAction
    then show ?thesis
      using add by (simp add: handle_search_key_def Some q numbered_plain Let_def split: option.split)
  qed (use leave start in \<open>simp_all add: handle_search_key_def Some q numbered_plain Let_def\<close>)
qed

lemma numbered_about_key: "numbered_turn a (handle_about_key code a)"
  by (simp add: handle_about_key_def numbered_plain)

lemma numbered_reduce_key: "numbered_turn a (reduce_key now k a)"
  by (simp add: reduce_key_def numbered_plain numbered_normal_key numbered_manage_key numbered_move_key
      numbered_search_key numbered_about_key split: input_mode.split)

lemma adopt_tokens [simp]:
  "ta_weather_token (adopt_config p c a) = ta_weather_token a"
  "ta_config_token (adopt_config p c a) = ta_config_token a" "ta_config (adopt_config p c a) = c"
  by (simp_all add: adopt_config_def Let_def)

lemma reject_tokens [simp]:
  "ta_weather_token (reject_config p e a) = ta_weather_token a"
  "ta_config_token (reject_config p e a) = ta_config_token a" "ta_config (reject_config p e a) = ta_config a"
  by (simp_all add: reject_config_def Let_def)

definition result_config :: "'f effect_result \<Rightarrow> 'f tui_app \<Rightarrow> schema_config" where
  "result_config r a =
     (case r of
        ResultConfig token (Inr config) \<Rightarrow>
          if map_option pn_token (ta_pending a) = Some token then config else ta_config a
      | _ \<Rightarrow> ta_config a)"

lemma numbered_result:
  assumes "apply_effect_result now r a = Some (effects, a')"
  shows "numbered a effects a' \<and> ta_config a' = result_config r a"
proof -
  have keep: "numbered a [] a" by (simp add: numbered_def)
  show ?thesis
  proof (cases r)
    case (ResultConfig t res)
    show ?thesis
    proof (cases "ta_pending a")
      case None
      with ResultConfig assms keep show ?thesis
        by (auto simp: apply_effect_result_def result_config_def split: sum.split)
    next
      case (Some p)
      have req: "numbered a e b \<and> ta_config b = c"
        if "request_weather_effects now False (adopt_config p c a) = Some (e, b)" for c e b
        using numbered_request [of "adopt_config p c a" a now False] that by simp
      have "numbered a [] (adopt_config p c a)" "numbered a [] (reject_config p e a)" for c e
        by (simp_all add: numbered_def)
      then show ?thesis
        using ResultConfig Some assms keep
        by (cases res) (auto simp: apply_effect_result_def result_config_def Let_def
            dest: req split: if_splits option.splits)
    qed
  qed (use assms in \<open>auto simp: apply_effect_result_def result_config_def numbered_def Let_def
      split: if_splits sum.splits prod.splits\<close>)
qed

lemma engine_event_tokens [simp]:
  "ta_weather_token (apply_engine_event sha ec now topic e a) = ta_weather_token a"
  "ta_config_token (apply_engine_event sha ec now topic e a) = ta_config_token a"
  "ta_config (apply_engine_event sha ec now topic e a) = ta_config a"
  by (simp_all add: apply_engine_event_def split: option.split)

text \<open>The configurations that replies brought.\<close>

fun brought :: "nat \<times> 'f tui_event \<Rightarrow> schema_config list" where
  "brought (now, EventResult (ResultConfig t (Inr config))) = [config]"
| "brought _ = []"

lemma turn_numbered:
  assumes "tui_turn sha ec e a = Some ((x, effects), a')"
  shows "numbered a effects a' \<and> (ta_config a' = ta_config a \<or> ta_config a' \<in> set (brought e))"
proof (cases e)
  case (Pair now ev)
  show ?thesis
  proof (cases ev)
    case (EventKey k)
    with assms Pair numbered_reduce_key [of a now k] show ?thesis
      by (simp add: numbered_turn_def)
  next
    case (EventResult r)
    with assms Pair obtain y where r: "apply_effect_result now r a = Some (effects, a')"
      by (auto simp: stay_def)
    note n = numbered_result [OF r]
    have "result_config r a = ta_config a \<or> result_config r a \<in> set (brought e)"
      using Pair EventResult by (auto simp: result_config_def split: effect_result.split sum.split)
    with n show ?thesis by simp
  next
    case EventTick
    then have "tui_tick now a = Some (effects, a')" using assms Pair by (auto simp: stay_def)
    with numbered_request [of a a now False] show ?thesis
      by (auto simp: tui_tick_def Let_def numbered_def split: if_splits option.splits)
  qed (use assms Pair in \<open>auto simp: quiet_def numbered_def\<close>)
qed

section \<open>Properties\<close>

text \<open>A run with the effects it dispatched, in order.\<close>

fun tui_trace ::
  "(byte list \<Rightarrow> byte list) \<Rightarrow> 'f event_codec \<Rightarrow> (nat \<times> 'f tui_event) list \<Rightarrow> 'f tui_app
     \<Rightarrow> (tui_effect list \<times> 'f tui_app) option" where
  "tui_trace sha ec [] a = Some ([], a)"
| "tui_trace sha ec (e # es) a =
     (case tui_turn sha ec e a of
        None \<Rightarrow> None
      | Some ((x, effects), b) \<Rightarrow>
          map_option (\<lambda>(more, c). (effects @ more, c)) (tui_trace sha ec es b))"

lemma trace_numbered:
  "tui_trace sha ec es a = Some (effects, b) \<Longrightarrow>
     numbered a effects b
     \<and> (ta_config b = ta_config a \<or> ta_config b \<in> set (concat (map brought es)))"
proof (induction es arbitrary: a effects)
  case Nil
  then show ?case by (simp add: numbered_def)
next
  case (Cons e es)
  then obtain x e1 c e2 where turn: "tui_turn sha ec e a = Some ((x, e1), c)"
    and rest: "tui_trace sha ec es c = Some (e2, b)" and eff: "effects = e1 @ e2"
    by (auto split: option.splits)
  have join: "[Suc m..<Suc n] @ [Suc n..<Suc k] = [Suc m..<Suc k]" if "m \<le> n" "n \<le> k" for m n k
    using upt_add_eq_append [of "Suc m" "Suc n" "k - n"] that by simp
  from turn_numbered [OF turn] Cons.IH [OF rest] show ?case
    unfolding eff numbered_def using join by auto
qed

lemma trace_run:
  "run_partial (tui_step sha ec) es a = map_option snd (tui_trace sha ec es a)"
proof (induction es arbitrary: a)
  case (Cons e es)
  show ?case
  proof (cases "tui_turn sha ec e a")
    case (Some q)
    then show ?thesis
      using Cons.IH by (cases q) (auto simp: tui_step_def option.map_comp comp_def split_def)
  qed (simp add: tui_step_def)
qed simp

text \<open>
  C4: No sequence of keys, effect results, engine events and ticks makes the interface
  panic, short of \<open>2^64 - 1\<close> turns: no index is ever outside its list and no token counter
  overflows; and in every state it reaches the selected station is an enabled visible one
  whenever there is one, the cursor of the manage mode is inside the list, a move draft exists
  exactly in the move mode and no update is then in flight, and the log holds at most 64 lines.
\<close>

theorem interface_never_panics:
  "if length es \<le> u64_max then
     (case run_partial (tui_step sha ec) es (tui_load config about) of
        None \<Rightarrow> False | Some a \<Rightarrow> tui_ok a)
   else True"
  using tui.run_returns [of es sha ec config about] by (auto split: option.split)

text \<open>
  C14: Requests and replies are matched: over any run the weather requests and the
  configuration updates that the interface dispatches carry the numbers 1, 2, 3 and so on, a
  reply with any number but the last one changes nothing, and the configuration is never
  edited locally: it is the one the interface started with or one that a reply of the engine
  brought.
\<close>

theorem replies_are_matched_to_the_latest_request:
  "case tui_trace sha ec es (tui_load config about) of
     None \<Rightarrow> True
   | Some (effects, a) \<Rightarrow>
       concat (map load_token effects) = [1..<Suc (ta_weather_token a)]
       \<and> concat (map update_token effects) = [1..<Suc (ta_config_token a)]
       \<and> (ta_config a = config \<or> ta_config a \<in> set (concat (map brought es)))
       \<and> (if t = ta_weather_token a then True
          else tui_turn sha ec (now, EventResult (ResultWeather t name r)) a = Some ((False, []), a))
       \<and> (if t = ta_config_token a \<or> length es > u64_max then True
          else tui_turn sha ec (now, EventResult (ResultConfig t c)) a = Some ((False, []), a))"
proof (cases "tui_trace sha ec es (tui_load config about)")
  case (Some q)
  obtain effects a where q: "q = (effects, a)" by (cases q)
  have load: "ta_weather_token (tui_load config about) = 0" "ta_config_token (tui_load config about) = 0"
    "ta_config (tui_load config about) = config"
    by (simp_all add: tui_load_def Let_def)
  note n = trace_numbered [OF Some [unfolded q]]
  have stale: "tui_turn sha ec (now, EventResult (ResultConfig t c)) a = Some ((False, []), a)"
    if "t \<noteq> ta_config_token a" "length es \<le> u64_max"
  proof -
    have "tui_ok a"
      using tui.run_returns [OF that(2), of sha ec config about] by (auto simp: trace_run Some q)
    from tui_okD(6) [OF this] that(1) show ?thesis
      by (cases "ta_pending a") (auto simp: pending_ok_def apply_effect_result_def stay_def)
  qed
  have late: "tui_turn sha ec (now, EventResult (ResultWeather t name r)) a = Some ((False, []), a)"
    if "t \<noteq> ta_weather_token a"
    using that by (simp add: apply_effect_result_def stay_def)
  show ?thesis
    unfolding Some option.case q prod.case
  proof (intro conjI)
    show "concat (map load_token effects) = [1..<Suc (ta_weather_token a)]"
      using n unfolding numbered_def load One_nat_def by blast
    show "concat (map update_token effects) = [1..<Suc (ta_config_token a)]"
      using n unfolding numbered_def load One_nat_def by blast
    show "ta_config a = config \<or> ta_config a \<in> set (concat (map brought es))"
      using n unfolding load by blast
    show "if t = ta_weather_token a then True
      else tui_turn sha ec (now, EventResult (ResultWeather t name r)) a = Some ((False, []), a)"
    proof (cases "t = ta_weather_token a")
      case False
      show ?thesis unfolding if_not_P [OF False] by (rule late [OF False])
    qed simp
    show "if t = ta_config_token a \<or> length es > u64_max then True
      else tui_turn sha ec (now, EventResult (ResultConfig t c)) a = Some ((False, []), a)"
    proof (cases "t = ta_config_token a \<or> length es > u64_max")
      case False
      then show ?thesis unfolding if_not_P [OF False] by (intro stale) auto
    qed simp
  qed
qed simp

text \<open>
  Also: An engine event never changes what the interface shows into another station's
  weather: it replaces the snapshot only by one of the same, known identifier, and otherwise
  adds at most one line to the log, which stays bounded; nothing else changes.
\<close>

theorem engine_events_keep_the_shown_station:
  "let b = apply_engine_event sha ec now topic e a in
     (if ta_snapshot b = ta_snapshot a then True
      else snapshot_uuid (ta_snapshot b) = snapshot_uuid (ta_snapshot a)
        \<and> snapshot_uuid (ta_snapshot a) \<notin> {None, Some []} \<and> ta_logs b = ta_logs a)
     \<and> (ta_logs b = ta_logs a \<or> (\<exists>line. ta_logs b = ta_logs (push_log line a)))
     \<and> b\<lparr>ta_snapshot := ta_snapshot a, ta_logs := ta_logs a, ta_last_refresh := ta_last_refresh a\<rparr> = a"
proof -
  define b where "b = apply_engine_event sha ec now topic e a"
  have "b = a \<or> (\<exists>line. b = push_log line a)
      \<or> (\<exists>s. b = a\<lparr>ta_snapshot := s, ta_last_refresh := Some now\<rparr>
           \<and> snapshot_uuid s = snapshot_uuid (ta_snapshot a) \<and> snapshot_uuid s \<notin> {None, Some []})"
  proof (cases "ev_kind e = kind_snapshot")
    case kind: True
    show ?thesis
    proof (cases "ec_snapshot ec (ev_payload e)")
      case None
      with kind show ?thesis by (simp add: b_def apply_engine_event_def)
    next
      case (Some incoming)
      let ?same = "(case snapshot_uuid incoming of None \<Rightarrow> False | Some u \<Rightarrow> u \<noteq> [])
          \<and> snapshot_uuid incoming = snapshot_uuid (ta_snapshot a)"
      show ?thesis
      proof (cases ?same)
        case True
        then have "b = a\<lparr>ta_snapshot := incoming, ta_last_refresh := Some now\<rparr>"
          unfolding b_def apply_engine_event_def unfolding kind Some option.case if_P [OF True] by simp
        moreover have "snapshot_uuid incoming = snapshot_uuid (ta_snapshot a)"
          "snapshot_uuid incoming \<notin> {None, Some []}"
          using True by (auto split: option.splits)
        ultimately show ?thesis by blast
      next
        case False
        then have "b = a"
          unfolding b_def apply_engine_event_def unfolding kind Some option.case if_not_P [OF False] by simp
        then show ?thesis ..
      qed
    qed
  next
    case False
    have "b = a \<or> (\<exists>line. b = push_log line a)"
      unfolding b_def apply_engine_event_def using False by (auto split: option.split)
    then show ?thesis by blast
  qed
  then consider (same) "b = a" | (logged) line where "b = push_log line a"
    | (shown) s where "b = a\<lparr>ta_snapshot := s, ta_last_refresh := Some now\<rparr>"
        "snapshot_uuid s = snapshot_uuid (ta_snapshot a)" "snapshot_uuid s \<notin> {None, Some []}"
    by blast
  then show ?thesis
  proof cases
    case (logged line)
    have "(push_log line a)\<lparr>ta_snapshot := ta_snapshot a, ta_logs := ta_logs a,
        ta_last_refresh := ta_last_refresh a\<rparr> = a"
      by (simp add: push_log_def Let_def)
    with logged show ?thesis unfolding b_def [symmetric] Let_def by auto
  qed (unfold b_def [symmetric] Let_def, simp_all)
qed

definition lone_station_config :: schema_config where
  "lone_station_config = \<lparr>sa_engine = None, sa_ipc = None, sa_db = None, sa_updater = None,
     sa_daemon = None, sa_stations = [\<lparr>sc_name = [65], sc_enabled = True\<rparr>], sa_version = 1\<rparr>"

definition press :: "char \<Rightarrow> nat \<times> 'f tui_event" where
  "press c = (0, EventKey \<lparr>ke_code = key c, ke_control = False, ke_alt = False\<rparr>)"

text \<open>The interface after the first tick asked for the only station's weather.\<close>

definition loading_state :: "'f tui_app" where
  "loading_state =
     \<lparr>ta_config = lone_station_config, ta_stations = [\<lparr>sc_name = [65], sc_enabled = True\<rparr>],
      ta_selected = Some 0, ta_snapshot = None, ta_mode = ModeNormal, ta_focus = FocusStations,
      ta_forecast_scroll = 0, ta_alert_scroll = 0, ta_logs = [lit ''ready''], ta_last_refresh = None,
      ta_manage_selected = 0, ta_draft = None, ta_hidden = {}, ta_preview = None,
      ta_search = search_default, ta_about = None, ta_weather_token = 1, ta_weather_pending = True,
      ta_config_token = 0, ta_pending = None\<rparr>"

lemma loading_state_reached:
  "tui_step sha ec (0, EventTick) (tui_load lone_station_config None) = Some loading_state"
  by (simp add: tui_step_def tui_load_def configured_stations_def normalize_station_selection_def
      station_is_selectable_def tui_tick_def request_weather_effects_def request_selected_weather_def
      normalize_selected_station_def slice_get_def checked_add_u64_def u64_max_def stay_def
      loading_state_def lone_station_config_def Let_def)

definition hidden_state :: "'f tui_app" where
  "hidden_state = loading_state\<lparr>ta_mode := ModeManage, ta_selected := None, ta_hidden := {[65]},
     ta_weather_pending := False, ta_last_refresh := Some 0,
     ta_logs := [lit ''ready'', lit ''manage mode'', lit ''no enabled visible stations'', lit ''hid A'']\<rparr>"

lemma hidden_state_reached:
  "Option.bind (tui_step sha ec (press CHR ''m'') loading_state) (tui_step sha ec (press CHR ''h''))
     = Some hidden_state"
proof -
  have m: "tui_step sha ec (press CHR ''m'') loading_state = Some (loading_state\<lparr>ta_mode := ModeManage,
      ta_logs := [lit ''ready'', lit ''manage mode'']\<rparr>)"
    by (simp add: tui_step_def press_def reduce_key_def loading_state_def handle_normal_key_def quiet_def
        push_log_def max_log_lines_def Let_def)
  have h: "tui_step sha ec (press CHR ''h'') (loading_state\<lparr>ta_mode := ModeManage,
      ta_logs := [lit ''ready'', lit ''manage mode'']\<rparr>) = Some hidden_state"
    by (simp add: tui_step_def press_def reduce_key_def loading_state_def handle_manage_key_def
        toggle_hidden_def slice_get_def lone_station_config_def normalize_selected_station_def
        normalize_station_selection_def station_is_selectable_def request_weather_effects_def
        request_selected_weather_def push_log_def max_log_lines_def stay_def hidden_state_def Let_def)
  show ?thesis by (simp only: m h Option.bind.simps)
qed

text \<open>
  C38: Hiding the only station while its weather is being loaded clears the display, but
  \<open>request_selected_weather\<close> gives up without a new weather token, so the reply that is
  still on its way counts as the latest one and puts the hidden station's weather back.
\<close>

theorem late_reply_shows_a_hidden_station:
  "run_partial (tui_step sha ec) [(0, EventTick), press CHR ''m'', press CHR ''h'']
       (tui_load lone_station_config None) = Some hidden_state
   \<and> ta_selected hidden_state = None \<and> ta_snapshot hidden_state = None
   \<and> \<not> ta_weather_pending hidden_state
   \<and> (case tui_step sha ec (0, EventResult (ResultWeather 1 [65] (Inr snapshot))) hidden_state of
         None \<Rightarrow> False
       | Some a \<Rightarrow> ta_selected a = None \<and> ta_hidden a = {[65]} \<and> ta_snapshot a = Some snapshot)"
proof -
  have run: "run_partial (tui_step sha ec) [(0, EventTick), press CHR ''m'', press CHR ''h'']
      (tui_load lone_station_config None) = Some hidden_state"
    using hidden_state_reached [of sha ec]
    by (simp add: loading_state_reached del: tui_turn.simps) (auto simp: bind_eq_Some_conv)
  have "tui_step sha ec (0, EventResult (ResultWeather 1 [65] (Inr snapshot))) hidden_state
      = Some (push_log (lit ''loaded '' @ [65]) (hidden_state\<lparr>ta_weather_pending := False,
          ta_last_refresh := Some 0, ta_snapshot := Some snapshot\<rparr>))"
    by (simp add: tui_step_def stay_def apply_effect_result_def focus_hidden_def hidden_state_def
        loading_state_def)
  then show ?thesis
    using run by (simp add: hidden_state_def loading_state_def del: run_partial.simps tui_turn.simps)
qed

end
