(* ===== verification/Tui_Effects.thy ===== *)
theory Tui_Effects
  imports Tui_App
begin

text \<open>
  The task that runs a search for the interface (\<open>run_search\<close> of
  \<^verbatim>\<open>weather-renderer/tui/src/tui/effects.rs\<close>), composed with the panel of
  \<open>Tui_State\<close>. The page fetch is a parameter with a state of its own.
\<close>

section \<open>A search from its effect to the panel\<close>

definition search_page_size :: nat where "search_page_size = 12"

text \<open>
  \<open>run_search\<close> of \<^verbatim>\<open>tui/effects.rs\<close>: the results that the task of one search sends
  while nobody cancels it; \<open>show\<close> formats an error.
\<close>

function run_search ::
  "(page_error \<Rightarrow> ustring) \<Rightarrow> 's page_fetch \<Rightarrow> nat \<Rightarrow> ustring \<Rightarrow> 's \<Rightarrow> page_cursor
     \<Rightarrow> 'f effect_result list \<times> 's" where
  "run_search show fetch token query s cursor =
     (case cursor_request search_page_size cursor of
        Inl e \<Rightarrow> ([ResultSearchFailed token (show e)], s)
      | Inr ((requested_offset, page_size), cursor) \<Rightarrow>
          (case fetch s \<lparr>fz_query = query, fz_province = None, fz_page_offset = requested_offset,
                  fz_page_size = page_size\<rparr> of
             (Inl e, s) \<Rightarrow> ([ResultSearchFailed token (show e)], s)
           | (Inr response, s) \<Rightarrow>
               (case cursor_advance (fr_has_more response) (fr_next_offset response) cursor of
                  Inl e \<Rightarrow> ([ResultSearchFailed token (show e)], s)
                | Inr (can_continue, cursor) \<Rightarrow>
                    let page = ResultSearchPage
                      \<lparr>sg_token = token, sg_requested_offset = requested_offset,
                       sg_stations = fr_stations response, sg_more = fr_has_more response,
                       sg_next = fr_next_offset response\<rparr>
                    in if can_continue then
                         (case run_search show fetch token query s cursor of
                            (results, s) \<Rightarrow> (page # results, s))
                       else ([page], s))))"
  by pat_completeness auto
termination
  by (relation "measure (\<lambda>(show, fetch, t, q, s, c). max_paginated_requests - cur_request_count c)")
     (auto simp: cursor_request_def cursor_advance_def split: if_splits)

declare run_search.simps [simp del]

fun result_to_panel :: "'f effect_result \<Rightarrow> search_state \<Rightarrow> search_state" where
  "result_to_panel (ResultSearchPage page) s = snd (apply_page page s)"
| "result_to_panel (ResultSearchFailed token message) s = snd (apply_error token message s)"
| "result_to_panel _ s = s"

fun result_stations :: "'f effect_result \<Rightarrow> station_ref list" where
  "result_stations (ResultSearchPage page) = sg_stations page"
| "result_stations _ = []"

definition outcome_of :: "'f effect_result \<Rightarrow> search_status" where
  "outcome_of r = (case r of ResultSearchFailed token message \<Rightarrow> SearchFailed message | _ \<Rightarrow> SearchReady)"

lemma run_search_panel:
  assumes "srch_token p = token" and "srch_status p = SearchLoading"
    and "srch_next_offset p = cur_offset c"
    and "run_search show fetch token query s c = (rs :: 'f effect_result list, s')"
  shows "rs \<noteq> [] \<and> srch_status (fold result_to_panel rs p) = outcome_of (last rs)
    \<and> srch_token (fold result_to_panel rs p) = token
    \<and> srch_results (fold result_to_panel rs p)
        = append_unique_stations (srch_results p) (concat (map result_stations rs))"
  using assms
proof (induction "max_paginated_requests - cur_request_count c" arbitrary: p s c rs s'
    rule: less_induct)
  case less
  have failed: ?case if "rs = [ResultSearchFailed token m]" for m
    using that less.prems by (simp add: apply_error_def outcome_of_def)
  show ?case
  proof (cases "cursor_request search_page_size c")
    case (Inl e)
    with less.prems(4) have "rs = [ResultSearchFailed token (show e)]"
      by (subst (asm) run_search.simps) simp
    then show ?thesis by (rule failed)
  next
    case (Inr q)
    then obtain c1 where q: "cursor_request search_page_size c = Inr ((cur_offset c, search_page_size), c1)"
      and c1: "c1 = c\<lparr>cur_request_count := cur_request_count c + 1\<rparr>"
      and lt: "cur_request_count c < max_paginated_requests"
      by (cases q) (auto simp: cursor_request_Inr_iff)
    let ?rq = "\<lparr>fz_query = query, fz_province = None, fz_page_offset = cur_offset c,
        fz_page_size = search_page_size\<rparr>"
    obtain a s1 where a: "fetch s ?rq = (a, s1)" by (cases "fetch s ?rq")
    show ?thesis
    proof (cases a)
      case (Inl e)
      with less.prems(4) q a have "rs = [ResultSearchFailed token (show e)]"
        by (subst (asm) run_search.simps) simp
      then show ?thesis by (rule failed)
    next
      case (Inr response)
      let ?adv = "cursor_advance (fr_has_more response) (fr_next_offset response) c1"
      let ?page = "\<lparr>sg_token = token, sg_requested_offset = cur_offset c,
          sg_stations = fr_stations response, sg_more = fr_has_more response,
          sg_next = fr_next_offset response\<rparr>"
      let ?p = "snd (apply_page ?page p)"
      have p: "srch_token ?p = token" "srch_next_offset ?p = fr_next_offset response"
        "srch_status ?p = (if fr_has_more response then SearchLoading else SearchReady)"
        "srch_results ?p = append_unique_stations (srch_results p) (fr_stations response)"
        using less.prems(1-3) by (simp_all add: apply_page_def Let_def)
      show ?thesis
      proof (cases ?adv)
        case (Inl e)
        with less.prems(4) q a Inr have "rs = [ResultSearchFailed token (show e)]"
          by (subst (asm) run_search.simps) simp
        then show ?thesis by (rule failed)
      next
        fix v assume "?adv = Inr v"
        then obtain again c2 where adv: "?adv = Inr (again, c2)" by (cases v) auto
        show ?thesis
        proof (cases again)
          case False
          with less.prems(4) q a Inr adv have rs: "rs = [ResultSearchPage ?page]"
            by (subst (asm) run_search.simps) (simp add: Let_def)
          from adv False have "\<not> fr_has_more response"
            by (auto simp: cursor_advance_def split: if_splits)
          with p show ?thesis by (simp add: rs outcome_of_def)
        next
          case True
          obtain rest :: "'f effect_result list" and s2 where rest: "run_search show fetch token query s1 c2 = (rest, s2)"
            by fastforce
          with less.prems(4) q a Inr adv True have rs: "rs = ResultSearchPage ?page # rest"
            by (subst (asm) run_search.simps) (simp add: Let_def)
          from adv True have more: "fr_has_more response" and c2: "cur_offset c2 = fr_next_offset response"
            "cur_request_count c2 = cur_request_count c + 1"
            by (auto simp: cursor_advance_True_iff c1)
          have "max_paginated_requests - cur_request_count c2 < max_paginated_requests - cur_request_count c"
            using lt c2 by simp
          from less.hyps [OF this p(1) _ _ rest] p more c2 show ?thesis
            by (simp add: rs append_unique_append)
        qed
      qed
    qed
  qed
qed

text \<open>
  C23: A search that is left alone ends: the interface's start of a search gives the token
  under which its task fetches pages until the server has no more, and applying what the task
  sends leaves the panel ready, or failed with the very message of the task's last result,
  showing the stations of all pages in order without repetitions; the panel never sees a page
  out of order.
\<close>

theorem undisturbed_search_completes:
  assumes "search_start s = Some ((token, query), p)"
    and "run_search show fetch token query st page_cursor_default = (rs, st')"
  shows "let panel = fold result_to_panel rs p in
      rs \<noteq> [] \<and> srch_token panel = token \<and> srch_status panel = outcome_of (last rs)
      \<and> srch_results panel = append_unique_stations [] (concat (map result_stations rs))"
proof -
  from assms(1) have "srch_token p = token" "srch_status p = SearchLoading" "srch_next_offset p = 0"
    "srch_results p = []"
    by (auto simp: search_start_def)
  with run_search_panel [OF _ _ _ assms(2), of p] show ?thesis
    by (simp add: page_cursor_default_def Let_def)
qed

theorem undisturbed_search_completes_witness:
  "let p = \<lparr>srch_query = [65], srch_results = [], srch_selected = 0, srch_has_more = False,
         srch_next_offset = 0, srch_status = SearchLoading, srch_token = 1\<rparr>;
       fetch = (\<lambda>n rq. (Inr \<lparr>fr_stations = [\<lparr>sr_province = [], sr_city = [], sr_name = [n], sr_unified_uuid = []\<rparr>],
         fr_cities = [], fr_provinces = [], fr_has_more = (n = 0), fr_next_offset = n + 1\<rparr>, n + 1));
       panel = fold result_to_panel
         (fst (run_search (\<lambda>_. []) fetch 1 [65] 0 page_cursor_default) :: unit effect_result list) p
   in srch_status panel = SearchReady \<and> map sr_name (srch_results panel) = [[0], [1]]"
proof -
  let ?fetch = "\<lambda>(n :: nat) (rq :: fuzzy_request). (Inr \<lparr>fr_stations = [\<lparr>sr_province = [], sr_city = [],
      sr_name = [n], sr_unified_uuid = []\<rparr>], fr_cities = [], fr_provinces = [], fr_has_more = (n = 0),
      fr_next_offset = n + 1\<rparr> :: page_error + fuzzy_response, n + 1)"
  have st: "search_start (search_default\<lparr>srch_query := [65]\<rparr>) = Some ((1, [65]),
      \<lparr>srch_query = [65], srch_results = [], srch_selected = 0, srch_has_more = False,
       srch_next_offset = 0, srch_status = SearchLoading, srch_token = 1\<rparr>)"
    by (simp add: search_start_def bump_token_def checked_add_u64_def search_default_def u64_max_def)
  have run: "(run_search (\<lambda>_. []) ?fetch 1 [65] 0 page_cursor_default :: unit effect_result list \<times> nat) =
      ([ResultSearchPage \<lparr>sg_token = 1, sg_requested_offset = 0, sg_stations = [\<lparr>sr_province = [],
          sr_city = [], sr_name = [0], sr_unified_uuid = []\<rparr>], sg_more = True, sg_next = 1\<rparr>,
        ResultSearchPage \<lparr>sg_token = 1, sg_requested_offset = 1, sg_stations = [\<lparr>sr_province = [],
          sr_city = [], sr_name = [1], sr_unified_uuid = []\<rparr>], sg_more = False, sg_next = 2\<rparr>], 2)"
    by (subst run_search.simps, subst run_search.simps)
       (simp add: cursor_request_def cursor_advance_def page_cursor_default_def search_page_size_def
         max_rpc_page_size_def max_rpc_page_offset_def max_paginated_requests_def Let_def)
  show ?thesis
    unfolding Let_def run using undisturbed_search_completes [OF st run]
    by (simp add: Let_def outcome_of_def same_station_def)
qed

end
