(* ===== verification/Tui_Launch.thy ===== *)
theory Tui_Launch
  imports Tui_Command Daemon_Supervisor
begin

text \<open>
  The start of the terminal client (\<^verbatim>\<open>weather-renderer/tui/src/lib.rs\<close>,
  \<^verbatim>\<open>connection.rs\<close> and the predicates of \<^verbatim>\<open>cli.rs\<close>): which endpoints it
  connects to, with which key, whether it manages a daemon, and what it does with a daemon it
  started. The outside world (files, the daemon's supervisor, the engine's answers) answers
  through parameters; what the client does is a list of actions.
\<close>

section \<open>Arguments\<close>

text \<open>An argument is a string or, when it is no UTF-8, left as it is.\<close>

datatype os_arg = Utf8 ustring | NotUtf8 "byte list"

definition normalize_arg :: "os_arg \<Rightarrow> os_arg" where
  "normalize_arg arg =
     (if arg = Utf8 (lit ''-core-dump-default-config'') then Utf8 (lit ''--core-get-default-config'')
      else if arg = Utf8 (lit ''-core-show-current-config'') \<or> arg = Utf8 (lit ''-core-show-currnet-config'')
      then Utf8 (lit ''--core-get-config'')
      else if arg = Utf8 (lit ''-core-restart-engine'') then Utf8 (lit ''--core-restart-engine'')
      else arg)"

definition normalize_args :: "os_arg list \<Rightarrow> os_arg list" where
  "normalize_args args = map normalize_arg args"

definition stops_engine :: "cli \<Rightarrow> bool" where
  "stops_engine cli \<longleftrightarrow> cli_command cli = Some (CmdEngine EngineStop) \<or> cli_command cli = Some CmdKill"

definition has_action :: "cli \<Rightarrow> bool" where
  "has_action cli \<longleftrightarrow> cli_command cli \<noteq> None \<or> cli_core_get_default_config cli
     \<or> cli_core_get_config cli \<or> cli_core_restart_engine cli"

definition should_start_tui :: "cli \<Rightarrow> bool" where
  "should_start_tui cli \<longleftrightarrow> \<not> has_action cli \<and> cli_format cli = FormatTui"

section \<open>Endpoints and key\<close>

record endpoints =
  en_rpc :: ustring
  en_publisher :: ustring

datatype connection_plan = PlanDirect endpoints | PlanManaged

datatype launch_error =
    EndpointConflict | NoHome | ConfigUnreadable ustring | ConfigUnparsable ustring
  | EmptyHmacKey | MissingHmacName | HmacNotSet ustring | BadHmacKey ustring | BadHmacMode ustring
  | LaunchSupervisor supervisor_error | ProbeRefused ustring | ConnectFailed ustring
  | EngineCallFailed client_error | SessionFailed ustring

text \<open>What reading a file gave.\<close>

datatype file_reading = FileMissing | FileUnreadable | FileContent ustring

record launch_files =
  lf_home :: "ustring option"
  lf_userprofile :: "ustring option"
  lf_read :: "ustring \<Rightarrow> file_reading"
  lf_parse :: "ustring \<Rightarrow> endpoints option"

definition default_endpoints :: endpoints where
  "default_endpoints = \<lparr>en_rpc = default_rpc_endpoint, en_publisher = default_pub_endpoint\<rparr>"

text \<open>\<open>PathBuf::join\<close> of a relative part, with the slash (47) as separator.\<close>

definition path_join :: "ustring \<Rightarrow> ustring \<Rightarrow> ustring" where
  "path_join p part = (if p = [] \<or> last p = 47 then p @ part else p @ [47] @ part)"

definition config_in :: "ustring \<Rightarrow> ustring" where
  "config_in home = path_join (path_join (path_join home (lit ''.weather'')) (lit ''config'')) (lit ''weather.toml'')"

definition default_config_file :: "launch_files \<Rightarrow> launch_error + ustring" where
  "default_config_file files =
     (case lf_home files of
        Some home \<Rightarrow> Inr (config_in home)
      | None \<Rightarrow>
          (case lf_userprofile files of
             Some home \<Rightarrow> Inr (config_in home)
           | None \<Rightarrow> Inl NoHome))"

definition configured_endpoints :: "launch_files \<Rightarrow> cli \<Rightarrow> launch_error + endpoints" where
  "configured_endpoints files cli =
     (case (case cli_config cli of Some path \<Rightarrow> Inr path | None \<Rightarrow> default_config_file files) of
        Inl e \<Rightarrow> Inl e
      | Inr path \<Rightarrow>
          (case lf_read files path of
             FileMissing \<Rightarrow> Inr default_endpoints
           | FileUnreadable \<Rightarrow> Inl (ConfigUnreadable path)
           | FileContent content \<Rightarrow>
               (case lf_parse files content of
                  None \<Rightarrow> Inl (ConfigUnparsable path)
                | Some endpoints \<Rightarrow> Inr endpoints)))"

definition connection_plan_with_fallback ::
  "cli \<Rightarrow> launch_error + endpoints \<Rightarrow> launch_error + connection_plan" where
  "connection_plan_with_fallback cli load_fallback =
     (if cli_endpoint cli \<noteq> None \<and> cli_rpc_endpoint cli \<noteq> None then Inl EndpointConflict
      else
        let rpc = (case cli_rpc_endpoint cli of Some e \<Rightarrow> Some e | None \<Rightarrow> cli_endpoint cli)
        in case (rpc, cli_pub_endpoint cli) of
             (None, None) \<Rightarrow> Inr PlanManaged
           | (Some r, Some p) \<Rightarrow> Inr (PlanDirect \<lparr>en_rpc = r, en_publisher = p\<rparr>)
           | (r, p) \<Rightarrow>
               (case load_fallback of
                  Inl e \<Rightarrow> Inl e
                | Inr fallback \<Rightarrow>
                    Inr (PlanDirect
                      \<lparr>en_rpc = (case r of Some e \<Rightarrow> e | None \<Rightarrow> en_rpc fallback),
                       en_publisher = (case p of Some e \<Rightarrow> e | None \<Rightarrow> en_publisher fallback)\<rparr>)))"

definition plan_connection :: "launch_files \<Rightarrow> cli \<Rightarrow> launch_error + connection_plan" where
  "plan_connection files cli = connection_plan_with_fallback cli (configured_endpoints files cli)"

definition cli_hmac_key_bytes ::
  "(ustring \<Rightarrow> ustring option) \<Rightarrow> cli \<Rightarrow> launch_error + byte list option" where
  "cli_hmac_key_bytes env cli =
     (let from_str = (\<lambda>s. case hmac_key_from_str s of Inl e \<Rightarrow> Inl (BadHmacKey e) | Inr k \<Rightarrow> Inr (Some k))
      in if cli_hmac cli = lit ''disabled'' then Inr None
         else if cli_hmac cli = lit ''hmac_key'' then
           (if cli_hmac_key cli = [] then Inl EmptyHmacKey else from_str (cli_hmac_key cli))
         else if cli_hmac cli = lit ''hmac_env_key'' then
           (case cli_hmac_env_key_name cli of
              None \<Rightarrow> Inl MissingHmacName
            | Some name \<Rightarrow>
                (case env name of None \<Rightarrow> Inl (HmacNotSet name) | Some value \<Rightarrow> from_str value))
         else Inl (BadHmacMode (cli_hmac cli)))"

section \<open>Sessions\<close>

datatype launch_action =
    ActConnect ustring ustring "byte list option"
  | ActInteractive | ActCommand | ActShutdown | ActShutdownIfOwned ustring
  | ActMarkGraceful | ActDropForeground foreground_daemon | ActClose
  | ActPrintNotRunning | ActPrintStopped

text \<open>
  How the world answers: connecting, the session of a connected client, the two shutdown
  requests.
\<close>

record launch_world =
  lw_connect :: "ustring \<Rightarrow> ustring \<Rightarrow> launch_error option"
  lw_session :: "launch_error option"
  lw_shutdown :: "client_error option"
  lw_shutdown_if_owned :: "ustring \<Rightarrow> client_error option"

type_synonym launch_result = "launch_error option \<times> launch_action list"

definition run_connected :: "launch_world \<Rightarrow> cli \<Rightarrow> launch_result" where
  "run_connected w cli = (lw_session w, [if should_start_tui cli then ActInteractive else ActCommand])"

definition run_session :: "launch_world \<Rightarrow> cli \<Rightarrow> ownership \<Rightarrow> launch_result" where
  "run_session w cli ownership =
     (let (result, session) = run_connected w cli;
          release = (case ownership of
             Owned s \<Rightarrow>
               [ActShutdownIfOwned (sf_token s)]
               @ (if lw_shutdown_if_owned w (sf_token s) = None then [ActMarkGraceful] else [])
               @ [ActDropForeground
                    ((sf_foreground s)\<lparr>fg_graceful :=
                       fg_graceful (sf_foreground s) \<or> lw_shutdown_if_owned w (sf_token s) = None\<rparr>)]
           | _ \<Rightarrow> [])
      in (result, session @ release @ [ActClose]))"

definition stop_connected :: "launch_world \<Rightarrow> launch_result" where
  "stop_connected w =
     (case lw_shutdown w of
        None \<Rightarrow> (None, [ActShutdown, ActPrintStopped, ActClose])
      | Some e \<Rightarrow> (Some (EngineCallFailed e), [ActShutdown, ActClose]))"

text \<open>\<open>connect\<close>, then the rest; what is dropped when connecting fails comes as a list.\<close>

definition connected ::
  "launch_world \<Rightarrow> endpoints \<Rightarrow> byte list option \<Rightarrow> launch_action list \<Rightarrow> launch_result \<Rightarrow> launch_result" where
  "connected w e key dropped rest =
     (case lw_connect w (en_rpc e) (en_publisher e) of
        Some err \<Rightarrow> (Some err, ActConnect (en_rpc e) (en_publisher e) key # dropped)
      | None \<Rightarrow> (fst rest, ActConnect (en_rpc e) (en_publisher e) key # snd rest))"

definition run_direct :: "launch_world \<Rightarrow> cli \<Rightarrow> endpoints \<Rightarrow> byte list option \<Rightarrow> launch_result" where
  "run_direct w cli e key =
     connected w e key [] (if stops_engine cli then stop_connected w else run_session w cli Direct)"

definition probe_endpoints :: "daemon_probe \<Rightarrow> endpoints" where
  "probe_endpoints p = \<lparr>en_rpc = dp_rpc_endpoint p, en_publisher = dp_pub_endpoint p\<rparr>"

definition dropped_ownership :: "ownership \<Rightarrow> launch_action list" where
  "dropped_ownership ownership =
     (case ownership of Owned s \<Rightarrow> [ActDropForeground (sf_foreground s)] | _ \<Rightarrow> [])"

text \<open>
  The probe and what \<open>ensure_ready\<close> makes of it come from the supervisor of
  \<open>Daemon_Supervisor\<close>.
\<close>

definition run_managed ::
  "launch_world \<Rightarrow> cli \<Rightarrow> byte list option \<Rightarrow> supervisor_error + daemon_supervisor
     \<Rightarrow> (daemon_supervisor \<Rightarrow> supervisor_error + daemon_probe)
     \<Rightarrow> (daemon_supervisor \<Rightarrow> daemon_probe \<Rightarrow> supervisor_error + ready_daemon) \<Rightarrow> launch_result" where
  "run_managed w cli key daemon probe ensure =
     (case daemon of
        Inl e \<Rightarrow> (Some (LaunchSupervisor e), [])
      | Inr sv \<Rightarrow>
          (case probe sv of
             Inl e \<Rightarrow> (Some (LaunchSupervisor e), [])
           | Inr p \<Rightarrow>
               if stops_engine cli then
                 (case dp_state p of
                    DaemonNotRunning \<Rightarrow> (None, [ActPrintNotRunning])
                  | DaemonRunning \<Rightarrow> connected w (probe_endpoints p) key [] (stop_connected w)
                  | st \<Rightarrow> (Some (ProbeRefused (probe_state_error st (dp_message p))), []))
               else
                 (case ensure sv p of
                    Inl e \<Rightarrow> (Some (LaunchSupervisor e), [])
                  | Inr ready \<Rightarrow>
                      connected w (probe_endpoints (rd_probe ready)) key
                        (dropped_ownership (rd_ownership ready)) (run_session w cli (rd_ownership ready)))))"

text \<open>\<open>run_managed\<close>'s choice of the supervisor.\<close>

definition choose_supervisor ::
  "bool \<Rightarrow> cli \<Rightarrow> supervisor_error + ustring \<Rightarrow> ustring option \<Rightarrow> supervisor_error + daemon_supervisor" where
  "choose_supervisor embedded cli resolved current_exe =
     (case (cli_daemon_exe cli, embedded) of
        (Some path, _) \<Rightarrow> supervisor_new resolved (Some path) (cli_config cli)
      | (None, True) \<Rightarrow> for_current_exe current_exe (cli_config cli)
      | (None, False) \<Rightarrow> supervisor_new resolved None (cli_config cli))"

definition run_from ::
  "launch_world \<Rightarrow> launch_files \<Rightarrow> (ustring \<Rightarrow> ustring option) \<Rightarrow> cli \<Rightarrow> supervisor_error + daemon_supervisor
     \<Rightarrow> (daemon_supervisor \<Rightarrow> supervisor_error + daemon_probe)
     \<Rightarrow> (daemon_supervisor \<Rightarrow> daemon_probe \<Rightarrow> supervisor_error + ready_daemon) \<Rightarrow> launch_result" where
  "run_from w files env cli daemon probe ensure =
     (case plan_connection files cli of
        Inl e \<Rightarrow> (Some e, [])
      | Inr plan \<Rightarrow>
          (case cli_hmac_key_bytes env cli of
             Inl e \<Rightarrow> (Some e, [])
           | Inr key \<Rightarrow>
               (case plan of
                  PlanDirect e \<Rightarrow> run_direct w cli e key
                | PlanManaged \<Rightarrow> run_managed w cli key daemon probe ensure)))"

section \<open>Properties\<close>

text \<open>The processes that the client drops, which ends them, and the tokens it asks to stop.\<close>

fun dropped_pid :: "launch_action \<Rightarrow> nat list" where
  "dropped_pid (ActDropForeground fg) = [fg_pid fg]"
| "dropped_pid _ = []"

fun asked_token :: "launch_action \<Rightarrow> ustring list" where
  "asked_token (ActShutdownIfOwned t) = [t]"
| "asked_token _ = []"

definition fate_pids :: "child_fate \<Rightarrow> nat list" where
  "fate_pids fate = (case fate of DroppedChild fg \<Rightarrow> [fg_pid fg] | _ \<Rightarrow> [])"

definition ownership_pids :: "ownership \<Rightarrow> nat list" where
  "ownership_pids ownership = (case ownership of Owned s \<Rightarrow> [fg_pid (sf_foreground s)] | _ \<Rightarrow> [])"

definition ownership_tokens :: "ownership \<Rightarrow> ustring list" where
  "ownership_tokens ownership = (case ownership of Owned s \<Rightarrow> [sf_token s] | _ \<Rightarrow> [])"

lemma session_releases:
  "concat (map dropped_pid (snd (run_session w cli ownership))) = ownership_pids ownership
   \<and> concat (map asked_token (snd (run_session w cli ownership))) = ownership_tokens ownership
   \<and> ActShutdown \<notin> set (snd (run_session w cli ownership))"
  by (auto simp: run_session_def run_connected_def ownership_pids_def ownership_tokens_def
      split: ownership.split)

lemma connected_releases:
  "concat (map dropped_pid (snd (connected w e key (dropped_ownership ownership)
     (run_session w cli ownership)))) = ownership_pids ownership
   \<and> set (concat (map asked_token (snd (connected w e key (dropped_ownership ownership)
        (run_session w cli ownership))))) \<subseteq> set (ownership_tokens ownership)
   \<and> ActShutdown \<notin> set (snd (connected w e key (dropped_ownership ownership) (run_session w cli ownership)))"
proof (cases "lw_connect w (en_rpc e) (en_publisher e)")
  case None
  with session_releases [of w cli ownership] show ?thesis
    by (simp add: connected_def del: set_concat)
next
  case (Some err)
  then show ?thesis
    by (auto simp: connected_def dropped_ownership_def ownership_pids_def split: ownership.splits)
qed

lemma ensure_ready_accounts:
  assumes "ensure_ready sv horizon now token (Spawned pid) initial turns = Some (r, fate)"
    and "dp_state initial = DaemonNotRunning"
  shows "fate_pids fate @ (case r of Inl e \<Rightarrow> [] | Inr rd \<Rightarrow> ownership_pids (rd_ownership rd)) = [pid]
    \<and> set (case r of Inl e \<Rightarrow> [] | Inr rd \<Rightarrow> ownership_tokens (rd_ownership rd)) \<subseteq> {token}"
proof -
  let ?child = "\<lparr>sf_token = token, sf_foreground = \<lparr>fg_pid = pid, fg_graceful = False\<rparr>\<rparr>"
  have "justified (Some pid) token (r, fate)"
    using assms wait_justified [of sv _ "dp_startup_timeout_ms initial" "Some ?child" turns "(r, fate)"]
    by (auto simp: ensure_ready_def start_foreground_def drop_spawned_def justified_def [of _ _ "(Inl _, _)"]
        Let_def split: sum.splits)
  then show ?thesis
    by (auto simp: justified_def fate_pids_def ownership_pids_def ownership_tokens_def
        split: sum.splits child_fate.splits ownership.splits)
qed

text \<open>
  C26: A daemon that the terminal client starts never outlives it: whatever the daemon, the
  connection, the session and the shutdown request answer, the process is dropped exactly once
  and no other process is, and the only engine the client asks to stop is the one with this
  start's own token.
\<close>

theorem started_daemon_is_released_once:
  assumes "ensure_ready sv horizon now token (Spawned pid) initial turns = Some (r, fate)"
    and "dp_state initial = DaemonNotRunning"
    and "plan_connection files cli = Inr PlanManaged" and "cli_hmac_key_bytes env cli = Inr key"
    and "\<not> stops_engine cli"
  shows "let acts = snd (run_from w files env cli (Inr sv) (\<lambda>_. Inr initial) (\<lambda>_ _. r)) in
      fate_pids fate @ concat (map dropped_pid acts) = [pid]
      \<and> set (concat (map asked_token acts)) \<subseteq> {token} \<and> ActShutdown \<notin> set acts"
proof (cases r)
  case (Inl e)
  with ensure_ready_accounts [OF assms(1,2)] assms(3-5) show ?thesis
    by (simp add: run_from_def run_managed_def Let_def)
next
  case (Inr rd)
  note run = connected_releases [of w "probe_endpoints (rd_probe rd)" key "rd_ownership rd" cli]
  from Inr assms(3-5) have "snd (run_from w files env cli (Inr sv) (\<lambda>_. Inr initial) (\<lambda>_ _. r))
      = snd (connected w (probe_endpoints (rd_probe rd)) key (dropped_ownership (rd_ownership rd))
          (run_session w cli (rd_ownership rd)))"
    by (simp add: run_from_def run_managed_def)
  with run ensure_ready_accounts [OF assms(1,2)] Inr show ?thesis
    unfolding Let_def by auto
qed

definition plain_cli :: cli where
  "plain_cli = \<lparr>cli_format = FormatTui, cli_endpoint = None, cli_rpc_endpoint = None,
     cli_pub_endpoint = None, cli_config = None, cli_daemon_exe = None, cli_hmac = lit ''disabled'',
     cli_hmac_key = [], cli_hmac_env_key_name = None, cli_core_get_default_config = False,
     cli_core_get_config = False, cli_core_restart_engine = False, cli_include_debug = False,
     cli_command = None\<rparr>"

definition plain_files :: launch_files where
  "plain_files = \<lparr>lf_home = None, lf_userprofile = None,
     lf_read = (\<lambda>_. FileMissing), lf_parse = (\<lambda>_. None)\<rparr>"

definition failing_world :: launch_world where
  "failing_world = \<lparr>lw_connect = (\<lambda>_ _. None), lw_session = Some NoHome, lw_shutdown = None,
     lw_shutdown_if_owned = (\<lambda>_. Some RequestTimedOut)\<rparr>"

theorem started_daemon_is_released_once_witness:
  "let r = Inr \<lparr>rd_probe = own_probe, rd_ownership = Owned \<lparr>sf_token = lit ''t'',
          sf_foreground = \<lparr>fg_pid = 7, fg_graceful = False\<rparr>\<rparr>\<rparr>;
       acts = snd (run_from failing_world plain_files (\<lambda>_. None) plain_cli (Inr plain_supervisor)
         (\<lambda>_. Inr (own_probe\<lparr>dp_state := DaemonNotRunning\<rparr>)) (\<lambda>_ _. r))
   in concat (map dropped_pid acts) = [7] \<and> set (concat (map asked_token acts)) \<subseteq> {lit ''t''}"
proof -
  let ?s = "\<lparr>sf_token = lit ''t'', sf_foreground = \<lparr>fg_pid = 7, fg_graceful = False\<rparr>\<rparr>"
  have run: "ensure_ready plain_supervisor (10 ^ 20) 0 (lit ''t'') (Spawned 7)
      (own_probe\<lparr>dp_state := DaemonNotRunning\<rparr>)
      [\<lparr>rt_now = 1, rt_output = OutputExit True (Some own_probe), rt_exit = None\<rparr>]
      = Some (Inr \<lparr>rd_probe = own_probe, rd_ownership = Owned ?s\<rparr>, HandedOver (sf_foreground ?s))"
    by (simp add: ensure_ready_def start_foreground_def readiness_deadline_def own_probe_def turn_result_def
        read_probe_def readiness_decision_def spawn_identity_def Let_def)
  have plan: "plan_connection plain_files plain_cli = Inr PlanManaged"
    by (simp add: plan_connection_def connection_plan_with_fallback_def plain_cli_def Let_def)
  have key: "cli_hmac_key_bytes (\<lambda>_. None) plain_cli = Inr None"
    by (simp add: cli_hmac_key_bytes_def plain_cli_def)
  have stop: "\<not> stops_engine plain_cli" by (simp add: stops_engine_def plain_cli_def)
  from started_daemon_is_released_once [OF run _ plan key stop, of failing_world] show ?thesis
    by (simp add: Let_def fate_pids_def own_probe_def)
qed

text \<open>
  Also: A command line that stops the engine never opens the interface and never runs a
  command, so the unreachable branches of \<open>run_command\<close> are not reached; any other never
  asks for an unconditional shutdown.
\<close>

theorem stopping_is_all_a_stop_does:
  "list_all (\<lambda>act. if stops_engine cli then act \<notin> {ActInteractive, ActCommand}
                   else act \<noteq> ActShutdown)
     (snd (run_from w files env cli daemon probe ensure))"
proof -
  have stop: "list_all (\<lambda>act. act \<notin> {ActInteractive, ActCommand}) (snd (connected w e key [] (stop_connected w)))"
    for e key
    by (auto simp: connected_def stop_connected_def split: option.split)
  have go: "list_all (\<lambda>act. act \<noteq> ActShutdown)
      (snd (connected w e key (dropped_ownership ow) (run_session w cli ow)))" for e key ow
    using connected_releases [of w e key ow cli] by (auto simp: list_all_iff)
  have direct: "list_all (\<lambda>act. act \<noteq> ActShutdown) (snd (connected w e key [] (run_session w cli Direct)))"
    for e key
    using go [of e key Direct] by (simp add: dropped_ownership_def)
  show ?thesis
    using stop go direct
    by (cases "stops_engine cli")
       (auto simp: run_from_def run_direct_def run_managed_def
         split: sum.split connection_plan.split daemon_probe_state.split)
qed

end
