(* ===== verification/Date_Label.thy ===== *)
theory Date_Label
  imports Weather_Data Tui_Command
begin

text \<open>
  The labels of dates that the renderers show
  (\<^verbatim>\<open>weather-renderer/common/src/date.rs\<close>): a date in any of the notations the
  provider uses becomes yesterday, today, tomorrow, a weekday, or itself. The calendar is the
  library parameter of \<open>Weather_Data\<close>; \<open>wd\<close> is the weekday, Monday first.
\<close>

definition i32_max :: nat where "i32_max = 2147483647"

definition parse_bounded :: "nat \<Rightarrow> ustring \<Rightarrow> nat option" where
  "parse_bounded bound s = Option.bind (parse_usize s) (\<lambda>n. if n \<le> bound then Some n else None)"

text \<open>The token ends at the first \<open>T\<close> (84) or space; 0x65E5 is the day character.\<close>

definition date_token :: "ustring \<Rightarrow> ustring" where
  "date_token s = takeWhile (\<lambda>c. c \<noteq> 84 \<and> c \<noteq> 32) s"

definition normalized_token :: "ustring \<Rightarrow> ustring" where
  "normalized_token token =
     map (\<lambda>c. if c = 0x5E74 \<or> c = 0x6708 \<or> c = 47 \<or> c = 46 then 45 else c)
       (rev (dropWhile (\<lambda>c. c = 0x65E5) (rev token)))"

text \<open>
  \<open>parse\<close> of a year is signed, but a minus sign separates parts, so the digits of a year are
  those of a natural number. A month and day take the nearest year.
\<close>

definition token_date :: "'d date_lib \<Rightarrow> 'd \<Rightarrow> ustring \<Rightarrow> 'd option" where
  "token_date dl today token =
     (case split_on 45 (normalized_token token) of
        [year, month, day] \<Rightarrow>
          (case (parse_bounded i32_max year, parse_bounded u32_max month, parse_bounded u32_max day) of
             (Some y, Some m, Some d) \<Rightarrow> dl_ymd dl (int y) (m, d)
           | _ \<Rightarrow> None)
      | [month, day] \<Rightarrow>
          (case (parse_bounded u32_max month, parse_bounded u32_max day) of
             (Some m, Some d) \<Rightarrow>
               min_by_key (\<lambda>date. \<bar>dl_day_number dl date - dl_day_number dl today\<bar>)
                 (List.map_filter (\<lambda>year. dl_ymd dl year (m, d))
                    [dl_year dl today - 1, dl_year dl today, dl_year dl today + 1])
           | _ \<Rightarrow> None)
      | _ \<Rightarrow> None)"

definition parse_calendar_date_with_len ::
  "'d date_lib \<Rightarrow> ustring \<Rightarrow> 'd \<Rightarrow> ('d \<times> nat) option" where
  "parse_calendar_date_with_len dl value today =
     (let token = date_token value in map_option (\<lambda>d. (d, length token)) (token_date dl today token))"

definition parse_calendar_date :: "'d date_lib \<Rightarrow> ustring \<Rightarrow> 'd \<Rightarrow> 'd option" where
  "parse_calendar_date dl value today = map_option fst (parse_calendar_date_with_len dl value today)"

definition weekday_name :: "nat \<Rightarrow> ustring" where
  "weekday_name n = [0x661F, 0x671F, [0x4E00, 0x4E8C, 0x4E09, 0x56DB, 0x4E94, 0x516D, 0x65E5] ! n]"

definition label_for_date :: "'d date_lib \<Rightarrow> ('d \<Rightarrow> nat) \<Rightarrow> 'd \<Rightarrow> 'd \<Rightarrow> ustring" where
  "label_for_date dl wd value today =
     (let days = dl_day_number dl value - dl_day_number dl today
      in if days = -1 then [0x6628, 0x5929]
         else if days = 0 then [0x4ECA, 0x5929]
         else if days = 1 then [0x660E, 0x5929]
         else if 2 \<le> days \<and> days \<le> 7 then weekday_name (wd value)
         else dl_format dl value)"

definition multi_day_date_label ::
  "'d date_lib \<Rightarrow> ('d \<Rightarrow> nat) \<Rightarrow> ustring \<Rightarrow> 'd \<Rightarrow> ustring" where
  "multi_day_date_label dl wd value today =
     (let input = trim value
      in if input = [] then lit ''-''
         else (case parse_calendar_date dl input today of
                 None \<Rightarrow> input | Some date \<Rightarrow> label_for_date dl wd date today))"

definition multi_day_datetime_label ::
  "'d date_lib \<Rightarrow> ('d \<Rightarrow> nat) \<Rightarrow> ustring \<Rightarrow> 'd \<Rightarrow> ustring" where
  "multi_day_datetime_label dl wd value today =
     (let input = trim value
      in if input = [] then lit ''-''
         else case parse_calendar_date_with_len dl input today of
                None \<Rightarrow> input
              | Some (date, token_len) \<Rightarrow>
                  (let rest = dropWhile (\<lambda>c. c = 84 \<or> c = 32) (drop token_len input)
                   in case first_word rest of
                        None \<Rightarrow> label_for_date dl wd date today
                      | Some time \<Rightarrow>
                          if 58 \<in> set time then label_for_date dl wd date today @ [32] @ time
                          else label_for_date dl wd date today))"

section \<open>Notations\<close>

definition date_separator :: "nat \<Rightarrow> bool" where
  "date_separator c \<longleftrightarrow> c = 45 \<or> c = 47 \<or> c = 46 \<or> c = 0x5E74 \<or> c = 0x6708"

text \<open>A date as the provider may write it.\<close>

definition written_date :: "nat \<Rightarrow> nat \<Rightarrow> nat \<Rightarrow> nat \<Rightarrow> nat \<Rightarrow> bool \<Rightarrow> ustring" where
  "written_date a b y m d suffixed =
     show_nat y @ [a] @ show_nat m @ [b] @ show_nat d @ (if suffixed then [0x65E5] else [])"


lemma show_nat_chars:
  "\<forall>c \<in> set (show_nat n). 48 \<le> c \<and> c \<le> 57"
  using show_nat_digits by blast

lemma show_nat_map:
  "map (\<lambda>c. if c = 0x5E74 \<or> c = 0x6708 \<or> c = 47 \<or> c = 46 then 45 else c) (show_nat n) = show_nat n"
  using show_nat_chars [of n] by (auto intro!: map_idI)

lemma show_nat_no_dash: "45 \<notin> set (show_nat n)"
  using show_nat_digits by fastforce

lemma parse_bounded_show:
  "\<lbrakk>n \<le> bound; bound \<le> u64_max\<rbrakk> \<Longrightarrow> parse_bounded bound (show_nat n) = Some n"
  by (simp add: parse_bounded_def parse_usize_show)

lemma written_date_chars:
  assumes "date_separator a" and "date_separator b" and "c \<in> set (written_date a b y m d suffixed)"
  shows "\<not> is_whitespace c \<and> c \<noteq> 84"
proof -
  have "date_separator c \<or> c = 0x65E5 \<or> (48 \<le> c \<and> c \<le> 57)"
    using assms show_nat_digits [of c y] show_nat_digits [of c m] show_nat_digits [of c d]
    by (auto simp only: written_date_def set_append set_simps Un_iff insert_iff empty_iff split: if_splits)
  then show ?thesis
    unfolding date_separator_def is_whitespace_def by auto
qed

lemma date_token_written:
  assumes "date_separator a" and "date_separator b" and "rest = [] \<or> hd rest = 84 \<or> hd rest = 32"
  shows "date_token (written_date a b y m d suffixed @ rest) = written_date a b y m d suffixed"
proof -
  have "takeWhile (\<lambda>c. c \<noteq> 84 \<and> c \<noteq> 32) rest = []" using assms(3) by (cases rest) auto
  moreover have "\<forall>c \<in> set (written_date a b y m d suffixed). c \<noteq> 84 \<and> c \<noteq> 32"
    using written_date_chars [OF assms(1,2)] by (fastforce simp: is_whitespace_def)
  ultimately show ?thesis by (simp add: date_token_def takeWhile_append2)
qed

lemma trim_suffix_character:
  "rev (dropWhile (\<lambda>c. c = 0x65E5) (rev (xs @ show_nat d @ (if suffixed then [0x65E5] else [])))) = xs @ show_nat d"
proof -
  have "rev (xs @ show_nat d) \<noteq> [] \<and> hd (rev (xs @ show_nat d)) \<noteq> 0x65E5"
    using show_nat_digits [OF last_in_set [OF show_nat_not_Nil [of d]]] show_nat_not_Nil [of d]
    by (auto simp: hd_rev)
  then have "dropWhile (\<lambda>c. c = 0x65E5) (rev (xs @ show_nat d)) = rev (xs @ show_nat d)"
    by (cases "rev (xs @ show_nat d)") auto
  then show ?thesis by (cases suffixed) simp_all
qed

lemma normalized_written:
  assumes "date_separator a" and "date_separator b"
  shows "normalized_token (written_date a b y m d suffixed)
    = show_nat y @ 45 # show_nat m @ 45 # show_nat d"
  using assms trim_suffix_character [of "show_nat y @ [a] @ show_nat m @ [b]" d suffixed]
  by (auto simp: normalized_token_def written_date_def date_separator_def show_nat_map)

lemma token_date_written:
  assumes "date_separator a" and "date_separator b"
    and "y \<le> i32_max" and "m \<le> u32_max" and "d \<le> u32_max"
  shows "token_date dl today (written_date a b y m d suffixed) = dl_ymd dl (int y) (m, d)"
  using assms
  by (simp add: token_date_def normalized_written split_on_append split_on_free show_nat_no_dash
      parse_bounded_show i32_max_def u32_max_def u64_max_def)

lemma parse_written:
  assumes "date_separator a" and "date_separator b"
    and "y \<le> i32_max" and "m \<le> u32_max" and "d \<le> u32_max"
    and "rest = [] \<or> hd rest = 84 \<or> hd rest = 32"
  shows "parse_calendar_date_with_len dl (written_date a b y m d suffixed @ rest) today
    = map_option (\<lambda>date. (date, length (written_date a b y m d suffixed))) (dl_ymd dl (int y) (m, d))"
  using assms by (simp add: parse_calendar_date_with_len_def date_token_written token_date_written Let_def)

lemma written_date_not_Nil: "written_date a b y m d suffixed \<noteq> []"
  by (simp add: written_date_def)

lemma trim_surrounded:
  assumes "list_all is_whitespace pre" and "list_all is_whitespace post"
    and "s \<noteq> []" and "\<forall>c \<in> set s. \<not> is_whitespace c"
  shows "trim (pre @ s @ post) = s"
proof -
  have "dropWhile is_whitespace (pre @ s @ post) = s @ post"
    using assms by (cases s) (simp_all add: dropWhile_append2 list_all_iff)
  moreover have "dropWhile is_whitespace (rev post @ rev s) = rev s"
    using assms(2-4) dropWhile_append2 [of "rev post" is_whitespace "rev s"]
    by (cases "rev s") (auto simp: list_all_iff)
  ultimately show ?thesis by (simp add: trim_def)
qed

text \<open>
  Also: A date in any of the notations the provider uses (dashes, slashes, dots or the Chinese
  year and month characters between year, month and day, with or without the day character at
  the end, with any white space around) gets the label of that calendar date; when the calendar
  has no such date the label is the text itself, without the white space.
\<close>

theorem every_notation_names_its_date:
  assumes "date_separator a" and "date_separator b"
    and "y \<le> i32_max" and "m \<le> u32_max" and "d \<le> u32_max"
    and "list_all is_whitespace pre" and "list_all is_whitespace post"
  shows "multi_day_date_label dl wd (pre @ written_date a b y m d suffixed @ post) today
    = (case dl_ymd dl (int y) (m, d) of
         None \<Rightarrow> written_date a b y m d suffixed
       | Some date \<Rightarrow> label_for_date dl wd date today)"
proof -
  let ?s = "written_date a b y m d suffixed"
  have "trim (pre @ ?s @ post) = ?s"
    using assms written_date_not_Nil written_date_chars [OF assms(1,2)] by (intro trim_surrounded) auto
  with parse_written [OF assms(1-5), of "[]" dl suffixed today] show ?thesis
    by (cases "dl_ymd dl (int y) (m, d)")
       (simp_all add: multi_day_date_label_def parse_calendar_date_def Let_def written_date_not_Nil)
qed

text \<open>
  Also: A date with a time of day keeps the time: after any of these notations of a date, a
  \<open>T\<close> or a space and a time, the label is that of the date followed by the time.
\<close>

theorem a_datetime_keeps_its_time:
  assumes "date_separator a" and "date_separator b"
    and "y \<le> i32_max" and "m \<le> u32_max" and "d \<le> u32_max"
    and "dl_ymd dl (int y) (m, d) = Some date"
    and "sep = 84 \<or> sep = 32" and "58 \<in> set time" and "hd time \<noteq> 84"
    and "\<forall>c \<in> set time. \<not> is_whitespace c"
  shows "multi_day_datetime_label dl wd (written_date a b y m d suffixed @ sep # time) today
    = label_for_date dl wd date today @ [32] @ time"
proof -
  let ?s = "written_date a b y m d suffixed"
  have time: "time \<noteq> []" using assms(8) by auto
  with assms(10) have space: "\<not> is_whitespace (hd time)" and last: "\<not> is_whitespace (last time)" by auto
  have start: "\<not> is_whitespace (hd ?s)"
    using written_date_chars [OF assms(1,2) hd_in_set [OF written_date_not_Nil]] by blast
  have "trim (?s @ sep # time) = ?s @ sep # time"
    using start last time written_date_not_Nil by (intro trim_id) simp
  moreover have "dropWhile (\<lambda>c. c = 84 \<or> c = 32) (sep # time) = time"
    using assms(7,9) space time by (cases time) (auto simp: is_whitespace_def)
  moreover have "first_word time = Some time"
    using time assms(10) by (cases time) (auto simp: first_word_def Let_def)
  moreover have "parse_calendar_date_with_len dl (?s @ sep # time) today = Some (date, length ?s)"
    using parse_written [OF assms(1-5), of "sep # time" dl suffixed today] assms(6,7) by auto
  ultimately show ?thesis
    using assms(8) by (simp add: multi_day_datetime_label_def Let_def)
qed

end
