(* ===== verification/Spec2Isabelle.thy ===== *)
theory Spec2Isabelle
  imports Prelude Wire Station_Names Paging Rpc_Reply Resource_Cache Resource_Transfer Single_Flight
    Local_Date Config Config_Wire Config_Load Config_Commit Refresh Fuzzy Events Router
    Db_Tables Db_Catalog Db_History Db_History_Spec Db_Migrations Db_Actor Db_Actor_Spec
    Timezone_Migration Timezone_Recovery Weather_Data Temperature_History Engine_World Catalog
    Catalog_Population Catalog_Spec Catalog_Refresh Weather Weather_Handler Weather_Spec
    Weather_Replies Client_Pending Client_Session Client_Spec Gui_Cache Engine_Lock Manifest
    Daemon_Probe Daemon_Supervisor Tui_State Tui_Search Tui_Command Tui_App Tui_Effects
    Tui_Launch Date_Label
begin

text \<open>
  Verification of the weather application's Rust code: a local weather engine
  (\<^verbatim>\<open>weather-core\<close>), the wire protocol it shares with its clients
  (\<^verbatim>\<open>weather-schema\<close>) and the clients themselves (\<^verbatim>\<open>weather-renderer\<close>).
  The engine owns the configuration file, fetches weather and images from one upstream
  provider, keeps them in a database and in memory, answers RPC requests over a ZeroMQ router
  and publishes events. All of it is modelled by definitions that follow the code function by
  function; library code (TOML, protobuf, SHA-256 and HMAC, time zones, URL parsing, Unicode
  tables, the disk) enters as a parameter.

  Theories, in import order:

  \<^item> Prelude: strings as lists of code points with the \<^verbatim>\<open>str\<close> operations used, saturating
    and checked 64-bit arithmetic, hash maps as association lists with unique keys, and the
    locale \<open>invariant_system\<close> (initial state, step, inductive invariant), which every stateful
    component interprets on its own step function.
  \<^item> Wire: \<^verbatim>\<open>weather-schema/src/{crypto,uuid,correlation,diagnostics,time}.rs\<close>:
    envelopes, HMAC inputs, deterministic station identifiers, correlation identifiers.
  \<^item> Station_Names: \<^verbatim>\<open>station.rs\<close> of the schema and of the engine.
  \<^item> Paging: \<^verbatim>\<open>limits.rs\<close>, \<open>paginate\<close> and the renderer's page cursor and collector.
  \<^item> Rpc_Reply: \<open>ok\<close>, \<open>accepted\<close> and \<open>rpc_error_response\<close> of
    \<^verbatim>\<open>handlers/response.rs\<close>.
  \<^item> Resource_Cache and Resource_Transfer: \<^verbatim>\<open>resource_cache.rs\<close>,
    \<^verbatim>\<open>handlers/resource.rs\<close> and the assembler and download loop of the desktop client
    (\<^verbatim>\<open>gui/src-tauri/src/lib.rs\<close>); the locale \<open>chunk_server\<close> is the interface between
    the two, interpreted on the engine's handler.
  \<^item> Single_Flight: \<^verbatim>\<open>singleflight.rs\<close>, whose interleavings are sequences of join,
    finish and leave events.
  \<^item> Local_Date: \<^verbatim>\<open>time.rs\<close>, the search for the next change of the local date.
  \<^item> Config, Config_Wire, Config_Load, Config_Commit: the crate \<^verbatim>\<open>weather-core/conf\<close>
    and \<^verbatim>\<open>handlers/config.rs\<close>: types, validation, wire conversion, migrations, startup,
    hot updates.
  \<^item> Refresh: \<^verbatim>\<open>refresh.rs\<close>, the scheduler loop as turns (date, dispatch, one event).
  \<^item> Fuzzy: \<^verbatim>\<open>handlers/fuzzy.rs\<close>, search, ranking and resolution of station names.
  \<^item> Events: \<^verbatim>\<open>handlers/events.rs\<close> and the status message.
  \<^item> Router: \<^verbatim>\<open>lifecycle.rs\<close>, \<^verbatim>\<open>handlers/envelope.rs\<close> and
    \<^verbatim>\<open>server.rs\<close>: checks, dispatch, timeouts, the router loop, the shutdown sequence.
  \<^item> Db_Tables, Db_Catalog, Db_History, Db_Migrations, Db_Actor and the specifications
    Db_History_Spec and Db_Actor_Spec: the crate \<^verbatim>\<open>weather-core/db\<close>: tables with
    statements that can fail inside transactions, catalogs, history, schema migrations, and the
    actor that runs the commands.
  \<^item> Timezone_Migration and Timezone_Recovery: \<^verbatim>\<open>handlers/migrate_tz.rs\<close> and the
    start of configuration and storage in \<^verbatim>\<open>runtime.rs\<close>, with the states a crash can
    leave.
  \<^item> Weather_Data, Temperature_History: the weather messages, the parsing of dates and
    temperatures and \<^verbatim>\<open>handlers/temperature_history.rs\<close>.
  \<^item> Engine_World: what the handlers share (database, resources, events, flights). Catalog,
    Catalog_Population, Catalog_Spec and Catalog_Refresh: \<^verbatim>\<open>handlers/catalog.rs\<close> and
    \<^verbatim>\<open>handlers/compatibility.rs\<close>; the locale \<open>scope_loader\<close> is the interface between
    the population and its tasks.
  \<^item> Weather, Weather_Handler, Weather_Spec and Weather_Replies: \<^verbatim>\<open>handlers/weather.rs\<close>.
  \<^item> Client_Pending, Client_Session and Client_Spec: \<^verbatim>\<open>renderer/common/src/client.rs\<close>
    and its modules: the table of pending requests, the socket tasks and their supervisor, and
    a call from the client through the engine's front end and back.
  \<^item> Gui_Cache: \<^verbatim>\<open>gui/src-tauri/src/gui_cache.rs\<close>, the desktop's weather cache.
  \<^item> Engine_Lock: \<^verbatim>\<open>engine/src/lock.rs\<close> and the launch metadata, with every
    interleaving of the system calls of several processes.
  \<^item> Manifest: \<^verbatim>\<open>weather-core/manifest\<close>, the list of installed components.
  \<^item> Daemon_Probe: \<^verbatim>\<open>daemon/src/probe.rs\<close> and \<^verbatim>\<open>daemon/src/stop.rs\<close>.
  \<^item> Daemon_Supervisor: \<^verbatim>\<open>renderer/common/src/daemon.rs\<close>.
  \<^item> Tui_State, Tui_App and Tui_Effects: the terminal interface
    (\<^verbatim>\<open>renderer/tui/src/tui.rs\<close> and \<^verbatim>\<open>tui/{state,events,effects}.rs\<close>):
    panels, keys, effect results and engine events as turns of one machine. Tui_State states the
    locales \<open>fuelled_system\<close> and \<open>fuelled_invariant\<close> of operations that may panic, which
    the search panel and the whole interface interpret.
  \<^item> Tui_Search and Tui_Command: \<^verbatim>\<open>search.rs\<close> and \<^verbatim>\<open>command.rs\<close> of the
    same client, over an engine that is a parameter.
  \<^item> Tui_Launch: \<^verbatim>\<open>renderer/tui/src/{lib,connection,cli}.rs\<close>, from the command line to
    the daemon's release. Date_Label: \<^verbatim>\<open>renderer/common/src/date.rs\<close>.
  \<^item> this theory: properties across components.

  Conventions. A Rust struct is a record, an enum a datatype, an error path a branch of a sum
  type; integers are unbounded with their bounds written where they matter, or machine words
  where the code wraps. Instants and durations are nanoseconds, passed in where the code reads
  a clock. Asynchronous code is a step function on explicit events: each lock-protected or
  await-free section is one step, so a theorem over all event sequences covers every
  interleaving of those sections. A request handler is taken to act at the moment its task ends.

  Bounds. There is no fuel for loops of the program that are structural; the client's page
  collector and the download loop take a step budget, and the theorems show a budget that is
  enough (at most 392 page requests; one response per chunk plus one per pending answer). The
  search of the next date terminates because the interval halves.

  What the lemmas show. For the scheduler: at most four jobs, no station stuck, exact claims,
  no oversleeping and no busy loop; the resource cache: bytes and registrations within their
  limits and one fetch at a time; the transfer: what the client assembles is what was cached;
  the configuration: startup is atomic and idempotent, updates are all or nothing, and a restart
  resumes the live configuration; the front end: bounded concurrency, only authorised requests
  stop the engine and no failure is swallowed; search: complete, sorted, without duplicates; the
  database: the newest snapshot is a register, foreign keys hold, commands are answered once and
  in order, a crash during a time-zone migration is repaired at the next start; weather: every
  announced refresh is completed once; catalog: every scope is loaded once, what is served was sent
  upstream or stored; history: its pages are disjoint and complete.

  For the processes: the engine's lock excludes, a probe reports only what it observed, a stop
  reaches only the owner it observed, a started daemon is owned or dropped; the client: a waiter
  gets only its own reply, closing releases every waiter, a call returns the handler's reply; the
  desktop's cache is a register per station; the manifest keeps every record; the terminal client:
  its interface never panics, shows only its own search, matches replies to requests and edits no
  configuration itself, its commands change one station at a time, and a daemon it starts is
  released once.

  Not modelled. The provider's mapping of one upstream service's JSON documents and the HTTP
  retries under it: the handlers take what a fetch returns as a parameter. The managers of system
  services (systemd units, Windows services), whose code is calls of the system. Argument
  parsing, text layout and drawing of both clients and the desktop's settings: presentation and
  wiring. Sockets, processes, terminals and the file system
  stay outside; what they answer is an event or a parameter.
\<close>

section \<open>Configuration across restarts\<close>

text \<open>
  C1: A restart loses no accepted configuration change: start the engine, let clients attempt
  any updates with any disk failures, stop it and start it again on the file as it is; if the
  live configuration's serialisation reads back as itself, the new engine runs with exactly the
  configuration the old one ended with, and leaves the file alone.
\<close>

theorem restart_resumes_live_configuration:
  assumes "load_for_engine_startup env serde faults file = (Inr initial, file0)"
    and "w = fold (commit_step env serde show_error) attempts (commit_init initial file0)"
    and "\<And>content. print_toml serde (live_config (cw_state w)) = Some content \<Longrightarrow>
      load_from_str serde content =
        Inr \<lparr>ld_config = live_config (cw_state w), ld_source_version = supported_config_version\<rparr>"
    and "\<not> read_fails faults'"
  shows "load_for_engine_startup env serde faults' (cw_file w)
    = (Inr (live_config (cw_state w)), cw_file w)"
proof -
  let ?c = "live_config (cw_state w)"
  from startup_cases [OF assms(1)] have init: "validate env initial = None"
      "normalize_config_stations initial = (False, initial)"
    by (auto simp: normalize_config_idem)
  have "commit_inv env serde initial file0 w" unfolding assms(2) by (rule commits.inv_run)
  with init have c: "validate env ?c = None" "normalize_config_stations ?c = (False, ?c)"
    and disk: "(?c = initial \<and> cw_file w = file0) \<or> (cw_file w = print_toml serde ?c \<and> cw_file w \<noteq> None)"
    by (auto simp: commit_inv_def Let_def)
  from disk show ?thesis
  proof (elim disjE conjE)
    assume "?c = initial" "cw_file w = file0"
    with startup_idempotent [OF assms(1) _ assms(4)] assms(3) show ?thesis by simp
  next
    assume fl: "cw_file w = print_toml serde ?c" "cw_file w \<noteq> None"
    then obtain content where "print_toml serde ?c = Some content" "cw_file w = Some content" by auto
    with assms(3,4) c show ?thesis by (simp add: load_for_engine_startup_def)
  qed
qed

lemma restart_resumes_live_configuration_witness:
  "load_for_engine_startup sample_config_env sample_serde
      \<lparr>inspect_fails = False, read_fails = False, mkdir_fails = False, prepare_fails = True,
       replace_fails = True\<rparr> (Some [2]) = (Inr default_config, Some [2])"
  using restart_resumes_live_configuration [OF sample_startup refl, of "\<lambda>_. []" "[]"
      "\<lparr>inspect_fails = False, read_fails = False, mkdir_fails = False, prepare_fails = True,
        replace_fails = True\<rparr>"]
  by (simp add: commit_init_def config_state_new_def sample_reload)

end
